(* ===== verification/Prelude.thy ===== *)
theory Prelude
  imports Main "HOL-Library.Word"
begin

text \<open>
  Shared vocabulary of the development: the machine integers of the C sources, the process heap
  that \<open>malloc\<close> and \<open>free\<close> act on, undefined behaviour as a value, and the generic lemmas on words
  and lists that the component theories use.
\<close>

unbundle bit_operations_syntax

section \<open>Machine integers\<close>

type_synonym u8 = "8 word"
type_synonym u16 = "16 word"
type_synonym u32 = "32 word"
type_synonym u64 = "64 word"

named_theorems bits_simps \<open>reading single bits of shifts, masks and conversions\<close>

lemmas [bits_simps] =
  bit_and_iff bit_or_iff bit_xor_iff bit_push_bit_iff bit_drop_bit_eq bit_take_bit_iff
  bit_unsigned_iff

lemma word_bitI:
  fixes a b :: "'a::len word"
  assumes "\<And>n. n < LENGTH('a) \<Longrightarrow> bit a n = bit b n"
  shows "a = b"
proof (rule bit_eqI)
  fix n
  show "bit a n = bit b n"
    using assms [of n] by (cases "n < LENGTH('a)") (auto dest: bit_imp_le_length)
qed

lemma word_xor_cancel:
  fixes a b c :: "'a::len word"
  assumes "a XOR c = b XOR c"
  shows "a = b"
proof (rule word_bitI)
  fix n
  have "bit (a XOR c) n = bit (b XOR c) n" using assms by simp
  then show "bit a n = bit b n" by (auto simp: bit_xor_iff)
qed

text \<open>Case distinctions on a bit of a byte and on a byte of a 16-byte array.\<close>

lemma less8E:
  assumes "(r::nat) < 8"
  obtains "r = 0" | "r = 1" | "r = 2" | "r = 3" | "r = 4" | "r = 5" | "r = 6" | "r = 7"
  using assms by linarith

lemma less16E:
  assumes "(q::nat) < 16"
  obtains "q = 0" | "q = 1" | "q = 2" | "q = 3" | "q = 4" | "q = 5" | "q = 6" | "q = 7"
    | "q = 8" | "q = 9" | "q = 10" | "q = 11" | "q = 12" | "q = 13" | "q = 14" | "q = 15"
proof -
  consider "q < 8" | "q = q - 8 + 8" "q - 8 < 8"
    using assms by linarith
  then show ?thesis
  proof cases
    case 1
    then show ?thesis by (cases rule: less8E) (use that in simp_all)
  next
    case 2
    from 2(2) show ?thesis by (cases rule: less8E) (use 2(1) that in simp_all)
  qed
qed

lemma bit_u8_ge: "8 \<le> n \<Longrightarrow> \<not> bit (c::u8) n"
  by (auto dest: bit_imp_le_length)

text \<open>A multiplication by an odd constant is undone by multiplying by its inverse modulo the
  word size.\<close>

lemma word_mult_inverse:
  fixes h m m' :: "'a::len word"
  assumes "m * m' = 1"
  shows "h * m * m' = h"
  using assms by (simp add: mult.assoc)

lemma word_mult_cancel_inverse:
  fixes a b m m' :: "'a::len word"
  assumes "m * m' = 1" and "a * m = b * m"
  shows "a = b"
proof -
  have "a = a * m * m'" using assms(1) by (simp add: word_mult_inverse)
  also have "\<dots> = b * m * m'" using assms(2) by simp
  also have "\<dots> = b" using assms(1) by (simp add: word_mult_inverse)
  finally show ?thesis .
qed

text \<open>Xor-ing a word with its own right shift loses nothing: the high bits are unchanged, and each
  lower bit is recovered from a higher one.\<close>

lemma xorshift_inj:
  fixes a b :: "'a::len word"
  assumes "0 < r" and "a XOR drop_bit r a = b XOR drop_bit r b"
  shows "a = b"
proof (rule word_bitI)
  fix n :: nat
  assume "n < LENGTH('a)"
  have "bit a n = bit b n" if "LENGTH('a) - n = k" for k
    using that
  proof (induction k arbitrary: n rule: less_induct)
    case (less k)
    have eq: "bit (a XOR drop_bit r a) n = bit (b XOR drop_bit r b) n"
      using assms(2) by simp
    have hi: "bit a (r + n) = bit b (r + n)"
    proof (cases "r + n < LENGTH('a)")
      case True
      then show ?thesis
        using less.IH [of "LENGTH('a) - (r + n)" "r + n"] less.prems assms(1) by simp
    next
      case False
      then show ?thesis by (auto dest: bit_imp_le_length)
    qed
    with eq show ?case by (auto simp: bits_simps add.commute)
  qed
  then show "bit a n = bit b n" by simp
qed

section \<open>The process heap\<close>

text \<open>
  Allocation is the only effect of \<open>malloc\<close>, \<open>calloc\<close>, \<open>strdup\<close> and \<open>jbpf_malloc\<close> that the model
  keeps: a block is an address, \<open>live\<close> holds the blocks not yet freed, and \<open>oom\<close> decides which
  allocation (counted from the start of the process) returns \<open>NULL\<close>.  Contents of blocks are kept
  by the component that owns them.
\<close>

type_synonym addr = nat

record mem =
  live :: "addr set"
  next_addr :: nat
  oom :: "nat \<Rightarrow> bool"

definition mem_wf :: "mem \<Rightarrow> bool" where
  "mem_wf m \<longleftrightarrow> (\<forall>a \<in> live m. a < next_addr m)"

definition malloc :: "mem \<Rightarrow> addr option \<times> mem" where
  "malloc m =
     (if oom m (next_addr m) then (None, m\<lparr>next_addr := Suc (next_addr m)\<rparr>)
      else (Some (next_addr m),
            m\<lparr>live := insert (next_addr m) (live m), next_addr := Suc (next_addr m)\<rparr>))"

text \<open>Undefined behaviour and abnormal termination are values: an operation that would commit it
  returns \<open>Inl\<close>.\<close>

datatype ub =
    DoubleFree addr
  | OutOfBounds
  | NullDeref
  | UseAfterFree addr
  | Aborted
  | Exited int

definition free :: "mem \<Rightarrow> addr \<Rightarrow> ub + mem" where
  "free m a = (if a \<in> live m then Inr (m\<lparr>live := live m - {a}\<rparr>) else Inl (DoubleFree a))"

lemma malloc_wf: "mem_wf m \<Longrightarrow> malloc m = (r, m') \<Longrightarrow> mem_wf m'"
  by (auto simp: malloc_def mem_wf_def less_Suc_eq split: if_splits)

lemma malloc_fresh: "mem_wf m \<Longrightarrow> malloc m = (Some a, m') \<Longrightarrow> a \<notin> live m"
  by (auto simp: malloc_def mem_wf_def split: if_splits)

lemma malloc_Some:
  "malloc m = (Some a, m') \<Longrightarrow> live m' = insert a (live m) \<and> a \<in> live m' \<and> oom m' = oom m"
  by (auto simp: malloc_def split: if_splits)

lemma malloc_None: "malloc m = (None, m') \<Longrightarrow> live m' = live m \<and> oom m' = oom m"
  by (auto simp: malloc_def split: if_splits)

lemma free_live: "a \<in> live m \<Longrightarrow> free m a = Inr (m\<lparr>live := live m - {a}\<rparr>)"
  by (simp add: free_def)

lemma free_wf: "mem_wf m \<Longrightarrow> free m a = Inr m' \<Longrightarrow> mem_wf m'"
  by (auto simp: free_def mem_wf_def split: if_splits)

text \<open>A second \<open>free\<close> of the same block, with no allocation in between, is a double free.\<close>

lemma free_twice: "free m a = Inr m' \<Longrightarrow> free m' a = Inl (DoubleFree a)"
  by (auto simp: free_def split: if_splits)

section \<open>Ownership of blocks\<close>

text \<open>A set of owners relates a block to the object of the program that must free it.  The blocks with an
  owner are allocated, and none has two owners.\<close>

definition heap_ok :: "addr set \<Rightarrow> (addr \<times> 'o) set \<Rightarrow> bool" where
  "heap_ok lv os \<longleftrightarrow> single_valued os \<and> Domain os \<subseteq> lv"

lemma heap_ok_alloc:
  assumes "heap_ok lv os" and "a \<notin> lv" and "os' \<subseteq> insert (a, x) os"
  shows "heap_ok (insert a lv) os'"
  using assms unfolding heap_ok_def single_valued_def by blast

lemma heap_ok_free:
  assumes "heap_ok lv os" and "(a, x) \<in> os" and "os' \<subseteq> os - {(a, x)}"
  shows "heap_ok (lv - {a}) os'"
  using assms unfolding heap_ok_def single_valued_def by blast

lemma heap_ok_mono:
  assumes "heap_ok lv os" and "lv \<subseteq> lv'" and "os' \<subseteq> os"
  shows "heap_ok lv' os'"
  using assms unfolding heap_ok_def single_valued_def by blast

lemma heap_ok_live: "heap_ok lv os \<Longrightarrow> (a, x) \<in> os \<Longrightarrow> a \<in> lv"
  unfolding heap_ok_def by blast

section \<open>Strings on the heap\<close>

text \<open>A string that a structure owns is the address of its block with its contents; \<open>NULL\<close> is \<open>None\<close>.\<close>

type_synonym cstr = "addr \<times> string"

definition strdup :: "mem \<Rightarrow> string \<Rightarrow> cstr option \<times> mem" where
  "strdup m s = (case malloc m of (None, m) \<Rightarrow> (None, m) | (Some a, m) \<Rightarrow> (Some (a, s), m))"

definition dup_opt :: "mem \<Rightarrow> string option \<Rightarrow> cstr option \<times> mem" where
  "dup_opt m s = (case s of None \<Rightarrow> (None, m) | Some s \<Rightarrow> strdup m s)"

primrec dup_opts :: "mem \<Rightarrow> string option list \<Rightarrow> cstr option list \<times> mem" where
  "dup_opts m [] = ([], m)"
| "dup_opts m (s # ss) = (case dup_opt m s of (c, m) \<Rightarrow> (case dup_opts m ss of (cs, m) \<Rightarrow> (c # cs, m)))"

definition free_opt :: "mem \<Rightarrow> cstr option \<Rightarrow> ub + mem" where
  "free_opt m c = (case c of None \<Rightarrow> Inr m | Some (a, _) \<Rightarrow> free m a)"

text \<open>The blocks of a list of strings, and what a sequence of allocations does to the heap.\<close>

definition blocks :: "cstr option list \<Rightarrow> addr list" where
  "blocks cs = map fst (List.map_filter (\<lambda>c. c) cs)"

definition grows :: "mem \<Rightarrow> mem \<Rightarrow> addr list \<Rightarrow> bool" where
  "grows m m' as \<longleftrightarrow> mem_wf m' \<and> live m' = live m \<union> set as \<and> distinct as \<and> set as \<inter> live m = {} \<and> oom m' = oom m"

lemma blocks_simps [simp]:
  "blocks [] = []" "blocks (None # cs) = blocks cs" "blocks (Some (a, s) # cs) = a # blocks cs"
  by (simp_all add: blocks_def List.map_filter_def)

lemma grows_refl: "mem_wf m \<Longrightarrow> grows m m []"
  by (simp add: grows_def)

lemma grows_trans: "grows m m' as \<Longrightarrow> grows m' m'' bs \<Longrightarrow> grows m m'' (as @ bs)"
  by (auto simp: grows_def)

lemma malloc_grows: "mem_wf m \<Longrightarrow> malloc m = (Some a, m') \<Longrightarrow> grows m m' [a]"
  using malloc_wf [of m "Some a" m'] malloc_fresh [of m a m'] malloc_Some [of m a m'] by (auto simp: grows_def)

lemma malloc_fails_grows: "mem_wf m \<Longrightarrow> malloc m = (None, m') \<Longrightarrow> grows m m' []"
  using malloc_wf [of m None m'] malloc_None [of m m'] by (auto simp: grows_def)

lemma strdup_grows: "mem_wf m \<Longrightarrow> strdup m s = (c, m') \<Longrightarrow> grows m m' (blocks [c])"
  by (auto simp: strdup_def malloc_grows malloc_fails_grows split: prod.splits option.splits)

lemma dup_opt_grows: "mem_wf m \<Longrightarrow> dup_opt m s = (c, m') \<Longrightarrow> grows m m' (blocks [c])"
  by (auto simp: dup_opt_def strdup_grows grows_refl split: option.splits)

lemma blocks_Cons: "blocks (c # cs) = blocks [c] @ blocks cs"
  by (cases c) (auto simp: blocks_def List.map_filter_def)

lemma dup_opts_grows: "mem_wf m \<Longrightarrow> dup_opts m ss = (cs, m') \<Longrightarrow> grows m m' (blocks cs)"
proof (induction ss arbitrary: m cs)
  case Nil
  then show ?case by (simp add: grows_refl)
next
  case (Cons s ss)
  then obtain c m1 cs1 where 1: "dup_opt m s = (c, m1)" "dup_opts m1 ss = (cs1, m')" "cs = c # cs1" by (auto split: prod.splits)
  have "grows m m1 (blocks [c])" using dup_opt_grows [OF Cons.prems(1) 1(1)] .
  moreover then have "grows m1 m' (blocks cs1)" using Cons.IH [OF _ 1(2)] by (simp add: grows_def)
  ultimately show ?case unfolding 1(3) by (subst blocks_Cons) (rule grows_trans)
qed

text \<open>Where memory suffices, the copies have the contents of the originals.\<close>

lemma dup_opts_contents:
  assumes "\<And>n. \<not> oom m n" and "dup_opts m ss = (cs, m')"
  shows "map (map_option snd) cs = ss"
  using assms
proof (induction ss arbitrary: m cs)
  case (Cons s ss)
  then obtain c m1 cs1 where 1: "dup_opt m s = (c, m1)" "dup_opts m1 ss = (cs1, m')" "cs = c # cs1" by (auto split: prod.splits)
  have "map_option snd c = s \<and> oom m1 = oom m"
    using 1(1) Cons.prems(1) by (auto simp: dup_opt_def strdup_def malloc_def split: option.splits)
  then show ?case using Cons.IH [OF _ 1(2)] Cons.prems(1) 1(3) by simp
qed simp

section \<open>Sequencing of operations that may be undefined\<close>

definition bindS :: "'e + 'a \<Rightarrow> ('a \<Rightarrow> 'e + 'b) \<Rightarrow> 'e + 'b" where
  "bindS r f = (case r of Inl e \<Rightarrow> Inl e | Inr x \<Rightarrow> f x)"

lemma bindS_simps [simp]: "bindS (Inl e) f = Inl e" "bindS (Inr x) f = f x"
  by (simp_all add: bindS_def)

lemma bindS_InrE:
  assumes "bindS r f = Inr y"
  obtains x where "r = Inr x" and "f x = Inr y"
  using assms by (cases r) (auto simp: bindS_def)

end
