(* ===== verification/Murmur.thy ===== *)
theory Murmur
  imports Prelude
begin

text \<open>
  The hash functions of \<open>src/stream_id/stream_id_hash.h\<close>, on byte strings of fewer than $2^{31}$
  bytes (the C functions take the length as an \<open>int\<close>).  Multi-byte loads are little-endian, as on
  the supported targets.
\<close>

section \<open>Loads and rotations\<close>

definition le32 :: "u8 list \<Rightarrow> u32" where
  "le32 bs = foldr (\<lambda>b w. push_bit 8 w OR ucast b) (take 4 bs) 0"

definition le64 :: "u8 list \<Rightarrow> u64" where
  "le64 bs = foldr (\<lambda>b w. push_bit 8 w OR ucast b) (take 8 bs) 0"

definition rotl32 :: "u32 \<Rightarrow> nat \<Rightarrow> u32" where
  "rotl32 x r = push_bit r x OR drop_bit (32 - r) x"

definition rotl64 :: "u64 \<Rightarrow> nat \<Rightarrow> u64" where
  "rotl64 x r = push_bit r x OR drop_bit (64 - r) x"

definition getblock :: "u8 list \<Rightarrow> nat \<Rightarrow> u32" where
  "getblock p i = le32 (drop (4 * i) p)"

definition fmix :: "u32 \<Rightarrow> u32" where
  "fmix h0 =
     (let h = h0 XOR drop_bit 16 h0;
          h = h * 0x85ebca6b;
          h = h XOR drop_bit 13 h;
          h = h * 0xc2b2ae35
      in h XOR drop_bit 16 h)"

section \<open>MurmurHash3, 32 bits\<close>

definition mmh3_k1 :: "u32 \<Rightarrow> u32" where
  "mmh3_k1 k = rotl32 (k * 0xcc9e2d51) 15 * 0x1b873593"

definition mmh3_round :: "u32 \<Rightarrow> u32 \<Rightarrow> u32" where
  "mmh3_round h1 k = rotl32 (h1 XOR mmh3_k1 k) 13 * 5 + 0xe6546b64"

definition mmh3_tail :: "u8 list \<Rightarrow> u32" where
  "mmh3_tail tail =
     (let k1 = 0;
          k1 = (if 3 \<le> length tail then k1 XOR push_bit 16 (ucast (tail ! 2)) else k1);
          k1 = (if 2 \<le> length tail then k1 XOR push_bit 8 (ucast (tail ! 1)) else k1)
      in k1 XOR ucast (tail ! 0))"

definition MurmurHash3_x86_32 :: "u8 list \<Rightarrow> u32 \<Rightarrow> u32" where
  "MurmurHash3_x86_32 key seed =
     (let nblocks = length key div 4;
          h1 = foldl (\<lambda>h i. mmh3_round h (getblock key i)) seed [0..<nblocks];
          tail = drop (4 * nblocks) key;
          h1 = (if length key mod 4 = 0 then h1 else h1 XOR mmh3_k1 (mmh3_tail tail));
          h1 = h1 XOR of_nat (length key)
      in fmix h1)"

section \<open>MurmurHash64A\<close>

definition mm64_m :: u64 where
  "mm64_m = 0xc6a4a7935bd1e995"

definition mm64_r :: nat where
  "mm64_r = 47"

definition mm64_k :: "u64 \<Rightarrow> u64" where
  "mm64_k k =
     (let k = k * mm64_m;
          k = k XOR drop_bit mm64_r k
      in k * mm64_m)"

fun mm64_blocks :: "u64 \<Rightarrow> u8 list \<Rightarrow> u64 \<times> u8 list" where
  "mm64_blocks h bs =
     (if length bs < 8 then (h, bs)
      else mm64_blocks ((h XOR mm64_k (le64 bs)) * mm64_m) (drop 8 bs))"

declare mm64_blocks.simps [simp del]

text \<open>The \<open>switch (len & 7)\<close> with its fall-through: byte \<open>j\<close> of the tail, for every \<open>j\<close> below the
  remaining length, is xor-ed in at bit \<open>8 j\<close>, from the last byte down to the first, and a nonempty
  tail is followed by one multiplication.\<close>

definition mm64_tail :: "u64 \<Rightarrow> u8 list \<Rightarrow> u64" where
  "mm64_tail h tail =
     (if tail = [] then h
      else foldl (\<lambda>h j. h XOR push_bit (8 * j) (ucast (tail ! j))) h (rev [0..<length tail])
           * mm64_m)"

definition mm64_final :: "u64 \<Rightarrow> u64" where
  "mm64_final h0 =
     (let h = h0 XOR drop_bit mm64_r h0;
          h = h * mm64_m
      in h XOR drop_bit mm64_r h)"

definition MurmurHash64A :: "u8 list \<Rightarrow> u64 \<Rightarrow> u64" where
  "MurmurHash64A key seed =
     (let h = seed XOR (of_nat (length key) * mm64_m);
          (h, tail) = mm64_blocks h key
      in mm64_final (mm64_tail h tail))"


section \<open>MurmurHash64B\<close>

definition mm64b_m :: u32 where
  "mm64b_m = 0x5bd1e995"

definition mm64b_k :: "u32 \<Rightarrow> u32" where
  "mm64b_k k =
     (let k = k * mm64b_m;
          k = k XOR drop_bit 24 k
      in k * mm64b_m)"

definition mm64b_mix :: "u32 \<Rightarrow> u32 \<Rightarrow> u32" where
  "mm64b_mix h k = h * mm64b_m XOR mm64b_k k"

fun mm64b_blocks :: "u32 \<Rightarrow> u32 \<Rightarrow> u8 list \<Rightarrow> u32 \<times> u32 \<times> u8 list" where
  "mm64b_blocks h1 h2 bs =
     (if 8 \<le> length bs
      then mm64b_blocks (mm64b_mix h1 (le32 bs)) (mm64b_mix h2 (le32 (drop 4 bs))) (drop 8 bs)
      else if 4 \<le> length bs then (mm64b_mix h1 (le32 bs), h2, drop 4 bs)
      else (h1, h2, bs))"

declare mm64b_blocks.simps [simp del]

definition mm64b_tail :: "u32 \<Rightarrow> u8 list \<Rightarrow> u32" where
  "mm64b_tail h2 tail =
     (if tail = [] then h2
      else foldl (\<lambda>h j. h XOR push_bit (8 * j) (ucast (tail ! j))) h2 (rev [0..<length tail])
           * mm64b_m)"

definition mm64b_final :: "u32 \<Rightarrow> u32 \<Rightarrow> u64" where
  "mm64b_final h1 h2 =
     (let h1 = (h1 XOR drop_bit 18 h2) * mm64b_m;
          h2 = (h2 XOR drop_bit 22 h1) * mm64b_m;
          h1 = (h1 XOR drop_bit 17 h2) * mm64b_m;
          h2 = (h2 XOR drop_bit 19 h1) * mm64b_m
      in push_bit 32 (ucast h1) OR ucast h2)"

definition MurmurHash64B :: "u8 list \<Rightarrow> u64 \<Rightarrow> u64" where
  "MurmurHash64B key seed =
     (let h1 = ucast seed XOR of_nat (length key);
          h2 = ucast (drop_bit 32 seed);
          (h1, h2, tail) = mm64b_blocks h1 h2 key
      in mm64b_final h1 (mm64b_tail h2 tail))"

section \<open>Rotation and mixing are lossless\<close>

lemma rotl32_word_rotl: "0 < r \<Longrightarrow> r < 32 \<Longrightarrow> rotl32 x r = word_rotl r x"
proof (rule word_bitI)
  fix n :: nat
  assume r: "0 < r" "r < 32" and "n < LENGTH(32)"
  then have n: "n < 32" by simp
  with r have m: "(n + 32 - r) mod 32 = (if r \<le> n then n - r else n + 32 - r)"
    by (simp add: mod_if)
  have rot: "bit (word_rotl r x) n \<longleftrightarrow> bit x (if r \<le> n then n - r else n + 32 - r)"
    using n r by (simp add: bit_word_rotl_iff m)
  have "\<not> bit x (n + 32 - r)" if "r \<le> n"
    using that by (auto dest: bit_imp_le_length)
  then show "bit (rotl32 x r) n = bit (word_rotl r x) n"
    using n r by (auto simp: rot rotl32_def bits_simps add.commute)
qed

lemma fmix_inj: "fmix a = fmix b \<Longrightarrow> a = b"
  unfolding fmix_def Let_def
  by (drule xorshift_inj [rotated], simp,
      drule word_mult_cancel_inverse [where m' = "0x7ed1b41d", rotated], simp,
      drule xorshift_inj [rotated], simp,
      drule word_mult_cancel_inverse [where m' = "0xa5cb9243", rotated], simp,
      drule xorshift_inj [rotated], simp, assumption)

lemma mm64_m_inverse: "mm64_m * 0x5f7a0ea7e59b19bd = 1"
  by (simp add: mm64_m_def)

lemmas mm64_mult_cancel = word_mult_cancel_inverse [OF mm64_m_inverse]

lemma mm64_final_inj: "mm64_final a = mm64_final b \<Longrightarrow> a = b"
  unfolding mm64_final_def Let_def
  by (auto simp: mm64_r_def dest!: xorshift_inj [rotated] mm64_mult_cancel)

lemma mm64_blocks_inj:
  "fst (mm64_blocks h bs) = fst (mm64_blocks h' bs) \<Longrightarrow> h = h'"
proof (induction h bs arbitrary: h' rule: mm64_blocks.induct)
  case (1 h bs)
  show ?case
  proof (cases "length bs < 8")
    case True
    with 1(2) show ?thesis by (simp add: mm64_blocks.simps)
  next
    case False
    with 1(2) have "fst (mm64_blocks ((h XOR mm64_k (le64 bs)) * mm64_m) (drop 8 bs)) =
        fst (mm64_blocks ((h' XOR mm64_k (le64 bs)) * mm64_m) (drop 8 bs))"
      by (simp add: mm64_blocks.simps [of h bs] mm64_blocks.simps [of h' bs])
    from 1(1) [OF False this] have "h XOR mm64_k (le64 bs) = h' XOR mm64_k (le64 bs)"
      by (rule mm64_mult_cancel)
    then show ?thesis by (rule word_xor_cancel)
  qed
qed

lemma mm64_blocks_tail:
  "snd (mm64_blocks h bs) = drop (8 * (length bs div 8)) bs"
proof (induction h bs rule: mm64_blocks.induct)
  case (1 h bs)
  show ?case
  proof (cases "length bs < 8")
    case True
    then show ?thesis by (simp add: mm64_blocks.simps)
  next
    case False
    then have d: "length bs div 8 = Suc ((length bs - 8) div 8)"
      by (intro le_div_geq) simp_all
    have "snd (mm64_blocks h bs) = drop (8 * ((length bs - 8) div 8)) (drop 8 bs)"
      using False 1 [OF False] by (subst mm64_blocks.simps) simp
    then show ?thesis by (simp only: d drop_drop mult_Suc_right add.commute)
  qed
qed

lemma foldl_xor_cancel:
  fixes h h' :: "'a::len word"
  shows "foldl (\<lambda>h j. h XOR f j) h js = foldl (\<lambda>h j. h XOR f j) h' js \<Longrightarrow> h = h'"
proof (induction js arbitrary: h h')
  case Nil
  then show ?case by simp
next
  case (Cons j js)
  then have "h XOR f j = h' XOR f j" by simp
  then show ?case by (rule word_xor_cancel)
qed

lemma mm64_tail_inj: "mm64_tail h t = mm64_tail h' t \<Longrightarrow> h = h'"
  by (auto simp: mm64_tail_def split: if_splits dest!: mm64_mult_cancel foldl_xor_cancel)

lemma MurmurHash64A_seed_inj_aux:
  assumes "MurmurHash64A key s = MurmurHash64A key s'"
  shows "s = s'"
proof -
  let ?c = "of_nat (length key) * mm64_m"
  have "mm64_tail (fst (mm64_blocks (s XOR ?c) key)) (snd (mm64_blocks (s XOR ?c) key)) =
        mm64_tail (fst (mm64_blocks (s' XOR ?c) key)) (snd (mm64_blocks (s' XOR ?c) key))"
    using assms by (auto simp: MurmurHash64A_def Let_def split_beta dest: mm64_final_inj)
  then have "fst (mm64_blocks (s XOR ?c) key) = fst (mm64_blocks (s' XOR ?c) key)"
    by (auto simp: mm64_blocks_tail dest: mm64_tail_inj)
  then have "s XOR ?c = s' XOR ?c" by (rule mm64_blocks_inj)
  then show ?thesis by (rule word_xor_cancel)
qed


section \<open>The other two variants\<close>

lemma rotl32_inj: "0 < r \<Longrightarrow> r < 32 \<Longrightarrow> rotl32 a r = rotl32 b r \<Longrightarrow> a = b"
  by (metis rotl32_word_rotl word_rot_gal)

lemma mmh3_round_inj: "mmh3_round a k = mmh3_round b k \<Longrightarrow> a = b"
  unfolding mmh3_round_def
  by (auto dest!: word_mult_cancel_inverse [where m' = "0xcccccccd", rotated] rotl32_inj [rotated 2]
      word_xor_cancel)

lemma foldl_inj:
  assumes "\<And>a b x. f a x = f b x \<Longrightarrow> a = b" and "foldl f a xs = foldl f b xs"
  shows "a = b"
  using assms(2) by (induction xs arbitrary: a b) (auto dest: assms(1))

lemma MurmurHash3_seed_inj_aux:
  assumes "MurmurHash3_x86_32 key s = MurmurHash3_x86_32 key s'"
  shows "s = s'"
proof -
  let ?f = "\<lambda>h i. mmh3_round h (getblock key i)"
  have "foldl ?f s [0..<length key div 4] = foldl ?f s' [0..<length key div 4]"
    using assms
    by (auto simp: MurmurHash3_x86_32_def Let_def split: if_splits
        dest!: fmix_inj word_xor_cancel)
  then show ?thesis by (rule foldl_inj [rotated]) (rule mmh3_round_inj)
qed

lemma mm64b_m_inverse: "mm64b_m * 0xe59b19bd = 1"
  by (simp add: mm64b_m_def)

lemmas mm64b_mult_cancel = word_mult_cancel_inverse [OF mm64b_m_inverse]

lemma mm64b_mix_inj: "mm64b_mix a k = mm64b_mix b k \<Longrightarrow> a = b"
  unfolding mm64b_mix_def by (drule word_xor_cancel, drule mm64b_mult_cancel)

lemma join32_inj:
  fixes a b c d :: u32
  assumes "push_bit 32 (ucast a) OR ucast b = (push_bit 32 (ucast c) OR ucast d :: u64)"
  shows "a = c \<and> b = d"
proof -
  have eq: "bit (push_bit 32 (ucast a) OR ucast b :: u64) n =
      bit (push_bit 32 (ucast c) OR ucast d :: u64) n" for n
    using assms by simp
  have "a = c"
  proof (rule word_bitI)
    fix n assume "n < LENGTH(32)"
    then show "bit a n = bit c n"
      using eq [of "32 + n"] by (auto simp: bits_simps dest: bit_imp_le_length)
  qed
  moreover have "b = d"
  proof (rule word_bitI)
    fix n assume "n < LENGTH(32)"
    then show "bit b n = bit d n"
      using eq [of n] by (auto simp: bits_simps)
  qed
  ultimately show ?thesis by simp
qed

lemma mm64b_final_inj: "mm64b_final a b = mm64b_final c d \<Longrightarrow> a = c \<and> b = d"
  unfolding mm64b_final_def Let_def
  by (auto dest!: join32_inj mm64b_mult_cancel word_xor_cancel)

lemma mm64b_tail_inj: "mm64b_tail h t = mm64b_tail h' t \<Longrightarrow> h = h'"
  by (auto simp: mm64b_tail_def split: if_splits dest!: mm64b_mult_cancel foldl_xor_cancel)

lemma mm64b_blocks_inj:
  assumes "mm64b_blocks a b bs = (x, y, t)" and "mm64b_blocks c d bs = (x, y', t')"
  shows "a = c \<and> t = t' \<and> (y = y' \<longrightarrow> b = d)"
  using assms
proof (induction a b bs arbitrary: c d rule: mm64b_blocks.induct)
  case (1 a b bs)
  show ?case
  proof (cases "8 \<le> length bs")
    case True
    with 1 show ?thesis
      by (simp add: mm64b_blocks.simps [of a b bs] mm64b_blocks.simps [of c d bs])
        (metis mm64b_mix_inj)
  next
    case False
    with 1(2,3) show ?thesis
      by (auto simp: mm64b_blocks.simps [of a b bs] mm64b_blocks.simps [of c d bs]
          split: if_splits dest: mm64b_mix_inj)
  qed
qed

lemma split32_inj:
  fixes s s' :: u64
  assumes "ucast s = (ucast s' :: u32)" and "ucast (drop_bit 32 s) = (ucast (drop_bit 32 s') :: u32)"
  shows "s = s'"
proof (rule word_bitI)
  fix n assume n: "n < LENGTH(64)"
  have lo: "bit (ucast s :: u32) n = bit (ucast s' :: u32) n" using assms(1) by simp
  have hi: "bit (ucast (drop_bit 32 s) :: u32) (n - 32) = bit (ucast (drop_bit 32 s') :: u32) (n - 32)"
    using assms(2) by simp
  have "n - 32 < 32" using n by simp
  then show "bit s n = bit s' n"
    using lo hi n by (cases "n < 32") (simp_all add: bits_simps)
qed

lemma MurmurHash64B_seed_inj_aux:
  assumes "MurmurHash64B key s = MurmurHash64B key s'"
  shows "s = s'"
proof -
  obtain h1 h2 t where b: "mm64b_blocks (ucast s XOR of_nat (length key)) (ucast (drop_bit 32 s)) key
      = (h1, h2, t)" by (metis prod_cases3)
  obtain h1' h2' t' where b': "mm64b_blocks (ucast s' XOR of_nat (length key))
      (ucast (drop_bit 32 s')) key = (h1', h2', t')" by (metis prod_cases3)
  have "h1 = h1'" and tl: "mm64b_tail h2 t = mm64b_tail h2' t'"
    using assms b b' by (auto simp: MurmurHash64B_def dest: mm64b_final_inj)
  with mm64b_blocks_inj [OF b, of _ _ h2' t'] b'
  have x: "ucast s XOR of_nat (length key) = (ucast s' XOR of_nat (length key) :: u32)"
    and "t = t'" and y: "h2 = h2' \<longrightarrow> ucast (drop_bit 32 s) = (ucast (drop_bit 32 s') :: u32)"
    by auto
  with tl have "h2 = h2'" by (auto dest: mm64b_tail_inj)
  with y word_xor_cancel [OF x] show ?thesis by (auto intro: split32_inj)
qed

section \<open>Properties\<close>

text \<open>for every key, the three hash functions are injective in the seed.  In particular the 38
  seeds that the Bloom filter uses give 38 different values of \<open>MurmurHash64A\<close>, before they are
  reduced modulo the size of the filter.\<close>

lemma murmur_seed_injective:
  "inj (\<lambda>s. MurmurHash64A key s) \<and> inj (\<lambda>s. MurmurHash3_x86_32 key s) \<and> inj (\<lambda>s. MurmurHash64B key s)"
  by (intro conjI injI)
    (auto dest: MurmurHash64A_seed_inj_aux MurmurHash3_seed_inj_aux MurmurHash64B_seed_inj_aux)

end
