(* ===== verification/Bitmap.thy ===== *)
theory Bitmap
  imports Prelude
begin

text \<open>
  The bit array of \<open>src/stream_id/jrtc_router_bitmap.h\<close>: the structure with its two heap blocks
  (the structure itself and its array of 32-bit elements), its operations and its iterator.
  A \<open>jrtc_router_bitmap_t*\<close> that may be \<open>NULL\<close> is an option.
\<close>

section \<open>The bit array\<close>

record jrtc_router_bitmap =
  bm_self :: addr
  bm_size :: u32
  bm_ptr :: addr
  bm_data :: "u32 list"

text \<open>The number of elements is computed in \<open>uint32_t\<close>, so \<open>size + 31\<close> wraps.\<close>

definition bitmap_words :: "u32 \<Rightarrow> u32" where
  "bitmap_words sz = (sz + 31) div 32"

definition jrtc_router_bitmap_create :: "mem \<Rightarrow> u32 \<Rightarrow> ub + (jrtc_router_bitmap option \<times> mem)" where
  "jrtc_router_bitmap_create m sz =
     (case malloc m of
        (None, m) \<Rightarrow> Inr (None, m)
      | (Some p, m) \<Rightarrow>
          (case malloc m of
             (None, m) \<Rightarrow> bindS (free m p) (\<lambda>m. Inr (None, m))
           | (Some d, m) \<Rightarrow>
               Inr (Some \<lparr>bm_self = p, bm_size = sz, bm_ptr = d,
                          bm_data = replicate (unat (bitmap_words sz)) 0\<rparr>, m)))"

definition jrtc_router_bitmap_set ::
  "jrtc_router_bitmap option \<Rightarrow> u32 \<Rightarrow> jrtc_router_bitmap option" where
  "jrtc_router_bitmap_set bitmap index =
     (case bitmap of
        None \<Rightarrow> None
      | Some b \<Rightarrow>
          Some (if index < bm_size b
                then let i = unat (index div 32)
                     in b\<lparr>bm_data := (bm_data b)[i := bm_data b ! i OR push_bit (unat (index mod 32)) 1]\<rparr>
                else b))"

definition jrtc_router_bitmap_get :: "jrtc_router_bitmap option \<Rightarrow> u32 \<Rightarrow> int" where
  "jrtc_router_bitmap_get bitmap index =
     (case bitmap of
        None \<Rightarrow> -1
      | Some b \<Rightarrow>
          (if index < bm_size b
           then (if bm_data b ! unat (index div 32) AND push_bit (unat (index mod 32)) 1 \<noteq> 0
                 then 1 else 0)
           else -1))"

definition jrtc_router_bitmap_destroy :: "mem \<Rightarrow> jrtc_router_bitmap \<Rightarrow> ub + mem" where
  "jrtc_router_bitmap_destroy m b = bindS (free m (bm_ptr b)) (\<lambda>m. free m (bm_self b))"

section \<open>The iterator\<close>

record jrtc_router_bitmap_iterator =
  it_bitmap :: jrtc_router_bitmap
  it_index :: u32

definition jrtc_router_bitmap_init_iterator ::
  "jrtc_router_bitmap \<Rightarrow> jrtc_router_bitmap_iterator" where
  "jrtc_router_bitmap_init_iterator b = \<lparr>it_bitmap = b, it_index = 0\<rparr>"

lemma u32_Suc_bound:
  fixes i n :: u32
  assumes "i < n"
  shows "unat (i + 1) = Suc (unat i)"
proof -
  have "unat i < unat n" using assms by (simp add: word_less_nat_alt)
  moreover have "unat n < 2 ^ LENGTH(32)" by (rule unsigned_less)
  ultimately have "unat i < 2 ^ 32 - 1" by simp
  then show ?thesis by (subst unat_add_lem [THEN iffD1]) simp_all
qed

function bitmap_scan_has_next :: "jrtc_router_bitmap \<Rightarrow> u32 \<Rightarrow> int" where
  "bitmap_scan_has_next b i =
     (if i < bm_size b
      then (if jrtc_router_bitmap_get (Some b) i \<noteq> 0 then 1 else bitmap_scan_has_next b (i + 1))
      else 0)"
  by pat_completeness auto
termination
  by (relation "measure (\<lambda>(b, i). unat (bm_size b) - unat i)")
    (auto simp: u32_Suc_bound word_less_nat_alt)

definition jrtc_router_bitmap_iterator_has_next :: "jrtc_router_bitmap_iterator \<Rightarrow> int" where
  "jrtc_router_bitmap_iterator_has_next it = bitmap_scan_has_next (it_bitmap it) (it_index it)"

function jrtc_router_bitmap_iterator_next ::
  "jrtc_router_bitmap_iterator \<Rightarrow> u32 \<times> jrtc_router_bitmap_iterator" where
  "jrtc_router_bitmap_iterator_next it =
     (if it_index it < bm_size (it_bitmap it)
      then (if jrtc_router_bitmap_get (Some (it_bitmap it)) (it_index it) \<noteq> 0
            then (it_index it, it\<lparr>it_index := it_index it + 1\<rparr>)
            else jrtc_router_bitmap_iterator_next (it\<lparr>it_index := it_index it + 1\<rparr>))
      else (-1, it))"
  by pat_completeness auto
termination
  by (relation "measure (\<lambda>it. unat (bm_size (it_bitmap it)) - unat (it_index it))")
    (auto simp: u32_Suc_bound word_less_nat_alt)

declare bitmap_scan_has_next.simps [simp del] jrtc_router_bitmap_iterator_next.simps [simp del]


section \<open>The array as a set of indices\<close>

definition bitmap_wf :: "jrtc_router_bitmap \<Rightarrow> bool" where
  "bitmap_wf b \<longleftrightarrow> length (bm_data b) = (unat (bm_size b) + 31) div 32"

definition bm_bits :: "jrtc_router_bitmap \<Rightarrow> nat set" where
  "bm_bits b = {i. i < unat (bm_size b) \<and> bit (bm_data b ! (i div 32)) (i mod 32)}"

lemma bm_bits_bound: "i \<in> bm_bits b \<Longrightarrow> i < unat (bm_size b)"
  by (simp add: bm_bits_def)

lemma finite_bm_bits [simp]: "finite (bm_bits b)"
  by (rule finite_subset [of _ "{..<unat (bm_size b)}"]) (auto dest: bm_bits_bound)

text \<open>Every element the accessors touch exists.\<close>

lemma bitmap_index_in_bounds:
  "bitmap_wf b \<Longrightarrow> i < unat (bm_size b) \<Longrightarrow> i div 32 < length (bm_data b)"
  unfolding bitmap_wf_def by linarith

lemma unat_div32: "unat ((i::u32) div 32) = unat i div 32"
  by (simp add: unat_div)

lemma unat_mod32: "unat ((i::u32) mod 32) = unat i mod 32"
  by (simp add: unat_mod)

lemma bitmap_words_exact:
  assumes "unat sz \<le> 2 ^ 32 - 32"
  shows "unat (bitmap_words sz) = (unat sz + 31) div 32"
proof -
  have "unat (sz + 31) = unat sz + 31"
    using assms by (subst unat_add_lem [THEN iffD1]) simp_all
  then show ?thesis by (simp add: bitmap_words_def unat_div)
qed

lemma bit_u32_exp: "bit (2 ^ k :: u32) n \<longleftrightarrow> n = k \<and> k < 32"
  by (auto simp: bit_exp_iff)

lemma and_exp_nonzero:
  fixes w :: u32
  assumes "k < 32"
  shows "w AND 2 ^ k \<noteq> 0 \<longleftrightarrow> bit w k"
proof
  assume "w AND 2 ^ k \<noteq> 0"
  then obtain n where "bit (w AND 2 ^ k) n"
    by (metis bit_eqI bit_0_eq bot_apply bot_bool_def)
  then show "bit w k" by (auto simp: bit_and_iff bit_u32_exp)
next
  assume "bit w k"
  then have "bit (w AND 2 ^ k) k"
    using assms by (auto simp: bit_and_iff bit_u32_exp)
  then show "w AND 2 ^ k \<noteq> 0" by auto
qed

lemma bitmap_get_bits:
  "jrtc_router_bitmap_get (Some b) i =
     (if i < bm_size b then (if unat i \<in> bm_bits b then 1 else 0) else -1)"
  by (simp add: jrtc_router_bitmap_get_def and_exp_nonzero bm_bits_def unat_div32 unat_mod32
      word_less_nat_alt)

lemma bitmap_set_frame:
  assumes "jrtc_router_bitmap_set (Some b) i = Some b'"
  shows "bm_size b' = bm_size b" "bm_self b' = bm_self b" "bm_ptr b' = bm_ptr b"
    "bitmap_wf b \<Longrightarrow> bitmap_wf b'"
  using assms by (auto simp: jrtc_router_bitmap_set_def bitmap_wf_def Let_def split: if_splits)

lemma bitmap_set_total: "\<exists>b'. jrtc_router_bitmap_set (Some b) i = Some b'"
  by (simp add: jrtc_router_bitmap_set_def)

lemma bitmap_set_bits:
  assumes wf: "bitmap_wf b" and set: "jrtc_router_bitmap_set (Some b) i = Some b'"
  shows "bm_bits b' = (if i < bm_size b then insert (unat i) (bm_bits b) else bm_bits b)"
proof (cases "i < bm_size b")
  case True
  let ?d = "unat i div 32" and ?k = "unat i mod 32"
  have d: "?d < length (bm_data b)"
    using wf True by (simp add: bitmap_index_in_bounds word_less_nat_alt)
  have b': "b' = b\<lparr>bm_data := (bm_data b)[?d := bm_data b ! ?d OR push_bit ?k 1]\<rparr>"
    using set True by (simp add: jrtc_router_bitmap_set_def Let_def unat_div32 unat_mod32)
  have one: "bit (2 ^ ?k :: u32) n \<longleftrightarrow> n = ?k" for n
    by (auto simp: bit_u32_exp)
  have same: "n div 32 = ?d \<and> n mod 32 = ?k \<longleftrightarrow> n = unat i" for n
    by (metis div_mult_mod_eq)
  have "bit (bm_data b' ! (n div 32)) (n mod 32) \<longleftrightarrow>
      bit (bm_data b ! (n div 32)) (n mod 32) \<or> n = unat i" for n
    using d same [of n] by (auto simp: b' nth_list_update one bit_or_iff)
  moreover have "unat i < unat (bm_size b)" using True by (simp add: word_less_nat_alt)
  ultimately show ?thesis using True by (auto simp: bm_bits_def b')
next
  case False
  with set show ?thesis by (auto simp: jrtc_router_bitmap_set_def)
qed

lemma bitmap_create_Some:
  assumes "jrtc_router_bitmap_create m sz = Inr (Some b, m')" and "unat sz \<le> 2 ^ 32 - 32"
  shows "bitmap_wf b \<and> bm_bits b = {} \<and> bm_size b = sz"
  using assms
  by (auto simp: jrtc_router_bitmap_create_def bitmap_wf_def bm_bits_def bitmap_words_exact
      bindS_def split: prod.splits option.splits sum.splits)

text \<open>Creation is defined on every well-formed heap: the array takes exactly two new blocks, and on
  failure nothing stays allocated.\<close>

lemma bitmap_create_mem:
  assumes "mem_wf m"
  shows "\<exists>r m'. jrtc_router_bitmap_create m sz = Inr (r, m') \<and> mem_wf m' \<and> oom m' = oom m \<and>
    (case r of
       None \<Rightarrow> live m' = live m \<and> (\<exists>k. oom m k)
     | Some b \<Rightarrow> live m' = insert (bm_ptr b) (insert (bm_self b) (live m)) \<and>
         bm_self b \<notin> live m \<and> bm_ptr b \<notin> live m \<and> bm_ptr b \<noteq> bm_self b)"
proof -
  let ?n = "next_addr m"
  have n: "?n \<notin> live m" "Suc ?n \<notin> live m" using assms by (auto simp: mem_wf_def)
  consider "oom m ?n" | "\<not> oom m ?n" "oom m (Suc ?n)" | "\<not> oom m ?n" "\<not> oom m (Suc ?n)" by blast
  then show ?thesis
  proof cases
    case 1
    then show ?thesis
      using assms by (auto simp: jrtc_router_bitmap_create_def malloc_def mem_wf_def less_SucI)
  next
    case 2
    with n show ?thesis
      using assms
      by (auto simp: jrtc_router_bitmap_create_def malloc_def free_def mem_wf_def less_SucI)
  next
    case 3
    with n show ?thesis
      using assms by (auto simp: jrtc_router_bitmap_create_def malloc_def mem_wf_def less_SucI)
  qed
qed

lemma bitmap_destroy_mem:
  assumes "bm_ptr b \<in> live m" "bm_self b \<in> live m" "bm_ptr b \<noteq> bm_self b"
  shows "jrtc_router_bitmap_destroy m b = Inr (m\<lparr>live := live m - {bm_ptr b, bm_self b}\<rparr>)"
  using assms by (auto simp: jrtc_router_bitmap_destroy_def free_def insert_commute
      intro!: arg_cong [where f = "\<lambda>l. m\<lparr>live := l\<rparr>"])


section \<open>Iteration visits the set bits in increasing order\<close>

definition bm_rest :: "jrtc_router_bitmap_iterator \<Rightarrow> nat set" where
  "bm_rest it = {j \<in> bm_bits (it_bitmap it). unat (it_index it) \<le> j}"

lemma bm_rest_init: "bm_rest (jrtc_router_bitmap_init_iterator b) = bm_bits b"
  by (auto simp: bm_rest_def jrtc_router_bitmap_init_iterator_def)

lemma bitmap_scan_has_next_bits:
  "bitmap_scan_has_next b i = (if \<exists>j \<in> bm_bits b. unat i \<le> j then 1 else 0)"
proof (induction b i rule: bitmap_scan_has_next.induct)
  case (1 b i)
  show ?case
  proof (cases "i < bm_size b")
    case False
    then have "\<not> (\<exists>j \<in> bm_bits b. unat i \<le> j)"
      by (auto simp: word_less_nat_alt dest: bm_bits_bound)
    with False show ?thesis by (simp add: bitmap_scan_has_next.simps)
  next
    case True
    show ?thesis
    proof (cases "unat i \<in> bm_bits b")
      case in_set: True
      with True show ?thesis
        by (subst bitmap_scan_has_next.simps) (auto simp: bitmap_get_bits)
    next
      case not_in: False
      then have "unat i \<le> j \<longleftrightarrow> Suc (unat i) \<le> j" if "j \<in> bm_bits b" for j
        using that by (cases "j = unat i") auto
      then have "(\<exists>j \<in> bm_bits b. unat i \<le> j) \<longleftrightarrow> (\<exists>j \<in> bm_bits b. Suc (unat i) \<le> j)"
        by (intro bex_cong) auto
      with True not_in 1 show ?thesis
        by (subst bitmap_scan_has_next.simps) (simp add: bitmap_get_bits u32_Suc_bound [OF True])
    qed
  qed
qed

lemma bitmap_has_next: "jrtc_router_bitmap_iterator_has_next it = (if bm_rest it = {} then 0 else 1)"
  by (auto simp: jrtc_router_bitmap_iterator_has_next_def bitmap_scan_has_next_bits bm_rest_def)

lemma bitmap_next_Min:
  assumes "bm_rest it \<noteq> {}"
  shows "\<exists>i. jrtc_router_bitmap_iterator_next it = (i, it\<lparr>it_index := i + 1\<rparr>) \<and>
    unat i = Min (bm_rest it) \<and> i < bm_size (it_bitmap it)"
  using assms
proof (induction it rule: jrtc_router_bitmap_iterator_next.induct)
  case (1 it)
  let ?b = "it_bitmap it" and ?i = "it_index it"
  have lt: "?i < bm_size ?b"
    using 1(2) by (auto simp: bm_rest_def word_less_nat_alt dest: bm_bits_bound)
  show ?case
  proof (cases "unat ?i \<in> bm_bits ?b")
    case True
    then have "Min (bm_rest it) = unat ?i"
      by (intro Min_eqI) (auto simp: bm_rest_def)
    with True lt show ?thesis
      by (subst jrtc_router_bitmap_iterator_next.simps) (simp add: bitmap_get_bits)
  next
    case False
    let ?it = "it\<lparr>it_index := ?i + 1\<rparr>"
    have get: "jrtc_router_bitmap_get (Some ?b) ?i = 0"
      using False lt by (simp add: bitmap_get_bits)
    have rest: "bm_rest ?it = bm_rest it"
      using False u32_Suc_bound [OF lt]
      by (auto simp: bm_rest_def Suc_le_eq le_less)
    have "jrtc_router_bitmap_iterator_next it = jrtc_router_bitmap_iterator_next ?it"
      using lt get by (subst jrtc_router_bitmap_iterator_next.simps) simp
    with 1(1) [OF lt] get rest 1(2) show ?thesis by auto
  qed
qed

lemma bitmap_next_end:
  assumes "bm_rest it = {}"
  shows "fst (jrtc_router_bitmap_iterator_next it) = -1"
  using assms
proof (induction it rule: jrtc_router_bitmap_iterator_next.induct)
  case (1 it)
  let ?b = "it_bitmap it" and ?i = "it_index it"
  show ?case
  proof (cases "?i < bm_size ?b")
    case False
    then show ?thesis by (simp add: jrtc_router_bitmap_iterator_next.simps)
  next
    case lt: True
    have nb: "unat ?i \<notin> bm_bits ?b" using 1(2) by (auto simp: bm_rest_def)
    have "bm_rest (it\<lparr>it_index := ?i + 1\<rparr>) = {}"
      using 1(2) u32_Suc_bound [OF lt] by (auto simp: bm_rest_def)
    with 1(1) [OF lt] nb lt show ?thesis
      by (subst jrtc_router_bitmap_iterator_next.simps) (simp add: bitmap_get_bits)
  qed
qed

lemma bitmap_next_rest:
  assumes ne: "bm_rest it \<noteq> {}" and min: "unat i = Min (bm_rest it)"
    and lt: "i < bm_size (it_bitmap it)"
  shows "bm_rest (it\<lparr>it_index := i + 1\<rparr>) = bm_rest it - {unat i}"
proof -
  have fin: "finite (bm_rest it)" by (simp add: bm_rest_def)
  have mem: "unat i \<in> bm_rest it" using Min_in [OF fin ne] min by simp
  have le: "unat i \<le> j" if "j \<in> bm_rest it" for j
    using Min_le [OF fin that] min by simp
  show ?thesis
  proof (intro set_eqI iffI)
    fix j assume "j \<in> bm_rest (it\<lparr>it_index := i + 1\<rparr>)"
    then have "j \<in> bm_bits (it_bitmap it)" "unat i < j"
      using u32_Suc_bound [OF lt] by (auto simp: bm_rest_def)
    with mem show "j \<in> bm_rest it - {unat i}" by (auto simp: bm_rest_def)
  next
    fix j assume "j \<in> bm_rest it - {unat i}"
    with le [of j] show "j \<in> bm_rest (it\<lparr>it_index := i + 1\<rparr>)"
      using u32_Suc_bound [OF lt] by (auto simp: bm_rest_def)
  qed
qed


section \<open>The interface the Bloom filter uses\<close>

text \<open>
  A bit store: indices below a bound can be set and tested, a test sees exactly the indices set so
  far, and setting keeps the store well formed.  The client of this interface adds a list of
  indices and asks for them again.
\<close>

locale bit_store =
  fixes wf :: "'b \<Rightarrow> bool"
    and bound :: "'b \<Rightarrow> nat"
    and set_bit_at :: "'b \<Rightarrow> u32 \<Rightarrow> 'b"
    and test_bit_at :: "'b \<Rightarrow> u32 \<Rightarrow> bool"
  assumes wf_set: "wf b \<Longrightarrow> wf (set_bit_at b i)"
    and bound_set: "wf b \<Longrightarrow> bound (set_bit_at b i) = bound b"
    and test_set: "wf b \<Longrightarrow> unat i < bound b \<Longrightarrow> unat j < bound b \<Longrightarrow>
      test_bit_at (set_bit_at b i) j \<longleftrightarrow> test_bit_at b j \<or> j = i"
begin

lemma wf_sets: "wf b \<Longrightarrow> wf (foldl set_bit_at b is)"
  by (induction "is" arbitrary: b) (auto simp: wf_set)

lemma bound_sets: "wf b \<Longrightarrow> bound (foldl set_bit_at b is) = bound b"
  by (induction "is" arbitrary: b) (auto simp: wf_set bound_set)

lemma test_sets:
  assumes "wf b" and "\<forall>i \<in> set is. unat i < bound b" and "unat j < bound b"
  shows "test_bit_at (foldl set_bit_at b is) j \<longleftrightarrow> test_bit_at b j \<or> j \<in> set is"
  using assms by (induction "is" arbitrary: b) (auto simp: wf_set bound_set test_set)

text \<open>No false negatives: whatever was added is found.\<close>

lemma added_found:
  assumes "wf b" and "\<forall>i \<in> set is. unat i < bound b" and "j \<in> set is"
  shows "test_bit_at (foldl set_bit_at b is) j"
  using assms test_sets by auto

end

text \<open>The code's bit array provides it; the pointer of the C interface is not \<open>NULL\<close> here.\<close>

definition bitmap_ref_wf :: "jrtc_router_bitmap option \<Rightarrow> bool" where
  "bitmap_ref_wf r \<longleftrightarrow> (case r of None \<Rightarrow> False | Some b \<Rightarrow> bitmap_wf b)"

definition bitmap_ref_bound :: "jrtc_router_bitmap option \<Rightarrow> nat" where
  "bitmap_ref_bound r = (case r of None \<Rightarrow> 0 | Some b \<Rightarrow> unat (bm_size b))"

interpretation bmap: bit_store bitmap_ref_wf bitmap_ref_bound jrtc_router_bitmap_set
  "\<lambda>r i. jrtc_router_bitmap_get r i \<noteq> 0"
proof
  fix r :: "jrtc_router_bitmap option" and i j :: u32
  assume "bitmap_ref_wf r"
  then obtain b where r: "r = Some b" and wf: "bitmap_wf b"
    by (auto simp: bitmap_ref_wf_def split: option.splits)
  obtain b' where b': "jrtc_router_bitmap_set (Some b) i = Some b'"
    using bitmap_set_total by blast
  show "bitmap_ref_wf (jrtc_router_bitmap_set r i)"
    using b' wf by (simp add: r bitmap_ref_wf_def bitmap_set_frame)
  show "bitmap_ref_bound (jrtc_router_bitmap_set r i) = bitmap_ref_bound r"
    using b' by (simp add: r bitmap_ref_bound_def bitmap_set_frame)
  assume "unat i < bitmap_ref_bound r" and "unat j < bitmap_ref_bound r"
  then have "i < bm_size b" and "j < bm_size b"
    by (simp_all add: r bitmap_ref_bound_def word_less_nat_alt)
  then show "(jrtc_router_bitmap_get (jrtc_router_bitmap_set r i) j \<noteq> 0) =
      (jrtc_router_bitmap_get r j \<noteq> 0 \<or> j = i)"
    using b' wf
    by (auto simp: r bitmap_get_bits bitmap_set_frame [OF b'] bitmap_set_bits [OF wf b']
        word_unat_eq_iff [of j i])
qed

section \<open>Properties\<close>

text \<open>setting a list of in-range bits in a well-formed bit array makes exactly those bits, and the
  ones that were set before, read as set.\<close>

lemma bitmap_set_get:
  assumes "bitmap_ref_wf r" and "\<forall>i \<in> set is. unat i < bitmap_ref_bound r" and "unat j < bitmap_ref_bound r"
  shows "jrtc_router_bitmap_get (foldl jrtc_router_bitmap_set r is) j \<noteq> 0 \<longleftrightarrow>
    jrtc_router_bitmap_get r j \<noteq> 0 \<or> j \<in> set is"
  using assms by (rule bmap.test_sets)

definition bitmap_ex :: jrtc_router_bitmap where
  "bitmap_ex = \<lparr>bm_self = 1, bm_size = 40, bm_ptr = 2, bm_data = [8, 0]\<rparr>"

text \<open>while the iterator reports a next element, \<open>jrtc_router_bitmap_iterator_next\<close> returns the least
  set bit that has not been returned yet and removes exactly that bit from the ones still to come;
  when it reports none, there is none.\<close>

lemma bitmap_iterator_enumerates:
  "if jrtc_router_bitmap_iterator_has_next it = 0 then bm_rest it = {}
   else \<exists>i it'. jrtc_router_bitmap_iterator_next it = (i, it') \<and> unat i = Min (bm_rest it) \<and>
     bm_rest it' = bm_rest it - {unat i} \<and> it_bitmap it' = it_bitmap it"
proof (cases "bm_rest it = {}")
  case False
  from bitmap_next_Min [OF False] obtain i where
    i: "jrtc_router_bitmap_iterator_next it = (i, it\<lparr>it_index := i + 1\<rparr>)" "unat i = Min (bm_rest it)"
      "i < bm_size (it_bitmap it)" by blast
  with bitmap_next_rest [OF False i(2,3)] False show ?thesis by (simp add: bitmap_has_next)
qed (simp add: bitmap_has_next)

end
