(* ===== verification/Bloom.thy ===== *)
theory Bloom
  imports Murmur Bitmap
begin

text \<open>
  The Bloom filter of \<open>src/stream_id/jrtc_router_stream_id.c\<close> and \<open>jrtc_router_get_hash\<close>, which turns
  a stream path or stream name into the 54-bit field of a stream id.
\<close>

definition JRTC_ROUTER_HASH_NUMBER_BITS :: int where
  "JRTC_ROUTER_HASH_NUMBER_BITS = 54"

definition JRTC_ROUTER_NUM_HASH_FUNCTIONS :: int where
  "JRTC_ROUTER_NUM_HASH_FUNCTIONS = 38"

record jrtc_router_bf =
  bf_bitmap :: "jrtc_router_bitmap option"
  bf_bit_size :: int
  bf_n_hash :: int

text \<open>\<open>None\<close> is the return value \<open>false\<close>.\<close>

definition jrtc_router_bf_init :: "mem \<Rightarrow> int \<Rightarrow> int \<Rightarrow> ub + (jrtc_router_bf option \<times> mem)" where
  "jrtc_router_bf_init m bit_size n_hash =
     bindS (jrtc_router_bitmap_create m (word_of_int bit_size)) (\<lambda>(bm, m).
       Inr (case bm of
              None \<Rightarrow> None
            | Some b \<Rightarrow> Some \<lparr>bf_bitmap = Some b, bf_bit_size = bit_size, bf_n_hash = n_hash\<rparr>, m))"

definition jrtc_router_bf_destroy :: "mem \<Rightarrow> jrtc_router_bf option \<Rightarrow> ub + mem" where
  "jrtc_router_bf_destroy m bf =
     (case bf of
        None \<Rightarrow> Inr m
      | Some f \<Rightarrow>
          (case bf_bitmap f of
             None \<Rightarrow> Inl NullDeref
           | Some b \<Rightarrow> jrtc_router_bitmap_destroy m b))"

text \<open>One round of the loops of \<open>jrtc_router_bf_add\<close> and \<open>jrtc_router_bf_contains\<close>: the hash is
  reduced in \<open>uint64_t\<close> and converted to the \<open>uint32_t\<close> index of the bit array.\<close>

definition bf_index :: "jrtc_router_bf \<Rightarrow> u8 list \<Rightarrow> nat \<Rightarrow> u32" where
  "bf_index f elem i = ucast (MurmurHash64A elem (of_nat i) mod word_of_int (bf_bit_size f))"

definition jrtc_router_bf_add :: "jrtc_router_bf option \<Rightarrow> u8 list \<Rightarrow> jrtc_router_bf option" where
  "jrtc_router_bf_add bf elem =
     (case bf of
        None \<Rightarrow> None
      | Some f \<Rightarrow>
          Some (f\<lparr>bf_bitmap :=
            foldl jrtc_router_bitmap_set (bf_bitmap f) (map (bf_index f elem) [0..<nat (bf_n_hash f)])\<rparr>))"

definition jrtc_router_bf_contains :: "jrtc_router_bf option \<Rightarrow> u8 list \<Rightarrow> bool" where
  "jrtc_router_bf_contains bf elem =
     (case bf of
        None \<Rightarrow> False
      | Some f \<Rightarrow>
          list_all (\<lambda>i. jrtc_router_bitmap_get (bf_bitmap f) (bf_index f elem i) \<noteq> 0)
            [0..<nat (bf_n_hash f)])"

text \<open>The loop of \<open>jrtc_router_bf_extract_bits\<close>; \<open>bits\<close> and the converted \<open>n_bits\<close> are unsigned.\<close>

lemma bitmap_next_progress:
  assumes "jrtc_router_bitmap_iterator_has_next it \<noteq> 0"
    and "jrtc_router_bitmap_iterator_next it = (i, it')"
  shows "it_bitmap it' = it_bitmap it" and "card (bm_rest it') < card (bm_rest it)"
proof -
  have ne: "bm_rest it \<noteq> {}" using assms(1) by (auto simp: bitmap_has_next split: if_splits)
  from bitmap_next_Min [OF ne] assms(2)
  have it': "it' = it\<lparr>it_index := i + 1\<rparr>" and min: "unat i = Min (bm_rest it)"
    and lt: "i < bm_size (it_bitmap it)" by auto
  show "it_bitmap it' = it_bitmap it" by (simp add: it')
  have fin: "finite (bm_rest it)" by (simp add: bm_rest_def)
  have "unat i \<in> bm_rest it" using Min_in [OF fin ne] min by simp
  with fin bitmap_next_rest [OF ne min lt] show "card (bm_rest it') < card (bm_rest it)"
    using card_Diff1_less [of "bm_rest it" "unat i"] by (simp add: it')
qed

function bf_extract_loop :: "jrtc_router_bitmap_iterator \<Rightarrow> u32 \<Rightarrow> u64 \<Rightarrow> u32 \<Rightarrow> u64" where
  "bf_extract_loop it bits result n_bits =
     (if jrtc_router_bitmap_iterator_has_next it \<noteq> 0
      then (if n_bits < bits + 1 then result
            else (case jrtc_router_bitmap_iterator_next it of
                    (i, it') \<Rightarrow> bf_extract_loop it' (bits + 1) (result OR push_bit (unat i) 1) n_bits))
      else result)"
  by pat_completeness auto
termination
  by (relation "measure (\<lambda>(it, _). card (bm_rest it))") (auto dest: bitmap_next_progress(2) [OF _ sym])

declare bf_extract_loop.simps [simp del]

definition jrtc_router_bf_extract_bits :: "jrtc_router_bf \<Rightarrow> int \<Rightarrow> ub + u64" where
  "jrtc_router_bf_extract_bits f n_bits =
     (if n_bits > 64 \<or> bf_bit_size f < n_bits then Inr 0
      else case bf_bitmap f of
             None \<Rightarrow> Inl NullDeref
           | Some b \<Rightarrow>
               Inr (bf_extract_loop (jrtc_router_bitmap_init_iterator b) 0 0 (word_of_int n_bits)))"

text \<open>A C string is its characters before the terminating \<open>NUL\<close>.\<close>

definition c_bytes :: "string \<Rightarrow> u8 list" where
  "c_bytes s = map of_char s"

definition jrtc_router_get_hash :: "mem \<Rightarrow> string \<Rightarrow> ub + (u64 \<times> mem)" where
  "jrtc_router_get_hash m name =
     bindS (jrtc_router_bf_init m JRTC_ROUTER_HASH_NUMBER_BITS JRTC_ROUTER_NUM_HASH_FUNCTIONS)
       (\<lambda>(bf, m).
         case bf of
           None \<Rightarrow> Inr (0, m)
         | Some f \<Rightarrow>
             (case jrtc_router_bf_add (Some f) (c_bytes name) of
                None \<Rightarrow> Inr (0, m)
              | Some f \<Rightarrow>
                  bindS (jrtc_router_bf_extract_bits f JRTC_ROUTER_HASH_NUMBER_BITS) (\<lambda>value.
                  bindS (jrtc_router_bf_destroy m (Some f)) (\<lambda>m. Inr (value, m)))))"


section \<open>Membership\<close>

definition bf_wf :: "jrtc_router_bf \<Rightarrow> bool" where
  "bf_wf f \<longleftrightarrow> bitmap_ref_wf (bf_bitmap f) \<and> 0 < bf_bit_size f \<and> bf_bit_size f < 2 ^ 31 \<and>
     bitmap_ref_bound (bf_bitmap f) = nat (bf_bit_size f)"

lemma bf_index_value:
  assumes "0 < bf_bit_size f" "bf_bit_size f < 2 ^ 31"
  shows "unat (bf_index f e i) = unat (MurmurHash64A e (of_nat i)) mod nat (bf_bit_size f)"
proof -
  let ?h = "MurmurHash64A e (of_nat i)" and ?n = "nat (bf_bit_size f)"
  have n: "?n < 2 ^ 31" using assms by simp
  have w: "unat (word_of_int (bf_bit_size f) :: u64) = ?n"
    using assms by (simp add: unat_eq_nat_uint uint_word_of_int_eq take_bit_int_eq_self)
  have "unat (?h mod word_of_int (bf_bit_size f)) = unat ?h mod ?n"
    by (simp add: unat_mod w)
  moreover have "unat ?h mod ?n < ?n" using assms by simp
  then have "unat ?h mod ?n < 2 ^ 32" using n by simp
  ultimately show ?thesis
    by (simp add: bf_index_def unsigned_ucast_eq take_bit_nat_eq_self)
qed

lemma bf_index_bound: "bf_wf f \<Longrightarrow> unat (bf_index f e i) < bitmap_ref_bound (bf_bitmap f)"
  using bf_index_value by (simp add: bf_wf_def)

lemma bf_add_frame:
  assumes "jrtc_router_bf_add (Some f) e = Some f'" and "bf_wf f"
  shows "bf_bit_size f' = bf_bit_size f" "bf_n_hash f' = bf_n_hash f" "bf_wf f'"
    "bf_index f' = bf_index f"
  using assms
  by (auto simp: jrtc_router_bf_add_def bf_wf_def bf_index_def bmap.wf_sets bmap.bound_sets fun_eq_iff)

lemma bf_add_total: "\<exists>f'. jrtc_router_bf_add (Some f) e = Some f'"
  by (simp add: jrtc_router_bf_add_def)

lemma bf_test_add:
  assumes "bf_wf f" and "jrtc_router_bf_add (Some f) e = Some f'"
    and "unat j < bitmap_ref_bound (bf_bitmap f)"
  shows "jrtc_router_bitmap_get (bf_bitmap f') j \<noteq> 0 \<longleftrightarrow>
    jrtc_router_bitmap_get (bf_bitmap f) j \<noteq> 0 \<or> (\<exists>i < nat (bf_n_hash f). j = bf_index f e i)"
proof -
  have "bf_bitmap f' =
      foldl jrtc_router_bitmap_set (bf_bitmap f) (map (bf_index f e) [0..<nat (bf_n_hash f)])"
    using assms(2) by (auto simp: jrtc_router_bf_add_def)
  then show ?thesis
    using bmap.test_sets [of "bf_bitmap f" "map (bf_index f e) [0..<nat (bf_n_hash f)]" j]
      assms bf_index_bound [OF assms(1)]
    by (auto simp: bf_wf_def)
qed

lemma bf_contains_add_mono:
  assumes "bf_wf f" and "jrtc_router_bf_add (Some f) e' = Some f'"
    and "e = e' \<or> jrtc_router_bf_contains (Some f) e"
  shows "jrtc_router_bf_contains (Some f') e"
  using assms bf_test_add [OF assms(1,2)] bf_index_bound [OF assms(1)] bf_add_frame [OF assms(2,1)]
  by (auto simp: jrtc_router_bf_contains_def list_all_iff)

section \<open>Extraction\<close>

lemma bf_extract_loop_bits:
  assumes "unat bits + card (bm_rest it) \<le> unat n"
  shows "bit (bf_extract_loop it bits r n) k \<longleftrightarrow> bit r k \<or> (k \<in> bm_rest it \<and> k < 64)"
  using assms
proof (induction it bits r n rule: bf_extract_loop.induct)
  case (1 it bits r n)
  show ?case
  proof (cases "bm_rest it = {}")
    case True
    then show ?thesis by (simp add: bf_extract_loop.simps bitmap_has_next)
  next
    case ne: False
    have fin: "finite (bm_rest it)" by (simp add: bm_rest_def)
    from bitmap_next_Min [OF ne] obtain i where
      nxt: "jrtc_router_bitmap_iterator_next it = (i, it\<lparr>it_index := i + 1\<rparr>)"
      and min: "unat i = Min (bm_rest it)" and lt: "i < bm_size (it_bitmap it)" by blast
    have rest: "bm_rest (it\<lparr>it_index := i + 1\<rparr>) = bm_rest it - {unat i}"
      by (rule bitmap_next_rest [OF ne min lt])
    have mem: "unat i \<in> bm_rest it" using Min_in [OF fin ne] min by simp
    have card: "card (bm_rest it) = Suc (card (bm_rest it - {unat i}))"
      using card_Suc_Diff1 [OF fin mem] by simp
    have "bits < n" using 1(2) card by (simp add: word_less_nat_alt)
    then have bits: "unat (bits + 1) = Suc (unat bits)" by (rule u32_Suc_bound)
    have le: "\<not> n < bits + 1" using 1(2) card bits by (simp add: word_less_nat_alt)
    have "bit (bf_extract_loop (it\<lparr>it_index := i + 1\<rparr>) (bits + 1) (r OR push_bit (unat i) 1) n) k
        \<longleftrightarrow> bit (r OR push_bit (unat i) 1) k \<or> (k \<in> bm_rest it - {unat i} \<and> k < 64)"
      using 1(1) [OF _ le nxt [symmetric]] 1(2) ne card bits rest by (simp add: bitmap_has_next)
    moreover have "bit (push_bit (unat i) (1::u64)) k \<longleftrightarrow> k = unat i \<and> k < 64"
      by (auto simp: bit_exp_iff)
    ultimately show ?thesis
      using ne le nxt mem
      by (subst bf_extract_loop.simps) (auto simp: bitmap_has_next bit_or_iff)
  qed
qed


section \<open>The hash of a name\<close>

text \<open>The indices that the 38 hash functions give a name.\<close>

definition name_bits :: "string \<Rightarrow> nat set" where
  "name_bits name = (\<lambda>i. unat (MurmurHash64A (c_bytes name) (of_nat i)) mod 54) ` {..<38}"

lemma name_bits_bound: "k \<in> name_bits name \<Longrightarrow> k < 54"
  by (auto simp: name_bits_def)

lemma name_bits_finite [simp]: "finite (name_bits name)"
  by (simp add: name_bits_def)

lemma name_bits_card: "card (name_bits name) \<le> 38"
  unfolding name_bits_def by (rule order_trans [OF card_image_le]) auto

lemma name_bits_nonempty: "name_bits name \<noteq> {}"
  using lessThan_iff [of 0 "38::nat"] by (auto simp: name_bits_def simp del: lessThan_iff)

lemma bf_init_filter:
  assumes "jrtc_router_bitmap_create m 54 = Inr (Some b, m')"
  shows "bf_wf \<lparr>bf_bitmap = Some b, bf_bit_size = 54, bf_n_hash = 38\<rparr> \<and> bm_bits b = {} \<and> bm_size b = 54"
  using bitmap_create_Some [OF assms]
  by (simp add: bf_wf_def bitmap_ref_wf_def bitmap_ref_bound_def)

lemma bf_add_name_bits:
  assumes "bf_wf f" and "bf_bitmap f = Some b" and "bm_bits b = {}" and "bf_bit_size f = 54"
    and "bf_n_hash f = 38" and "jrtc_router_bf_add (Some f) (c_bytes name) = Some f'"
  shows "\<exists>b'. bf_bitmap f' = Some b' \<and> bm_bits b' = name_bits name \<and> bm_self b' = bm_self b \<and>
    bm_ptr b' = bm_ptr b"
proof -
  have frame: "\<exists>b'. foldl jrtc_router_bitmap_set (Some b) is = Some b' \<and> bm_self b' = bm_self b \<and>
      bm_ptr b' = bm_ptr b" for "is"
  proof (induction "is" arbitrary: b)
    case Nil
    then show ?case by simp
  next
    case (Cons i "is")
    obtain c where c: "jrtc_router_bitmap_set (Some b) i = Some c"
      using bitmap_set_total by blast
    with Cons [of c] show ?case by (auto simp: bitmap_set_frame [OF c])
  qed
  from this [of "map (bf_index f (c_bytes name)) [0..<nat (bf_n_hash f)]"]
  obtain b' where b': "bf_bitmap f' = Some b'" "bm_self b' = bm_self b" "bm_ptr b' = bm_ptr b"
    using assms(2,6) by (auto simp: jrtc_router_bf_add_def)
  have size: "unat (bm_size b) = 54" "unat (bm_size b') = 54"
    using bf_add_frame(1,3) [OF assms(6,1)] assms(1,2,4) b'(1)
    by (auto simp: bf_wf_def bitmap_ref_bound_def)
  have "k \<in> bm_bits b' \<longleftrightarrow> k \<in> name_bits name" if k: "k < 54" for k
  proof -
    let ?j = "of_nat k :: u32"
    have j: "unat ?j = k" using k by (simp add: unsigned_of_nat take_bit_nat_eq_self)
    have "k \<in> bm_bits b' \<longleftrightarrow> jrtc_router_bitmap_get (bf_bitmap f') ?j \<noteq> 0"
      using k size by (simp add: b' bitmap_get_bits j word_less_nat_alt)
    also have "\<dots> \<longleftrightarrow> (\<exists>i < 38. ?j = bf_index f (c_bytes name) i)"
      using bf_test_add [OF assms(1,6), of ?j] assms(2-5) k size
      by (simp add: bitmap_ref_bound_def bitmap_get_bits j word_less_nat_alt)
    also have "\<dots> \<longleftrightarrow> k \<in> name_bits name"
      using bf_index_value [of f "c_bytes name"] assms(4)
      by (auto simp: name_bits_def word_unat_eq_iff j)
    finally show ?thesis .
  qed
  then have "bm_bits b' = name_bits name"
    using size(2) bm_bits_bound [of _ b'] name_bits_bound [of _ name] by (metis set_eqI)
  with b' show ?thesis by blast
qed

text \<open>\<open>jrtc_router_get_hash\<close> never commits undefined behaviour, leaves nothing allocated, and either
  ran out of memory (and returns 0) or returns the word whose set bits are the name's indices.\<close>

lemma get_hash_cases:
  assumes "mem_wf m"
  shows "\<exists>v m'. jrtc_router_get_hash m name = Inr (v, m') \<and> live m' = live m \<and> mem_wf m' \<and>
    oom m' = oom m \<and>
    ((v = 0 \<and> (\<exists>k. oom m k)) \<or> (\<forall>k. bit v k \<longleftrightarrow> k \<in> name_bits name))"
proof -
  from bitmap_create_mem [OF assms, of 54] obtain r m1 where
    c: "jrtc_router_bitmap_create m 54 = Inr (r, m1)" "mem_wf m1" "oom m1 = oom m" and
    r: "case r of None \<Rightarrow> live m1 = live m \<and> (\<exists>k. oom m k)
        | Some b \<Rightarrow> live m1 = insert (bm_ptr b) (insert (bm_self b) (live m)) \<and>
            bm_self b \<notin> live m \<and> bm_ptr b \<notin> live m \<and> bm_ptr b \<noteq> bm_self b" by blast
  note bf_consts = JRTC_ROUTER_HASH_NUMBER_BITS_def JRTC_ROUTER_NUM_HASH_FUNCTIONS_def
  show ?thesis
  proof (cases r)
    case None
    with c r show ?thesis
      by (auto simp: jrtc_router_get_hash_def jrtc_router_bf_init_def bf_consts)
  next
    case (Some b)
    let ?f = "\<lparr>bf_bitmap = Some b, bf_bit_size = 54, bf_n_hash = 38\<rparr>"
    from bf_init_filter [OF c(1) [unfolded Some]]
    have f: "bf_wf ?f" "bm_bits b = {}" "bm_size b = 54" by auto
    obtain f' where f': "jrtc_router_bf_add (Some ?f) (c_bytes name) = Some f'"
      using bf_add_total by blast
    from bf_add_name_bits [OF f(1) _ f(2) _ _ f'] obtain b' where
      b': "bf_bitmap f' = Some b'" "bm_bits b' = name_bits name" "bm_self b' = bm_self b"
        "bm_ptr b' = bm_ptr b" by auto
    let ?v = "bf_extract_loop (jrtc_router_bitmap_init_iterator b') 0 0 54"
    have ex: "jrtc_router_bf_extract_bits f' 54 = Inr ?v"
      using bf_add_frame(1) [OF f' f(1)] b'(1) by (simp add: jrtc_router_bf_extract_bits_def)
    have bits: "bit ?v k \<longleftrightarrow> k \<in> name_bits name" for k
      using bf_extract_loop_bits [of 0 "jrtc_router_bitmap_init_iterator b'" 54 0 k]
        name_bits_card [of name] name_bits_bound [of k name]
      by (auto simp: bm_rest_init b')
    have ds: "jrtc_router_bf_destroy m1 (Some f') = Inr (m1\<lparr>live := live m1 - {bm_ptr b, bm_self b}\<rparr>)"
      using r Some bitmap_destroy_mem [of b' m1] by (simp add: jrtc_router_bf_destroy_def b')
    have "jrtc_router_get_hash m name = Inr (?v, m1\<lparr>live := live m1 - {bm_ptr b, bm_self b}\<rparr>)"
      using c(1) Some f' ex ds
      by (simp add: jrtc_router_get_hash_def jrtc_router_bf_init_def bf_consts)
    moreover have "live m1 - {bm_ptr b, bm_self b} = live m"
      using r Some by auto
    ultimately show ?thesis using c bits by (auto simp: mem_wf_def)
  qed
qed

section \<open>Properties\<close>

lemma bf_add_wf:
  assumes "bf_wf f" and "jrtc_router_bf_add (Some f) e = Some f'"
  shows "bf_wf f'"
  using bf_add_frame [OF assms(2,1)] assms(1) by (simp add: bf_wf_def)

lemma bf_adds_contain:
  assumes "bf_wf f" and "e \<in> set es \<or> jrtc_router_bf_contains (Some f) e"
  shows "jrtc_router_bf_contains (foldl jrtc_router_bf_add (Some f) es) e"
  using assms
proof (induction es arbitrary: f)
  case (Cons a es)
  obtain f' where f': "jrtc_router_bf_add (Some f) a = Some f'" using bf_add_total by blast
  have "e \<in> set es \<or> jrtc_router_bf_contains (Some f') e"
    using Cons.prems bf_contains_add_mono [OF Cons.prems(1) f'] by auto
  with Cons.IH [OF bf_add_wf [OF Cons.prems(1) f']] show ?case by (simp add: f')
qed simp

text \<open>C25: a Bloom filter has no false negatives.  After any sequence of additions to a well-formed
  filter, every element that was added, and every element that was found before, is found.\<close>

theorem bloom_no_false_negatives:
  assumes "bf_wf f" and "e \<in> set es \<or> jrtc_router_bf_contains (Some f) e"
  shows "jrtc_router_bf_contains (foldl jrtc_router_bf_add (Some f) es) e"
  using assms by (rule bf_adds_contain)

definition bf_ex :: jrtc_router_bf where
  "bf_ex = \<lparr>bf_bitmap = Some \<lparr>bm_self = 1, bm_size = 54, bm_ptr = 2, bm_data = [0, 0]\<rparr>,
            bf_bit_size = 54, bf_n_hash = 38\<rparr>"

theorem bloom_no_false_negatives_witness:
  "jrtc_router_bf_contains (foldl jrtc_router_bf_add (Some bf_ex) [c_bytes ''map1'', c_bytes ''map2'']) (c_bytes ''map1'')"
  using bloom_no_false_negatives [of bf_ex "c_bytes ''map1''" "[c_bytes ''map1'', c_bytes ''map2'']"]
  by (simp add: bf_wf_def bf_ex_def bitmap_ref_wf_def bitmap_ref_bound_def bitmap_wf_def bitmap_words_def)

text \<open>C24: \<open>jrtc_router_get_hash\<close> never commits undefined behaviour and frees everything it allocates.
  Unless memory ran out, when it returns 0, its result has the bits of the name's 38 hash values set
  and no others; it is therefore neither 0 nor the wildcard value with all 54 bits set.\<close>

theorem get_hash_spec:
  assumes "mem_wf m"
  shows "\<exists>v m'. jrtc_router_get_hash m name = Inr (v, m') \<and> live m' = live m \<and> mem_wf m' \<and>
    ((v = 0 \<and> (\<exists>k. oom m k)) \<or>
     (v \<noteq> 0 \<and> v \<noteq> mask 54 \<and> (\<forall>k. bit v k \<longleftrightarrow> k \<in> name_bits name)))"
proof -
  have "v \<noteq> 0 \<and> v \<noteq> mask 54" if b: "\<forall>k. bit v k \<longleftrightarrow> k \<in> name_bits name" for v :: u64
  proof
    obtain k where "k \<in> name_bits name" using name_bits_nonempty [of name] by blast
    then have "bit v k" using b by blast
    then show "v \<noteq> 0" by (metis bit_0_eq bot_apply bot_bool_def)
    show "v \<noteq> mask 54"
    proof
      assume "v = mask 54"
      then have "k \<in> name_bits name" if "k < 54" for k
        using b [THEN spec, of k] that by (simp add: bit_mask_iff)
      then have "name_bits name = {..<54}" using name_bits_bound [of _ name] by blast
      then show False using name_bits_card [of name] by simp
    qed
  qed
  moreover obtain v m' where "jrtc_router_get_hash m name = Inr (v, m')" "live m' = live m" "mem_wf m'"
    "v = 0 \<and> (\<exists>k. oom m k) \<or> (\<forall>k. bit v k \<longleftrightarrow> k \<in> name_bits name)"
    using get_hash_cases [OF assms, of name] by blast
  ultimately show ?thesis by metis
qed

theorem get_hash_spec_witness:
  "\<exists>v m'. jrtc_router_get_hash \<lparr>live = {3}, next_addr = 7, oom = \<lambda>_. False\<rparr> ''map1'' = Inr (v, m') \<and>
    live m' = {3} \<and> v \<noteq> 0 \<and> v \<noteq> mask 54"
  using get_hash_spec [of "\<lparr>live = {3}, next_addr = 7, oom = \<lambda>_. False\<rparr>" "''map1''"]
  by (auto simp: mem_wf_def)

end
