(* ===== verification/Stream_Id.thy ===== *)
theory Stream_Id
  imports Bloom
begin

text \<open>
  Stream identifiers: \<open>src/stream_id/jrtc_router_stream_id.h\<close> and \<open>jrtc_router_stream_id.c\<close>.  An id is
  an array of \<open>JBPF_IO_STREAM_ID_LEN\<close> \<open>char\<close>, a length the jbpf headers declare; the macros index it up
  to 15 and its fields fill 128 bits, so the lemmas are about lists of length 16.  Whether \<open>char\<close> is signed depends on the target (signed on x86-64, unsigned
  on arm64), and the macros read the array through it, so every macro takes that choice as its
  first argument \<open>sc\<close>.
\<close>

type_synonym stream_id = "u8 list"

definition JRTC_ROUTER_STREAM_ID_VERSION :: u32 where
  "JRTC_ROUTER_STREAM_ID_VERSION = 0"

definition JRTC_ROUTER_DEST_NONE :: u32 where
  "JRTC_ROUTER_DEST_NONE = 0x1"

definition JRTC_ROUTER_DEST_UDP :: u32 where
  "JRTC_ROUTER_DEST_UDP = 0x2"

definition JRTC_ROUTER_DEST_ANY :: u32 where
  "JRTC_ROUTER_DEST_ANY = 0x7F"

definition JRTC_ROUTER_DEVICE_ID_ANY :: u32 where
  "JRTC_ROUTER_DEVICE_ID_ANY = 0x7F"

definition JRTC_ROUTER_STREAM_PATH_ANY :: u64 where
  "JRTC_ROUTER_STREAM_PATH_ANY = 0x3FFFFFFFFFFFFF"

definition JRTC_ROUTER_STREAM_NAME_ANY :: u64 where
  "JRTC_ROUTER_STREAM_NAME_ANY = 0x3FFFFFFFFFFFFF"

text \<open>The bit-field structure; each member is read at its promoted type.\<close>

record jrtc_router_stream_id_int =
  ver :: u32
  fwd_dst :: u32
  device_id :: u32
  stream_path :: u64
  stream_name :: u64

section \<open>Reading a char\<close>

definition char_int :: "bool \<Rightarrow> u8 \<Rightarrow> u32" where
  "char_int sc c = (if sc then scast c else ucast c)"

definition char_u64 :: "bool \<Rightarrow> u8 \<Rightarrow> u64" where
  "char_u64 sc c = (if sc then scast c else ucast c)"

section \<open>The setter macros\<close>

definition set_ver_m :: "bool \<Rightarrow> stream_id \<Rightarrow> u32 \<Rightarrow> stream_id" where
  "set_ver_m sc s v = s[0 := ucast (push_bit 2 v OR (char_int sc (s ! 0) AND 0x03))]"

definition set_fwd_dst_m :: "bool \<Rightarrow> stream_id \<Rightarrow> u32 \<Rightarrow> stream_id" where
  "set_fwd_dst_m sc s v =
     (let s = s[0 := ucast ((char_int sc (s ! 0) AND 0xFC) OR drop_bit 5 (v AND 0x7F))]
      in s[1 := ucast (push_bit 3 (v AND 0x1F) OR (char_int sc (s ! 1) AND 0x07))])"

definition set_device_id_m :: "bool \<Rightarrow> stream_id \<Rightarrow> u32 \<Rightarrow> stream_id" where
  "set_device_id_m sc s v =
     (let s = s[1 := ucast ((char_int sc (s ! 1) AND 0xF8) OR (drop_bit 4 v AND 0x07))]
      in s[2 := ucast (push_bit 4 (v AND 0x0F) OR (char_int sc (s ! 2) AND 0x0F))])"

definition set_stream_path_m :: "bool \<Rightarrow> stream_id \<Rightarrow> u64 \<Rightarrow> stream_id" where
  "set_stream_path_m sc s v =
     (let s = s[2 := ucast (char_u64 sc (s ! 2) AND 0xF0 OR (drop_bit 50 v AND 0x0F))];
          s = s[3 := ucast (drop_bit 42 v AND 0xFF)];
          s = s[4 := ucast (drop_bit 34 v AND 0xFF)];
          s = s[5 := ucast (drop_bit 26 v AND 0xFF)];
          s = s[6 := ucast (drop_bit 18 v AND 0xFF)];
          s = s[7 := ucast (drop_bit 10 v AND 0xFF)];
          s = s[8 := ucast (drop_bit 2 v AND 0xFF)]
      in s[9 := ucast (push_bit 6 (v AND 0x03) OR (char_u64 sc (s ! 9) AND 0x3F))])"

definition set_stream_name_m :: "bool \<Rightarrow> stream_id \<Rightarrow> u64 \<Rightarrow> stream_id" where
  "set_stream_name_m sc s v =
     (let s = s[9 := ucast (char_u64 sc (s ! 9) AND 0xC0 OR (drop_bit 48 v AND 0x3F))];
          s = s[10 := ucast (drop_bit 40 v AND 0xFF)];
          s = s[11 := ucast (drop_bit 32 v AND 0xFF)];
          s = s[12 := ucast (drop_bit 24 v AND 0xFF)];
          s = s[13 := ucast (drop_bit 16 v AND 0xFF)];
          s = s[14 := ucast (drop_bit 8 v AND 0xFF)]
      in s[15 := ucast (v AND 0xFF)])"

section \<open>The mask macros\<close>

text \<open>The same stores with \<open>|=\<close>: a field is widened towards its wildcard value.\<close>

definition or_at :: "stream_id \<Rightarrow> nat \<Rightarrow> u8 \<Rightarrow> stream_id" where
  "or_at s i b = s[i := s ! i OR b]"

definition apply_ver_mask :: "bool \<Rightarrow> stream_id \<Rightarrow> u32 \<Rightarrow> stream_id" where
  "apply_ver_mask sc s v = or_at s 0 (ucast (push_bit 2 v OR (char_int sc (s ! 0) AND 0x03)))"

definition apply_fwd_dst_mask :: "bool \<Rightarrow> stream_id \<Rightarrow> u32 \<Rightarrow> stream_id" where
  "apply_fwd_dst_mask sc s v =
     (let s = or_at s 0 (ucast ((char_int sc (s ! 0) AND 0xFC) OR drop_bit 5 (v AND 0x7F)))
      in or_at s 1 (ucast (push_bit 3 (v AND 0x1F) OR (char_int sc (s ! 1) AND 0x07))))"

definition apply_device_id_mask :: "bool \<Rightarrow> stream_id \<Rightarrow> u32 \<Rightarrow> stream_id" where
  "apply_device_id_mask sc s v =
     (let s = or_at s 1 (ucast ((char_int sc (s ! 1) AND 0xF8) OR (drop_bit 4 v AND 0x07)))
      in or_at s 2 (ucast (push_bit 4 (v AND 0x0F) OR (char_int sc (s ! 2) AND 0x0F))))"

definition apply_stream_path_mask :: "bool \<Rightarrow> stream_id \<Rightarrow> u64 \<Rightarrow> stream_id" where
  "apply_stream_path_mask sc s v =
     (let s = or_at s 2 (ucast (char_u64 sc (s ! 2) AND 0xF0 OR (drop_bit 50 v AND 0x0F)));
          s = or_at s 3 (ucast (drop_bit 42 v AND 0xFF));
          s = or_at s 4 (ucast (drop_bit 34 v AND 0xFF));
          s = or_at s 5 (ucast (drop_bit 26 v AND 0xFF));
          s = or_at s 6 (ucast (drop_bit 18 v AND 0xFF));
          s = or_at s 7 (ucast (drop_bit 10 v AND 0xFF));
          s = or_at s 8 (ucast (drop_bit 2 v AND 0xFF))
      in or_at s 9 (ucast (push_bit 6 (v AND 0x03) OR (char_u64 sc (s ! 9) AND 0x3F))))"

definition apply_stream_name_mask :: "bool \<Rightarrow> stream_id \<Rightarrow> u64 \<Rightarrow> stream_id" where
  "apply_stream_name_mask sc s v =
     (let s = or_at s 9 (ucast (char_u64 sc (s ! 9) AND 0xC0 OR (drop_bit 48 v AND 0x3F)));
          s = or_at s 10 (ucast (drop_bit 40 v AND 0xFF));
          s = or_at s 11 (ucast (drop_bit 32 v AND 0xFF));
          s = or_at s 12 (ucast (drop_bit 24 v AND 0xFF));
          s = or_at s 13 (ucast (drop_bit 16 v AND 0xFF));
          s = or_at s 14 (ucast (drop_bit 8 v AND 0xFF))
      in or_at s 15 (ucast (v AND 0xFF)))"

section \<open>The getter macros\<close>

text \<open>\<open>>>\<close> on an \<open>int\<close> is the arithmetic shift; the result is converted to \<open>uint16_t\<close>.\<close>

definition get_ver_m :: "bool \<Rightarrow> stream_id \<Rightarrow> u16" where
  "get_ver_m sc s = ucast (signed_drop_bit 2 (char_int sc (s ! 0)) AND 0x3F)"

definition get_fwd_dst_m :: "bool \<Rightarrow> stream_id \<Rightarrow> u16" where
  "get_fwd_dst_m sc s =
     ucast (push_bit 5 (char_int sc (s ! 0) AND 0x03) OR
            (signed_drop_bit 3 (char_int sc (s ! 1)) AND 0x1F))"

definition get_device_id_m :: "bool \<Rightarrow> stream_id \<Rightarrow> u16" where
  "get_device_id_m sc s =
     ucast (push_bit 4 (char_int sc (s ! 1) AND 0x07) OR
            (signed_drop_bit 4 (char_int sc (s ! 2)) AND 0x0F))"

definition get_stream_path_m :: "bool \<Rightarrow> stream_id \<Rightarrow> u64" where
  "get_stream_path_m sc s =
     push_bit 50 (char_u64 sc (s ! 2) AND 0x0F) OR push_bit 42 (char_u64 sc (s ! 3)) OR
     push_bit 34 (char_u64 sc (s ! 4)) OR push_bit 26 (char_u64 sc (s ! 5)) OR
     push_bit 18 (char_u64 sc (s ! 6)) OR push_bit 10 (char_u64 sc (s ! 7)) OR
     push_bit 2 (char_u64 sc (s ! 8)) OR drop_bit 6 (char_u64 sc (s ! 9) AND 0xC0)"

definition get_stream_name_m :: "bool \<Rightarrow> stream_id \<Rightarrow> u64" where
  "get_stream_name_m sc s =
     push_bit 48 (char_u64 sc (s ! 9) AND 0x3F) OR push_bit 40 (char_u64 sc (s ! 10)) OR
     push_bit 32 (char_u64 sc (s ! 11)) OR push_bit 24 (char_u64 sc (s ! 12)) OR
     push_bit 16 (char_u64 sc (s ! 13)) OR push_bit 8 (char_u64 sc (s ! 14)) OR
     char_u64 sc (s ! 15)"

section \<open>The functions over a stream id pointer\<close>

text \<open>A null pointer is \<open>None\<close>; the setters then do nothing and the getters return 0.\<close>

definition jrtc_router_stream_id_set_ver :: "bool \<Rightarrow> stream_id option \<Rightarrow> u16 \<Rightarrow> stream_id option" where
  "jrtc_router_stream_id_set_ver sc sid v =
     (case sid of None \<Rightarrow> None | Some s \<Rightarrow> Some (set_ver_m sc s (ucast v)))"

definition jrtc_router_stream_id_set_fwd_dst :: "bool \<Rightarrow> stream_id option \<Rightarrow> u16 \<Rightarrow> stream_id option" where
  "jrtc_router_stream_id_set_fwd_dst sc sid v =
     (case sid of None \<Rightarrow> None | Some s \<Rightarrow> Some (set_fwd_dst_m sc s (ucast v)))"

definition jrtc_router_stream_id_set_device_id :: "bool \<Rightarrow> stream_id option \<Rightarrow> u16 \<Rightarrow> stream_id option" where
  "jrtc_router_stream_id_set_device_id sc sid v =
     (case sid of None \<Rightarrow> None | Some s \<Rightarrow> Some (set_device_id_m sc s (ucast v)))"

definition jrtc_router_stream_id_set_stream_path :: "bool \<Rightarrow> stream_id option \<Rightarrow> u64 \<Rightarrow> stream_id option" where
  "jrtc_router_stream_id_set_stream_path sc sid v =
     (case sid of None \<Rightarrow> None | Some s \<Rightarrow> Some (set_stream_path_m sc s v))"

definition jrtc_router_stream_id_set_stream_name :: "bool \<Rightarrow> stream_id option \<Rightarrow> u64 \<Rightarrow> stream_id option" where
  "jrtc_router_stream_id_set_stream_name sc sid v =
     (case sid of None \<Rightarrow> None | Some s \<Rightarrow> Some (set_stream_name_m sc s v))"

definition jrtc_router_stream_id_get_ver :: "bool \<Rightarrow> stream_id option \<Rightarrow> u16" where
  "jrtc_router_stream_id_get_ver sc sid = (case sid of None \<Rightarrow> 0 | Some s \<Rightarrow> get_ver_m sc s)"

definition jrtc_router_stream_id_get_fwd_dst :: "bool \<Rightarrow> stream_id option \<Rightarrow> u16" where
  "jrtc_router_stream_id_get_fwd_dst sc sid = (case sid of None \<Rightarrow> 0 | Some s \<Rightarrow> get_fwd_dst_m sc s)"

definition jrtc_router_stream_id_get_device_id :: "bool \<Rightarrow> stream_id option \<Rightarrow> u16" where
  "jrtc_router_stream_id_get_device_id sc sid = (case sid of None \<Rightarrow> 0 | Some s \<Rightarrow> get_device_id_m sc s)"

definition jrtc_router_stream_id_get_stream_path :: "bool \<Rightarrow> stream_id option \<Rightarrow> u64" where
  "jrtc_router_stream_id_get_stream_path sc sid = (case sid of None \<Rightarrow> 0 | Some s \<Rightarrow> get_stream_path_m sc s)"

definition jrtc_router_stream_id_get_stream_name :: "bool \<Rightarrow> stream_id option \<Rightarrow> u64" where
  "jrtc_router_stream_id_get_stream_name sc sid = (case sid of None \<Rightarrow> 0 | Some s \<Rightarrow> get_stream_name_m sc s)"

section \<open>Generating an id\<close>

text \<open>\<open>memset\<close> clears the whole array.  The bit-fields keep the low 7 bits of \<open>fwd_dst\<close> and \<open>device_id\<close>
  and the low 54 bits of the two hashes.  A null path or name stands for every path or name.\<close>

definition field_hash :: "mem \<Rightarrow> u64 \<Rightarrow> string option \<Rightarrow> ub + (u64 \<times> mem)" where
  "field_hash m any str =
     (case str of None \<Rightarrow> Inr (any, m) | Some x \<Rightarrow> jrtc_router_get_hash m x)"

definition bitfields :: "u32 \<Rightarrow> u32 \<Rightarrow> u64 \<Rightarrow> u64 \<Rightarrow> jrtc_router_stream_id_int" where
  "bitfields fd dev ph nh =
     \<lparr>ver = take_bit 6 JRTC_ROUTER_STREAM_ID_VERSION, fwd_dst = take_bit 7 fd, device_id = take_bit 7 dev,
      stream_path = take_bit 54 ph, stream_name = take_bit 54 nh\<rparr>"

definition set_all_m :: "bool \<Rightarrow> stream_id \<Rightarrow> jrtc_router_stream_id_int \<Rightarrow> stream_id" where
  "set_all_m sc s i =
     (let s = set_ver_m sc s (ver i);
          s = set_fwd_dst_m sc s (fwd_dst i);
          s = set_device_id_m sc s (device_id i);
          s = set_stream_path_m sc s (stream_path i)
      in set_stream_name_m sc s (stream_name i))"

definition jrtc_router_generate_stream_id ::
    "bool \<Rightarrow> mem \<Rightarrow> stream_id option \<Rightarrow> u32 \<Rightarrow> u32 \<Rightarrow> string option \<Rightarrow> string option \<Rightarrow>
     ub + (int \<times> stream_id option \<times> mem)" where
  "jrtc_router_generate_stream_id sc m sid fd dev sp sn =
     (case sid of
        None \<Rightarrow> Inr (-1, None, m)
      | Some s \<Rightarrow>
          (let s = replicate (length s) 0 in
           bindS (field_hash m JRTC_ROUTER_STREAM_PATH_ANY sp) (\<lambda>(ph, m).
           bindS (field_hash m JRTC_ROUTER_STREAM_NAME_ANY sn) (\<lambda>(nh, m).
             if ph = 0 \<or> nh = 0 then Inr (-1, Some s, m)
             else Inr (1, Some (set_all_m sc s (bitfields fd dev ph nh)), m)))))"

section \<open>Matching an id against a request\<close>

text \<open>The loop compares the arrays as four \<open>int\<close>s.\<close>

definition sid_int :: "stream_id \<Rightarrow> nat \<Rightarrow> u32" where
  "sid_int s j = le32 (drop (4 * j) s)"

definition jrtc_router_stream_id_matches_req :: "stream_id \<Rightarrow> stream_id \<Rightarrow> bool" where
  "jrtc_router_stream_id_matches_req sid req \<longleftrightarrow>
     list_all (\<lambda>j. sid_int sid j AND sid_int req j = sid_int sid j) [0..<4]"

text \<open>The field comparisons cast the array to the bit-field structure.  In the System V layout a
  bit-field never crosses a boundary of its declared type, so the fields start at bits 0, 6, 16,
  64 and 128 of the structure, counted from the least significant bit of byte 0.  Reading a field
  that lies beyond the 16 bytes of the id is undefined.\<close>

definition struct_field :: "nat \<Rightarrow> nat \<Rightarrow> stream_id \<Rightarrow> ub + nat" where
  "struct_field off len s =
     (if off + len \<le> 8 * length s
      then Inr (horner_sum of_bool 2 (map (\<lambda>k. bit (s ! ((off + k) div 8)) ((off + k) mod 8)) [0..<len]))
      else Inl OutOfBounds)"

definition struct_field_matches :: "nat \<Rightarrow> nat \<Rightarrow> stream_id \<Rightarrow> stream_id \<Rightarrow> ub + bool" where
  "struct_field_matches off len sid req =
     bindS (struct_field off len sid) (\<lambda>a.
     bindS (struct_field off len req) (\<lambda>b. Inr (a AND b = a)))"

definition jrtc_router_stream_id_fwd_dst_matches_req :: "stream_id \<Rightarrow> stream_id \<Rightarrow> ub + bool" where
  "jrtc_router_stream_id_fwd_dst_matches_req = struct_field_matches 6 7"

definition jrtc_router_stream_id_device_id_matches_req :: "stream_id \<Rightarrow> stream_id \<Rightarrow> ub + bool" where
  "jrtc_router_stream_id_device_id_matches_req = struct_field_matches 16 7"

definition jrtc_router_stream_id_stream_path_matches_req :: "stream_id \<Rightarrow> stream_id \<Rightarrow> ub + bool" where
  "jrtc_router_stream_id_stream_path_matches_req = struct_field_matches 64 54"

definition jrtc_router_stream_id_stream_name_matches_req :: "stream_id \<Rightarrow> stream_id \<Rightarrow> ub + bool" where
  "jrtc_router_stream_id_stream_name_matches_req = struct_field_matches 128 54"

definition matches_req_export :: "stream_id \<Rightarrow> stream_id \<Rightarrow> bool" where
  "matches_req_export sid req = jrtc_router_stream_id_matches_req sid req"

definition get_device_id_export :: "bool \<Rightarrow> stream_id option \<Rightarrow> u16" where
  "get_device_id_export sc sid = jrtc_router_stream_id_get_device_id sc sid"

text \<open>An id as 128 numbered bits, the most significant bit of byte 0 first.\<close>

definition sid_bit :: "stream_id \<Rightarrow> nat \<Rightarrow> bool" where
  "sid_bit s n \<longleftrightarrow> n < 128 \<and> bit (s ! (15 - n div 8)) (n mod 8)"

section \<open>The macros bit by bit\<close>

lemma byte_FF:
  "bit (ucast ((v::u64) AND 0xFF) :: u8) r \<longleftrightarrow> r < 8 \<and> bit v r"
proof (cases "r < 8")
  case True
  then show ?thesis
    by (cases rule: less8E) (simp_all add: bits_simps char_int_def char_u64_def bit_signed_iff)
qed (auto dest: bit_imp_le_length)

lemma byte_ver:
  "bit (ucast (push_bit 2 (v::u32) OR (char_int sc c AND 0x03)) :: u8) r \<longleftrightarrow> (if r < 2 then bit c r else r < 8 \<and> bit v (r - 2))"
proof (cases "r < 8")
  case True
  then show ?thesis
    by (cases rule: less8E) (simp_all add: bits_simps char_int_def char_u64_def bit_signed_iff)
qed (auto dest: bit_imp_le_length)

lemma byte_fwd_hi:
  "bit (ucast ((char_int sc c AND 0xFC) OR (drop_bit 5 v AND 3)) :: u8) r \<longleftrightarrow> (if r < 2 then bit v (5 + r) else bit c r)"
proof (cases "r < 8")
  case True
  then show ?thesis
    by (cases rule: less8E) (simp_all add: bits_simps char_int_def char_u64_def bit_signed_iff)
qed (auto dest: bit_imp_le_length)

lemma byte_fwd_lo:
  "bit (ucast ((push_bit 3 v AND 248) OR (char_int sc c AND 0x07)) :: u8) r \<longleftrightarrow> (if r < 3 then bit c r else r < 8 \<and> bit v (r - 3))"
proof (cases "r < 8")
  case True
  then show ?thesis
    by (cases rule: less8E) (simp_all add: bits_simps char_int_def char_u64_def bit_signed_iff)
qed (auto dest: bit_imp_le_length)

lemma byte_dev_hi:
  "bit (ucast ((char_int sc c AND 0xF8) OR (drop_bit 4 v AND 0x07)) :: u8) r \<longleftrightarrow> (if r < 3 then bit v (4 + r) else bit c r)"
proof (cases "r < 8")
  case True
  then show ?thesis
    by (cases rule: less8E) (simp_all add: bits_simps char_int_def char_u64_def bit_signed_iff)
qed (auto dest: bit_imp_le_length)

lemma byte_dev_lo:
  "bit (ucast ((push_bit 4 v AND 240) OR (char_int sc c AND 0x0F)) :: u8) r \<longleftrightarrow> (if r < 4 then bit c r else r < 8 \<and> bit v (r - 4))"
proof (cases "r < 8")
  case True
  then show ?thesis
    by (cases rule: less8E) (simp_all add: bits_simps char_int_def char_u64_def bit_signed_iff)
qed (auto dest: bit_imp_le_length)

lemma byte_path_hi:
  "bit (ucast ((char_u64 sc c AND 0xF0) OR (drop_bit 50 v AND 0x0F)) :: u8) r \<longleftrightarrow> (if r < 4 then bit v (50 + r) else bit c r)"
proof (cases "r < 8")
  case True
  then show ?thesis
    by (cases rule: less8E) (simp_all add: bits_simps char_int_def char_u64_def bit_signed_iff)
qed (auto dest: bit_imp_le_length)

lemma byte_path_lo:
  "bit (ucast ((push_bit 6 v AND 192) OR (char_u64 sc c AND 0x3F)) :: u8) r \<longleftrightarrow> (if r < 6 then bit c r else r < 8 \<and> bit v (r - 6))"
proof (cases "r < 8")
  case True
  then show ?thesis
    by (cases rule: less8E) (simp_all add: bits_simps char_int_def char_u64_def bit_signed_iff)
qed (auto dest: bit_imp_le_length)

lemma byte_name_hi:
  "bit (ucast ((char_u64 sc c AND 0xC0) OR (drop_bit 48 v AND 0x3F)) :: u8) r \<longleftrightarrow> (if r < 6 then bit v (48 + r) else bit c r)"
proof (cases "r < 8")
  case True
  then show ?thesis
    by (cases rule: less8E) (simp_all add: bits_simps char_int_def char_u64_def bit_signed_iff)
qed (auto dest: bit_imp_le_length)

lemmas byte_simps = bit_drop_bit_eq byte_FF byte_ver byte_fwd_hi byte_fwd_lo byte_dev_hi byte_dev_lo
  byte_path_hi byte_path_lo byte_name_hi

lemma set_ver_m_bytes:
  assumes "length s = 16" and "q < 16" and "r < 8"
  shows "bit (set_ver_m sc s v ! q) r \<longleftrightarrow>
    (let n = 8 * (15 - q) + r in if 122 \<le> n \<and> n < 128 then bit v (n - 122) else bit (s ! q) r)"
  using assms(2) assms(3)
  by (cases rule: less16E)
    (simp_all add: assms(1) set_ver_m_def Let_def nth_list_update byte_simps)

lemma apply_ver_mask_bytes:
  assumes "length s = 16" and "q < 16" and "r < 8"
  shows "bit (apply_ver_mask sc s v ! q) r \<longleftrightarrow>
    (let n = 8 * (15 - q) + r in bit (s ! q) r \<or> 122 \<le> n \<and> n < 128 \<and> bit v (n - 122))"
  using assms(2) assms(3)
  by (cases rule: less16E)
    (auto simp: assms(1) apply_ver_mask_def or_at_def Let_def nth_list_update bit_or_iff byte_simps)

lemma set_fwd_dst_m_bytes:
  assumes "length s = 16" and "q < 16" and "r < 8"
  shows "bit (set_fwd_dst_m sc s v ! q) r \<longleftrightarrow>
    (let n = 8 * (15 - q) + r in if 115 \<le> n \<and> n < 122 then bit v (n - 115) else bit (s ! q) r)"
  using assms(2) assms(3)
  by (cases rule: less16E)
    (simp_all add: assms(1) set_fwd_dst_m_def Let_def nth_list_update byte_simps)

lemma apply_fwd_dst_mask_bytes:
  assumes "length s = 16" and "q < 16" and "r < 8"
  shows "bit (apply_fwd_dst_mask sc s v ! q) r \<longleftrightarrow>
    (let n = 8 * (15 - q) + r in bit (s ! q) r \<or> 115 \<le> n \<and> n < 122 \<and> bit v (n - 115))"
  using assms(2) assms(3)
  by (cases rule: less16E)
    (auto simp: assms(1) apply_fwd_dst_mask_def or_at_def Let_def nth_list_update bit_or_iff byte_simps)

lemma set_device_id_m_bytes:
  assumes "length s = 16" and "q < 16" and "r < 8"
  shows "bit (set_device_id_m sc s v ! q) r \<longleftrightarrow>
    (let n = 8 * (15 - q) + r in if 108 \<le> n \<and> n < 115 then bit v (n - 108) else bit (s ! q) r)"
  using assms(2) assms(3)
  by (cases rule: less16E)
    (simp_all add: assms(1) set_device_id_m_def Let_def nth_list_update byte_simps)

lemma apply_device_id_mask_bytes:
  assumes "length s = 16" and "q < 16" and "r < 8"
  shows "bit (apply_device_id_mask sc s v ! q) r \<longleftrightarrow>
    (let n = 8 * (15 - q) + r in bit (s ! q) r \<or> 108 \<le> n \<and> n < 115 \<and> bit v (n - 108))"
  using assms(2) assms(3)
  by (cases rule: less16E)
    (auto simp: assms(1) apply_device_id_mask_def or_at_def Let_def nth_list_update bit_or_iff byte_simps)

lemma set_stream_path_m_bytes:
  assumes "length s = 16" and "q < 16" and "r < 8"
  shows "bit (set_stream_path_m sc s v ! q) r \<longleftrightarrow>
    (let n = 8 * (15 - q) + r in if 54 \<le> n \<and> n < 108 then bit v (n - 54) else bit (s ! q) r)"
  using assms(2) assms(3)
  by (cases rule: less16E)
    (simp_all add: assms(1) set_stream_path_m_def Let_def nth_list_update byte_simps)

lemma apply_stream_path_mask_bytes:
  assumes "length s = 16" and "q < 16" and "r < 8"
  shows "bit (apply_stream_path_mask sc s v ! q) r \<longleftrightarrow>
    (let n = 8 * (15 - q) + r in bit (s ! q) r \<or> 54 \<le> n \<and> n < 108 \<and> bit v (n - 54))"
  using assms(2) assms(3)
  by (cases rule: less16E)
    (auto simp: assms(1) apply_stream_path_mask_def or_at_def Let_def nth_list_update bit_or_iff byte_simps)

lemma set_stream_name_m_bytes:
  assumes "length s = 16" and "q < 16" and "r < 8"
  shows "bit (set_stream_name_m sc s v ! q) r \<longleftrightarrow>
    (let n = 8 * (15 - q) + r in if n < 54 then bit v (n) else bit (s ! q) r)"
  using assms(2) assms(3)
  by (cases rule: less16E)
    (simp_all add: assms(1) set_stream_name_m_def Let_def nth_list_update byte_simps)

lemma apply_stream_name_mask_bytes:
  assumes "length s = 16" and "q < 16" and "r < 8"
  shows "bit (apply_stream_name_mask sc s v ! q) r \<longleftrightarrow>
    (let n = 8 * (15 - q) + r in bit (s ! q) r \<or> n < 54 \<and> bit v (n))"
  using assms(2) assms(3)
  by (cases rule: less16E)
    (auto simp: assms(1) apply_stream_name_mask_def or_at_def Let_def nth_list_update bit_or_iff byte_simps)

lemma sid_bit_at:
  assumes "q < 16" and "r < 8"
  shows "sid_bit s (8 * (15 - q) + r) \<longleftrightarrow> bit (s ! q) r"
proof -
  have "8 * (15 - q) + r < 128" using assms(2) by simp
  then show ?thesis using assms by (simp add: sid_bit_def)
qed

lemma sid_posE:
  assumes "n < (128::nat)"
  obtains q r where "q < 16" and "r < 8" and "n = 8 * (15 - q) + r"
proof
  show "15 - n div 8 < 16" "n mod 8 < 8" by simp_all
  show "n = 8 * (15 - (15 - n div 8)) + n mod 8" using assms by simp
qed

lemma get_ver_m_bits:
  assumes "length s = 16"
  shows "bit (get_ver_m sc s) k \<longleftrightarrow> k < 6 \<and> sid_bit s (122 + k)"
proof (cases "k < 16")
  case True
  then show ?thesis
    by (cases rule: less16E)
      (simp_all add: get_ver_m_def sid_bit_def bits_simps char_int_def bit_signed_drop_bit_iff bit_signed_iff)
qed (auto dest: bit_imp_le_length)

lemma get_fwd_dst_m_bits:
  assumes "length s = 16"
  shows "bit (get_fwd_dst_m sc s) k \<longleftrightarrow> k < 7 \<and> sid_bit s (115 + k)"
proof (cases "k < 16")
  case True
  then show ?thesis
    by (cases rule: less16E)
      (simp_all add: get_fwd_dst_m_def sid_bit_def bits_simps char_int_def bit_signed_drop_bit_iff bit_signed_iff)
qed (auto dest: bit_imp_le_length)

lemma get_device_id_m_bits:
  assumes "length s = 16"
  shows "bit (get_device_id_m sc s) k \<longleftrightarrow> k < 7 \<and> sid_bit s (108 + k)"
proof (cases "k < 16")
  case True
  then show ?thesis
    by (cases rule: less16E)
      (simp_all add: get_device_id_m_def sid_bit_def bits_simps char_int_def bit_signed_drop_bit_iff bit_signed_iff)
qed (auto dest: bit_imp_le_length)


lemma field_masks:
  "bit (16888498602639360::int) k \<longleftrightarrow> 50 \<le> k \<and> k < 54"
  "bit (17732923532771328::int) k \<longleftrightarrow> 48 \<le> k \<and> k < 54"
  "bit (3::int) k \<longleftrightarrow> k < 2"
proof -
  have m: "(16888498602639360::int) = push_bit 50 (mask 4)" "(17732923532771328::int) = push_bit 48 (mask 6)"
    "(3::int) = mask 2" by (simp_all add: mask_eq_exp_minus_1)
  show "bit (16888498602639360::int) k \<longleftrightarrow> 50 \<le> k \<and> k < 54"
    unfolding m(1) bit_push_bit_iff bit_mask_iff by auto
  show "bit (17732923532771328::int) k \<longleftrightarrow> 48 \<le> k \<and> k < 54"
    unfolding m(2) bit_push_bit_iff bit_mask_iff by auto
  show "bit (3::int) k \<longleftrightarrow> k < 2"
    unfolding m(3) bit_mask_iff by auto
qed
lemma get_stream_path_m_bytes:
  assumes "q < 16" and "r < 8" and "54 \<le> 8 * (15 - q) + r" and "8 * (15 - q) + r < 108"
  shows "bit (get_stream_path_m False s) (8 * (15 - q) + r - 54) = bit (s ! q) r"
  using assms
proof (cases rule: less16E)
  case 10
  then consider "r = 6" | "r = 7" using assms(2,3) by fastforce
  then show ?thesis
    by cases (simp_all add: 10 get_stream_path_m_def char_u64_def bits_simps)
qed (simp_all add: get_stream_path_m_def char_u64_def bits_simps bit_u8_ge field_masks)

lemma get_stream_path_m_high:
  assumes "54 \<le> k"
  shows "\<not> bit (get_stream_path_m False s) k"
  using assms by (simp add: get_stream_path_m_def char_u64_def bits_simps bit_u8_ge field_masks)

lemma get_stream_name_m_bytes:
  assumes "q < 16" and "r < 8" and "0 \<le> 8 * (15 - q) + r" and "8 * (15 - q) + r < 54"
  shows "bit (get_stream_name_m False s) (8 * (15 - q) + r - 0) = bit (s ! q) r"
  using assms
  by (cases rule: less16E) (simp_all add: get_stream_name_m_def char_u64_def bits_simps bit_u8_ge field_masks)

lemma get_stream_name_m_high:
  assumes "54 \<le> k"
  shows "\<not> bit (get_stream_name_m False s) k"
  using assms by (simp add: get_stream_name_m_def char_u64_def bits_simps bit_u8_ge field_masks)



end
