(* ===== verification/Stream_Id_Fields.thy ===== *)
theory Stream_Id_Fields
  imports Stream_Id
begin

text \<open>
  Stream ids as 128 numbered bits.  The five fields are intervals of these bits; the setters, mask
  macros and getters are instances of one field contract.  On top of it: what an id generated by
  \<open>jrtc_router_generate_stream_id\<close> contains, and what \<open>jrtc_router_stream_id_matches_req\<close> decides.
\<close>

section \<open>Bits of an id\<close>


lemma sid_eqI:
  assumes "length s = 16" and "length t = 16" and "\<And>n. n < 128 \<Longrightarrow> sid_bit s n = sid_bit t n"
  shows "s = t"
proof (rule nth_equalityI)
  fix q assume "q < length s"
  then have q: "q < 16" using assms(1) by simp
  show "s ! q = t ! q"
  proof (rule word_bitI)
    fix r assume r: "r < LENGTH(8)"
    then have "sid_bit s (8 * (15 - q) + r) = sid_bit t (8 * (15 - q) + r)"
      using assms(3) by simp
    then show "bit (s ! q) r = bit (t ! q) r" using q r by (simp add: sid_bit_at)
  qed
qed (simp add: assms)

text \<open>From statements about every bit of every byte to statements about the numbered bits.\<close>

lemma sid_put_bits:
  assumes "\<And>q r. q < 16 \<Longrightarrow> r < 8 \<Longrightarrow> bit (t ! q) r \<longleftrightarrow>
      (let n = 8 * (15 - q) + r in if P n then f n else bit (s ! q) r)"
    and "n < 128"
  shows "sid_bit t n \<longleftrightarrow> (if P n then f n else sid_bit s n)"
  using assms(2)
  by (rule sid_posE) (simp add: sid_bit_at assms(1) Let_def)

lemma sid_widen_bits:
  assumes "\<And>q r. q < 16 \<Longrightarrow> r < 8 \<Longrightarrow> bit (t ! q) r \<longleftrightarrow>
      (let n = 8 * (15 - q) + r in bit (s ! q) r \<or> P n)"
    and "n < 128"
  shows "sid_bit t n \<longleftrightarrow> sid_bit s n \<or> P n"
  using assms(2)
  by (rule sid_posE) (simp add: sid_bit_at assms(1) Let_def)

lemma field_lengths [simp]:
  "length (set_ver_m sc s v0) = length s"
  "length (apply_ver_mask sc s w0) = length s"
  "length (set_fwd_dst_m sc s v1) = length s"
  "length (apply_fwd_dst_mask sc s w1) = length s"
  "length (set_device_id_m sc s v2) = length s"
  "length (apply_device_id_mask sc s w2) = length s"
  "length (set_stream_path_m sc s v3) = length s"
  "length (apply_stream_path_mask sc s w3) = length s"
  "length (set_stream_name_m sc s v4) = length s"
  "length (apply_stream_name_mask sc s w4) = length s"
  by (simp_all add: set_ver_m_def apply_ver_mask_def set_fwd_dst_m_def apply_fwd_dst_mask_def set_device_id_m_def apply_device_id_mask_def set_stream_path_m_def apply_stream_path_mask_def set_stream_name_m_def apply_stream_name_mask_def
      or_at_def Let_def)

lemma set_ver_m_bits:
  assumes "length s = 16" and "n < 128"
  shows "sid_bit (set_ver_m sc s v) n \<longleftrightarrow>
    (if 122 \<le> n \<and> n < 128 then bit v (n - 122) else sid_bit s n)"
  using sid_put_bits [OF set_ver_m_bytes [OF assms(1)] assms(2)] by simp

lemma apply_ver_mask_bits:
  assumes "length s = 16" and "n < 128"
  shows "sid_bit (apply_ver_mask sc s v) n \<longleftrightarrow>
    sid_bit s n \<or> 122 \<le> n \<and> n < 128 \<and> bit v (n - 122)"
  using sid_widen_bits [OF apply_ver_mask_bytes [OF assms(1)] assms(2)] by simp

lemma set_fwd_dst_m_bits:
  assumes "length s = 16" and "n < 128"
  shows "sid_bit (set_fwd_dst_m sc s v) n \<longleftrightarrow>
    (if 115 \<le> n \<and> n < 122 then bit v (n - 115) else sid_bit s n)"
  using sid_put_bits [OF set_fwd_dst_m_bytes [OF assms(1)] assms(2)] by simp

lemma apply_fwd_dst_mask_bits:
  assumes "length s = 16" and "n < 128"
  shows "sid_bit (apply_fwd_dst_mask sc s v) n \<longleftrightarrow>
    sid_bit s n \<or> 115 \<le> n \<and> n < 122 \<and> bit v (n - 115)"
  using sid_widen_bits [OF apply_fwd_dst_mask_bytes [OF assms(1)] assms(2)] by simp

lemma set_device_id_m_bits:
  assumes "length s = 16" and "n < 128"
  shows "sid_bit (set_device_id_m sc s v) n \<longleftrightarrow>
    (if 108 \<le> n \<and> n < 115 then bit v (n - 108) else sid_bit s n)"
  using sid_put_bits [OF set_device_id_m_bytes [OF assms(1)] assms(2)] by simp

lemma apply_device_id_mask_bits:
  assumes "length s = 16" and "n < 128"
  shows "sid_bit (apply_device_id_mask sc s v) n \<longleftrightarrow>
    sid_bit s n \<or> 108 \<le> n \<and> n < 115 \<and> bit v (n - 108)"
  using sid_widen_bits [OF apply_device_id_mask_bytes [OF assms(1)] assms(2)] by simp

lemma set_stream_path_m_bits:
  assumes "length s = 16" and "n < 128"
  shows "sid_bit (set_stream_path_m sc s v) n \<longleftrightarrow>
    (if 54 \<le> n \<and> n < 108 then bit v (n - 54) else sid_bit s n)"
  using sid_put_bits [OF set_stream_path_m_bytes [OF assms(1)] assms(2)] by simp

lemma apply_stream_path_mask_bits:
  assumes "length s = 16" and "n < 128"
  shows "sid_bit (apply_stream_path_mask sc s v) n \<longleftrightarrow>
    sid_bit s n \<or> 54 \<le> n \<and> n < 108 \<and> bit v (n - 54)"
  using sid_widen_bits [OF apply_stream_path_mask_bytes [OF assms(1)] assms(2)] by simp

lemma set_stream_name_m_bits:
  assumes "length s = 16" and "n < 128"
  shows "sid_bit (set_stream_name_m sc s v) n \<longleftrightarrow>
    (if 0 \<le> n \<and> n < 54 then bit v (n - 0) else sid_bit s n)"
  using sid_put_bits [OF set_stream_name_m_bytes [OF assms(1)] assms(2)] by simp

lemma apply_stream_name_mask_bits:
  assumes "length s = 16" and "n < 128"
  shows "sid_bit (apply_stream_name_mask sc s v) n \<longleftrightarrow>
    sid_bit s n \<or> 0 \<le> n \<and> n < 54 \<and> bit v (n - 0)"
  using sid_widen_bits [OF apply_stream_name_mask_bytes [OF assms(1)] assms(2)] by simp

lemma get_stream_path_m_bits:
  assumes "length s = 16"
  shows "bit (get_stream_path_m False s) k \<longleftrightarrow> k < 54 \<and> sid_bit s (54 + k)"
proof (cases "k < 54")
  case True
  then have "54 + k < 128" by simp
  then obtain q r where q: "q < 16" "r < 8" and k: "54 + k = 8 * (15 - q) + r" by (rule sid_posE)
  then have "bit (get_stream_path_m False s) (8 * (15 - q) + r - 54) = bit (s ! q) r"
    using True by (intro get_stream_path_m_bytes) linarith+
  then show ?thesis using True q k sid_bit_at [of q r s] by (metis add_diff_cancel_left')
qed (simp add: get_stream_path_m_high)

lemma get_stream_name_m_bits:
  assumes "length s = 16"
  shows "bit (get_stream_name_m False s) k \<longleftrightarrow> k < 54 \<and> sid_bit s k"
proof (cases "k < 54")
  case True
  then have "k < 128" by simp
  then obtain q r where q: "q < 16" "r < 8" and k: "k = 8 * (15 - q) + r" by (rule sid_posE)
  then have "bit (get_stream_name_m False s) (8 * (15 - q) + r - 0) = bit (s ! q) r"
    using True by (intro get_stream_name_m_bytes) linarith+
  then show ?thesis using True q k sid_bit_at [of q r s] by simp
qed (simp add: get_stream_name_m_high)

section \<open>Fields of an id\<close>

text \<open>A field is an interval of the 128 bits.  Its setter replaces exactly that interval and its mask
  macro ORs into exactly that interval.\<close>

locale sid_field =
  fixes pos len :: nat
    and put :: "stream_id \<Rightarrow> 'v::len word \<Rightarrow> stream_id"
    and widen :: "stream_id \<Rightarrow> 'v word \<Rightarrow> stream_id"
  assumes put_length: "length s = 16 \<Longrightarrow> length (put s v) = 16"
    and put_bit: "length s = 16 \<Longrightarrow> n < 128 \<Longrightarrow>
      sid_bit (put s v) n \<longleftrightarrow> (if pos \<le> n \<and> n < pos + len then bit v (n - pos) else sid_bit s n)"
    and widen_length: "length s = 16 \<Longrightarrow> length (widen s v) = 16"
    and widen_bit: "length s = 16 \<Longrightarrow> n < 128 \<Longrightarrow>
      sid_bit (widen s v) n \<longleftrightarrow> sid_bit s n \<or> pos \<le> n \<and> n < pos + len \<and> bit v (n - pos)"
begin

lemma put_put:
  assumes "length s = 16"
  shows "put (put s v) w = put s w"
  using assms by (intro sid_eqI) (auto simp: put_length put_bit)

lemma widen_idem:
  assumes "length s = 16"
  shows "widen (widen s v) v = widen s v"
  using assms by (intro sid_eqI) (auto simp: widen_length widen_bit)

lemma widen_mono:
  assumes "length s = 16" and "sid_bit s n"
  shows "sid_bit (widen s v) n"
  using assms widen_bit [of s n v] by (auto simp: sid_bit_def)

end

locale sid_field_read = sid_field pos len put widen
  for pos len :: nat
    and put :: "stream_id \<Rightarrow> 'v::len word \<Rightarrow> stream_id"
    and widen :: "stream_id \<Rightarrow> 'v word \<Rightarrow> stream_id" +
  fixes get :: "stream_id \<Rightarrow> 'w::len word"
  assumes get_bit: "length s = 16 \<Longrightarrow> bit (get s) k \<longleftrightarrow> k < len \<and> sid_bit s (pos + k)"
    and fits: "pos + len \<le> 128" "len \<le> LENGTH('w)"
begin

lemma get_put:
  assumes "length s = 16"
  shows "get (put s v) = ucast (take_bit len v)"
proof (rule word_bitI)
  fix k
  show "bit (get (put s v)) k = bit (ucast (take_bit len v) :: 'w word) k" if "k < LENGTH('w)"
    using assms fits(1) that by (auto simp: get_bit put_length put_bit bits_simps)
qed

lemma get_cong:
  assumes "length s = 16" and "length t = 16"
    and "\<And>n. pos \<le> n \<Longrightarrow> n < pos + len \<Longrightarrow> sid_bit s n = sid_bit t n"
  shows "get s = get t"
  using assms by (intro word_bitI) (auto simp: get_bit)

lemma get_inj_bits:
  assumes "length s = 16" and "length t = 16" and "get s = get t" and "pos \<le> n" and "n < pos + len"
  shows "sid_bit s n = sid_bit t n"
proof -
  have "bit (get s) (n - pos) = bit (get t) (n - pos)" using assms(3) by simp
  moreover have "n - pos < len" using assms(4,5) by linarith
  ultimately show ?thesis using assms(1,2,4,5) by (simp add: get_bit)
qed

end

interpretation ver_f: sid_field_read 122 6 "set_ver_m sc" "apply_ver_mask sc" "get_ver_m sc" for sc
  by unfold_locales (simp_all add: set_ver_m_bits apply_ver_mask_bits get_ver_m_bits)

interpretation fwd_dst_f: sid_field_read 115 7 "set_fwd_dst_m sc" "apply_fwd_dst_mask sc" "get_fwd_dst_m sc" for sc
  by unfold_locales (simp_all add: set_fwd_dst_m_bits apply_fwd_dst_mask_bits get_fwd_dst_m_bits)

interpretation device_id_f: sid_field_read 108 7 "set_device_id_m sc" "apply_device_id_mask sc" "get_device_id_m sc" for sc
  by unfold_locales (simp_all add: set_device_id_m_bits apply_device_id_mask_bits get_device_id_m_bits)

interpretation stream_path_f: sid_field 54 54 "set_stream_path_m sc" "apply_stream_path_mask sc" for sc
  by unfold_locales (simp_all add: set_stream_path_m_bits apply_stream_path_mask_bits)

interpretation stream_path_u: sid_field_read 54 54 "set_stream_path_m False" "apply_stream_path_mask False" "get_stream_path_m False"
  by unfold_locales (simp_all add: get_stream_path_m_bits)

interpretation stream_name_f: sid_field 0 54 "set_stream_name_m sc" "apply_stream_name_mask sc" for sc
  by unfold_locales (simp_all add: set_stream_name_m_bits apply_stream_name_mask_bits)

interpretation stream_name_u: sid_field_read 0 54 "set_stream_name_m False" "apply_stream_name_mask False" "get_stream_name_m False"
  by unfold_locales (simp_all add: get_stream_name_m_bits)


section \<open>Matching\<close>

lemma le32_bit:
  assumes "4 \<le> length bs" and "k < 32"
  shows "bit (le32 bs) k \<longleftrightarrow> bit (bs ! (k div 8)) (k mod 8)"
proof -
  obtain a b c d xs where bs: "bs = a # b # c # d # xs"
    using assms(1) by (auto simp: numeral_eq_Suc Suc_le_length_iff)
  define q r where "q = k div 8" and "r = k mod 8"
  have k: "k = 8 * q + r" "r < 8" "q < 4" using assms(2) by (auto simp: q_def r_def)
  consider "q = 0" | "q = 1" | "q = 2" | "q = 3" using k(3) by linarith
  then have "bit (le32 bs) (8 * q + r) \<longleftrightarrow> bit (bs ! q) r"
    using k(2) by cases (simp_all add: bs le32_def bits_simps bit_u8_ge)
  then show ?thesis by (simp only: q_def r_def mult_div_mod_eq)
qed

lemma sid_int_bit:
  assumes "length s = 16" and "j < 4" and "k < 32"
  shows "bit (sid_int s j) k \<longleftrightarrow> bit (s ! (4 * j + k div 8)) (k mod 8)"
  using assms by (simp add: sid_int_def le32_bit)

text \<open>A match is inclusion of the sets of bits.\<close>

lemma matches_req_bits:
  assumes "length s = 16" and "length r = 16"
  shows "jrtc_router_stream_id_matches_req s r \<longleftrightarrow> (\<forall>n < 128. sid_bit s n \<longrightarrow> sid_bit r n)"
proof
  assume m: "jrtc_router_stream_id_matches_req s r"
  show "\<forall>n < 128. sid_bit s n \<longrightarrow> sid_bit r n"
  proof (intro allI impI)
    fix n :: nat assume "n < 128"
    then obtain q p where q: "q < 16" "p < 8" "n = 8 * (15 - q) + p" by (rule sid_posE)
    assume "sid_bit s n"
    then have "bit (sid_int s (q div 4)) (8 * (q mod 4) + p)"
      using q assms by (subst sid_int_bit) (auto simp: sid_bit_at)
    moreover have "sid_int s (q div 4) AND sid_int r (q div 4) = sid_int s (q div 4)"
      using m q(1) by (auto simp: jrtc_router_stream_id_matches_req_def list_all_iff)
    ultimately have "bit (sid_int r (q div 4)) (8 * (q mod 4) + p)"
      by (metis bit_and_iff)
    then show "sid_bit r n"
      using q assms by (subst (asm) sid_int_bit) (auto simp: sid_bit_at)
  qed
next
  assume b: "\<forall>n < 128. sid_bit s n \<longrightarrow> sid_bit r n"
  have "sid_int s j AND sid_int r j = sid_int s j" if "j < 4" for j
  proof (rule word_bitI)
    fix k assume "k < LENGTH(32)"
    then have k: "k < 32" by simp
    have q: "4 * j + k div 8 < 16" "k mod 8 < 8" using that k by auto
    have "8 * (15 - (4 * j + k div 8)) + k mod 8 < 128" using q by simp
    with b sid_bit_at [OF q] have "bit (s ! (4 * j + k div 8)) (k mod 8) \<longrightarrow> bit (r ! (4 * j + k div 8)) (k mod 8)"
      by blast
    then show "bit (sid_int s j AND sid_int r j) k = bit (sid_int s j) k"
      using that k assms by (auto simp: bit_and_iff sid_int_bit)
  qed
  then show "jrtc_router_stream_id_matches_req s r"
    by (auto simp: jrtc_router_stream_id_matches_req_def list_all_iff)
qed

section \<open>Generated ids\<close>

lemma sid_bit_zero [simp]: "\<not> sid_bit (replicate 16 0) n"
  by (simp add: sid_bit_def)

lemma set_all_m_bits:
  assumes "n < 128"
  shows "sid_bit (set_all_m sc (replicate 16 0) (bitfields fd dev ph nh)) n \<longleftrightarrow>
    (if n < 54 then bit nh n else if n < 108 then bit ph (n - 54)
     else if n < 115 then bit dev (n - 108) else n < 122 \<and> bit fd (n - 115))"
  using assms
  by (auto simp: set_all_m_def Let_def bitfields_def set_stream_name_m_bits set_stream_path_m_bits
      set_device_id_m_bits set_fwd_dst_m_bits set_ver_m_bits JRTC_ROUTER_STREAM_ID_VERSION_def
      bit_take_bit_iff)

lemma set_all_m_length [simp]: "length (set_all_m sc s i) = length s"
  by (simp add: set_all_m_def Let_def)

text \<open>The bits a path or name contributes to its 54-bit field.\<close>

definition field_bits :: "string option \<Rightarrow> nat set" where
  "field_bits str = (case str of None \<Rightarrow> {..<54} | Some x \<Rightarrow> name_bits x)"

text \<open>The id that a successful generation leaves, by its bits.\<close>

definition id_for :: "u32 \<Rightarrow> u32 \<Rightarrow> string option \<Rightarrow> string option \<Rightarrow> stream_id \<Rightarrow> bool" where
  "id_for fd dev sp sn s \<longleftrightarrow> length s = 16 \<and>
     (\<forall>n < 128. sid_bit s n \<longleftrightarrow>
        (if n < 54 then n \<in> field_bits sn else if n < 108 then n - 54 \<in> field_bits sp
         else if n < 115 then bit dev (n - 108) else n < 122 \<and> bit fd (n - 115)))"

lemma field_bits_bound: "k \<in> field_bits str \<Longrightarrow> k < 54"
  by (auto simp: field_bits_def name_bits_bound split: option.splits)

lemma field_bits_nonempty: "field_bits str \<noteq> {}"
  by (auto simp: field_bits_def name_bits_nonempty lessThan_empty_iff bot_nat_def split: option.splits)

lemma bit_dest_any: "bit (0x7F::u32) k \<longleftrightarrow> k < 7"
proof -
  have *: "(0x7F::u32) = mask 7" by (simp add: mask_eq_exp_minus_1)
  show ?thesis unfolding * by (auto simp: bit_mask_iff)
qed

lemma any_bits: "bit (0x3FFFFFFFFFFFFF::u64) k \<longleftrightarrow> k < 54"
proof -
  have *: "(0x3FFFFFFFFFFFFF::u64) = mask 54" by (simp add: mask_eq_exp_minus_1)
  show ?thesis unfolding * by (auto simp: bit_mask_iff)
qed

lemma field_hash_cases:
  assumes "mem_wf m" and "any = 0x3FFFFFFFFFFFFF"
  shows "\<exists>v m'. field_hash m any str = Inr (v, m') \<and> live m' = live m \<and> mem_wf m' \<and> oom m' = oom m \<and>
    ((v = 0 \<and> (\<exists>k. oom m k)) \<or> (v \<noteq> 0 \<and> (\<forall>k. bit v k \<longleftrightarrow> k \<in> field_bits str)))"
proof (cases str)
  case None
  have "\<forall>k. bit any k \<longleftrightarrow> k \<in> {..<54}" unfolding assms(2) any_bits by simp
  then show ?thesis using None assms by (simp add: field_hash_def field_bits_def)
next
  case (Some x)
  have "v \<noteq> 0" if "\<forall>k. bit v k \<longleftrightarrow> k \<in> name_bits x" for v :: u64
    using that name_bits_nonempty [of x] by (metis all_not_in_conv bit_0_eq bot_apply bot_bool_def)
  then show ?thesis
    using get_hash_cases [OF assms(1), of x] Some by (auto simp: field_hash_def field_bits_def) 
qed

lemma generate_cases:
  assumes "mem_wf m" and "length s = 16"
  shows "\<exists>rc s' m'. jrtc_router_generate_stream_id sc m (Some s) fd dev sp sn = Inr (rc, Some s', m') \<and>
    live m' = live m \<and> mem_wf m' \<and> oom m' = oom m \<and>
    ((rc = 1 \<and> id_for fd dev sp sn s') \<or> (rc = -1 \<and> s' = replicate 16 0 \<and> (\<exists>k. oom m k)))"
proof -
  from field_hash_cases [OF assms(1), of JRTC_ROUTER_STREAM_PATH_ANY sp] obtain ph m1 where
    p: "field_hash m JRTC_ROUTER_STREAM_PATH_ANY sp = Inr (ph, m1)" "live m1 = live m" "mem_wf m1"
      "oom m1 = oom m" and
    p': "ph = 0 \<and> (\<exists>k. oom m k) \<or> ph \<noteq> 0 \<and> (\<forall>k. bit ph k \<longleftrightarrow> k \<in> field_bits sp)"
    unfolding JRTC_ROUTER_STREAM_PATH_ANY_def by blast
  from field_hash_cases [OF p(3), of JRTC_ROUTER_STREAM_NAME_ANY sn] obtain nh m2 where
    n: "field_hash m1 JRTC_ROUTER_STREAM_NAME_ANY sn = Inr (nh, m2)" "live m2 = live m1" "mem_wf m2"
      "oom m2 = oom m1" and
    n': "nh = 0 \<and> (\<exists>k. oom m1 k) \<or> nh \<noteq> 0 \<and> (\<forall>k. bit nh k \<longleftrightarrow> k \<in> field_bits sn)"
    unfolding JRTC_ROUTER_STREAM_NAME_ANY_def by blast
  show ?thesis
  proof (cases "ph = 0 \<or> nh = 0")
    case True
    with p n p' n' assms(2) show ?thesis by (auto simp: jrtc_router_generate_stream_id_def)
  next
    case False
    with p' n' have "id_for fd dev sp sn (set_all_m sc (replicate 16 0) (bitfields fd dev ph nh))"
      by (simp add: id_for_def set_all_m_bits)
    with False p n assms(2) show ?thesis by (simp add: jrtc_router_generate_stream_id_def)
  qed
qed

text \<open>Two ids agree outside an interval of bits.\<close>

definition same_outside :: "nat \<Rightarrow> nat \<Rightarrow> stream_id \<Rightarrow> stream_id \<Rightarrow> bool" where
  "same_outside pos len s t \<longleftrightarrow>
     length t = length s \<and> (\<forall>n < 128. n < pos \<or> pos + len \<le> n \<longrightarrow> sid_bit t n = sid_bit s n)"

section \<open>Consequences for generated ids\<close>

lemma id_for_unique:
  assumes "id_for fd dev sp sn s" and "id_for fd dev sp sn t"
  shows "s = t"
  using assms by (intro sid_eqI) (simp_all add: id_for_def)

lemma id_for_match:
  assumes s: "id_for fd dev sp sn s" and r: "id_for fd' dev' sp' sn' r"
  shows "jrtc_router_stream_id_matches_req s r \<longleftrightarrow>
    (\<forall>k < 7. bit fd k \<longrightarrow> bit fd' k) \<and> (\<forall>k < 7. bit dev k \<longrightarrow> bit dev' k) \<and>
    field_bits sp \<subseteq> field_bits sp' \<and> field_bits sn \<subseteq> field_bits sn'"
proof -
  have "(\<forall>n < 128. sid_bit s n \<longrightarrow> sid_bit r n) \<longleftrightarrow>
      (\<forall>n < 54. n \<in> field_bits sn \<longrightarrow> n \<in> field_bits sn') \<and>
      (\<forall>n < 54. n \<in> field_bits sp \<longrightarrow> n \<in> field_bits sp') \<and>
      (\<forall>n < 7. bit dev n \<longrightarrow> bit dev' n) \<and> (\<forall>n < 7. bit fd n \<longrightarrow> bit fd' n)" (is "?l \<longleftrightarrow> ?r")
  proof
    assume l: ?l
    have at: "sid_bit s n \<longrightarrow> sid_bit r n" if "n < 128" for n using l that by blast
    show ?r
    proof (intro conjI allI impI)
      show "n \<in> field_bits sn'" if "n < 54" "n \<in> field_bits sn" for n
        using at [of n] that s r by (simp add: id_for_def)
      show "n \<in> field_bits sp'" if "n < 54" "n \<in> field_bits sp" for n
        using at [of "n + 54"] that s r by (simp add: id_for_def)
      show "bit dev' n" if "n < 7" "bit dev n" for n
        using at [of "n + 108"] that s r by (simp add: id_for_def)
      show "bit fd' n" if "n < 7" "bit fd n" for n
        using at [of "n + 115"] that s r by (simp add: id_for_def)
    qed
  next
    assume ?r
    then show ?l using s r by (auto simp: id_for_def)
  qed
  moreover have "length s = 16" "length r = 16" using s r by (simp_all add: id_for_def)
  ultimately show ?thesis
    using field_bits_bound by (auto simp: matches_req_bits)
qed

lemmas stream_id_access_defs =
  jrtc_router_stream_id_get_ver_def jrtc_router_stream_id_set_ver_def
  jrtc_router_stream_id_get_fwd_dst_def jrtc_router_stream_id_set_fwd_dst_def
  jrtc_router_stream_id_get_device_id_def jrtc_router_stream_id_set_device_id_def
  jrtc_router_stream_id_get_stream_path_def jrtc_router_stream_id_set_stream_path_def
  jrtc_router_stream_id_get_stream_name_def jrtc_router_stream_id_set_stream_name_def

section \<open>Properties\<close>

text \<open>C26: each field of a stream id that is set is read back.  The three small fields round trip whatever
  the signedness of \<open>char\<close>; the path and the name do on targets where \<open>char\<close> is unsigned.  Values wider
  than the field are cut to its width.\<close>

theorem stream_id_field_round_trip:
  assumes "length s = 16"
  shows "jrtc_router_stream_id_get_ver sc (jrtc_router_stream_id_set_ver sc (Some s) v) = take_bit 6 v \<and>
    jrtc_router_stream_id_get_fwd_dst sc (jrtc_router_stream_id_set_fwd_dst sc (Some s) v) = take_bit 7 v \<and>
    jrtc_router_stream_id_get_device_id sc (jrtc_router_stream_id_set_device_id sc (Some s) v) = take_bit 7 v \<and>
    jrtc_router_stream_id_get_stream_path False (jrtc_router_stream_id_set_stream_path False (Some s) p) = take_bit 54 p \<and>
    jrtc_router_stream_id_get_stream_name False (jrtc_router_stream_id_set_stream_name False (Some s) p) = take_bit 54 p"
proof -
  have cast: "ucast (take_bit n (ucast (w::u16) :: u32)) = take_bit n w" for n w
    by (rule word_bitI) (simp add: bits_simps)
  show ?thesis
    by (simp add: stream_id_access_defs assms cast ver_f.get_put fwd_dst_f.get_put device_id_f.get_put
        stream_path_u.get_put stream_name_u.get_put)
qed

theorem stream_id_field_round_trip_witness:
  "jrtc_router_stream_id_get_device_id True
     (jrtc_router_stream_id_set_device_id True (Some (replicate 16 0xAB)) 200) = 72"
  using stream_id_field_round_trip [of "replicate 16 0xAB" True 200 0] by (simp add: take_bit_eq_mod)

text \<open>on targets with a signed \<open>char\<close> the path and name getters sign-extend the bytes they read, so a
  path whose stored bytes have the top bit set is not read back.\<close>

lemma stream_path_sign_extension:
  "jrtc_router_stream_id_get_stream_path True
     (jrtc_router_stream_id_set_stream_path True (Some (replicate 16 0)) 0x200) \<noteq> 0x200"
proof -
  have "set_stream_path_m True (replicate 16 0) 0x200 ! 8 = 0x80"
    by (simp add: set_stream_path_m_def Let_def nth_list_update)
  then have "bit (get_stream_path_m True (set_stream_path_m True (replicate 16 0) 0x200)) 20"
    by (simp add: get_stream_path_m_def bits_simps char_u64_def bit_signed_iff)
  moreover have "\<not> bit (0x200::u64) 20" by simp
  ultimately show ?thesis
    by (auto simp: stream_id_access_defs)
qed

text \<open>the fields do not overlap.  A setter changes none of the other four fields, whatever the order
  and the values, so every bit outside the field that is set keeps its value.\<close>

lemma stream_id_fields_independent:
  assumes "length s = 16"
  shows "same_outside 122 6 s (set_ver_m sc s a) \<and> same_outside 115 7 s (set_fwd_dst_m sc s b) \<and>
    same_outside 108 7 s (set_device_id_m sc s c) \<and> same_outside 54 54 s (set_stream_path_m sc s d) \<and>
    same_outside 0 54 s (set_stream_name_m sc s e)"
  using assms
  by (simp add: same_outside_def ver_f.put_bit fwd_dst_f.put_bit device_id_f.put_bit
      stream_path_f.put_bit stream_name_f.put_bit)

text \<open>C7: \<open>jrtc_router_generate_stream_id\<close> on a 16-byte id always returns, leaves the heap as it was, and
  either succeeds with an id whose version is 0, whose destination and device are the low 7 bits of
  the arguments and whose path and name fields are the Bloom patterns of the names (all ones for a
  null name), or returns -1 with the id cleared after memory ran out.\<close>

theorem generate_stream_id_spec:
  assumes "mem_wf m" and "length s = 16"
  shows "\<exists>rc s' m'. jrtc_router_generate_stream_id sc m (Some s) fd dev sp sn = Inr (rc, Some s', m') \<and>
    live m' = live m \<and> mem_wf m' \<and>
    ((rc = 1 \<and> id_for fd dev sp sn s') \<or> (rc = -1 \<and> s' = replicate 16 0 \<and> (\<exists>k. oom m k)))"
  using generate_cases [OF assms, of sc fd dev sp sn] by blast

theorem generate_stream_id_spec_witness:
  "\<exists>s' m'. jrtc_router_generate_stream_id True \<lparr>live = {}, next_addr = 1, oom = \<lambda>_. False\<rparr>
      (Some (replicate 16 7)) 2 3 (Some ''path'') None = Inr (1, Some s', m') \<and>
    live m' = {} \<and> id_for 2 3 (Some ''path'') None s'"
  using generate_stream_id_spec [of "\<lparr>live = {}, next_addr = 1, oom = \<lambda>_. False\<rparr>" "replicate 16 7"
      True 2 3 "Some ''path''" None]
  by (auto simp: mem_wf_def)

text \<open>on 16-byte ids, \<open>jrtc_router_stream_id_matches_req\<close> is a partial order: inclusion of the sets of
  bits.\<close>

lemma matches_req_order:
  assumes "length s = 16" and "length t = 16" and "length u = 16"
  shows "jrtc_router_stream_id_matches_req s s \<and>
    (jrtc_router_stream_id_matches_req s t \<and> jrtc_router_stream_id_matches_req t s \<longrightarrow> s = t) \<and>
    (jrtc_router_stream_id_matches_req s t \<and> jrtc_router_stream_id_matches_req t u \<longrightarrow>
      jrtc_router_stream_id_matches_req s u)"
  using assms sid_eqI [of s t] by (auto simp: matches_req_bits)

text \<open>a generated message id matches a generated request id exactly when the bits of each of its
  fields are among the bits of the request's field.  A request with wildcards in any fields and the
  message's values in the others therefore always matches.\<close>

lemma generated_ids_match:
  assumes "id_for fd dev sp sn s" and "id_for fd' dev' sp' sn' r"
  shows "jrtc_router_stream_id_matches_req s r \<longleftrightarrow>
    (\<forall>k < 7. bit fd k \<longrightarrow> bit fd' k) \<and> (\<forall>k < 7. bit dev k \<longrightarrow> bit dev' k) \<and>
    field_bits sp \<subseteq> field_bits sp' \<and> field_bits sn \<subseteq> field_bits sn'"
  using assms by (rule id_for_match)

text \<open>the comparison of the name field through the bit-field structure reads beyond the 16 bytes of
  an id, for every pair of ids.\<close>

lemma stream_name_matches_out_of_bounds:
  assumes "length s = 16"
  shows "jrtc_router_stream_id_stream_name_matches_req s r = Inl OutOfBounds"
  by (simp add: jrtc_router_stream_id_stream_name_matches_req_def struct_field_matches_def
      struct_field_def assms)

end
