(* ===== verification/Router_Lookup.thy ===== *)
theory Router_Lookup
  imports Stream_Id_Fields
begin

text \<open>
  The wildcard lookup of \<open>src/router/jrtc_router.c\<close>: the router looks a message's stream id up under 16
  request ids, obtained by widening a subset of its four fields to their \<open>ANY\<close> values.
\<close>

definition JRTC_ROUTER_NUM_REQ_LOOKUPS :: nat where
  "JRTC_ROUTER_NUM_REQ_LOOKUPS = 16"

definition lookup_mask :: "jrtc_router_stream_id_int list" where
  "lookup_mask =
    [\<lparr>ver = 0, fwd_dst = 0, device_id = 0,
      stream_path = 0, stream_name = 0\<rparr>,
     \<lparr>ver = 0, fwd_dst = 0, device_id = 0,
      stream_path = 0, stream_name = JRTC_ROUTER_STREAM_NAME_ANY\<rparr>,
     \<lparr>ver = 0, fwd_dst = 0, device_id = 0,
      stream_path = JRTC_ROUTER_STREAM_PATH_ANY, stream_name = 0\<rparr>,
     \<lparr>ver = 0, fwd_dst = 0, device_id = JRTC_ROUTER_DEVICE_ID_ANY,
      stream_path = 0, stream_name = 0\<rparr>,
     \<lparr>ver = 0, fwd_dst = JRTC_ROUTER_DEST_ANY, device_id = 0,
      stream_path = 0, stream_name = 0\<rparr>,
     \<lparr>ver = 0, fwd_dst = 0, device_id = 0,
      stream_path = JRTC_ROUTER_STREAM_PATH_ANY, stream_name = JRTC_ROUTER_STREAM_NAME_ANY\<rparr>,
     \<lparr>ver = 0, fwd_dst = 0, device_id = JRTC_ROUTER_DEVICE_ID_ANY,
      stream_path = 0, stream_name = JRTC_ROUTER_STREAM_NAME_ANY\<rparr>,
     \<lparr>ver = 0, fwd_dst = JRTC_ROUTER_DEST_ANY, device_id = 0,
      stream_path = 0, stream_name = JRTC_ROUTER_STREAM_NAME_ANY\<rparr>,
     \<lparr>ver = 0, fwd_dst = 0, device_id = JRTC_ROUTER_DEVICE_ID_ANY,
      stream_path = JRTC_ROUTER_STREAM_PATH_ANY, stream_name = 0\<rparr>,
     \<lparr>ver = 0, fwd_dst = JRTC_ROUTER_DEST_ANY, device_id = 0,
      stream_path = JRTC_ROUTER_STREAM_PATH_ANY, stream_name = 0\<rparr>,
     \<lparr>ver = 0, fwd_dst = JRTC_ROUTER_DEST_ANY, device_id = JRTC_ROUTER_DEVICE_ID_ANY,
      stream_path = 0, stream_name = 0\<rparr>,
     \<lparr>ver = 0, fwd_dst = 0, device_id = JRTC_ROUTER_DEVICE_ID_ANY,
      stream_path = JRTC_ROUTER_STREAM_PATH_ANY, stream_name = JRTC_ROUTER_STREAM_NAME_ANY\<rparr>,
     \<lparr>ver = 0, fwd_dst = JRTC_ROUTER_DEST_ANY, device_id = 0,
      stream_path = JRTC_ROUTER_STREAM_PATH_ANY, stream_name = JRTC_ROUTER_STREAM_NAME_ANY\<rparr>,
     \<lparr>ver = 0, fwd_dst = JRTC_ROUTER_DEST_ANY, device_id = JRTC_ROUTER_DEVICE_ID_ANY,
      stream_path = 0, stream_name = JRTC_ROUTER_STREAM_NAME_ANY\<rparr>,
     \<lparr>ver = 0, fwd_dst = JRTC_ROUTER_DEST_ANY, device_id = JRTC_ROUTER_DEVICE_ID_ANY,
      stream_path = JRTC_ROUTER_STREAM_PATH_ANY, stream_name = 0\<rparr>,
     \<lparr>ver = 0, fwd_dst = JRTC_ROUTER_DEST_ANY, device_id = JRTC_ROUTER_DEVICE_ID_ANY,
      stream_path = JRTC_ROUTER_STREAM_PATH_ANY, stream_name = JRTC_ROUTER_STREAM_NAME_ANY\<rparr>]"

definition lookup_id :: "bool \<Rightarrow> stream_id \<Rightarrow> nat \<Rightarrow> stream_id" where
  "lookup_id sc sid i =
     (let s = apply_fwd_dst_mask sc sid (fwd_dst (lookup_mask ! i));
          s = apply_device_id_mask sc s (device_id (lookup_mask ! i));
          s = apply_stream_path_mask sc s (stream_path (lookup_mask ! i))
      in apply_stream_name_mask sc s (stream_name (lookup_mask ! i)))"

definition lookup_ids :: "bool \<Rightarrow> stream_id \<Rightarrow> stream_id list" where
  "lookup_ids sc sid = map (lookup_id sc sid) [0..<JRTC_ROUTER_NUM_REQ_LOOKUPS]"

text \<open>Two ids agree on an interval of bits, or the second has the wildcard there.\<close>

definition same_field :: "nat \<Rightarrow> nat \<Rightarrow> stream_id \<Rightarrow> stream_id \<Rightarrow> bool" where
  "same_field pos len s r \<longleftrightarrow> (\<forall>n. pos \<le> n \<and> n < pos + len \<longrightarrow> sid_bit r n = sid_bit s n)"

definition any_field :: "nat \<Rightarrow> nat \<Rightarrow> stream_id \<Rightarrow> bool" where
  "any_field pos len r \<longleftrightarrow> (\<forall>n. pos \<le> n \<and> n < pos + len \<longrightarrow> sid_bit r n)"

section \<open>The 16 ids\<close>

definition mask_for :: "bool \<Rightarrow> bool \<Rightarrow> bool \<Rightarrow> bool \<Rightarrow> jrtc_router_stream_id_int" where
  "mask_for f d p n =
     \<lparr>ver = 0, fwd_dst = if f then 0x7F else 0, device_id = if d then 0x7F else 0,
      stream_path = if p then 0x3FFFFFFFFFFFFF else 0, stream_name = if n then 0x3FFFFFFFFFFFFF else 0\<rparr>"

lemma lookup_mask_table:
  "lookup_mask =
    [mask_for False False False False,
     mask_for False False False True,
     mask_for False False True False,
     mask_for False True False False,
     mask_for True False False False,
     mask_for False False True True,
     mask_for False True False True,
     mask_for True False False True,
     mask_for False True True False,
     mask_for True False True False,
     mask_for True True False False,
     mask_for False True True True,
     mask_for True False True True,
     mask_for True True False True,
     mask_for True True True False,
     mask_for True True True True]"
  by (simp add: lookup_mask_def mask_for_def JRTC_ROUTER_DEST_ANY_def JRTC_ROUTER_DEVICE_ID_ANY_def
      JRTC_ROUTER_STREAM_PATH_ANY_def JRTC_ROUTER_STREAM_NAME_ANY_def)

lemma set_lookup_mask: "set lookup_mask = {mask_for f d p n | f d p n. True}"
proof (intro set_eqI iffI)
  fix x assume "x \<in> {mask_for f d p n | f d p n. True}"
  then obtain f d p n where "x = mask_for f d p n" by blast
  then show "x \<in> set lookup_mask"
    unfolding lookup_mask_table by (cases f; cases d; cases p; cases n) simp_all
next
  fix x assume "x \<in> set lookup_mask"
  then show "x \<in> {mask_for f d p n | f d p n. True}"
    unfolding lookup_mask_table list.set insert_iff empty_iff by (elim disjE) blast+
qed

lemma length_lookup_mask [simp]: "length lookup_mask = 16"
  by (simp add: lookup_mask_def)

definition widened :: "bool \<Rightarrow> stream_id \<Rightarrow> jrtc_router_stream_id_int \<Rightarrow> stream_id" where
  "widened sc sid m =
     apply_stream_name_mask sc (apply_stream_path_mask sc (apply_device_id_mask sc
       (apply_fwd_dst_mask sc sid (fwd_dst m)) (device_id m)) (stream_path m)) (stream_name m)"

lemma set_lookup_ids:
  "set (lookup_ids sc sid) = {widened sc sid (mask_for f d p n) | f d p n. True}"
proof -
  have "lookup_id sc sid i = widened sc sid (lookup_mask ! i)" for i
    by (simp add: lookup_id_def widened_def Let_def)
  then have "lookup_ids sc sid = map (widened sc sid) (map ((!) lookup_mask) [0..<length lookup_mask])"
    by (simp add: lookup_ids_def JRTC_ROUTER_NUM_REQ_LOOKUPS_def)
  then have "set (lookup_ids sc sid) = widened sc sid ` set lookup_mask"
    by (simp only: map_nth set_map)
  then show ?thesis unfolding set_lookup_mask by blast
qed

lemma widened_length [simp]: "length (widened sc sid m) = length sid"
  by (simp add: widened_def)

lemma widened_bit:
  assumes "length sid = 16" and "n < 128"
  shows "sid_bit (widened sc sid (mask_for f d p nm)) n \<longleftrightarrow>
    sid_bit sid n \<or> (nm \<and> n < 54) \<or> (p \<and> 54 \<le> n \<and> n < 108) \<or> (d \<and> 108 \<le> n \<and> n < 115) \<or>
    (f \<and> 115 \<le> n \<and> n < 122)"
proof -
  have d: "bit (if b then 0x7F else 0 :: u32) k \<longleftrightarrow> b \<and> k < 7" for b k
    by (cases b) (simp_all only: if_True if_False bit_dest_any bit_0_eq bot_apply bot_bool_def simp_thms)
  have a: "bit (if b then 0x3FFFFFFFFFFFFF else 0 :: u64) k \<longleftrightarrow> b \<and> k < 54" for b k
    by (cases b) (simp_all only: if_True if_False any_bits bit_0_eq bot_apply bot_bool_def simp_thms)
  have "sid_bit (widened sc sid (mask_for f d p nm)) n \<longleftrightarrow>
    (((sid_bit sid n \<or> 115 \<le> n \<and> n < 122 \<and> f \<and> n - 115 < 7) \<or> 108 \<le> n \<and> n < 115 \<and> d \<and> n - 108 < 7) \<or>
      54 \<le> n \<and> n < 108 \<and> p \<and> n - 54 < 54) \<or> 0 \<le> n \<and> n < 54 \<and> nm \<and> n - 0 < 54"
    unfolding widened_def mask_for_def jrtc_router_stream_id_int.simps
    by (simp only: apply_stream_name_mask_bits [OF _ assms(2)] apply_stream_path_mask_bits [OF _ assms(2)]
      apply_device_id_mask_bits [OF _ assms(2)] apply_fwd_dst_mask_bits [OF _ assms(2)] field_lengths
      assms(1) d a)
  moreover have "n < 54 \<Longrightarrow> n - 0 < 54" "n < 108 \<Longrightarrow> n - 54 < 54" "n < 115 \<Longrightarrow> n - 108 < 7"
    "n < 122 \<Longrightarrow> n - 115 < 7" by linarith+
  ultimately show ?thesis by blast
qed

text \<open>A request id is looked up for a message exactly when it has the message's version and, field by
  field, the message's value or the wildcard.\<close>

lemma widened_fields:
  assumes "length sid = 16" and "r = widened sc sid (mask_for f d p n)"
  shows "same_field 122 6 sid r"
    and "if f then any_field 115 7 r else same_field 115 7 sid r"
    and "if d then any_field 108 7 r else same_field 108 7 sid r"
    and "if p then any_field 54 54 r else same_field 54 54 sid r"
    and "if n then any_field 0 54 r else same_field 0 54 sid r"
  by (simp_all add: assms same_field_def any_field_def widened_bit)

definition field_ok :: "nat \<Rightarrow> nat \<Rightarrow> stream_id \<Rightarrow> stream_id \<Rightarrow> bool" where
  "field_ok pos len s r \<longleftrightarrow> same_field pos len s r \<or> any_field pos len r"

lemma field_ok_bit:
  assumes "field_ok pos len s r" and "pos \<le> n" and "n < pos + len"
  shows "sid_bit r n \<longleftrightarrow> sid_bit s n \<or> any_field pos len r"
  using assms unfolding field_ok_def same_field_def any_field_def by blast

lemma lookup_ids_iff:
  assumes "length sid = 16"
  shows "r \<in> set (lookup_ids sc sid) \<longleftrightarrow>
    length r = 16 \<and> same_field 122 6 sid r \<and> field_ok 115 7 sid r \<and> field_ok 108 7 sid r \<and>
    field_ok 54 54 sid r \<and> field_ok 0 54 sid r"
proof
  assume "r \<in> set (lookup_ids sc sid)"
  then obtain f d p n where r: "r = widened sc sid (mask_for f d p n)"
    unfolding set_lookup_ids by blast
  note w = widened_fields [OF assms r]
  show "length r = 16 \<and> same_field 122 6 sid r \<and> field_ok 115 7 sid r \<and> field_ok 108 7 sid r \<and>
    field_ok 54 54 sid r \<and> field_ok 0 54 sid r"
    unfolding field_ok_def using w r assms by (simp split: if_splits)
next
  assume a: "length r = 16 \<and> same_field 122 6 sid r \<and> field_ok 115 7 sid r \<and> field_ok 108 7 sid r \<and>
    field_ok 54 54 sid r \<and> field_ok 0 54 sid r"
  let ?w = "widened sc sid (mask_for (any_field 115 7 r) (any_field 108 7 r) (any_field 54 54 r) (any_field 0 54 r))"
  have "r = ?w"
  proof (rule sid_eqI)
    fix n :: nat assume n: "n < 128"
    consider "n < 54" | "54 \<le> n" "n < 108" | "108 \<le> n" "n < 115" | "115 \<le> n" "n < 122" | "122 \<le> n"
      by linarith
    then show "sid_bit r n = sid_bit ?w n"
      unfolding widened_bit [OF assms n]
      by cases (use a n in \<open>simp_all add: field_ok_bit [of 0 54] field_ok_bit [of 54 54]
        field_ok_bit [of 108 7] field_ok_bit [of 115 7] same_field_def\<close>)
  qed (use a assms in simp_all)
  then show "r \<in> set (lookup_ids sc sid)" unfolding set_lookup_ids by blast
qed

text \<open>Every id that is looked up matches the message in the sense of
  \<open>jrtc_router_stream_id_matches_req\<close>.\<close>

lemma lookup_ids_match:
  assumes "length sid = 16" and "r \<in> set (lookup_ids sc sid)"
  shows "jrtc_router_stream_id_matches_req sid r"
proof -
  obtain f d p n where r: "r = widened sc sid (mask_for f d p n)"
    using assms(2) unfolding set_lookup_ids by blast
  show ?thesis using assms(1) by (simp add: matches_req_bits r widened_bit)
qed

lemma wildcard_bits:
  "bit JRTC_ROUTER_DEST_ANY k \<longleftrightarrow> k < 7" "bit JRTC_ROUTER_DEVICE_ID_ANY k \<longleftrightarrow> k < 7"
  unfolding JRTC_ROUTER_DEST_ANY_def JRTC_ROUTER_DEVICE_ID_ANY_def by (rule bit_dest_any)+

section \<open>Properties\<close>

text \<open>C6: the 16 masks are exhaustive and exact.  For a 16-byte message id, a request id is among the ids
  the router looks up if and only if it has the message's version and each of its four other fields
  is the message's or all ones; and every id looked up matches the message in the sense of
  \<open>jrtc_router_stream_id_matches_req\<close>.\<close>

theorem lookup_ids_exact:
  assumes "length sid = 16"
  shows "(r \<in> set (lookup_ids sc sid) \<longleftrightarrow>
      length r = 16 \<and> same_field 122 6 sid r \<and> field_ok 115 7 sid r \<and> field_ok 108 7 sid r \<and>
      field_ok 54 54 sid r \<and> field_ok 0 54 sid r) \<and>
    (r \<in> set (lookup_ids sc sid) \<longrightarrow> jrtc_router_stream_id_matches_req sid r)"
  using lookup_ids_iff [OF assms] lookup_ids_match [OF assms] by blast

theorem lookup_ids_exact_witness:
  "(\<exists>r. r \<in> set (lookup_ids True (replicate 16 0x11)) \<and>
      jrtc_router_stream_id_matches_req (replicate 16 0x11) r) \<and>
   replicate 16 0 \<notin> set (lookup_ids True (replicate 16 0x11))"
proof -
  have "\<not> field_ok 0 54 (replicate 16 0x11) (replicate 16 0)"
    by (auto simp: field_ok_def same_field_def any_field_def sid_bit_def intro!: exI [of _ 0])
  moreover have "replicate 16 0x11 \<in> set (lookup_ids True (replicate 16 0x11))"
    using lookup_ids_exact [of "replicate 16 0x11" "replicate 16 0x11" True]
    by (simp add: field_ok_def same_field_def)
  ultimately show ?thesis
    using lookup_ids_exact [of "replicate 16 0x11" _ True] by fastforce
qed

text \<open>a request registered for a set of wildcards finds its messages.  If a request id was generated
  from arguments that are, one by one, the arguments the message id was generated from or the
  wildcard, then the request id is one of the 16 ids looked up for the message.\<close>

lemma generated_request_looked_up:
  assumes "id_for fd dev sp sn s" and "id_for fd' dev' sp' sn' r"
    and "fd' = fd \<or> fd' = JRTC_ROUTER_DEST_ANY" and "dev' = dev \<or> dev' = JRTC_ROUTER_DEVICE_ID_ANY"
    and "sp' = sp \<or> sp' = None" and "sn' = sn \<or> sn' = None"
  shows "r \<in> set (lookup_ids sc s)"
proof -
  note s = assms(1) [unfolded id_for_def] and r = assms(2) [unfolded id_for_def]
  have "same_field 122 6 s r" using s r by (simp add: same_field_def)
  moreover have "field_ok 115 7 s r"
    using assms(3)
  proof
    assume "fd' = fd"
    then have "same_field 115 7 s r" using s r by (simp add: same_field_def)
    then show ?thesis by (simp add: field_ok_def)
  next
    assume "fd' = JRTC_ROUTER_DEST_ANY"
    then have "any_field 115 7 r" using r by (auto simp: any_field_def wildcard_bits field_bits_def)
    then show ?thesis by (simp add: field_ok_def)
  qed
  moreover have "field_ok 108 7 s r"
    using assms(4)
  proof
    assume "dev' = dev"
    then have "same_field 108 7 s r" using s r by (simp add: same_field_def)
    then show ?thesis by (simp add: field_ok_def)
  next
    assume "dev' = JRTC_ROUTER_DEVICE_ID_ANY"
    then have "any_field 108 7 r" using r by (auto simp: any_field_def wildcard_bits field_bits_def)
    then show ?thesis by (simp add: field_ok_def)
  qed
  moreover have "field_ok 54 54 s r"
    using assms(5)
  proof
    assume "sp' = sp"
    then have "same_field 54 54 s r" using s r by (simp add: same_field_def)
    then show ?thesis by (simp add: field_ok_def)
  next
    assume "sp' = None"
    then have "any_field 54 54 r" using r by (auto simp: any_field_def wildcard_bits field_bits_def)
    then show ?thesis by (simp add: field_ok_def)
  qed
  moreover have "field_ok 0 54 s r"
    using assms(6)
  proof
    assume "sn' = sn"
    then have "same_field 0 54 s r" using s r by (simp add: same_field_def)
    then show ?thesis by (simp add: field_ok_def)
  next
    assume "sn' = None"
    then have "any_field 0 54 r" using r by (auto simp: any_field_def wildcard_bits field_bits_def)
    then show ?thesis by (simp add: field_ok_def)
  qed
  ultimately show ?thesis using s r lookup_ids_iff by blast
qed

end
