(* ===== verification/Config_Types.thy ===== *)
theory Config_Types
  imports Prelude
begin

text \<open>
  The configuration structures that the parts of the program hand to each other: those of
  \<open>src/router/jrtc_router.h\<close> and \<open>src/controller/jrtc_config_int.h\<close>, and the members of \<open>jbpf_io_config\<close> that
  this program sets.  A character array is the string it holds.
\<close>

definition JRTC_ROUTER_NORMAL :: int where
  "JRTC_ROUTER_NORMAL = 0"

definition JRTC_ROUTER_FIFO :: int where
  "JRTC_ROUTER_FIFO = 1"

definition JRTC_ROUTER_DEADLINE :: int where
  "JRTC_ROUTER_DEADLINE = 2"

lemmas router_policy_defs = JRTC_ROUTER_NORMAL_def JRTC_ROUTER_FIFO_def JRTC_ROUTER_DEADLINE_def

record jrtc_router_sched_config =
  sched_policy :: int
  sched_priority :: int
  sched_runtime :: u64
  sched_deadline :: u64
  sched_period :: u64

record jrtc_router_thread_config =
  has_affinity_mask :: bool
  affinity_mask :: u64
  has_sched_config :: bool
  sched_config :: jrtc_router_sched_config

record jrtc_router_config =
  thread_config :: jrtc_router_thread_config
  ipc_name :: string

record jbpf_io_config =
  io_primary :: bool
  memory_size :: int
  jbpf_path :: string
  jbpf_namespace :: string
  jbpf_io_ipc_name :: string

record jrtc_config =
  router_config :: jrtc_router_config
  io_config :: jbpf_io_config
  port :: int

end
