(* ===== verification/Router_Ext.thy ===== *)
theory Router_Ext
  imports Router_Lookup Config_Types
begin

text \<open>
  The libraries the router is written against, as parameters.  \<open>ck_bitmap\<close>, \<open>ck_ht\<close>, \<open>ck_ring\<close> and
  \<open>ck_epoch\<close> come from Concurrency Kit; \<open>jbpf_malloc\<close>, the memory pools and the IO channels come from
  jbpf.  None of them is part of this repository, so their functions are the fields of a record
  \<open>ext\<close> that every router definition takes as its first argument.  What the router relies on is
  stated by law predicates over \<open>ext\<close> and a record \<open>views\<close> of abstraction functions.  An instance with
  lists and sets shows that the laws can hold.

  \<open>'e\<close> is the state of the libraries themselves (their heap, their channels); every call that may
  change it or that may fail for lack of memory takes it and returns it.
\<close>

section \<open>The library functions\<close>

text \<open>
  \<open>ck_ht\<close> in byte-string mode stores the pointer to a key, not the key.  A lookup compares the bytes
  that are now at the stored pointers, so the operations that look up take the memory as an argument
  (a partial function from addresses to ids), and storing takes the key's address besides its bytes.
  The sequence of values that successive calls of \<open>ck_ht_next\<close> yield on an unmodified table is
  \<open>ck_ht_entries\<close>.  A null result is \<open>None\<close>.  \<open>jbpf_io_out_bufs\<close> are the channels with their buffers for which
  \<open>jbpf_io_channel_handle_out_bufs\<close> calls back.
\<close>

type_synonym key_mem = "addr \<Rightarrow> stream_id option"

record ('e, 'bm, 'it, 'ht, 'rg, 'pl) ext =
  jbpf_malloc :: "'e \<Rightarrow> addr option \<times> 'e"
  jbpf_calloc :: "'e \<Rightarrow> addr option \<times> 'e"
  jbpf_free :: "'e \<Rightarrow> addr \<Rightarrow> ub + 'e"
  ck_bitmap_init :: "nat \<Rightarrow> bool \<Rightarrow> 'bm"
  ck_bitmap_bits :: "'bm \<Rightarrow> nat"
  ck_bitmap_set :: "'bm \<Rightarrow> nat \<Rightarrow> 'bm"
  ck_bitmap_reset :: "'bm \<Rightarrow> nat \<Rightarrow> 'bm"
  ck_bitmap_bts :: "'bm \<Rightarrow> nat \<Rightarrow> bool \<times> 'bm"
  ck_bitmap_clear :: "'bm \<Rightarrow> 'bm"
  ck_bitmap_union :: "'bm \<Rightarrow> 'bm \<Rightarrow> 'bm"
  ck_bitmap_empty :: "'bm \<Rightarrow> nat \<Rightarrow> bool"
  ck_bitmap_iterator_init :: "'bm \<Rightarrow> 'it"
  ck_bitmap_next :: "'bm \<Rightarrow> 'it \<Rightarrow> nat option \<times> 'it"
  ck_ht_init :: "'e \<Rightarrow> (u8 list \<Rightarrow> u64 \<Rightarrow> u64) \<Rightarrow> nat \<Rightarrow> u64 \<Rightarrow> 'ht option \<times> 'e"
  ck_ht_destroy :: "'e \<Rightarrow> 'ht \<Rightarrow> 'e"
  ck_ht_hash :: "'ht \<Rightarrow> stream_id \<Rightarrow> u64"
  ck_ht_get_spmc :: "key_mem \<Rightarrow> 'ht \<Rightarrow> u64 \<Rightarrow> stream_id \<Rightarrow> addr option"
  ck_ht_set_spmc :: "key_mem \<Rightarrow> 'e \<Rightarrow> 'ht \<Rightarrow> u64 \<Rightarrow> addr \<Rightarrow> stream_id \<Rightarrow> addr \<Rightarrow> bool \<times> 'ht \<times> 'e"
  ck_ht_remove_spmc :: "key_mem \<Rightarrow> 'ht \<Rightarrow> u64 \<Rightarrow> stream_id \<Rightarrow> bool \<times> 'ht"
  ck_ht_entries :: "'ht \<Rightarrow> addr list"
  ck_epoch_barrier :: "addr list \<Rightarrow> addr list"
  ck_ring_init :: "u32 \<Rightarrow> 'rg"
  ck_ring_enqueue_spsc :: "'rg \<Rightarrow> nat \<Rightarrow> addr \<Rightarrow> ub + (bool \<times> 'rg)"
  ck_ring_dequeue_spsc :: "'rg \<Rightarrow> nat \<Rightarrow> addr option \<times> 'rg"
  jbpf_init_mempool :: "'e \<Rightarrow> nat \<Rightarrow> 'pl option \<times> 'e"
  jbpf_destroy_mempool :: "'e \<Rightarrow> 'pl \<Rightarrow> 'e"
  jbpf_mbuf_alloc :: "'pl \<Rightarrow> addr option \<times> 'pl"
  jbpf_mbuf_free_from_data_ptr :: "'pl \<Rightarrow> addr \<Rightarrow> 'pl"
  jbpf_io_init :: "'e \<Rightarrow> jbpf_io_config \<Rightarrow> addr option \<times> 'e"
  jbpf_io_stop :: "'e \<Rightarrow> 'e"
  jbpf_io_channel_share_data_ptr :: "'e \<Rightarrow> addr \<Rightarrow> addr \<times> 'e"
  jbpf_io_channel_release_buf :: "'e \<Rightarrow> addr \<Rightarrow> 'e"
  jbpf_io_channel_recv_data :: "'e \<Rightarrow> addr \<Rightarrow> int \<Rightarrow> addr list \<times> 'e"
  jbpf_io_channel_submit_buf :: "'e \<Rightarrow> addr \<Rightarrow> int \<times> 'e"
  jbpf_io_channel_reserve_buf :: "'e \<Rightarrow> addr \<Rightarrow> addr option \<times> 'e"
  jbpf_io_channel_send_msg :: "'e \<Rightarrow> addr option \<Rightarrow> stream_id \<Rightarrow> u8 list option \<Rightarrow> u64 \<Rightarrow> int \<times> 'e"
  jbpf_io_create_channel ::
    "'e \<Rightarrow> addr option \<Rightarrow> bool \<Rightarrow> int \<Rightarrow> int \<Rightarrow> stream_id \<Rightarrow> u8 list option \<Rightarrow> addr option \<times> 'e"
  jbpf_io_destroy_channel :: "'e \<Rightarrow> addr option \<Rightarrow> addr \<Rightarrow> 'e"
  jbpf_io_find_channel :: "'e \<Rightarrow> addr \<Rightarrow> stream_id \<Rightarrow> bool \<Rightarrow> bool"
  jbpf_io_is_secondary :: "'e \<Rightarrow> addr \<Rightarrow> bool"
  jbpf_io_out_bufs :: "'e \<Rightarrow> addr \<Rightarrow> (addr \<times> stream_id \<times> addr list) list \<times> 'e"
  jbpf_io_channel_pack_msg :: "'e \<Rightarrow> addr option \<Rightarrow> addr \<Rightarrow> u64 \<Rightarrow> int \<times> u8 list"
  jbpf_io_channel_unpack_msg :: "'e \<Rightarrow> addr option \<Rightarrow> u8 list \<Rightarrow> addr option \<times> stream_id \<times> 'e"

section \<open>What the router relies on\<close>

text \<open>
  The abstraction functions: the blocks the allocator has handed out to the router and not taken back, the set of
  bits of a bitmap and the bits an iterator has still to visit, the contents of a table (for each
  key its stored pointer and its value), the queue and the size of a ring, the buffers in use and
  the capacity of a pool, and the reference count of a channel buffer.
\<close>

record ('e, 'bm, 'it, 'ht, 'rg, 'pl) views =
  v_live :: "'e \<Rightarrow> addr set"
  v_refs :: "'e \<Rightarrow> addr \<Rightarrow> int"
  v_bits :: "'bm \<Rightarrow> nat set"
  v_todo :: "'bm \<Rightarrow> 'it \<Rightarrow> nat list"
  v_ht :: "'ht \<Rightarrow> stream_id \<Rightarrow> (addr \<times> addr) option"
  v_ring :: "'rg \<Rightarrow> addr list"
  v_rsize :: "'rg \<Rightarrow> nat"
  v_used :: "'pl \<Rightarrow> addr set"
  v_cap :: "'pl \<Rightarrow> nat"

text \<open>The allocator returns fresh blocks and takes back live ones.\<close>

definition alloc_laws :: "('e, 'bm, 'it, 'ht, 'rg, 'pl) ext \<Rightarrow> ('e, 'bm, 'it, 'ht, 'rg, 'pl) views \<Rightarrow> bool" where
  "alloc_laws E V \<longleftrightarrow>
     (\<forall>e e'. jbpf_malloc E e = (None, e') \<longrightarrow> v_live V e' = v_live V e) \<and>
     (\<forall>e a e'. jbpf_malloc E e = (Some a, e') \<longrightarrow> a \<notin> v_live V e \<and> v_live V e' = insert a (v_live V e)) \<and>
     (\<forall>e e'. jbpf_calloc E e = (None, e') \<longrightarrow> v_live V e' = v_live V e) \<and>
     (\<forall>e a e'. jbpf_calloc E e = (Some a, e') \<longrightarrow> a \<notin> v_live V e \<and> v_live V e' = insert a (v_live V e)) \<and>
     (\<forall>e a. a \<in> v_live V e \<longrightarrow> (\<exists>e'. jbpf_free E e a = Inr e' \<and> v_live V e' = v_live V e - {a}))"

text \<open>Bitmaps are finite sets of indices below their size, and the iterator visits them in order.\<close>

definition bitmap_laws :: "('e, 'bm, 'it, 'ht, 'rg, 'pl) ext \<Rightarrow> ('e, 'bm, 'it, 'ht, 'rg, 'pl) views \<Rightarrow> bool" where
  "bitmap_laws E V \<longleftrightarrow>
     (\<forall>n. v_bits V (ck_bitmap_init E n False) = {} \<and> ck_bitmap_bits E (ck_bitmap_init E n False) = n) \<and>
     (\<forall>b. v_bits V b \<subseteq> {..<ck_bitmap_bits E b}) \<and>
     (\<forall>b i. i < ck_bitmap_bits E b \<longrightarrow>
        v_bits V (ck_bitmap_set E b i) = insert i (v_bits V b) \<and>
        ck_bitmap_bits E (ck_bitmap_set E b i) = ck_bitmap_bits E b \<and>
        v_bits V (ck_bitmap_reset E b i) = v_bits V b - {i} \<and>
        ck_bitmap_bits E (ck_bitmap_reset E b i) = ck_bitmap_bits E b \<and>
        fst (ck_bitmap_bts E b i) = (i \<in> v_bits V b) \<and>
        v_bits V (snd (ck_bitmap_bts E b i)) = insert i (v_bits V b) \<and>
        ck_bitmap_bits E (snd (ck_bitmap_bts E b i)) = ck_bitmap_bits E b) \<and>
     (\<forall>b. v_bits V (ck_bitmap_clear E b) = {} \<and> ck_bitmap_bits E (ck_bitmap_clear E b) = ck_bitmap_bits E b) \<and>
     (\<forall>b c. ck_bitmap_bits E c = ck_bitmap_bits E b \<longrightarrow>
        v_bits V (ck_bitmap_union E b c) = v_bits V b \<union> v_bits V c \<and>
        ck_bitmap_bits E (ck_bitmap_union E b c) = ck_bitmap_bits E b) \<and>
     (\<forall>b. ck_bitmap_empty E b (ck_bitmap_bits E b) \<longleftrightarrow> v_bits V b = {}) \<and>
     (\<forall>b. v_todo V b (ck_bitmap_iterator_init E b) = sorted_list_of_set (v_bits V b)) \<and>
     (\<forall>b it. v_todo V b it = [] \<longrightarrow> (\<exists>it'. ck_bitmap_next E b it = (None, it') \<and> v_todo V b it' = [])) \<and>
     (\<forall>b it i is. v_todo V b it = i # is \<longrightarrow> (\<exists>it'. ck_bitmap_next E b it = (Some i, it') \<and> v_todo V b it' = is))"

text \<open>A table is a map as long as the bytes at its key pointers are the keys that were stored.  A walk
  over it visits every entry once.\<close>

definition keys_valid :: "('e, 'bm, 'it, 'ht, 'rg, 'pl) views \<Rightarrow> key_mem \<Rightarrow> 'ht \<Rightarrow> bool" where
  "keys_valid V M t \<longleftrightarrow> (\<forall>k p v. v_ht V t k = Some (p, v) \<longrightarrow> M p = Some k)"

text \<open>A lookup of \<open>k\<close> stops at an entry stored under the same hash whose key pointer now holds the bytes \<open>k\<close>.\<close>

definition no_match :: "('e, 'bm, 'it, 'ht, 'rg, 'pl) ext \<Rightarrow> ('e, 'bm, 'it, 'ht, 'rg, 'pl) views \<Rightarrow> key_mem \<Rightarrow> 'ht \<Rightarrow> stream_id \<Rightarrow> bool" where
  "no_match E V M t k \<longleftrightarrow> (\<forall>j p v. v_ht V t j = Some (p, v) \<longrightarrow> ck_ht_hash E t j = ck_ht_hash E t k \<longrightarrow> M p \<noteq> Some k)"

definition ht_laws :: "('e, 'bm, 'it, 'ht, 'rg, 'pl) ext \<Rightarrow> ('e, 'bm, 'it, 'ht, 'rg, 'pl) views \<Rightarrow> bool" where
  "ht_laws E V \<longleftrightarrow>
     (\<forall>e h n s t e'. ck_ht_init E e h n s = (Some t, e') \<longrightarrow> v_ht V t = (\<lambda>_. None)) \<and>
     (\<forall>e h n s r e'. ck_ht_init E e h n s = (r, e') \<longrightarrow> v_live V e' = v_live V e) \<and>
     (\<forall>e t. v_live V (ck_ht_destroy E e t) = v_live V e) \<and>
     (\<forall>M t k. keys_valid V M t \<longrightarrow> ck_ht_get_spmc E M t (ck_ht_hash E t k) k = map_option snd (v_ht V t k)) \<and>
     (\<forall>M e t p k v b t' e'. no_match E V M t k \<longrightarrow> v_ht V t k = None \<longrightarrow>
        ck_ht_set_spmc E M e t (ck_ht_hash E t k) p k v = (b, t', e') \<longrightarrow>
        v_live V e' = v_live V e \<and> v_ht V t' = (if b then (v_ht V t)(k \<mapsto> (p, v)) else v_ht V t)) \<and>
     (\<forall>M t k. keys_valid V M t \<longrightarrow>
        (\<exists>t'. ck_ht_remove_spmc E M t (ck_ht_hash E t k) k = (v_ht V t k \<noteq> None, t') \<and>
              v_ht V t' = (v_ht V t)(k := None))) \<and>
     (\<forall>M t k. no_match E V M t k \<longrightarrow> ck_ht_remove_spmc E M t (ck_ht_hash E t k) k = (False, t)) \<and>
     (\<forall>t. \<exists>ks. distinct ks \<and> set ks = dom (v_ht V t) \<and>
        ck_ht_entries E t = map (\<lambda>k. snd (the (v_ht V t k))) ks)"

text \<open>The barrier runs every deferred call.\<close>

definition epoch_laws :: "('e, 'bm, 'it, 'ht, 'rg, 'pl) ext \<Rightarrow> bool" where
  "epoch_laws E \<longleftrightarrow> (\<forall>xs. ck_epoch_barrier E xs = xs)"

text \<open>A ring whose size is a power of two and whose buffer has at least that many slots is a bounded
  queue of one element less.\<close>

definition ring_laws :: "('e, 'bm, 'it, 'ht, 'rg, 'pl) ext \<Rightarrow> ('e, 'bm, 'it, 'ht, 'rg, 'pl) views \<Rightarrow> bool" where
  "ring_laws E V \<longleftrightarrow>
     (\<forall>n. v_ring V (ck_ring_init E n) = [] \<and> v_rsize V (ck_ring_init E n) = unat n) \<and>
     (\<forall>r slots a. v_rsize V r \<le> slots \<longrightarrow>
        (\<exists>r'. ck_ring_enqueue_spsc E r slots a = Inr (length (v_ring V r) < v_rsize V r - 1, r') \<and>
           v_rsize V r' = v_rsize V r \<and>
           v_ring V r' = (if length (v_ring V r) < v_rsize V r - 1 then v_ring V r @ [a] else v_ring V r))) \<and>
     (\<forall>r slots. v_rsize V r \<le> slots \<longrightarrow>
        (\<exists>r'. ck_ring_dequeue_spsc E r slots =
             (case v_ring V r of [] \<Rightarrow> None | a # _ \<Rightarrow> Some a, r') \<and>
           v_rsize V r' = v_rsize V r \<and> v_ring V r' = tl (v_ring V r)))"

text \<open>A pool of capacity \<open>n\<close> hands out buffers not in use until \<open>n\<close> of them are in use.\<close>

definition pool_laws :: "('e, 'bm, 'it, 'ht, 'rg, 'pl) ext \<Rightarrow> ('e, 'bm, 'it, 'ht, 'rg, 'pl) views \<Rightarrow> bool" where
  "pool_laws E V \<longleftrightarrow>
     (\<forall>e n p e'. jbpf_init_mempool E e n = (Some p, e') \<longrightarrow> v_used V p = {} \<and> v_cap V p = n) \<and>
     (\<forall>e n r e'. jbpf_init_mempool E e n = (r, e') \<longrightarrow> v_live V e' = v_live V e) \<and>
     (\<forall>e p. v_live V (jbpf_destroy_mempool E e p) = v_live V e) \<and>
     (\<forall>p p'. jbpf_mbuf_alloc E p = (None, p') \<longrightarrow>
        v_cap V p \<le> card (v_used V p) \<and> v_used V p' = v_used V p \<and> v_cap V p' = v_cap V p) \<and>
     (\<forall>p a p'. jbpf_mbuf_alloc E p = (Some a, p') \<longrightarrow>
        card (v_used V p) < v_cap V p \<and> a \<notin> v_used V p \<and> v_used V p' = insert a (v_used V p) \<and>
        v_cap V p' = v_cap V p) \<and>
     (\<forall>p a. a \<in> v_used V p \<longrightarrow>
        v_used V (jbpf_mbuf_free_from_data_ptr E p a) = v_used V p - {a} \<and>
        v_cap V (jbpf_mbuf_free_from_data_ptr E p a) = v_cap V p)"

text \<open>Sharing a buffer adds a reference and releasing it drops one; the channel calls leave the
  allocator's blocks alone, and a read never returns more than was asked for.\<close>

definition io_laws :: "('e, 'bm, 'it, 'ht, 'rg, 'pl) ext \<Rightarrow> ('e, 'bm, 'it, 'ht, 'rg, 'pl) views \<Rightarrow> bool" where
  "io_laws E V \<longleftrightarrow>
     (\<forall>e b p e'. jbpf_io_channel_share_data_ptr E e b = (p, e') \<longrightarrow>
        v_live V e' = v_live V e \<and> v_refs V e' = (v_refs V e)(b := v_refs V e b + 1)) \<and>
     (\<forall>e b. v_live V (jbpf_io_channel_release_buf E e b) = v_live V e \<and>
        v_refs V (jbpf_io_channel_release_buf E e b) = (v_refs V e)(b := v_refs V e b - 1)) \<and>
     (\<forall>e c n ps e'. jbpf_io_channel_recv_data E e c n = (ps, e') \<longrightarrow>
        v_live V e' = v_live V e \<and> int (length ps) \<le> max 0 n) \<and>
     (\<forall>e i d n s sid dsc r e'. jbpf_io_create_channel E e i d n s sid dsc = (r, e') \<longrightarrow> v_live V e' = v_live V e) \<and>
     (\<forall>e i c. v_live V (jbpf_io_destroy_channel E e i c) = v_live V e) \<and>
     (\<forall>e c r e'. jbpf_io_init E e c = (r, e') \<longrightarrow> v_live V e' = v_live V e) \<and>
     (\<forall>e. v_live V (jbpf_io_stop E e) = v_live V e) \<and>
     (\<forall>e i xs e'. jbpf_io_out_bufs E e i = (xs, e') \<longrightarrow> v_live V e' = v_live V e) \<and>
     (\<forall>e c r e'. jbpf_io_channel_submit_buf E e c = (r, e') \<longrightarrow> v_live V e' = v_live V e) \<and>
     (\<forall>e c r e'. jbpf_io_channel_reserve_buf E e c = (r, e') \<longrightarrow> v_live V e' = v_live V e)"

definition ext_laws :: "('e, 'bm, 'it, 'ht, 'rg, 'pl) ext \<Rightarrow> ('e, 'bm, 'it, 'ht, 'rg, 'pl) views \<Rightarrow> bool" where
  "ext_laws E V \<longleftrightarrow>
     alloc_laws E V \<and> bitmap_laws E V \<and> ht_laws E V \<and> epoch_laws E \<and> ring_laws E V \<and> pool_laws E V \<and> io_laws E V"

section \<open>The laws one by one\<close>

lemma ext_laws_parts:
  assumes "ext_laws E V"
  shows "alloc_laws E V" "bitmap_laws E V" "ht_laws E V" "epoch_laws E" "ring_laws E V" "pool_laws E V"
    "io_laws E V"
  using assms by (simp_all add: ext_laws_def)

lemmas alloc_laws_parts = ext_laws_parts(1) [unfolded alloc_laws_def]

lemmas alloc_lawsD =
  alloc_laws_parts [THEN conjunct1, rule_format]
  alloc_laws_parts [THEN conjunct2, THEN conjunct1, rule_format]
  alloc_laws_parts [THEN conjunct2, THEN conjunct2, THEN conjunct1, rule_format]
  alloc_laws_parts [THEN conjunct2, THEN conjunct2, THEN conjunct2, THEN conjunct1, rule_format]
  alloc_laws_parts [THEN conjunct2, THEN conjunct2, THEN conjunct2, THEN conjunct2, rule_format]

lemmas bitmap_laws_parts = ext_laws_parts(2) [unfolded bitmap_laws_def]

lemmas bitmap_lawsD =
  bitmap_laws_parts [THEN conjunct1, rule_format]
  bitmap_laws_parts [THEN conjunct2, THEN conjunct1, rule_format]
  bitmap_laws_parts [THEN conjunct2, THEN conjunct2, THEN conjunct1, rule_format]
  bitmap_laws_parts [THEN conjunct2, THEN conjunct2, THEN conjunct2, THEN conjunct1, rule_format]
  bitmap_laws_parts [THEN conjunct2, THEN conjunct2, THEN conjunct2, THEN conjunct2, THEN conjunct1, rule_format]
  bitmap_laws_parts [THEN conjunct2, THEN conjunct2, THEN conjunct2, THEN conjunct2, THEN conjunct2, THEN conjunct1, rule_format]
  bitmap_laws_parts [THEN conjunct2, THEN conjunct2, THEN conjunct2, THEN conjunct2, THEN conjunct2, THEN conjunct2, THEN conjunct1, rule_format]
  bitmap_laws_parts [THEN conjunct2, THEN conjunct2, THEN conjunct2, THEN conjunct2, THEN conjunct2, THEN conjunct2, THEN conjunct2, THEN conjunct1, rule_format]
  bitmap_laws_parts [THEN conjunct2, THEN conjunct2, THEN conjunct2, THEN conjunct2, THEN conjunct2, THEN conjunct2, THEN conjunct2, THEN conjunct2, rule_format]

lemmas ht_laws_parts = ext_laws_parts(3) [unfolded ht_laws_def]

lemmas ht_lawsD =
  ht_laws_parts [THEN conjunct1, rule_format]
  ht_laws_parts [THEN conjunct2, THEN conjunct1, rule_format]
  ht_laws_parts [THEN conjunct2, THEN conjunct2, THEN conjunct1, rule_format]
  ht_laws_parts [THEN conjunct2, THEN conjunct2, THEN conjunct2, THEN conjunct1, rule_format]
  ht_laws_parts [THEN conjunct2, THEN conjunct2, THEN conjunct2, THEN conjunct2, THEN conjunct1, rule_format]
  ht_laws_parts [THEN conjunct2, THEN conjunct2, THEN conjunct2, THEN conjunct2, THEN conjunct2, THEN conjunct1, rule_format]
  ht_laws_parts [THEN conjunct2, THEN conjunct2, THEN conjunct2, THEN conjunct2, THEN conjunct2, THEN conjunct2, THEN conjunct2, rule_format]
  ht_laws_parts [THEN conjunct2, THEN conjunct2, THEN conjunct2, THEN conjunct2, THEN conjunct2, THEN conjunct2, THEN conjunct1, rule_format]

lemmas epoch_lawsD = ext_laws_parts(4) [unfolded epoch_laws_def, rule_format]

lemmas ring_laws_parts = ext_laws_parts(5) [unfolded ring_laws_def]

lemmas ring_lawsD =
  ring_laws_parts [THEN conjunct1, rule_format]
  ring_laws_parts [THEN conjunct2, THEN conjunct1, rule_format]
  ring_laws_parts [THEN conjunct2, THEN conjunct2, rule_format]

lemmas pool_laws_parts = ext_laws_parts(6) [unfolded pool_laws_def]

lemmas pool_lawsD =
  pool_laws_parts [THEN conjunct1, rule_format]
  pool_laws_parts [THEN conjunct2, THEN conjunct1, rule_format]
  pool_laws_parts [THEN conjunct2, THEN conjunct2, THEN conjunct1, rule_format]
  pool_laws_parts [THEN conjunct2, THEN conjunct2, THEN conjunct2, THEN conjunct1, rule_format]
  pool_laws_parts [THEN conjunct2, THEN conjunct2, THEN conjunct2, THEN conjunct2, THEN conjunct1, rule_format]
  pool_laws_parts [THEN conjunct2, THEN conjunct2, THEN conjunct2, THEN conjunct2, THEN conjunct2, rule_format]

lemmas io_laws_parts = ext_laws_parts(7) [unfolded io_laws_def]

lemmas io_lawsD =
  io_laws_parts [THEN conjunct1, rule_format]
  io_laws_parts [THEN conjunct2, THEN conjunct1, rule_format]
  io_laws_parts [THEN conjunct2, THEN conjunct2, THEN conjunct1, rule_format]
  io_laws_parts [THEN conjunct2, THEN conjunct2, THEN conjunct2, THEN conjunct1, rule_format]
  io_laws_parts [THEN conjunct2, THEN conjunct2, THEN conjunct2, THEN conjunct2, THEN conjunct1, rule_format]
  io_laws_parts [THEN conjunct2, THEN conjunct2, THEN conjunct2, THEN conjunct2, THEN conjunct2, THEN conjunct1, rule_format]
  io_laws_parts [THEN conjunct2, THEN conjunct2, THEN conjunct2, THEN conjunct2, THEN conjunct2, THEN conjunct2, THEN conjunct1, rule_format]
  io_laws_parts [THEN conjunct2, THEN conjunct2, THEN conjunct2, THEN conjunct2, THEN conjunct2, THEN conjunct2, THEN conjunct2, THEN conjunct1, rule_format]
  io_laws_parts [THEN conjunct2, THEN conjunct2, THEN conjunct2, THEN conjunct2, THEN conjunct2, THEN conjunct2, THEN conjunct2, THEN conjunct2, THEN conjunct1, rule_format]
  io_laws_parts [THEN conjunct2, THEN conjunct2, THEN conjunct2, THEN conjunct2, THEN conjunct2, THEN conjunct2, THEN conjunct2, THEN conjunct2, THEN conjunct2, rule_format]

text \<open>The laws about a single bit, one conclusion each.\<close>

lemma bitmap_bit_laws:
  assumes "ext_laws E V" and "i < ck_bitmap_bits E b"
  shows "v_bits V (ck_bitmap_set E b i) = insert i (v_bits V b)"
    and "ck_bitmap_bits E (ck_bitmap_set E b i) = ck_bitmap_bits E b"
    and "v_bits V (ck_bitmap_reset E b i) = v_bits V b - {i}"
    and "ck_bitmap_bits E (ck_bitmap_reset E b i) = ck_bitmap_bits E b"
    and "fst (ck_bitmap_bts E b i) = (i \<in> v_bits V b)"
    and "v_bits V (snd (ck_bitmap_bts E b i)) = insert i (v_bits V b)"
    and "ck_bitmap_bits E (snd (ck_bitmap_bts E b i)) = ck_bitmap_bits E b"
  using bitmap_lawsD(3) [OF assms] by simp_all

lemma bitmap_fresh_laws:
  assumes "ext_laws E V"
  shows "v_bits V (ck_bitmap_init E n False) = {}"
    and "ck_bitmap_bits E (ck_bitmap_init E n False) = n"
    and "v_bits V (ck_bitmap_clear E b) = {}"
    and "ck_bitmap_bits E (ck_bitmap_clear E b) = ck_bitmap_bits E b"
  using bitmap_lawsD(1,4) [OF assms] by simp_all

lemma no_match_valid: "keys_valid V M t \<Longrightarrow> v_ht V t k = None \<Longrightarrow> no_match E V M t k"
  unfolding keys_valid_def no_match_def by (metis option.distinct(1) option.inject)

lemma bitmap_finite: "ext_laws E V \<Longrightarrow> finite (v_bits V b)"
  by (rule finite_subset [OF bitmap_lawsD(2)]) auto

end
