(* ===== verification/Router.thy ===== *)
theory Router
  imports Router_Ext
begin

text \<open>
  The router of \<open>src/router/jrtc_router.c\<close>: its state and all its operations, over the library
  functions of \<open>Router_Ext\<close>.  An operation takes the state and returns its result with the new state,
  or the undefined behaviour it runs into.  Operations are sequential; what they do to the spin lock,
  the epoch records and the calling thread is recorded as a trace of calls.
\<close>

definition JRTC_ROUTER_MAX_APP_QUEUE_SIZE :: nat where
  "JRTC_ROUTER_MAX_APP_QUEUE_SIZE = 10000"

definition JRTC_ROUTER_MAX_NUM_APPS :: nat where
  "JRTC_ROUTER_MAX_NUM_APPS = 128"

definition JRTC_ROUTER_INIT_NUM_REQ_ENTRIES :: nat where
  "JRTC_ROUTER_INIT_NUM_REQ_ENTRIES = 2048"

definition JRTC_ROUTER_NUM_APP_CHANNELS :: nat where
  "JRTC_ROUTER_NUM_APP_CHANNELS = 16"

definition JRTC_ROUTER_DATA_BATCH_SIZE :: int where
  "JRTC_ROUTER_DATA_BATCH_SIZE = 16"

definition round_up_pow_of_two :: "u32 \<Rightarrow> u32" where
  "round_up_pow_of_two x =
     (let v = x - 1;
          v = v OR drop_bit 1 v;
          v = v OR drop_bit 2 v;
          v = v OR drop_bit 4 v;
          v = v OR drop_bit 8 v;
          v = v OR drop_bit 16 v
      in v + 1)"

definition ht_hash_wrapper :: "u8 list \<Rightarrow> u64 \<Rightarrow> u64" where
  "ht_hash_wrapper key seed = MurmurHash64A key seed"

section \<open>State\<close>

text \<open>Objects on the heap are maps from addresses; an address that is not in the map has been freed or
  was never allocated.  A ring buffer is known by its address and its number of slots, a request's
  bitmap by its address and its contents, and the memory of a data entry pool is a map from the pool's
  buffers to the entries written there.\<close>

record jrtc_router_data_entry =
  de_stream_id :: stream_id
  de_data :: addr

record ('ht, 'rg, 'pl) dapp_router_ctx =
  ring :: 'rg
  ringbuffer :: addr
  ring_slots :: nat
  data_entry_pool :: 'pl
  data_mem :: "addr \<Rightarrow> jrtc_router_data_entry option"
  app_out_channel_list :: 'ht
  app_in_channel_list :: 'ht
  app_id :: int

record 'bm jrtc_router_req_entry =
  re_stream_id :: stream_id
  re_bitmap_ptr :: addr
  re_bitmap :: 'bm

record dapp_channel_ctx =
  io_channel :: addr
  ch_stream_id :: stream_id
  ch_app_ctx :: addr
  is_output :: bool

datatype call =
    LockInit | Lock | Unlock
  | EpochInit | EpochRegister "nat option"
  | EpochBegin "nat option" | EpochEnd "nat option" | EpochCall nat addr
  | RegisterThread

record ('e, 'bm, 'ht, 'rg, 'pl) jrtc_router_ctx =
  env :: 'e
  io_ctx :: "addr option"
  reqs :: 'ht
  req_entries :: "addr \<Rightarrow> 'bm jrtc_router_req_entry option"
  lookup_result :: 'bm
  app_ctxs :: "addr option list"
  app_bitmap :: 'bm
  dapps :: "addr \<Rightarrow> ('ht, 'rg, 'pl) dapp_router_ctx option"
  channels :: "addr \<Rightarrow> dapp_channel_ctx option"
  calls :: "call list"

definition req_keys :: "('e, 'bm, 'ht, 'rg, 'pl) jrtc_router_ctx \<Rightarrow> key_mem" where
  "req_keys st p = map_option re_stream_id (req_entries st p)"

definition called :: "call list \<Rightarrow> ('e, 'bm, 'ht, 'rg, 'pl) jrtc_router_ctx \<Rightarrow>
    ('e, 'bm, 'ht, 'rg, 'pl) jrtc_router_ctx" where
  "called cs st = st\<lparr>calls := calls st @ cs\<rparr>"

section \<open>Application ids\<close>

primrec reserve_scan :: "('e, 'bm, 'it, 'ht, 'rg, 'pl) ext \<Rightarrow> 'bm \<Rightarrow> nat list \<Rightarrow> int \<times> 'bm" where
  "reserve_scan E b [] = (-1, b)"
| "reserve_scan E b (i # is) =
     (case ck_bitmap_bts E b i of
        (was_set, b') \<Rightarrow> if \<not> was_set then (int i, b') else reserve_scan E b' is)"

definition jrtc_router_reserve_new_app ::
    "('e, 'bm, 'it, 'ht, 'rg, 'pl) ext \<Rightarrow> 'bm \<Rightarrow> int \<times> 'bm" where
  "jrtc_router_reserve_new_app E b = reserve_scan E b [0..<ck_bitmap_bits E b]"

definition jrtc_router_release_app ::
    "('e, 'bm, 'it, 'ht, 'rg, 'pl) ext \<Rightarrow> ('e, 'bm, 'ht, 'rg, 'pl) jrtc_router_ctx \<Rightarrow> int \<Rightarrow>
     ('e, 'bm, 'ht, 'rg, 'pl) jrtc_router_ctx" where
  "jrtc_router_release_app E st i = st\<lparr>app_bitmap := ck_bitmap_reset E (app_bitmap st) (nat i)\<rparr>"

section \<open>Registering an application\<close>

text \<open>The error labels of the function, each falling through to the next.\<close>

definition jfree ::
    "('e, 'bm, 'it, 'ht, 'rg, 'pl) ext \<Rightarrow> ('e, 'bm, 'ht, 'rg, 'pl) jrtc_router_ctx \<Rightarrow> addr \<Rightarrow>
     ub + ('e, 'bm, 'ht, 'rg, 'pl) jrtc_router_ctx" where
  "jfree E st a = bindS (jbpf_free E (env st) a) (\<lambda>e. Inr (st\<lparr>env := e\<rparr>))"

definition register_error ::
    "('e, 'bm, 'it, 'ht, 'rg, 'pl) ext \<Rightarrow> ('e, 'bm, 'ht, 'rg, 'pl) jrtc_router_ctx \<Rightarrow> int \<Rightarrow>
     ub + (addr option \<times> ('e, 'bm, 'ht, 'rg, 'pl) jrtc_router_ctx)" where
  "register_error E st i = Inr (None, jrtc_router_release_app E st i)"

definition register_dapp_error ::
    "('e, 'bm, 'it, 'ht, 'rg, 'pl) ext \<Rightarrow> ('e, 'bm, 'ht, 'rg, 'pl) jrtc_router_ctx \<Rightarrow> int \<Rightarrow> addr \<Rightarrow>
     ub + (addr option \<times> ('e, 'bm, 'ht, 'rg, 'pl) jrtc_router_ctx)" where
  "register_dapp_error E st i dapp = bindS (jfree E st dapp) (\<lambda>st. register_error E st i)"

definition register_dapp_ring_error ::
    "('e, 'bm, 'it, 'ht, 'rg, 'pl) ext \<Rightarrow> ('e, 'bm, 'ht, 'rg, 'pl) jrtc_router_ctx \<Rightarrow> int \<Rightarrow> addr \<Rightarrow> addr \<Rightarrow>
     ub + (addr option \<times> ('e, 'bm, 'ht, 'rg, 'pl) jrtc_router_ctx)" where
  "register_dapp_ring_error E st i dapp rb = bindS (jfree E st rb) (\<lambda>st. register_dapp_error E st i dapp)"

definition register_dapp_destroy_mempool ::
    "('e, 'bm, 'it, 'ht, 'rg, 'pl) ext \<Rightarrow> ('e, 'bm, 'ht, 'rg, 'pl) jrtc_router_ctx \<Rightarrow> int \<Rightarrow> addr \<Rightarrow> addr \<Rightarrow> 'pl \<Rightarrow>
     ub + (addr option \<times> ('e, 'bm, 'ht, 'rg, 'pl) jrtc_router_ctx)" where
  "register_dapp_destroy_mempool E st i dapp rb pl =
     register_dapp_ring_error E (st\<lparr>env := jbpf_destroy_mempool E (env st) pl\<rparr>) i dapp rb"

definition register_tables ::
    "('e, 'bm, 'it, 'ht, 'rg, 'pl) ext \<Rightarrow> ('e, 'bm, 'ht, 'rg, 'pl) jrtc_router_ctx \<Rightarrow> nat \<Rightarrow> int \<Rightarrow> addr \<Rightarrow> addr \<Rightarrow>
     'pl \<Rightarrow> ub + (addr option \<times> ('e, 'bm, 'ht, 'rg, 'pl) jrtc_router_ctx)" where
  "register_tables E st app_queue_size i dapp rb pl =
     (case ck_ht_init E (env st) ht_hash_wrapper JRTC_ROUTER_NUM_APP_CHANNELS 6602834 of
        (None, e) \<Rightarrow> register_dapp_destroy_mempool E (st\<lparr>env := e\<rparr>) i dapp rb pl
      | (Some out_list, e) \<Rightarrow>
          (case ck_ht_init E e ht_hash_wrapper JRTC_ROUTER_NUM_APP_CHANNELS 6602834 of
             (None, e) \<Rightarrow>
               register_dapp_destroy_mempool E (st\<lparr>env := ck_ht_destroy E e out_list\<rparr>) i dapp rb pl
           | (Some in_list, e) \<Rightarrow>
               (let d = \<lparr>ring = ck_ring_init E (round_up_pow_of_two (of_nat (app_queue_size + 1))),
                         ringbuffer = rb, ring_slots = app_queue_size + 1, data_entry_pool = pl,
                         data_mem = (\<lambda>_. None), app_out_channel_list = out_list,
                         app_in_channel_list = in_list, app_id = i\<rparr>
                in if nat i < length (app_ctxs st)
                   then Inr (Some dapp,
                          called [RegisterThread]
                            (st\<lparr>env := e, dapps := (dapps st)(dapp \<mapsto> d),
                                app_ctxs := (app_ctxs st)[nat i := Some dapp]\<rparr>))
                   else Inl OutOfBounds)))"

definition jrtc_router_register_app ::
    "('e, 'bm, 'it, 'ht, 'rg, 'pl) ext \<Rightarrow> ('e, 'bm, 'ht, 'rg, 'pl) jrtc_router_ctx \<Rightarrow> nat \<Rightarrow>
     ub + (addr option \<times> ('e, 'bm, 'ht, 'rg, 'pl) jrtc_router_ctx)" where
  "jrtc_router_register_app E st app_queue_size =
     (if JRTC_ROUTER_MAX_APP_QUEUE_SIZE < app_queue_size then Inr (None, st)
      else
        (case jrtc_router_reserve_new_app E (app_bitmap st) of
           (i, bm) \<Rightarrow>
             (let st = st\<lparr>app_bitmap := bm\<rparr> in
              if i < 0 then Inr (None, st)
              else
                (case jbpf_calloc E (env st) of
                   (None, e) \<Rightarrow> register_error E (st\<lparr>env := e\<rparr>) i
                 | (Some dapp, e) \<Rightarrow>
                     (case jbpf_calloc E e of
                        (None, e) \<Rightarrow> register_dapp_error E (st\<lparr>env := e\<rparr>) i dapp
                      | (Some rb, e) \<Rightarrow>
                          (case jbpf_init_mempool E e app_queue_size of
                             (None, e) \<Rightarrow> register_dapp_ring_error E (st\<lparr>env := e\<rparr>) i dapp rb
                           | (Some pl, e) \<Rightarrow>
                               register_tables E (st\<lparr>env := e\<rparr>) app_queue_size i dapp rb pl))))))"

section \<open>Deregistering an application\<close>

text \<open>A channel in the tables of an application is destroyed and freed; the table is destroyed after
  the walk.\<close>

definition destroy_dapp_channel ::
    "('e, 'bm, 'it, 'ht, 'rg, 'pl) ext \<Rightarrow> ('e, 'bm, 'ht, 'rg, 'pl) jrtc_router_ctx \<Rightarrow> addr \<Rightarrow>
     ub + ('e, 'bm, 'ht, 'rg, 'pl) jrtc_router_ctx" where
  "destroy_dapp_channel E st c =
     (case channels st c of
        None \<Rightarrow> Inl (UseAfterFree c)
      | Some ch \<Rightarrow>
          jfree E (st\<lparr>env := jbpf_io_destroy_channel E (env st) (io_ctx st) (io_channel ch),
                      channels := (channels st)(c := None)\<rparr>) c)"

primrec destroy_dapp_channels ::
    "('e, 'bm, 'it, 'ht, 'rg, 'pl) ext \<Rightarrow> ('e, 'bm, 'ht, 'rg, 'pl) jrtc_router_ctx \<Rightarrow> addr list \<Rightarrow>
     ub + ('e, 'bm, 'ht, 'rg, 'pl) jrtc_router_ctx" where
  "destroy_dapp_channels E st [] = Inr st"
| "destroy_dapp_channels E st (c # cs) =
     bindS (destroy_dapp_channel E st c) (\<lambda>st. destroy_dapp_channels E st cs)"

definition jrtc_router_deregister_app ::
    "('e, 'bm, 'it, 'ht, 'rg, 'pl) ext \<Rightarrow> ('e, 'bm, 'ht, 'rg, 'pl) jrtc_router_ctx \<Rightarrow> addr option \<Rightarrow>
     ub + ('e, 'bm, 'ht, 'rg, 'pl) jrtc_router_ctx" where
  "jrtc_router_deregister_app E st app_ctx =
     (case app_ctx of
        None \<Rightarrow> Inr st
      | Some a \<Rightarrow>
          (case dapps st a of
             None \<Rightarrow> Inl (UseAfterFree a)
           | Some d \<Rightarrow>
               bindS (destroy_dapp_channels E st (ck_ht_entries E (app_out_channel_list d))) (\<lambda>st.
               let st = st\<lparr>env := ck_ht_destroy E (env st) (app_out_channel_list d)\<rparr> in
               bindS (destroy_dapp_channels E st (ck_ht_entries E (app_in_channel_list d))) (\<lambda>st.
               let st = st\<lparr>env := ck_ht_destroy E (env st) (app_in_channel_list d)\<rparr> in
               bindS (jfree E st (ringbuffer d)) (\<lambda>st.
               let st = st\<lparr>env := jbpf_destroy_mempool E (env st) (data_entry_pool d)\<rparr> in
               bindS (jfree E (st\<lparr>dapps := (dapps st)(a := None)\<rparr>) a) (\<lambda>st.
               if 0 \<le> app_id d \<and> nat (app_id d) < length (app_ctxs st)
               then Inr (jrtc_router_release_app E
                      (st\<lparr>app_ctxs := (app_ctxs st)[nat (app_id d) := None]\<rparr>) (app_id d))
               else Inl OutOfBounds))))))"

section \<open>Requests\<close>

text \<open>The key that is stored points to the id inside the new entry, its first member, so the key's
  address is the entry's.  The entry is filled in before the table can refer to it.\<close>

definition app_of :: "('e, 'bm, 'ht, 'rg, 'pl) jrtc_router_ctx \<Rightarrow> addr \<Rightarrow> ub + ('ht, 'rg, 'pl) dapp_router_ctx" where
  "app_of st a = (case dapps st a of None \<Rightarrow> Inl (UseAfterFree a) | Some d \<Rightarrow> Inr d)"

definition bad_app_id :: "int \<Rightarrow> bool" where
  "bad_app_id i \<longleftrightarrow> i < 0 \<or> int JRTC_ROUTER_MAX_NUM_APPS \<le> i"

definition add_req_entry ::
    "('e, 'bm, 'it, 'ht, 'rg, 'pl) ext \<Rightarrow> ('e, 'bm, 'ht, 'rg, 'pl) jrtc_router_ctx \<Rightarrow> nat \<Rightarrow> stream_id \<Rightarrow>
     ub + (int \<times> ('e, 'bm, 'ht, 'rg, 'pl) jrtc_router_ctx)" where
  "add_req_entry E st i sid =
     (case jbpf_malloc E (env st) of
        (None, e) \<Rightarrow> Inr (-1, st\<lparr>env := e\<rparr>)
      | (Some entry, e) \<Rightarrow>
          (case jbpf_malloc E e of
             (None, e) \<Rightarrow> bindS (jfree E (st\<lparr>env := e\<rparr>) entry) (\<lambda>st. Inr (-1, st))
           | (Some bptr, e) \<Rightarrow>
               (let bm = ck_bitmap_set E (ck_bitmap_init E JRTC_ROUTER_MAX_NUM_APPS False) i;
                    st = st\<lparr>env := e, req_entries := (req_entries st)(entry \<mapsto>
                           \<lparr>re_stream_id = sid, re_bitmap_ptr = bptr, re_bitmap = bm\<rparr>)\<rparr>
                in case ck_ht_set_spmc E (req_keys st) (env st) (reqs st) (ck_ht_hash E (reqs st) sid) entry sid entry of
                     (ok, t, e) \<Rightarrow> Inr (if ok then 1 else -1, st\<lparr>env := e, reqs := t\<rparr>))))"

definition update_req_entry ::
    "('bm \<Rightarrow> 'bm) \<Rightarrow> ('e, 'bm, 'ht, 'rg, 'pl) jrtc_router_ctx \<Rightarrow> addr \<Rightarrow>
     ub + ('bm \<times> ('e, 'bm, 'ht, 'rg, 'pl) jrtc_router_ctx)" where
  "update_req_entry f st a =
     (case req_entries st a of
        None \<Rightarrow> Inl (UseAfterFree a)
      | Some en \<Rightarrow>
          Inr (f (re_bitmap en),
               st\<lparr>req_entries := (req_entries st)(a \<mapsto> en\<lparr>re_bitmap := f (re_bitmap en)\<rparr>)\<rparr>))"

definition jrtc_router_channel_register_stream_id_req ::
    "('e, 'bm, 'it, 'ht, 'rg, 'pl) ext \<Rightarrow> ('e, 'bm, 'ht, 'rg, 'pl) jrtc_router_ctx \<Rightarrow> addr option \<Rightarrow> stream_id \<Rightarrow>
     ub + (int \<times> ('e, 'bm, 'ht, 'rg, 'pl) jrtc_router_ctx)" where
  "jrtc_router_channel_register_stream_id_req E st app_ctx sid =
     (case app_ctx of
        None \<Rightarrow> Inr (-1, st)
      | Some a \<Rightarrow>
          bindS (app_of st a) (\<lambda>d.
          if bad_app_id (app_id d) then Inr (-1, st)
          else
            (let st = called [Lock] st in
             bindS (case ck_ht_get_spmc E (req_keys st) (reqs st) (ck_ht_hash E (reqs st) sid) sid of
                      None \<Rightarrow> add_req_entry E st (nat (app_id d)) sid
                    | Some entry \<Rightarrow>
                        bindS (update_req_entry (\<lambda>bm. ck_bitmap_set E bm (nat (app_id d))) st entry)
                          (\<lambda>(_, st). Inr (1, st)))
               (\<lambda>(res, st). Inr (res, called [Unlock] st)))))"

text \<open>The destructor that the epoch barrier runs for a removed entry.\<close>

definition stream_id_req_destructor ::
    "('e, 'bm, 'it, 'ht, 'rg, 'pl) ext \<Rightarrow> ('e, 'bm, 'ht, 'rg, 'pl) jrtc_router_ctx \<Rightarrow> addr \<Rightarrow>
     ub + ('e, 'bm, 'ht, 'rg, 'pl) jrtc_router_ctx" where
  "stream_id_req_destructor E st a =
     (case req_entries st a of
        None \<Rightarrow> Inl (UseAfterFree a)
      | Some en \<Rightarrow>
          bindS (jfree E st (re_bitmap_ptr en)) (\<lambda>st.
            jfree E (st\<lparr>req_entries := (req_entries st)(a := None)\<rparr>) a))"

primrec run_destructors ::
    "('e, 'bm, 'it, 'ht, 'rg, 'pl) ext \<Rightarrow> ('e, 'bm, 'ht, 'rg, 'pl) jrtc_router_ctx \<Rightarrow> addr list \<Rightarrow>
     ub + ('e, 'bm, 'ht, 'rg, 'pl) jrtc_router_ctx" where
  "run_destructors E st [] = Inr st"
| "run_destructors E st (a # as) = bindS (stream_id_req_destructor E st a) (\<lambda>st. run_destructors E st as)"

definition remove_req_entry ::
    "('e, 'bm, 'it, 'ht, 'rg, 'pl) ext \<Rightarrow> ('e, 'bm, 'ht, 'rg, 'pl) jrtc_router_ctx \<Rightarrow> nat \<Rightarrow> stream_id \<Rightarrow> addr \<Rightarrow>
     ub + ('e, 'bm, 'ht, 'rg, 'pl) jrtc_router_ctx" where
  "remove_req_entry E st i sid entry =
     (let st = called [EpochBegin (Some i)] st;
          st = st\<lparr>reqs := snd (ck_ht_remove_spmc E (req_keys st) (reqs st) (ck_ht_hash E (reqs st) sid) sid)\<rparr>;
          st = called [EpochEnd (Some i), EpochCall i entry] st
      in run_destructors E st (ck_epoch_barrier E [entry]))"

definition jrtc_router_channel_deregister_stream_id_req ::
    "('e, 'bm, 'it, 'ht, 'rg, 'pl) ext \<Rightarrow> ('e, 'bm, 'ht, 'rg, 'pl) jrtc_router_ctx \<Rightarrow> addr option \<Rightarrow> stream_id \<Rightarrow>
     ub + ('e, 'bm, 'ht, 'rg, 'pl) jrtc_router_ctx" where
  "jrtc_router_channel_deregister_stream_id_req E st app_ctx sid =
     (case app_ctx of
        None \<Rightarrow> Inr st
      | Some a \<Rightarrow>
          bindS (app_of st a) (\<lambda>d.
          if bad_app_id (app_id d) then Inr st
          else
            (let st = called [Lock] st in
             bindS (case ck_ht_get_spmc E (req_keys st) (reqs st) (ck_ht_hash E (reqs st) sid) sid of
                      None \<Rightarrow> Inr st
                    | Some entry \<Rightarrow>
                        bindS (update_req_entry (\<lambda>bm. ck_bitmap_reset E bm (nat (app_id d))) st entry)
                          (\<lambda>(bm, st).
                            if ck_bitmap_empty E bm JRTC_ROUTER_MAX_NUM_APPS
                            then remove_req_entry E st (nat (app_id d)) sid entry
                            else Inr st))
               (\<lambda>st. Inr (called [Unlock] st)))))"

text \<open>The variants that first generate the id into an uninitialised local (\<open>junk\<close>) on the process heap
  \<open>m\<close>; the result of the generation is ignored.\<close>

definition jrtc_router_channel_register_req ::
    "bool \<Rightarrow> ('e, 'bm, 'it, 'ht, 'rg, 'pl) ext \<Rightarrow> mem \<Rightarrow> ('e, 'bm, 'ht, 'rg, 'pl) jrtc_router_ctx \<Rightarrow>
     addr option \<Rightarrow> stream_id \<Rightarrow> u32 \<Rightarrow> u32 \<Rightarrow> string option \<Rightarrow> string option \<Rightarrow>
     ub + (int \<times> mem \<times> ('e, 'bm, 'ht, 'rg, 'pl) jrtc_router_ctx)" where
  "jrtc_router_channel_register_req sc E m st app_ctx junk fd dev sp sn =
     bindS (jrtc_router_generate_stream_id sc m (Some junk) fd dev sp sn) (\<lambda>(_, sid, m).
     bindS (case sid of None \<Rightarrow> Inl NullDeref | Some s \<Rightarrow> Inr s) (\<lambda>s.
     bindS (jrtc_router_channel_register_stream_id_req E st app_ctx s) (\<lambda>(res, st). Inr (res, m, st))))"

definition jrtc_router_channel_deregister_req ::
    "bool \<Rightarrow> ('e, 'bm, 'it, 'ht, 'rg, 'pl) ext \<Rightarrow> mem \<Rightarrow> ('e, 'bm, 'ht, 'rg, 'pl) jrtc_router_ctx \<Rightarrow>
     addr option \<Rightarrow> stream_id \<Rightarrow> u32 \<Rightarrow> u32 \<Rightarrow> string option \<Rightarrow> string option \<Rightarrow>
     ub + (mem \<times> ('e, 'bm, 'ht, 'rg, 'pl) jrtc_router_ctx)" where
  "jrtc_router_channel_deregister_req sc E m st app_ctx junk fd dev sp sn =
     bindS (jrtc_router_generate_stream_id sc m (Some junk) fd dev sp sn) (\<lambda>(_, sid, m).
     bindS (case sid of None \<Rightarrow> Inl NullDeref | Some s \<Rightarrow> Inr s) (\<lambda>s.
     bindS (jrtc_router_channel_deregister_stream_id_req E st app_ctx s) (\<lambda>st. Inr (m, st))))"

section \<open>Forwarding messages\<close>

text \<open>The lookup of a message's 16 ids, collecting the subscribed applications.\<close>

primrec lookup_reqs ::
    "('e, 'bm, 'it, 'ht, 'rg, 'pl) ext \<Rightarrow> ('e, 'bm, 'ht, 'rg, 'pl) jrtc_router_ctx \<Rightarrow> stream_id list \<Rightarrow>
     ub + ('e, 'bm, 'ht, 'rg, 'pl) jrtc_router_ctx" where
  "lookup_reqs E st [] = Inr st"
| "lookup_reqs E st (k # ks) =
     (case ck_ht_get_spmc E (req_keys st) (reqs st) (ck_ht_hash E (reqs st) k) k of
        None \<Rightarrow> lookup_reqs E st ks
      | Some a \<Rightarrow>
          (case req_entries st a of
             None \<Rightarrow> Inl (UseAfterFree a)
           | Some en \<Rightarrow>
               lookup_reqs E (st\<lparr>lookup_result := ck_bitmap_union E (lookup_result st) (re_bitmap en)\<rparr>) ks))"

text \<open>The body of the inner loop, for one application and one buffer.  The result of the enqueue is
  ignored.\<close>

definition forward_to_app ::
    "('e, 'bm, 'it, 'ht, 'rg, 'pl) ext \<Rightarrow> ('e, 'bm, 'ht, 'rg, 'pl) jrtc_router_ctx \<Rightarrow> stream_id \<Rightarrow> addr \<Rightarrow> nat \<Rightarrow>
     ub + ('e, 'bm, 'ht, 'rg, 'pl) jrtc_router_ctx" where
  "forward_to_app E st sid buf i =
     (if \<not> i < length (app_ctxs st) then Inl OutOfBounds
      else case app_ctxs st ! i of
        None \<Rightarrow> Inr st
      | Some a \<Rightarrow>
          (case dapps st a of
             None \<Rightarrow> Inl (UseAfterFree a)
           | Some d \<Rightarrow>
               (case jbpf_mbuf_alloc E (data_entry_pool d) of
                  (None, pl) \<Rightarrow> Inr (st\<lparr>dapps := (dapps st)(a \<mapsto> d\<lparr>data_entry_pool := pl\<rparr>)\<rparr>)
                | (Some de, pl) \<Rightarrow>
                    (case jbpf_io_channel_share_data_ptr E (env st) buf of
                       (ptr, e) \<Rightarrow>
                         bindS (ck_ring_enqueue_spsc E (ring d) (ring_slots d) de) (\<lambda>(_, rg).
                           Inr (st\<lparr>env := e,
                                   dapps := (dapps st)(a \<mapsto> d\<lparr>data_entry_pool := pl, ring := rg,
                                     data_mem := (data_mem d)(de \<mapsto> \<lparr>de_stream_id = sid, de_data = ptr\<rparr>)\<rparr>)\<rparr>))))))"

text \<open>The inner loop runs the bitmap iterator until it is exhausted; \<open>None\<close> is running out of fuel.\<close>

fun forward_buf ::
    "nat \<Rightarrow> ('e, 'bm, 'it, 'ht, 'rg, 'pl) ext \<Rightarrow> ('e, 'bm, 'ht, 'rg, 'pl) jrtc_router_ctx \<Rightarrow> stream_id \<Rightarrow> addr \<Rightarrow> 'it \<Rightarrow>
     (ub + (('e, 'bm, 'ht, 'rg, 'pl) jrtc_router_ctx \<times> 'it)) option" where
  "forward_buf 0 E st sid buf it = None"
| "forward_buf (Suc n) E st sid buf it =
     (case ck_bitmap_next E (lookup_result st) it of
        (None, it) \<Rightarrow> Some (Inr (st, it))
      | (Some i, it) \<Rightarrow>
          (case forward_to_app E st sid buf i of
             Inl u \<Rightarrow> Some (Inl u)
           | Inr st \<Rightarrow> forward_buf n E st sid buf it))"

fun forward_bufs ::
    "nat \<Rightarrow> ('e, 'bm, 'it, 'ht, 'rg, 'pl) ext \<Rightarrow> ('e, 'bm, 'ht, 'rg, 'pl) jrtc_router_ctx \<Rightarrow> stream_id \<Rightarrow> addr list \<Rightarrow> 'it \<Rightarrow>
     (ub + ('e, 'bm, 'ht, 'rg, 'pl) jrtc_router_ctx) option" where
  "forward_bufs n E st sid [] it = Some (Inr st)"
| "forward_bufs n E st sid (b # bs) it =
     (case forward_buf n E st sid b it of
        None \<Rightarrow> None
      | Some (Inl u) \<Rightarrow> Some (Inl u)
      | Some (Inr (st, it)) \<Rightarrow>
          forward_bufs n E (st\<lparr>env := jbpf_io_channel_release_buf E (env st) b\<rparr>) sid bs it)"

text \<open>\<open>bufs\<close> are the \<open>num_bufs\<close> buffers; an empty list stands for \<open>num_bufs <= 0\<close>.\<close>

definition jrtc_router_forward_msgs ::
    "nat \<Rightarrow> bool \<Rightarrow> ('e, 'bm, 'it, 'ht, 'rg, 'pl) ext \<Rightarrow> ('e, 'bm, 'ht, 'rg, 'pl) jrtc_router_ctx \<Rightarrow> addr option \<Rightarrow>
     stream_id \<Rightarrow> addr list \<Rightarrow> (ub + ('e, 'bm, 'ht, 'rg, 'pl) jrtc_router_ctx) option" where
  "jrtc_router_forward_msgs n sc E st chan sid bufs =
     (if chan = None \<or> bufs = [] then Some (Inr st)
      else
        (let st = st\<lparr>lookup_result := ck_bitmap_clear E (lookup_result st)\<rparr>;
             st = called [EpochBegin None] st
         in case lookup_reqs E st (lookup_ids sc sid) of
              Inl u \<Rightarrow> Some (Inl u)
            | Inr st \<Rightarrow>
                (let st = called [EpochEnd None] st
                 in forward_bufs n E st sid bufs (ck_bitmap_iterator_init E (lookup_result st)))))"

section \<open>Receiving\<close>

text \<open>The first loop drains the ring of the application into the output array, at most \<open>n\<close> entries.\<close>

fun receive_ring ::
    "nat \<Rightarrow> ('e, 'bm, 'it, 'ht, 'rg, 'pl) ext \<Rightarrow> ('ht, 'rg, 'pl) dapp_router_ctx \<Rightarrow>
     ub + (jrtc_router_data_entry list \<times> ('ht, 'rg, 'pl) dapp_router_ctx)" where
  "receive_ring 0 E d = Inr ([], d)"
| "receive_ring (Suc n) E d =
     (case ck_ring_dequeue_spsc E (ring d) (ring_slots d) of
        (None, rg) \<Rightarrow> Inr ([], d\<lparr>ring := rg\<rparr>)
      | (Some de, rg) \<Rightarrow>
          (case data_mem d de of
             None \<Rightarrow> Inl (UseAfterFree de)
           | Some x \<Rightarrow>
               bindS (receive_ring n E (d\<lparr>ring := rg,
                        data_entry_pool := jbpf_mbuf_free_from_data_ptr E (data_entry_pool d) de,
                        data_mem := (data_mem d)(de := None)\<rparr>))
                 (\<lambda>(xs, d). Inr (x # xs, d))))"

text \<open>The second loop walks the input channels while there is room, reading at most a batch from each.\<close>

fun receive_channels ::
    "('e, 'bm, 'it, 'ht, 'rg, 'pl) ext \<Rightarrow> ('e, 'bm, 'ht, 'rg, 'pl) jrtc_router_ctx \<Rightarrow> int \<Rightarrow> addr list \<Rightarrow>
     jrtc_router_data_entry list \<Rightarrow>
     ub + (jrtc_router_data_entry list \<times> ('e, 'bm, 'ht, 'rg, 'pl) jrtc_router_ctx)" where
  "receive_channels E st num [] got = Inr (got, st)"
| "receive_channels E st num (c # cs) got =
     (if \<not> int (length got) < num then Inr (got, st)
      else case channels st c of
        None \<Rightarrow> Inl (UseAfterFree c)
      | Some ch \<Rightarrow>
          (let pending = num - int (length got);
               nreqs = (if pending < JRTC_ROUTER_DATA_BATCH_SIZE then pending else JRTC_ROUTER_DATA_BATCH_SIZE)
           in case jbpf_io_channel_recv_data E (env st) (io_channel ch) nreqs of
                (ptrs, e) \<Rightarrow>
                  receive_channels E (st\<lparr>env := e\<rparr>) num cs
                    (got @ map (\<lambda>p. \<lparr>de_stream_id = ch_stream_id ch, de_data = p\<rparr>) ptrs)))"

definition jrtc_router_receive ::
    "('e, 'bm, 'it, 'ht, 'rg, 'pl) ext \<Rightarrow> ('e, 'bm, 'ht, 'rg, 'pl) jrtc_router_ctx \<Rightarrow> addr \<Rightarrow> nat \<Rightarrow>
     ub + (jrtc_router_data_entry list \<times> ('e, 'bm, 'ht, 'rg, 'pl) jrtc_router_ctx)" where
  "jrtc_router_receive E st a num_entries =
     bindS (app_of st a) (\<lambda>d.
     bindS (receive_ring num_entries E d) (\<lambda>(xs, d).
       receive_channels E (st\<lparr>dapps := (dapps st)(a \<mapsto> d)\<rparr>) (int num_entries)
         (ck_ht_entries E (app_in_channel_list d)) xs))"


end
