(* ===== verification/Router_Reqs.thy ===== *)
theory Router_Reqs
  imports Router
begin

text \<open>
  The request table of the router: its invariant, and the refinement of the registration calls to
  operations on the map from request ids to sets of applications.
\<close>

section \<open>Ownership of blocks\<close>

text \<open>Every block of the allocator that the router holds belongs to one object.\<close>

datatype obj = Req addr | ReqBitmap addr | Dapp addr | RingBuf addr | Chan addr

definition req_owners :: "('e, 'bm, 'ht, 'rg, 'pl) jrtc_router_ctx \<Rightarrow> (addr \<times> obj) set" where
  "req_owners st = {(a, Req a) | a en. req_entries st a = Some en} \<union>
     {(re_bitmap_ptr en, ReqBitmap a) | a en. req_entries st a = Some en}"

definition app_owners :: "('e, 'bm, 'ht, 'rg, 'pl) jrtc_router_ctx \<Rightarrow> (addr \<times> obj) set" where
  "app_owners st = {(a, Dapp a) | a d. dapps st a = Some d} \<union>
     {(ringbuffer d, RingBuf a) | a d. dapps st a = Some d} \<union>
     {(c, Chan c) | c ch. channels st c = Some ch}"

definition owners :: "('e, 'bm, 'ht, 'rg, 'pl) jrtc_router_ctx \<Rightarrow> (addr \<times> obj) set" where
  "owners st = req_owners st \<union> app_owners st"

lemma owners_iff [simp]:
  "(x, Req a) \<in> owners st \<longleftrightarrow> x = a \<and> (\<exists>en. req_entries st a = Some en)"
  "(x, ReqBitmap a) \<in> owners st \<longleftrightarrow> (\<exists>en. req_entries st a = Some en \<and> x = re_bitmap_ptr en)"
  "(x, Dapp a) \<in> owners st \<longleftrightarrow> x = a \<and> (\<exists>d. dapps st a = Some d)"
  "(x, RingBuf a) \<in> owners st \<longleftrightarrow> (\<exists>d. dapps st a = Some d \<and> x = ringbuffer d)"
  "(x, Chan a) \<in> owners st \<longleftrightarrow> x = a \<and> (\<exists>ch. channels st a = Some ch)"
  unfolding owners_def req_owners_def app_owners_def by auto

lemma owners_eqI:
  fixes os os' :: "(addr \<times> obj) set"
  assumes "\<And>a x. (x, Req a) \<in> os \<longleftrightarrow> (x, Req a) \<in> os'" and "\<And>a x. (x, ReqBitmap a) \<in> os \<longleftrightarrow> (x, ReqBitmap a) \<in> os'"
    and "\<And>a x. (x, Dapp a) \<in> os \<longleftrightarrow> (x, Dapp a) \<in> os'" and "\<And>a x. (x, RingBuf a) \<in> os \<longleftrightarrow> (x, RingBuf a) \<in> os'"
    and "\<And>a x. (x, Chan a) \<in> os \<longleftrightarrow> (x, Chan a) \<in> os'"
  shows "os = os'"
proof (rule set_eqI)
  fix p :: "addr \<times> obj"
  obtain x y where "p = (x, y)" by fastforce
  then show "p \<in> os \<longleftrightarrow> p \<in> os'" by (cases y) (simp_all add: assms)
qed

lemma jfree_live:
  assumes "ext_laws E V" and "a \<in> v_live V (env st)"
  shows "\<exists>e. jfree E st a = Inr (st\<lparr>env := e\<rparr>) \<and> v_live V e = v_live V (env st) - {a}"
  using alloc_lawsD(5) [OF assms] by (auto simp: jfree_def)

section \<open>The invariant of the request table\<close>

text \<open>Every table entry points to an allocated request entry for its key with a nonempty bitmap over all
  application ids; the stored key is the id inside that entry.\<close>

definition req_entry_ok :: "('e, 'bm, 'it, 'ht, 'rg, 'pl) ext \<Rightarrow> ('e, 'bm, 'it, 'ht, 'rg, 'pl) views \<Rightarrow>
    ('e, 'bm, 'ht, 'rg, 'pl) jrtc_router_ctx \<Rightarrow> stream_id \<Rightarrow> addr \<Rightarrow> bool" where
  "req_entry_ok E V st k a \<longleftrightarrow>
     (\<exists>en. req_entries st a = Some en \<and> re_stream_id en = k \<and>
        ck_bitmap_bits E (re_bitmap en) = JRTC_ROUTER_MAX_NUM_APPS \<and> v_bits V (re_bitmap en) \<noteq> {})"

definition req_inv :: "('e, 'bm, 'it, 'ht, 'rg, 'pl) ext \<Rightarrow> ('e, 'bm, 'it, 'ht, 'rg, 'pl) views \<Rightarrow>
    ('e, 'bm, 'ht, 'rg, 'pl) jrtc_router_ctx \<Rightarrow> bool" where
  "req_inv E V st \<longleftrightarrow>
     (\<forall>k p a. v_ht V (reqs st) k = Some (p, a) \<longrightarrow> p = a \<and> req_entry_ok E V st k a) \<and>
     heap_ok (v_live V (env st)) (owners st)"

text \<open>The abstract state: which applications have asked for an id.\<close>

definition subs :: "('e, 'bm, 'it, 'ht, 'rg, 'pl) views \<Rightarrow> ('e, 'bm, 'ht, 'rg, 'pl) jrtc_router_ctx \<Rightarrow>
    stream_id \<Rightarrow> nat set" where
  "subs V st k =
     (case v_ht V (reqs st) k of
        None \<Rightarrow> {}
      | Some (_, a) \<Rightarrow> (case req_entries st a of None \<Rightarrow> {} | Some en \<Rightarrow> v_bits V (re_bitmap en)))"

text \<open>The parts of the state that the request operations do not touch.\<close>

definition same_apps :: "('e, 'bm, 'ht, 'rg, 'pl) jrtc_router_ctx \<Rightarrow> ('e, 'bm, 'ht, 'rg, 'pl) jrtc_router_ctx \<Rightarrow> bool" where
  "same_apps st st' \<longleftrightarrow> dapps st' = dapps st \<and> app_ctxs st' = app_ctxs st \<and> app_bitmap st' = app_bitmap st \<and>
     channels st' = channels st \<and> io_ctx st' = io_ctx st"

lemma req_inv_keys_valid: "req_inv E V st \<Longrightarrow> keys_valid V (req_keys st) (reqs st)"
  by (fastforce simp: req_inv_def keys_valid_def req_keys_def req_entry_ok_def)

lemma req_inv_entry:
  assumes "req_inv E V st" and "v_ht V (reqs st) k = Some (p, a)"
  shows "p = a \<and> (\<exists>en. req_entries st a = Some en \<and> re_stream_id en = k \<and>
    ck_bitmap_bits E (re_bitmap en) = JRTC_ROUTER_MAX_NUM_APPS \<and> v_bits V (re_bitmap en) \<noteq> {})"
  using assms by (simp add: req_inv_def req_entry_ok_def)

lemma req_inv_unique:
  assumes "req_inv E V st" and "v_ht V (reqs st) k = Some (p, a)" and "v_ht V (reqs st) k' = Some (p', a)"
  shows "k = k'"
  using req_inv_entry [OF assms(1,2)] req_inv_entry [OF assms(1,3)] by auto

lemma called_simps [simp]:
  "env (called cs st) = env st" "io_ctx (called cs st) = io_ctx st" "reqs (called cs st) = reqs st"
  "req_entries (called cs st) = req_entries st" "lookup_result (called cs st) = lookup_result st"
  "app_ctxs (called cs st) = app_ctxs st" "app_bitmap (called cs st) = app_bitmap st"
  "dapps (called cs st) = dapps st" "channels (called cs st) = channels st"
  "calls (called cs st) = calls st @ cs"
  by (simp_all add: called_def)

lemma req_keys_cong: "req_entries st = req_entries st' \<Longrightarrow> req_keys st = req_keys st'"
  by (simp add: req_keys_def fun_eq_iff)

lemma owners_cong:
  assumes "req_entries st = req_entries st'" and "dapps st = dapps st'" and "channels st = channels st'"
  shows "owners st = owners st'"
  using assms by (simp add: owners_def req_owners_def app_owners_def)

lemma req_inv_cong:
  assumes "req_inv E V st" and "reqs st' = reqs st" and "req_entries st' = req_entries st"
    and "dapps st' = dapps st" and "channels st' = channels st" and "v_live V (env st) \<subseteq> v_live V (env st')"
  shows "req_inv E V st'"
  using assms owners_cong [of st' st] heap_ok_mono [of "v_live V (env st)" "owners st" "v_live V (env st')" "owners st'"]
  by (simp add: req_inv_def req_entry_ok_def)

lemma subs_cong:
  assumes "reqs st' = reqs st" and "req_entries st' = req_entries st"
  shows "subs V st' = subs V st"
  using assms by (auto simp: subs_def fun_eq_iff split: option.splits)

lemma subs_frame [simp]: "subs V (st\<lparr>env := e\<rparr>) = subs V st" "subs V (called cs st) = subs V st"
  by (rule subs_cong; simp)+

section \<open>Adding a request\<close>

lemma req_owners_fresh:
  assumes "heap_ok lv (owners st)" and "a \<notin> lv"
  shows "req_entries st a = None"
  using assms heap_ok_live [of lv "owners st" a "Req a"] by (cases "req_entries st a") auto

lemma owners_add_entry:
  assumes "req_entries st a = None"
  shows "owners (st\<lparr>env := e, req_entries := (req_entries st)(a \<mapsto> en)\<rparr>) =
    insert (a, Req a) (insert (re_bitmap_ptr en, ReqBitmap a) (owners st))"
  using assms by (intro owners_eqI) auto

text \<open>The new entry \<open>a\<close> with its bitmap \<open>b\<close>, stored in the table or not.\<close>

lemma store_req_entry:
  assumes L: "ext_laws E V" and inv: "req_inv E V st" and new: "v_ht V (reqs st) sid = None"
    and a: "a \<notin> v_live V (env st)" and b: "b \<notin> insert a (v_live V (env st))"
    and live: "v_live V e = insert b (insert a (v_live V (env st)))"
    and bm: "v_bits V bm = {i}" "ck_bitmap_bits E bm = JRTC_ROUTER_MAX_NUM_APPS"
    and st1: "st1 = st\<lparr>env := e, req_entries := (req_entries st)(a \<mapsto>
      \<lparr>re_stream_id = sid, re_bitmap_ptr = b, re_bitmap = bm\<rparr>)\<rparr>"
    and set: "ck_ht_set_spmc E (req_keys st1) e (reqs st) (ck_ht_hash E (reqs st) sid) a sid a = (ok, t, e')"
  shows "req_inv E V (st1\<lparr>env := e', reqs := t\<rparr>)"
    and "subs V (st1\<lparr>env := e', reqs := t\<rparr>) = (if ok then (subs V st)(sid := {i}) else subs V st)"
proof -
  let ?st' = "st1\<lparr>env := e', reqs := t\<rparr>"
  have fresh: "req_entries st a = None"
    using inv a by (auto simp: req_inv_def intro: req_owners_fresh)
  have "heap_ok (insert a (v_live V (env st))) (insert (a, Req a) (owners st))"
    using inv a unfolding req_inv_def by (auto intro: heap_ok_alloc)
  then have heap: "heap_ok (v_live V e) (owners st1)"
    unfolding st1 owners_add_entry [OF fresh] live using b by (rule heap_ok_alloc) auto
  have keep: "req_entry_ok E V st1 k x" if "req_entry_ok E V st k x" for k x
    using that fresh by (auto simp: req_entry_ok_def st1)
  have valid: "keys_valid V (req_keys st1) (reqs st)"
    using inv keep by (fastforce simp: req_inv_def keys_valid_def req_keys_def req_entry_ok_def)
  have t: "v_live V e' = v_live V e" "v_ht V t = (if ok then (v_ht V (reqs st))(sid \<mapsto> (a, a)) else v_ht V (reqs st))"
    using ht_lawsD(5) [OF L no_match_valid [OF valid new] new set] by auto
  have "owners ?st' = owners st1" by (intro owners_cong) simp_all
  then show "req_inv E V ?st'"
    using inv heap t keep bm by (auto simp: st1 req_inv_def req_entry_ok_def split: if_splits)
  show "subs V ?st' = (if ok then (subs V st)(sid := {i}) else subs V st)"
  proof
    fix k
    have "v_ht V (reqs st) k \<noteq> Some (p, a)" for p
      using inv fresh by (fastforce simp: req_inv_def req_entry_ok_def)
    then show "subs V ?st' k = (if ok then (subs V st)(sid := {i}) else subs V st) k"
      using t bm by (auto simp: subs_def st1 split: option.splits if_splits)
  qed
qed

lemma add_req_entry_cases:
  assumes L: "ext_laws E V" and inv: "req_inv E V st" and i: "i < JRTC_ROUTER_MAX_NUM_APPS"
    and new: "v_ht V (reqs st) sid = None"
  shows "\<exists>res st'. add_req_entry E st i sid = Inr (res, st') \<and> req_inv E V st' \<and> same_apps st st' \<and>
    calls st' = calls st \<and> lookup_result st' = lookup_result st \<and>
    ((res = 1 \<and> subs V st' = (subs V st)(sid := {i})) \<or> (res = -1 \<and> subs V st' = subs V st))"
proof -
  obtain r1 e1 where m1: "jbpf_malloc E (env st) = (r1, e1)" by fastforce
  obtain r2 e2 where m2: "jbpf_malloc E e1 = (r2, e2)" by fastforce
  consider "r1 = None" | a where "r1 = Some a" "r2 = None" | a b where "r1 = Some a" "r2 = Some b"
    by (cases r1; cases r2) auto
  then show ?thesis
  proof cases
    case 1
    have "req_inv E V (st\<lparr>env := e1\<rparr>)"
      using alloc_lawsD(1) [OF L m1 [unfolded 1]] by (intro req_inv_cong [OF inv]) auto
    then show ?thesis using m1 1 by (simp add: add_req_entry_def same_apps_def)
  next
    case (2 a)
    note a = alloc_lawsD(2) [OF L m1 [unfolded 2]] and e2 = alloc_lawsD(1) [OF L m2 [unfolded 2]]
    obtain e3 where f: "jfree E (st\<lparr>env := e2\<rparr>) a = Inr (st\<lparr>env := e3\<rparr>)" "v_live V e3 = v_live V e2 - {a}"
      using jfree_live [OF L, of a "st\<lparr>env := e2\<rparr>"] a e2 by auto
    have "req_inv E V (st\<lparr>env := e3\<rparr>)" using f e2 a by (intro req_inv_cong [OF inv]) auto
    then show ?thesis using m1 2 m2 f by (simp add: add_req_entry_def same_apps_def)
  next
    case (3 a b)
    note a = alloc_lawsD(2) [OF L m1 [unfolded 3]] and b = alloc_lawsD(2) [OF L m2 [unfolded 3]]
    let ?bm = "ck_bitmap_set E (ck_bitmap_init E JRTC_ROUTER_MAX_NUM_APPS False) i"
    let ?st1 = "st\<lparr>env := e2, req_entries := (req_entries st)(a \<mapsto>
      \<lparr>re_stream_id = sid, re_bitmap_ptr = b, re_bitmap = ?bm\<rparr>)\<rparr>"
    have bm: "v_bits V ?bm = {i}" "ck_bitmap_bits E ?bm = JRTC_ROUTER_MAX_NUM_APPS"
      using i by (simp_all add: bitmap_bit_laws [OF L] bitmap_fresh_laws [OF L])
    obtain ok t e4 where set: "ck_ht_set_spmc E (req_keys ?st1) e2 (reqs st) (ck_ht_hash E (reqs st) sid) a sid a = (ok, t, e4)"
      by (metis surj_pair)
    note stored = store_req_entry [OF L inv new _ _ _ bm refl set]
    show ?thesis
      using m1 m2 3 set stored a b by (simp add: add_req_entry_def same_apps_def Let_def)
  qed
qed

section \<open>Updating and removing a request\<close>

lemma update_req_entry_ok:
  assumes inv: "req_inv E V st" and en: "req_entries st a = Some en"
    and bits: "ck_bitmap_bits E (f (re_bitmap en)) = JRTC_ROUTER_MAX_NUM_APPS" and ne: "v_bits V (f (re_bitmap en)) \<noteq> {}"
    and st': "update_req_entry f st a = Inr (bm, st')"
  shows "req_inv E V st'"
proof -
  have eq: "st' = st\<lparr>req_entries := (req_entries st)(a \<mapsto> en\<lparr>re_bitmap := f (re_bitmap en)\<rparr>)\<rparr>"
    using st' en by (auto simp: update_req_entry_def)
  then have "owners st' = owners st" using en by (intro owners_eqI) auto
  moreover have "req_entry_ok E V st' k x" if "req_entry_ok E V st k x" for k x
    using that en bits ne by (auto simp: eq req_entry_ok_def)
  ultimately show ?thesis using inv by (auto simp: req_inv_def eq)
qed

lemma update_req_entry_subs:
  assumes inv: "req_inv E V st" and en: "req_entries st a = Some en" and at: "v_ht V (reqs st) sid = Some (a, a)"
    and st': "update_req_entry f st a = Inr (bm, st')"
  shows "subs V st' = (subs V st)(sid := v_bits V (f (re_bitmap en)))"
proof
  fix k
  have "v_ht V (reqs st) k = Some (p, a) \<Longrightarrow> k = sid" for p
    using req_inv_unique [OF inv _ at] by blast
  moreover have "st' = st\<lparr>req_entries := (req_entries st)(a \<mapsto> en\<lparr>re_bitmap := f (re_bitmap en)\<rparr>)\<rparr>"
    using st' en by (auto simp: update_req_entry_def)
  ultimately show "subs V st' k = ((subs V st)(sid := v_bits V (f (re_bitmap en)))) k"
    using at by (cases "v_ht V (reqs st) k") (auto simp: subs_def split: if_splits)
qed

text \<open>Removing an entry whose bitmap has become empty: the table forgets the key, and the destructor
  frees both blocks.\<close>

lemma stream_id_req_destructor_ok:
  assumes L: "ext_laws E V" and heap: "heap_ok (v_live V (env st)) (owners st)" and en: "req_entries st a = Some en"
  shows "\<exists>e. stream_id_req_destructor E st a = Inr (st\<lparr>req_entries := (req_entries st)(a := None), env := e\<rparr>) \<and>
    heap_ok (v_live V e) (owners (st\<lparr>req_entries := (req_entries st)(a := None), env := e\<rparr>))"
proof -
  let ?b = "re_bitmap_ptr en" and ?st = "\<lambda>e. st\<lparr>req_entries := (req_entries st)(a := None), env := e\<rparr>"
  have mem: "(a, Req a) \<in> owners st" "(?b, ReqBitmap a) \<in> owners st" using en by auto
  obtain e1 where f1: "jfree E st ?b = Inr (st\<lparr>env := e1\<rparr>)" "v_live V e1 = v_live V (env st) - {?b}"
    using jfree_live [OF L, of ?b st] heap_ok_live [OF heap mem(2)] by auto
  have h1: "heap_ok (v_live V e1) (owners st - {(?b, ReqBitmap a)})"
    unfolding f1(2) using heap mem(2) by (rule heap_ok_free) auto
  have a: "(a, Req a) \<in> owners st - {(?b, ReqBitmap a)}" using mem by auto
  have order: "st\<lparr>env := e1, req_entries := (req_entries st)(a := None)\<rparr> = ?st e1" by simp
  obtain e2 where f2: "jfree E (?st e1) a = Inr (?st e2)" "v_live V e2 = v_live V e1 - {a}"
    using jfree_live [OF L, of a "?st e1"] heap_ok_live [OF h1 a] by auto
  have os: "owners (?st e2) = owners st - {(?b, ReqBitmap a)} - {(a, Req a)}"
    using en by (intro owners_eqI) auto
  have "heap_ok (v_live V e2) (owners (?st e2))"
    unfolding f2(2) os by (rule heap_ok_free [OF h1 a order_refl])
  then show ?thesis using f1 f2(1) [folded order] en by (auto simp: stream_id_req_destructor_def)
qed

lemma remove_req_entry_ok:
  assumes L: "ext_laws E V" and heap: "heap_ok (v_live V (env st)) (owners st)" and en: "req_entries st a = Some en"
    and tab: "\<And>k p x. v_ht V (reqs st) k = Some (p, x) \<Longrightarrow> p = x \<and> (k = sid \<and> x = a \<or> x \<noteq> a \<and> req_entry_ok E V st k x)"
    and key: "re_stream_id en = sid"
  shows "\<exists>st'. remove_req_entry E st i sid a = Inr st' \<and> req_inv E V st' \<and> same_apps st st' \<and>
    calls st' = calls st @ [EpochBegin (Some i), EpochEnd (Some i), EpochCall i a] \<and>
    lookup_result st' = lookup_result st \<and> subs V st' = (subs V st)(sid := {})"
proof -
  have valid: "keys_valid V (req_keys st) (reqs st)"
    using tab en key by (fastforce simp: keys_valid_def req_keys_def req_entry_ok_def)
  obtain t where rm: "ck_ht_remove_spmc E (req_keys st) (reqs st) (ck_ht_hash E (reqs st) sid) sid = (v_ht V (reqs st) sid \<noteq> None, t)"
    and t: "v_ht V t = (v_ht V (reqs st))(sid := None)"
    using ht_lawsD(6) [OF L valid] by blast
  let ?st = "called [EpochEnd (Some i), EpochCall i a] (called [EpochBegin (Some i)] st\<lparr>reqs := t\<rparr>)"
  have "owners ?st = owners st" by (intro owners_cong) simp_all
  with heap en obtain e where d: "stream_id_req_destructor E ?st a = Inr (?st\<lparr>req_entries := (req_entries ?st)(a := None), env := e\<rparr>)"
    "heap_ok (v_live V e) (owners (?st\<lparr>req_entries := (req_entries ?st)(a := None), env := e\<rparr>))"
    using stream_id_req_destructor_ok [OF L, of ?st a en] by auto
  let ?st' = "?st\<lparr>req_entries := (req_entries ?st)(a := None), env := e\<rparr>"
  have "req_keys (called [EpochBegin (Some i)] st) = req_keys st" by (rule req_keys_cong) simp
  then have "remove_req_entry E st i sid a = Inr ?st'"
    using rm d by (simp add: remove_req_entry_def epoch_lawsD [OF L] Let_def)
  moreover have "req_inv E V ?st'"
    using d tab t by (fastforce simp: req_inv_def req_entry_ok_def split: if_splits)
  moreover have "subs V ?st' = (subs V st)(sid := {})"
    using tab t by (fastforce simp: subs_def fun_eq_iff split: option.splits if_splits)
  ultimately show ?thesis by (simp add: same_apps_def)
qed

section \<open>The two calls\<close>

lemma req_inv_called [simp]: "req_inv E V (called cs st) \<longleftrightarrow> req_inv E V st"
proof -
  have "owners (called cs st) = owners st" by (intro owners_cong) simp_all
  then show ?thesis by (simp add: req_inv_def req_entry_ok_def)
qed

lemma lookup_req:
  assumes L: "ext_laws E V" and inv: "req_inv E V st"
  shows "ck_ht_get_spmc E (req_keys st) (reqs st) (ck_ht_hash E (reqs st) k) k = map_option snd (v_ht V (reqs st) k)"
  by (rule ht_lawsD(4) [OF L req_inv_keys_valid [OF inv]])

lemma register_cases:
  assumes L: "ext_laws E V" and inv: "req_inv E V st" and d: "dapps st a = Some d" and ok: "\<not> bad_app_id (app_id d)"
  shows "\<exists>res st'. jrtc_router_channel_register_stream_id_req E st (Some a) sid = Inr (res, st') \<and>
    req_inv E V st' \<and> same_apps st st' \<and> calls st' = calls st @ [Lock, Unlock] \<and>
    ((res = 1 \<and> subs V st' = (subs V st)(sid := insert (nat (app_id d)) (subs V st sid))) \<or>
     (res = -1 \<and> subs V st' = subs V st))"
proof -
  let ?i = "nat (app_id d)" and ?st = "called [Lock] st"
  have i: "?i < JRTC_ROUTER_MAX_NUM_APPS" using ok by (auto simp: bad_app_id_def)
  have inv': "req_inv E V ?st" using inv by simp
  note get = lookup_req [OF L inv', of sid]
  show ?thesis
  proof (cases "v_ht V (reqs st) sid")
    case None
    then have "subs V st sid = {}" by (simp add: subs_def)
    moreover obtain res st' where "add_req_entry E ?st ?i sid = Inr (res, st')" "req_inv E V st'" "same_apps ?st st'"
      "calls st' = calls ?st" "(res = 1 \<and> subs V st' = (subs V ?st)(sid := {?i})) \<or> (res = -1 \<and> subs V st' = subs V ?st)"
      using add_req_entry_cases [OF L inv' i, of sid] None by auto
    ultimately show ?thesis
      using None get d ok
      by (auto simp: jrtc_router_channel_register_stream_id_req_def app_of_def same_apps_def Let_def)
  next
    case (Some x)
    then obtain b en where b: "v_ht V (reqs st) sid = Some (b, b)" "req_entries st b = Some en"
      "ck_bitmap_bits E (re_bitmap en) = JRTC_ROUTER_MAX_NUM_APPS"
      using req_inv_entry [OF inv] by (cases x) fastforce
    let ?f = "\<lambda>bm. ck_bitmap_set E bm ?i"
    have f: "v_bits V (?f (re_bitmap en)) = insert ?i (v_bits V (re_bitmap en))"
      "ck_bitmap_bits E (?f (re_bitmap en)) = JRTC_ROUTER_MAX_NUM_APPS"
      using i b(3) by (simp_all add: bitmap_bit_laws [OF L])
    obtain bm st' where u: "update_req_entry ?f ?st b = Inr (bm, st')"
      using b by (auto simp: update_req_entry_def)
    then have fr: "same_apps ?st st'" "calls st' = calls ?st"
      using b by (auto simp: update_req_entry_def same_apps_def)
    have "req_inv E V st'" using update_req_entry_ok [OF inv' _ _ _ u, of en] b f by simp
    moreover have "subs V st' = (subs V st)(sid := insert ?i (subs V st sid))"
      using update_req_entry_subs [OF inv' _ _ u, of en sid] b f by (simp add: subs_def)
    ultimately show ?thesis
      using b get u fr d ok
      by (auto simp: jrtc_router_channel_register_stream_id_req_def app_of_def same_apps_def Let_def)
  qed
qed

lemma deregister_cases:
  assumes L: "ext_laws E V" and inv: "req_inv E V st" and d: "dapps st a = Some d" and ok: "\<not> bad_app_id (app_id d)"
  shows "\<exists>st' cs. jrtc_router_channel_deregister_stream_id_req E st (Some a) sid = Inr st' \<and>
    req_inv E V st' \<and> same_apps st st' \<and> calls st' = calls st @ Lock # cs @ [Unlock] \<and> set cs \<inter> {Lock, Unlock} = {} \<and>
    subs V st' = (subs V st)(sid := subs V st sid - {nat (app_id d)})"
proof -
  let ?i = "nat (app_id d)" and ?st = "called [Lock] st"
  have i: "?i < JRTC_ROUTER_MAX_NUM_APPS" using ok by (auto simp: bad_app_id_def)
  have inv': "req_inv E V ?st" using inv by simp
  note get = lookup_req [OF L inv', of sid]
  show ?thesis
  proof (cases "v_ht V (reqs st) sid")
    case None
    then have "(subs V st)(sid := subs V st sid - {?i}) = subs V st" by (intro fun_upd_idem) (simp add: subs_def)
    then show ?thesis
      using None get d ok inv
      by (auto simp: jrtc_router_channel_deregister_stream_id_req_def app_of_def same_apps_def Let_def)
  next
    case (Some x)
    then obtain b en where b: "v_ht V (reqs st) sid = Some (b, b)" "req_entries st b = Some en"
      "ck_bitmap_bits E (re_bitmap en) = JRTC_ROUTER_MAX_NUM_APPS" "re_stream_id en = sid"
      using req_inv_entry [OF inv] by (cases x) fastforce
    let ?f = "\<lambda>bm. ck_bitmap_reset E bm ?i" and ?bm = "ck_bitmap_reset E (re_bitmap en) ?i"
    have f: "v_bits V ?bm = v_bits V (re_bitmap en) - {?i}" "ck_bitmap_bits E ?bm = JRTC_ROUTER_MAX_NUM_APPS"
      using i b(3) by (simp_all add: bitmap_bit_laws [OF L])
    define st1 where "st1 = ?st\<lparr>req_entries := (req_entries st)(b \<mapsto> en\<lparr>re_bitmap := ?bm\<rparr>)\<rparr>"
    have u: "update_req_entry ?f ?st b = Inr (?bm, st1)"
      using b by (simp add: update_req_entry_def st1_def)
    have fr: "same_apps st st1" "calls st1 = calls st @ [Lock]" "reqs st1 = reqs st"
      by (simp_all add: st1_def same_apps_def)
    have sb: "subs V st1 = (subs V st)(sid := subs V st sid - {?i})"
      using update_req_entry_subs [OF inv' _ _ u, of en sid] b f by (simp add: subs_def)
    have emp: "ck_bitmap_empty E ?bm JRTC_ROUTER_MAX_NUM_APPS \<longleftrightarrow> v_bits V ?bm = {}"
      using bitmap_lawsD(6) [OF L, of ?bm] f by simp
    show ?thesis
    proof (cases "v_bits V ?bm = {}")
      case False
      then have "req_inv E V st1" using update_req_entry_ok [OF inv' _ _ _ u, of en] b f by simp
      then show ?thesis
        using False emp b get u fr sb d ok
        by (auto simp: jrtc_router_channel_deregister_stream_id_req_def app_of_def same_apps_def Let_def)
    next
      case True
      have "owners st1 = owners st" using b by (intro owners_eqI) (auto simp: st1_def)
      then have heap: "heap_ok (v_live V (env st1)) (owners st1)" using inv by (simp add: req_inv_def st1_def)
      have tab: "p = y \<and> (k = sid \<and> y = b \<or> y \<noteq> b \<and> req_entry_ok E V st1 k y)"
        if "v_ht V (reqs st1) k = Some (p, y)" for k p y
        using that req_inv_entry [OF inv, of k p y] req_inv_unique [OF inv, of k p y sid b] b
        by (auto simp: st1_def req_entry_ok_def)
      obtain st2 where r: "remove_req_entry E st1 ?i sid b = Inr st2" "req_inv E V st2" "same_apps st1 st2"
        "calls st2 = calls st1 @ [EpochBegin (Some ?i), EpochEnd (Some ?i), EpochCall ?i b]"
        "subs V st2 = (subs V st1)(sid := {})"
        using remove_req_entry_ok [OF L heap _ tab, of "en\<lparr>re_bitmap := ?bm\<rparr>" ?i] b by (auto simp: st1_def)
      have "subs V st sid - {?i} = {}" using True f b by (simp add: subs_def)
      with r(5) sb have "subs V st2 = (subs V st)(sid := subs V st sid - {?i})" by (simp only: fun_upd_upd)
      then show ?thesis
        using True emp b get u fr r(1-4) d ok
        by (auto simp: jrtc_router_channel_deregister_stream_id_req_def app_of_def same_apps_def Let_def)
    qed
  qed
qed

end
