(* ===== verification/Router_Apps.thy ===== *)
theory Router_Apps
  imports Router_Reqs
begin

text \<open>
  Registration of applications: the size of their queues, the allocation of their ids, and the
  invariant that ties the id bitmap, the table of contexts and the contexts together.
\<close>

section \<open>The size of a queue\<close>

lemma smear_step:
  fixes v w :: u32
  assumes "\<And>n. bit w n \<longleftrightarrow> (\<exists>j<k. bit v (n + j))"
  shows "bit (w OR drop_bit k w) n \<longleftrightarrow> (\<exists>j<2 * k. bit v (n + j))"
proof
  assume "bit (w OR drop_bit k w) n"
  then have "(\<exists>j<k. bit v (n + j)) \<or> (\<exists>j<k. bit v (k + n + j))"
    by (simp add: bit_or_iff bit_drop_bit_eq assms)
  then consider j where "j < k" "bit v (n + j)" | j where "j < k" "bit v (n + (k + j))"
    by (auto simp: ac_simps)
  then show "\<exists>j<2 * k. bit v (n + j)"
  proof cases
    case (2 j)
    then have "k + j < 2 * k" by simp
    with 2 show ?thesis by blast
  next
    case (1 j)
    then have "j < 2 * k" by simp
    with 1 show ?thesis by blast
  qed
next
  assume "\<exists>j<2 * k. bit v (n + j)"
  then obtain j where j: "j < 2 * k" "bit v (n + j)" by blast
  show "bit (w OR drop_bit k w) n"
  proof (cases "j < k")
    case True
    then show ?thesis using j by (auto simp: bit_or_iff assms)
  next
    case False
    then have "j - k < k" "k + n + (j - k) = n + j" using j by linarith+
    then show ?thesis using j by (metis assms bit_drop_bit_eq bit_or_iff comp_apply)
  qed
qed

text \<open>The shifts spread every set bit to all lower positions.\<close>

definition smear :: "u32 \<Rightarrow> u32" where
  "smear v =
     (let v = v OR drop_bit 1 v;
          v = v OR drop_bit 2 v;
          v = v OR drop_bit 4 v;
          v = v OR drop_bit 8 v
      in v OR drop_bit 16 v)"

lemma round_up_smear: "round_up_pow_of_two x = smear (x - 1) + 1"
  by (simp add: round_up_pow_of_two_def smear_def Let_def)

lemma smear_bit: "bit (smear v) n \<longleftrightarrow> (\<exists>j<32. bit v (n + j))"
proof -
  have s0: "bit v n \<longleftrightarrow> (\<exists>j<1. bit v (n + j))" for n by simp
  note s1 = smear_step [of v 1 v, OF s0]
  note s2 = smear_step [of "v OR drop_bit 1 v" "2*1" v, OF s1]
  note s3 = smear_step [OF s2]
  note s4 = smear_step [OF s3]
  note s5 = smear_step [OF s4]
  show ?thesis using s5 [of n] by (simp add: smear_def Let_def)
qed

lemma top_bit:
  fixes y :: u32
  assumes "y \<noteq> 0"
  shows "\<exists>m<32. bit y m \<and> (\<forall>n. m < n \<longrightarrow> \<not> bit y n) \<and> 2 ^ m \<le> unat y \<and> unat y < 2 ^ Suc m"
proof -
  let ?S = "{n. bit y n}"
  have "?S \<subseteq> {..<32}" using bit_imp_le_length [of y] by auto
  then have fin: "finite ?S" by (rule finite_subset) simp
  have ne: "?S \<noteq> {}" using assms by (metis (mono_tags) empty_Collect_eq bit_eqI bit_0_eq bot_apply bot_bool_def)
  define m where "m = Max ?S"
  have m: "bit y m" "\<And>n. m < n \<Longrightarrow> \<not> bit y n"
    using Max_in [OF fin ne] Max_ge [OF fin] unfolding m_def by (auto simp: not_less [symmetric])
  have "m < 32" using bit_imp_le_length [OF m(1)] by simp
  moreover have "2 ^ m \<le> unat y"
  proof (rule ccontr)
    assume "\<not> 2 ^ m \<le> unat y"
    then have "take_bit m (unat y) = unat y" by (simp add: take_bit_nat_eq_self)
    moreover have "bit (unat y) m" using m(1) by (simp add: bit_unsigned_iff)
    ultimately show False by (metis bit_take_bit_iff less_irrefl)
  qed
  moreover have "unat y < 2 ^ Suc m"
  proof -
    have "take_bit (Suc m) y = y" 
      by (intro bit_eqI) (use m(2) in \<open>auto simp: bit_take_bit_iff less_Suc_eq_le not_le [symmetric]\<close>)
    then have "unat y = take_bit (Suc m) (unat y)" by (metis unsigned_take_bit_eq)
    then show ?thesis by (metis take_bit_nat_less_exp)
  qed
  ultimately show ?thesis using m by blast
qed

lemma round_up_pow_of_two_spec:
  assumes "1 \<le> unat x" and "unat x \<le> 2 ^ 31"
  shows "\<exists>k. unat (round_up_pow_of_two x) = 2 ^ k \<and> unat x \<le> 2 ^ k \<and> 2 ^ k < 2 * unat x"
proof (cases "x = 1")
  case True
  then show ?thesis by (auto simp: round_up_pow_of_two_def intro!: exI [of _ 0])
next
  case False
  have y: "unat (x - 1) = unat x - 1" using assms by (simp add: unat_sub_if_size word_le_nat_alt size_word.rep_eq)
  then have "x - 1 \<noteq> 0" using assms False by (metis eq_iff_diff_eq_0)
  then obtain m where m: "m < 32" "bit (x - 1) m" "\<And>n. m < n \<Longrightarrow> \<not> bit (x - 1) n"
    "2 ^ m \<le> unat (x - 1)" "unat (x - 1) < 2 ^ Suc m" using top_bit by blast
  have lt: "Suc m \<le> 31"
  proof (rule ccontr)
    assume "\<not> Suc m \<le> 31"
    then have "(2::nat) ^ 31 \<le> 2 ^ m" by (intro power_increasing) auto
    then show False using m(4) y assms by linarith
  qed
  have sm: "bit (smear (x - 1)) n \<longleftrightarrow> n \<le> m" for n
  proof
    assume "n \<le> m"
    then have "bit (x - 1) (n + (m - n))" "m - n < 32" using m by auto
    then show "bit (smear (x - 1)) n" unfolding smear_bit by blast
  next
    assume "bit (smear (x - 1)) n"
    then obtain j where "bit (x - 1) (n + j)" unfolding smear_bit by blast
    then show "n \<le> m" using m(3) [of "n + j"] by (cases "m < n + j") auto
  qed
  have "smear (x - 1) = mask (Suc m)"
    by (rule word_bitI) (simp add: sm bit_mask_iff less_Suc_eq_le)
  then have "round_up_pow_of_two x = 2 ^ Suc m"
    by (simp only: round_up_smear) (simp add: mask_eq_exp_minus_1)
  moreover have "unat (2 ^ Suc m :: u32) = 2 ^ Suc m"
  proof -
    have "(2::nat) ^ Suc m < 2 ^ 32" using lt by (intro power_strict_increasing) auto
    then have "unat (of_nat (2 ^ Suc m) :: u32) = 2 ^ Suc m"
      using lt by (simp add: unsigned_of_nat take_bit_nat_eq_self del: of_nat_power power_Suc)
    then show ?thesis by simp
  qed
  ultimately show ?thesis using m y assms by (intro exI [of _ "Suc m"]) auto
qed

section \<open>Application ids\<close>

definition reserved :: "('e, 'bm, 'it, 'ht, 'rg, 'pl) ext \<Rightarrow> ('e, 'bm, 'it, 'ht, 'rg, 'pl) views \<Rightarrow> 'bm \<Rightarrow> int \<times> 'bm \<Rightarrow> bool" where
  "reserved E V b r \<longleftrightarrow> ck_bitmap_bits E (snd r) = ck_bitmap_bits E b \<and>
     ((fst r = -1 \<and> {..<ck_bitmap_bits E b} \<subseteq> v_bits V b \<and> v_bits V (snd r) = v_bits V b) \<or>
      (\<exists>i < ck_bitmap_bits E b. fst r = int i \<and> i \<notin> v_bits V b \<and> {..<i} \<subseteq> v_bits V b \<and>
         v_bits V (snd r) = insert i (v_bits V b)))"

lemma reserve_scan_reserved:
  assumes L: "ext_laws E V" and "k \<le> ck_bitmap_bits E b" and "{..<k} \<subseteq> v_bits V b"
  shows "reserved E V b (reserve_scan E b [k..<ck_bitmap_bits E b])"
  using assms(2,3)
proof (induction "ck_bitmap_bits E b - k" arbitrary: k b)
  case 0
  then show ?case by (auto simp: reserved_def)
next
  case (Suc n)
  then have k: "k < ck_bitmap_bits E b" by simp
  obtain w b1 where b1: "ck_bitmap_bts E b k = (w, b1)" by fastforce
  have w: "w = (k \<in> v_bits V b)" "v_bits V b1 = insert k (v_bits V b)" "ck_bitmap_bits E b1 = ck_bitmap_bits E b"
    using bitmap_bit_laws(5-7) [OF L k] b1 by auto
  show ?case
  proof (cases w)
    case False
    then show ?thesis using b1 w k Suc.prems by (simp add: upt_conv_Cons reserved_def)
  next
    case True
    then have same: "v_bits V b1 = v_bits V b" using w by auto
    have "{..<Suc k} \<subseteq> v_bits V b1" using Suc.prems(2) w by (auto simp: less_Suc_eq)
    then have "reserved E V b1 (reserve_scan E b1 [Suc k..<ck_bitmap_bits E b])"
      using Suc.hyps(1) [of b1 "Suc k"] Suc.hyps(2) k w(3) by auto
    then show ?thesis using True b1 k w(3) same by (simp add: upt_conv_Cons reserved_def)
  qed
qed

lemma reserve_new_app_reserved:
  assumes "ext_laws E V"
  shows "reserved E V b (jrtc_router_reserve_new_app E b)"
  unfolding jrtc_router_reserve_new_app_def by (rule reserve_scan_reserved [OF assms]) auto

section \<open>The invariant of the applications\<close>

text \<open>A context's queue: the ring has been sized for the pool, holds the buffers of the pool that are in
  use, each once, and each of them has been written.\<close>

definition dapp_ok :: "('e, 'bm, 'it, 'ht, 'rg, 'pl) views \<Rightarrow> ('ht, 'rg, 'pl) dapp_router_ctx \<Rightarrow> bool" where
  "dapp_ok V d \<longleftrightarrow>
     v_cap V (data_entry_pool d) \<le> JRTC_ROUTER_MAX_APP_QUEUE_SIZE \<and>
     ring_slots d = v_cap V (data_entry_pool d) + 1 \<and>
     v_rsize V (ring d) = unat (round_up_pow_of_two (of_nat (v_cap V (data_entry_pool d) + 1))) \<and>
     distinct (v_ring V (ring d)) \<and> set (v_ring V (ring d)) = v_used V (data_entry_pool d) \<and>
     length (v_ring V (ring d)) \<le> v_cap V (data_entry_pool d) \<and>
     set (v_ring V (ring d)) \<subseteq> dom (data_mem d)"

text \<open>The channels in a context's tables are allocated and belong to it.\<close>

definition chans_ok :: "('e, 'bm, 'it, 'ht, 'rg, 'pl) views \<Rightarrow> ('e, 'bm, 'ht, 'rg, 'pl) jrtc_router_ctx \<Rightarrow> addr \<Rightarrow> ('ht, 'rg, 'pl) dapp_router_ctx \<Rightarrow> bool" where
  "chans_ok V st a d \<longleftrightarrow>
     (\<forall>k p c. v_ht V (app_out_channel_list d) k = Some (p, c) \<longrightarrow>
        (\<exists>ch. channels st c = Some ch \<and> ch_app_ctx ch = a \<and> ch_stream_id ch = k \<and> is_output ch)) \<and>
     (\<forall>k p c. v_ht V (app_in_channel_list d) k = Some (p, c) \<longrightarrow>
        (\<exists>ch. channels st c = Some ch \<and> ch_app_ctx ch = a \<and> ch_stream_id ch = k \<and> \<not> is_output ch))"

text \<open>The id bitmap, the table of contexts and the contexts describe the same set of applications.\<close>

definition app_inv :: "('e, 'bm, 'it, 'ht, 'rg, 'pl) ext \<Rightarrow> ('e, 'bm, 'it, 'ht, 'rg, 'pl) views \<Rightarrow> ('e, 'bm, 'ht, 'rg, 'pl) jrtc_router_ctx \<Rightarrow> bool" where
  "app_inv E V st \<longleftrightarrow>
     length (app_ctxs st) = JRTC_ROUTER_MAX_NUM_APPS \<and>
     ck_bitmap_bits E (app_bitmap st) = JRTC_ROUTER_MAX_NUM_APPS \<and>
     (\<forall>i < JRTC_ROUTER_MAX_NUM_APPS. i \<in> v_bits V (app_bitmap st) \<longleftrightarrow> app_ctxs st ! i \<noteq> None) \<and>
     (\<forall>i < JRTC_ROUTER_MAX_NUM_APPS. \<forall>a. app_ctxs st ! i = Some a \<longrightarrow> (\<exists>d. dapps st a = Some d \<and> app_id d = int i)) \<and>
     (\<forall>a d. dapps st a = Some d \<longrightarrow> \<not> bad_app_id (app_id d) \<and> app_ctxs st ! nat (app_id d) = Some a \<and>
        dapp_ok V d \<and> chans_ok V st a d)"

definition router_inv :: "('e, 'bm, 'it, 'ht, 'rg, 'pl) ext \<Rightarrow> ('e, 'bm, 'it, 'ht, 'rg, 'pl) views \<Rightarrow> ('e, 'bm, 'ht, 'rg, 'pl) jrtc_router_ctx \<Rightarrow> bool" where
  "router_inv E V st \<longleftrightarrow> req_inv E V st \<and> app_inv E V st"

lemma app_inv_cong:
  assumes "app_inv E V st" and "same_apps st st'"
  shows "app_inv E V st'"
  using assms by (simp add: app_inv_def same_apps_def chans_ok_def)

lemma app_inv_dapp:
  assumes "app_inv E V st" and "dapps st a = Some d"
  shows "\<not> bad_app_id (app_id d)" and "0 \<le> app_id d" and "nat (app_id d) < JRTC_ROUTER_MAX_NUM_APPS"
    and "app_ctxs st ! nat (app_id d) = Some a" and "dapp_ok V d" and "chans_ok V st a d"
proof -
  show "\<not> bad_app_id (app_id d)" "app_ctxs st ! nat (app_id d) = Some a" "dapp_ok V d" "chans_ok V st a d"
    using assms by (simp_all add: app_inv_def)
  then show "0 \<le> app_id d" "nat (app_id d) < JRTC_ROUTER_MAX_NUM_APPS" by (auto simp: bad_app_id_def)
qed

lemma app_inv_slot:
  assumes "app_inv E V st" and "i < JRTC_ROUTER_MAX_NUM_APPS" and "app_ctxs st ! i = Some a"
  shows "\<exists>d. dapps st a = Some d \<and> app_id d = int i"
  using assms unfolding app_inv_def by blast

section \<open>Registration fails without a trace\<close>

definition gave_up :: "('e, 'bm, 'it, 'ht, 'rg, 'pl) ext \<Rightarrow> ('e, 'bm, 'it, 'ht, 'rg, 'pl) views \<Rightarrow> ('e, 'bm, 'ht, 'rg, 'pl) jrtc_router_ctx \<Rightarrow> ub + (addr option \<times> ('e, 'bm, 'ht, 'rg, 'pl) jrtc_router_ctx) \<Rightarrow> bool" where
  "gave_up E V st r \<longleftrightarrow>
     (\<exists>e bm. r = Inr (None, st\<lparr>app_bitmap := bm, env := e\<rparr>) \<and> v_live V e = v_live V (env st) \<and>
        v_bits V bm = v_bits V (app_bitmap st) \<and> ck_bitmap_bits E bm = ck_bitmap_bits E (app_bitmap st))"

text \<open>The state after the id \<open>i\<close> has been reserved in the bitmap \<open>bm\<close>.\<close>

definition has_reserved :: "('e, 'bm, 'it, 'ht, 'rg, 'pl) ext \<Rightarrow> ('e, 'bm, 'it, 'ht, 'rg, 'pl) views \<Rightarrow> ('e, 'bm, 'ht, 'rg, 'pl) jrtc_router_ctx \<Rightarrow> nat \<Rightarrow> 'bm \<Rightarrow> bool" where
  "has_reserved E V st i bm \<longleftrightarrow> i < ck_bitmap_bits E (app_bitmap st) \<and> i \<notin> v_bits V (app_bitmap st) \<and>
     v_bits V bm = insert i (v_bits V (app_bitmap st)) \<and> ck_bitmap_bits E bm = ck_bitmap_bits E (app_bitmap st)"

lemma register_error_gave_up:
  assumes L: "ext_laws E V" and res: "has_reserved E V st i bm" and live: "v_live V e = v_live V (env st)"
  shows "gave_up E V st (register_error E (st\<lparr>app_bitmap := bm, env := e\<rparr>) (int i))"
proof -
  have "v_bits V (ck_bitmap_reset E bm i) = v_bits V (app_bitmap st)"
    "ck_bitmap_bits E (ck_bitmap_reset E bm i) = ck_bitmap_bits E (app_bitmap st)"
    using res bitmap_bit_laws(3,4) [OF L, of i bm] by (auto simp: has_reserved_def)
  then show ?thesis
    using live unfolding gave_up_def
    by (intro exI [of _ e] exI [of _ "ck_bitmap_reset E bm i"])
      (simp add: register_error_def jrtc_router_release_app_def)
qed

lemma register_dapp_error_gave_up:
  assumes L: "ext_laws E V" and res: "has_reserved E V st i bm" and a: "a \<notin> v_live V (env st)"
    and live: "v_live V e = insert a (v_live V (env st))"
  shows "gave_up E V st (register_dapp_error E (st\<lparr>app_bitmap := bm, env := e\<rparr>) (int i) a)"
proof -
  obtain e' where f: "jfree E (st\<lparr>app_bitmap := bm, env := e\<rparr>) a = Inr (st\<lparr>app_bitmap := bm, env := e'\<rparr>)"
    "v_live V e' = v_live V e - {a}"
    using jfree_live [OF L, of a "st\<lparr>app_bitmap := bm, env := e\<rparr>"] live by auto
  then have "v_live V e' = v_live V (env st)" using live a by auto
  then show ?thesis using register_error_gave_up [OF L res] f by (simp add: register_dapp_error_def)
qed

lemma register_dapp_ring_error_gave_up:
  assumes L: "ext_laws E V" and res: "has_reserved E V st i bm" and a: "a \<notin> v_live V (env st)"
    and rb: "rb \<notin> insert a (v_live V (env st))" and live: "v_live V e = insert rb (insert a (v_live V (env st)))"
  shows "gave_up E V st (register_dapp_ring_error E (st\<lparr>app_bitmap := bm, env := e\<rparr>) (int i) a rb)"
proof -
  obtain e' where f: "jfree E (st\<lparr>app_bitmap := bm, env := e\<rparr>) rb = Inr (st\<lparr>app_bitmap := bm, env := e'\<rparr>)"
    "v_live V e' = v_live V e - {rb}"
    using jfree_live [OF L, of rb "st\<lparr>app_bitmap := bm, env := e\<rparr>"] live by auto
  then have "v_live V e' = insert a (v_live V (env st))" using live rb by auto
  then show ?thesis
    using register_dapp_error_gave_up [OF L res a] f by (simp add: register_dapp_ring_error_def)
qed

lemma register_dapp_destroy_mempool_gave_up:
  assumes L: "ext_laws E V" and "has_reserved E V st i bm" and "a \<notin> v_live V (env st)"
    and "rb \<notin> insert a (v_live V (env st))" and "v_live V e = insert rb (insert a (v_live V (env st)))"
  shows "gave_up E V st (register_dapp_destroy_mempool E (st\<lparr>app_bitmap := bm, env := e\<rparr>) (int i) a rb pl)"
  using register_dapp_ring_error_gave_up [OF assms(1-4), of "jbpf_destroy_mempool E e pl"] assms(5) pool_lawsD(3) [OF L, of e pl]
  by (simp add: register_dapp_destroy_mempool_def)

section \<open>Registration succeeds\<close>

text \<open>A fresh context: an empty queue of the requested size and no channels.\<close>

definition fresh_dapp :: "('e, 'bm, 'it, 'ht, 'rg, 'pl) views \<Rightarrow> nat \<Rightarrow> nat \<Rightarrow> ('ht, 'rg, 'pl) dapp_router_ctx \<Rightarrow> bool" where
  "fresh_dapp V q i d \<longleftrightarrow> app_id d = int i \<and> v_ring V (ring d) = [] \<and> v_used V (data_entry_pool d) = {} \<and>
     v_cap V (data_entry_pool d) = q \<and> ring_slots d = q + 1 \<and>
     v_rsize V (ring d) = unat (round_up_pow_of_two (of_nat (q + 1))) \<and>
     v_ht V (app_out_channel_list d) = (\<lambda>_. None) \<and> v_ht V (app_in_channel_list d) = (\<lambda>_. None)"

definition registered :: "('e, 'bm, 'it, 'ht, 'rg, 'pl) ext \<Rightarrow> ('e, 'bm, 'it, 'ht, 'rg, 'pl) views \<Rightarrow> ('e, 'bm, 'ht, 'rg, 'pl) jrtc_router_ctx \<Rightarrow> nat \<Rightarrow> ub + (addr option \<times> ('e, 'bm, 'ht, 'rg, 'pl) jrtc_router_ctx) \<Rightarrow> bool" where
  "registered E V st q r \<longleftrightarrow>
     (\<exists>a i bm e d. r = Inr (Some a, called [RegisterThread]
          (st\<lparr>app_bitmap := bm, env := e, dapps := (dapps st)(a \<mapsto> d), app_ctxs := (app_ctxs st)[i := Some a]\<rparr>)) \<and>
        has_reserved E V st i bm \<and> {..<i} \<subseteq> v_bits V (app_bitmap st) \<and> a \<notin> v_live V (env st) \<and>
        ringbuffer d \<notin> insert a (v_live V (env st)) \<and>
        v_live V e = insert (ringbuffer d) (insert a (v_live V (env st))) \<and> fresh_dapp V q i d)"

lemma register_tables_cases:
  assumes L: "ext_laws E V" and res: "has_reserved E V st i bm" and least: "{..<i} \<subseteq> v_bits V (app_bitmap st)"
    and i: "i < length (app_ctxs st)" and a: "a \<notin> v_live V (env st)"
    and rb: "rb \<notin> insert a (v_live V (env st))" and live: "v_live V e = insert rb (insert a (v_live V (env st)))"
    and pl: "v_used V pl = {}" "v_cap V pl = q"
    and r: "r = register_tables E (st\<lparr>app_bitmap := bm, env := e\<rparr>) q (int i) a rb pl"
  shows "gave_up E V st r \<or> registered E V st q r"
proof -
  obtain r1 e1 where t1: "ck_ht_init E e ht_hash_wrapper JRTC_ROUTER_NUM_APP_CHANNELS 6602834 = (r1, e1)" by fastforce
  obtain r2 e2 where t2: "ck_ht_init E e1 ht_hash_wrapper JRTC_ROUTER_NUM_APP_CHANNELS 6602834 = (r2, e2)" by fastforce
  have l1: "v_live V e1 = v_live V e" using ht_lawsD(2) [OF L t1] .
  have l2: "v_live V e2 = v_live V e" using ht_lawsD(2) [OF L t2] l1 by simp
  note up = register_dapp_destroy_mempool_gave_up [OF L res a rb, of _ pl]
  consider "r1 = None" | t where "r1 = Some t" "r2 = None" | t u where "r1 = Some t" "r2 = Some u"
    by (cases r1; cases r2) auto
  then show ?thesis
  proof cases
    case 1
    then show ?thesis using up [of e1] l1 live t1 by (simp add: r register_tables_def)
  next
    case (2 t)
    then show ?thesis
      using up [of "ck_ht_destroy E e2 t"] l2 live t1 t2 ht_lawsD(3) [OF L, of e2 t] by (simp add: r register_tables_def)
  next
    case (3 t u)
    let ?d = "\<lparr>ring = ck_ring_init E (round_up_pow_of_two (of_nat (q + 1))), ringbuffer = rb, ring_slots = q + 1,
      data_entry_pool = pl, data_mem = (\<lambda>_. None), app_out_channel_list = t, app_in_channel_list = u, app_id = int i\<rparr>"
    have "fresh_dapp V q i ?d"
      using pl ht_lawsD(1) [OF L t1 [unfolded 3]] ht_lawsD(1) [OF L t2 [unfolded 3]] ring_lawsD(1) [OF L]
      by (simp add: fresh_dapp_def)
    moreover have "r = Inr (Some a, called [RegisterThread]
        (st\<lparr>app_bitmap := bm, env := e2, dapps := (dapps st)(a \<mapsto> ?d), app_ctxs := (app_ctxs st)[i := Some a]\<rparr>))"
      using 3 t1 t2 i by (simp add: r register_tables_def Let_def)
    ultimately show ?thesis
      using res least a rb l2 live unfolding registered_def by fastforce
  qed
qed

lemma register_app_cases:
  assumes L: "ext_laws E V" and inv: "app_inv E V st" and q: "q \<le> JRTC_ROUTER_MAX_APP_QUEUE_SIZE"
  shows "gave_up E V st (jrtc_router_register_app E st q) \<or> registered E V st q (jrtc_router_register_app E st q)"
proof -
  obtain r bm where rs: "jrtc_router_reserve_new_app E (app_bitmap st) = (r, bm)" by fastforce
  from reserve_new_app_reserved [OF L, of "app_bitmap st"] rs
  consider "r = -1" "v_bits V bm = v_bits V (app_bitmap st)" "ck_bitmap_bits E bm = ck_bitmap_bits E (app_bitmap st)"
    | i where "r = int i" "has_reserved E V st i bm" "{..<i} \<subseteq> v_bits V (app_bitmap st)"
    by (auto simp: reserved_def has_reserved_def)
  then show ?thesis
  proof cases
    case 1
    have "st\<lparr>app_bitmap := bm\<rparr> = st\<lparr>app_bitmap := bm, env := env st\<rparr>" by simp
    then have "gave_up E V st (Inr (None, st\<lparr>app_bitmap := bm\<rparr>))"
      using 1 unfolding gave_up_def by metis
    then show ?thesis using rs q 1 by (simp add: jrtc_router_register_app_def)
  next
    case (2 i)
    have i: "i < length (app_ctxs st)" using 2 inv by (simp add: has_reserved_def app_inv_def)
    obtain r1 e1 where c1: "jbpf_calloc E (env st) = (r1, e1)" by fastforce
    show ?thesis
    proof (cases r1)
      case None
      then show ?thesis
        using c1 rs q 2 register_error_gave_up [OF L 2(2) alloc_lawsD(3) [OF L c1 [unfolded None]]]
        by (simp add: jrtc_router_register_app_def Let_def)
    next
      case (Some a)
      note a = alloc_lawsD(4) [OF L c1 [unfolded Some]]
      obtain r2 e2 where c2: "jbpf_calloc E e1 = (r2, e2)" by fastforce
      show ?thesis
      proof (cases r2)
        case None
        have "v_live V e2 = insert a (v_live V (env st))" using alloc_lawsD(3) [OF L c2 [unfolded None]] a by simp
        then show ?thesis
          using c1 c2 Some None rs q 2(1) register_dapp_error_gave_up [OF L 2(2) conjunct1 [OF a], of e2]
          by (simp add: jrtc_router_register_app_def Let_def)
      next
        case rb: (Some rb)
        note b = alloc_lawsD(4) [OF L c2 [unfolded rb]]
        obtain r3 e3 where p: "jbpf_init_mempool E e2 q = (r3, e3)" by fastforce
        have fr: "a \<notin> v_live V (env st)" "rb \<notin> insert a (v_live V (env st))"
          "v_live V e3 = insert rb (insert a (v_live V (env st)))"
          using a b pool_lawsD(2) [OF L p] by auto
        show ?thesis
        proof (cases r3)
          case None
          then show ?thesis
            using c1 c2 p Some rb rs q 2(1) register_dapp_ring_error_gave_up [OF L 2(2) fr]
            by (simp add: jrtc_router_register_app_def Let_def)
        next
          case pl: (Some pl)
          have "v_used V pl = {}" "v_cap V pl = q" using pool_lawsD(1) [OF L p [unfolded pl]] by auto
          then show ?thesis
            using c1 c2 p Some rb pl rs q 2(1) register_tables_cases [OF L 2(2,3) i fr _ _ refl, of pl q]
            by (simp add: jrtc_router_register_app_def Let_def)
        qed
      qed
    qed
  qed
qed

lemma gave_up_inv:
  assumes inv: "router_inv E V st" and g: "gave_up E V st r"
  shows "\<exists>st'. r = Inr (None, st') \<and> router_inv E V st' \<and> subs V st' = subs V st \<and> v_live V (env st') = v_live V (env st) \<and>
    v_bits V (app_bitmap st') = v_bits V (app_bitmap st) \<and> dapps st' = dapps st \<and> app_ctxs st' = app_ctxs st"
proof -
  obtain e bm where r: "r = Inr (None, st\<lparr>app_bitmap := bm, env := e\<rparr>)" and live: "v_live V e = v_live V (env st)"
    and bm: "v_bits V bm = v_bits V (app_bitmap st)" "ck_bitmap_bits E bm = ck_bitmap_bits E (app_bitmap st)"
    using g unfolding gave_up_def by blast
  let ?st = "st\<lparr>app_bitmap := bm, env := e\<rparr>"
  have "req_inv E V ?st"
    by (rule req_inv_cong [of E V st]) (use live inv in \<open>simp_all add: router_inv_def\<close>)
  moreover have "app_inv E V ?st" using inv bm by (simp add: router_inv_def app_inv_def chans_ok_def)
  moreover have "subs V ?st = subs V st" by (rule subs_cong) simp_all
  ultimately show ?thesis using r live bm by (simp add: router_inv_def)
qed

lemma fresh_dapp_ok:
  assumes "fresh_dapp V q i d" and "q \<le> JRTC_ROUTER_MAX_APP_QUEUE_SIZE"
  shows "dapp_ok V d" and "chans_ok V st a d"
  using assms by (simp_all add: fresh_dapp_def dapp_ok_def chans_ok_def)

lemma owners_add_dapp:
  assumes "dapps st a = None" and "dapps st' = (dapps st)(a \<mapsto> d)" and "req_entries st' = req_entries st"
    and "channels st' = channels st"
  shows "owners st' = insert (ringbuffer d, RingBuf a) (insert (a, Dapp a) (owners st))"
  using assms by (intro owners_eqI) auto

lemma registered_inv:
  assumes inv: "router_inv E V st" and q: "q \<le> JRTC_ROUTER_MAX_APP_QUEUE_SIZE" and g: "registered E V st q r"
  shows "\<exists>a i d st'. r = Inr (Some a, st') \<and> router_inv E V st' \<and> subs V st' = subs V st \<and>
    i \<notin> v_bits V (app_bitmap st) \<and> {..<i} \<subseteq> v_bits V (app_bitmap st) \<and>
    v_bits V (app_bitmap st') = insert i (v_bits V (app_bitmap st)) \<and>
    dapps st a = None \<and> dapps st' = (dapps st)(a \<mapsto> d) \<and> app_ctxs st' = (app_ctxs st)[i := Some a] \<and> fresh_dapp V q i d"
proof -
  obtain a i bm e d where r: "r = Inr (Some a, called [RegisterThread]
        (st\<lparr>app_bitmap := bm, env := e, dapps := (dapps st)(a \<mapsto> d), app_ctxs := (app_ctxs st)[i := Some a]\<rparr>))"
    and res: "has_reserved E V st i bm" and least: "{..<i} \<subseteq> v_bits V (app_bitmap st)"
    and a: "a \<notin> v_live V (env st)" and rb: "ringbuffer d \<notin> insert a (v_live V (env st))"
    and live: "v_live V e = insert (ringbuffer d) (insert a (v_live V (env st)))" and d: "fresh_dapp V q i d"
    using g unfolding registered_def by blast
  define st' where "st' = called [RegisterThread]
        (st\<lparr>app_bitmap := bm, env := e, dapps := (dapps st)(a \<mapsto> d), app_ctxs := (app_ctxs st)[i := Some a]\<rparr>)"
  have heap: "heap_ok (v_live V (env st)) (owners st)" using inv by (simp add: router_inv_def req_inv_def)
  have new: "dapps st a = None"
    using heap_ok_live [OF heap, of a "Dapp a"] a by (cases "dapps st a") auto
  have os: "owners st' = insert (ringbuffer d, RingBuf a) (insert (a, Dapp a) (owners st))"
    by (rule owners_add_dapp [OF new]) (simp_all add: st'_def)
  have "heap_ok (insert a (v_live V (env st))) (insert (a, Dapp a) (owners st))"
    by (rule heap_ok_alloc [OF heap a order_refl])
  then have "heap_ok (v_live V e) (owners st')"
    unfolding os live by (rule heap_ok_alloc [OF _ rb order_refl])
  then have "req_inv E V st'"
    using inv by (simp add: router_inv_def req_inv_def req_entry_ok_def st'_def)
  moreover have "app_inv E V st'"
  proof -
    have A: "app_inv E V st" using inv by (simp add: router_inv_def)
    have i: "i < JRTC_ROUTER_MAX_NUM_APPS" and len: "length (app_ctxs st) = JRTC_ROUTER_MAX_NUM_APPS"
      and none: "app_ctxs st ! i = None"
      using res A by (auto simp: has_reserved_def app_inv_def)
    have old: "\<not> bad_app_id (app_id d') \<and> app_ctxs st' ! nat (app_id d') = Some x \<and> dapp_ok V d' \<and> chans_ok V st' x d'"
      if "dapps st x = Some d'" for x d'
    proof -
      have "i \<noteq> nat (app_id d')" using app_inv_dapp(4) [OF A that] none by auto
      then show ?thesis using app_inv_dapp(1,4-6) [OF A that] by (simp add: st'_def chans_ok_def)
    qed
    have new': "\<not> bad_app_id (app_id d) \<and> app_ctxs st' ! nat (app_id d) = Some a \<and> dapp_ok V d \<and> chans_ok V st' a d"
      using fresh_dapp_ok [OF d q] d i len by (simp add: fresh_dapp_def bad_app_id_def st'_def)
    have slots: "\<exists>d'. dapps st' x = Some d' \<and> app_id d' = int j" if "j < JRTC_ROUTER_MAX_NUM_APPS" "app_ctxs st' ! j = Some x" for j x
      using that A d new len by (cases "j = i") (auto simp: app_inv_def st'_def fresh_dapp_def)
    show ?thesis
      using A old new' slots res i len
      by (auto simp: app_inv_def has_reserved_def st'_def nth_list_update)
  qed
  moreover have "subs V st' = subs V st" by (rule subs_cong) (simp_all add: st'_def)
  ultimately show ?thesis
    using r res least d new unfolding st'_def [symmetric]
    by (auto simp: router_inv_def has_reserved_def st'_def)
qed

section \<open>Deregistration\<close>

definition without :: "(addr \<Rightarrow> 'x option) \<Rightarrow> addr set \<Rightarrow> addr \<Rightarrow> 'x option" where
  "without m A x = (if x \<in> A then None else m x)"

lemma without_simps [simp]:
  "without m {} = m" "without (m(c := None)) A = without m (insert c A)" "without (without m A) B = without m (A \<union> B)"
  by (auto simp: without_def fun_eq_iff)

lemma destroy_dapp_channel_ok:
  assumes L: "ext_laws E V" and heap: "heap_ok (v_live V (env st)) (owners st)" and c: "channels st c = Some ch"
  shows "\<exists>e. destroy_dapp_channel E st c = Inr (st\<lparr>channels := (channels st)(c := None), env := e\<rparr>) \<and>
    heap_ok (v_live V e) (owners (st\<lparr>channels := (channels st)(c := None), env := e\<rparr>))"
proof -
  let ?e = "jbpf_io_destroy_channel E (env st) (io_ctx st) (io_channel ch)"
  let ?st = "\<lambda>e. st\<lparr>channels := (channels st)(c := None), env := e\<rparr>"
  have live: "v_live V ?e = v_live V (env st)" by (rule io_lawsD(5) [OF L])
  have mem: "(c, Chan c) \<in> owners st" using c by simp
  obtain e where f: "jfree E (?st ?e) c = Inr (?st e)" "v_live V e = v_live V (env st) - {c}"
    using jfree_live [OF L, of c "?st ?e"] live heap_ok_live [OF heap mem] by auto
  have os: "owners (?st e) = owners st - {(c, Chan c)}" by (intro owners_eqI) auto
  have "heap_ok (v_live V e) (owners (?st e))" unfolding os f(2) by (rule heap_ok_free [OF heap mem order_refl])
  moreover have order: "st\<lparr>env := ?e, channels := (channels st)(c := None)\<rparr> = ?st ?e" by simp
  ultimately show ?thesis
    using f(1) [folded order] c by (auto simp: destroy_dapp_channel_def)
qed

lemma destroy_dapp_channels_ok:
  assumes L: "ext_laws E V" and "heap_ok (v_live V (env st)) (owners st)" and "distinct cs" and "set cs \<subseteq> dom (channels st)"
  shows "\<exists>e. destroy_dapp_channels E st cs = Inr (st\<lparr>channels := without (channels st) (set cs), env := e\<rparr>) \<and>
    heap_ok (v_live V e) (owners (st\<lparr>channels := without (channels st) (set cs), env := e\<rparr>))"
  using assms(2-)
proof (induction cs arbitrary: st)
  case Nil
  have "st = st\<lparr>channels := without (channels st) {}, env := env st\<rparr>" by simp
  with Nil show ?case by (metis destroy_dapp_channels.simps(1) empty_set)
next
  case (Cons c cs)
  then obtain ch where "channels st c = Some ch" by auto
  from destroy_dapp_channel_ok [OF L Cons.prems(1) this] obtain e where
    e: "destroy_dapp_channel E st c = Inr (st\<lparr>channels := (channels st)(c := None), env := e\<rparr>)"
      "heap_ok (v_live V e) (owners (st\<lparr>channels := (channels st)(c := None), env := e\<rparr>))" by blast
  let ?st = "st\<lparr>channels := (channels st)(c := None), env := e\<rparr>"
  have "distinct cs" "set cs \<subseteq> dom (channels ?st)" using Cons.prems by auto
  with Cons.IH [of ?st] e obtain e' where
    "destroy_dapp_channels E ?st cs = Inr (?st\<lparr>channels := without (channels ?st) (set cs), env := e'\<rparr>)"
    "heap_ok (v_live V e') (owners (?st\<lparr>channels := without (channels ?st) (set cs), env := e'\<rparr>))" by fastforce
  then show ?case using e(1) by (intro exI [of _ e']) simp
qed

text \<open>The walks over the two tables of a context visit its channels, each once.\<close>

lemma table_channels:
  assumes L: "ext_laws E V"
    and own: "\<forall>k p c. v_ht V t k = Some (p, c) \<longrightarrow> (\<exists>ch. channels st c = Some ch \<and> ch_app_ctx ch = a \<and> ch_stream_id ch = k \<and> is_output ch = b)"
  shows "distinct (ck_ht_entries E t)"
    and "\<forall>c \<in> set (ck_ht_entries E t). \<exists>ch. channels st c = Some ch \<and> ch_app_ctx ch = a \<and> is_output ch = b"
proof -
  obtain ks where ks: "distinct ks" "set ks = dom (v_ht V t)" "ck_ht_entries E t = map (\<lambda>k. snd (the (v_ht V t k))) ks"
    using ht_lawsD(7) [OF L, of t] by blast
  have at: "\<exists>ch. channels st (snd (the (v_ht V t k))) = Some ch \<and> ch_app_ctx ch = a \<and> ch_stream_id ch = k \<and> is_output ch = b"
    if k: "k \<in> set ks" for k
  proof -
    obtain p c where "v_ht V t k = Some (p, c)" using k ks(2) by auto
    with own show ?thesis by simp
  qed
  have "inj_on (\<lambda>k. snd (the (v_ht V t k))) (set ks)"
    by (rule inj_onI) (metis at option.inject)
  then show "distinct (ck_ht_entries E t)" using ks by (simp add: distinct_map)
  show "\<forall>c \<in> set (ck_ht_entries E t). \<exists>ch. channels st c = Some ch \<and> ch_app_ctx ch = a \<and> is_output ch = b"
    unfolding ks(3) using at by fastforce
qed

text \<open>The ring buffer and the context itself are freed last.\<close>

lemma free_dapp:
  assumes L: "ext_laws E V" and d: "dapps st a = Some d" and h: "heap_ok (v_live V (env st)) (owners st)"
  shows "\<exists>e f. jfree E st (ringbuffer d) = Inr (st\<lparr>env := e\<rparr>) \<and>
    jfree E (st\<lparr>env := jbpf_destroy_mempool E e (data_entry_pool d), dapps := (dapps st)(a := None)\<rparr>) a =
      Inr (st\<lparr>dapps := (dapps st)(a := None), env := f\<rparr>) \<and>
    heap_ok (v_live V f) (owners (st\<lparr>dapps := (dapps st)(a := None)\<rparr>))"
proof -
  let ?r = "ringbuffer d" and ?st = "st\<lparr>dapps := (dapps st)(a := None)\<rparr>"
  have mem: "(?r, RingBuf a) \<in> owners st" "(a, Dapp a) \<in> owners st - {(?r, RingBuf a)}" using d by auto
  obtain e where e: "jfree E st ?r = Inr (st\<lparr>env := e\<rparr>)" "v_live V e = v_live V (env st) - {?r}"
    using jfree_live [OF L] heap_ok_live [OF h mem(1)] by blast
  have h1: "heap_ok (v_live V e) (owners st - {(?r, RingBuf a)})"
    unfolding e(2) by (rule heap_ok_free [OF h mem(1) order_refl])
  let ?e = "jbpf_destroy_mempool E e (data_entry_pool d)"
  have live: "a \<in> v_live V (env (st\<lparr>env := ?e, dapps := (dapps st)(a := None)\<rparr>))"
    using heap_ok_live [OF h1 mem(2)] by (simp add: pool_lawsD(3) [OF L])
  from jfree_live [OF L live] obtain f where
    f: "jfree E (st\<lparr>env := ?e, dapps := (dapps st)(a := None)\<rparr>) a = Inr (?st\<lparr>env := f\<rparr>)" "v_live V f = v_live V e - {a}"
    by (auto simp: pool_lawsD(3) [OF L])
  have os: "owners ?st = owners st - {(?r, RingBuf a)} - {(a, Dapp a)}" using d by (intro owners_eqI) auto
  have "heap_ok (v_live V f) (owners ?st)"
    unfolding f(2) os by (rule heap_ok_free [OF h1 mem(2) order_refl])
  then show ?thesis using e(1) f(1) by blast
qed

lemma deregister_app_cases:
  assumes L: "ext_laws E V" and inv: "router_inv E V st" and d: "dapps st a = Some d"
  shows "\<exists>e chs bm. jrtc_router_deregister_app E st (Some a) =
      Inr (st\<lparr>channels := without (channels st) chs, dapps := (dapps st)(a := None), env := e,
              app_ctxs := (app_ctxs st)[nat (app_id d) := None], app_bitmap := bm\<rparr>) \<and>
    heap_ok (v_live V e) (owners (st\<lparr>channels := without (channels st) chs, dapps := (dapps st)(a := None)\<rparr>)) \<and>
    (\<forall>c \<in> chs. \<exists>ch. channels st c = Some ch \<and> ch_app_ctx ch = a) \<and>
    v_bits V bm = v_bits V (app_bitmap st) - {nat (app_id d)} \<and> ck_bitmap_bits E bm = ck_bitmap_bits E (app_bitmap st)"
proof -
  have A: "app_inv E V st" and heap: "heap_ok (v_live V (env st)) (owners st)"
    using inv by (simp_all add: router_inv_def req_inv_def)
  note D = app_inv_dapp [OF A d]
  let ?t = "app_out_channel_list d" and ?u = "app_in_channel_list d"
  let ?os = "ck_ht_entries E ?t" and ?is = "ck_ht_entries E ?u"
  have "\<forall>k p c. v_ht V ?t k = Some (p, c) \<longrightarrow> (\<exists>ch. channels st c = Some ch \<and> ch_app_ctx ch = a \<and> ch_stream_id ch = k \<and> is_output ch = True)"
    using D(6) by (simp add: chans_ok_def)
  note outs = table_channels [OF L this]
  have "\<forall>k p c. v_ht V ?u k = Some (p, c) \<longrightarrow> (\<exists>ch. channels st c = Some ch \<and> ch_app_ctx ch = a \<and> ch_stream_id ch = k \<and> is_output ch = False)"
    using D(6) by (simp add: chans_ok_def)
  note ins = table_channels [OF L this]
  have sub: "set ?os \<subseteq> dom (channels st)" "set ?is \<subseteq> dom (without (channels st) (set ?os))"
    using outs(2) ins(2) by (fastforce simp: without_def)+
  from destroy_dapp_channels_ok [OF L heap outs(1) sub(1)] obtain e1 where
    d1: "destroy_dapp_channels E st ?os = Inr (st\<lparr>channels := without (channels st) (set ?os), env := e1\<rparr>)"
      "heap_ok (v_live V e1) (owners (st\<lparr>channels := without (channels st) (set ?os), env := e1\<rparr>))" by blast
  let ?st1 = "st\<lparr>channels := without (channels st) (set ?os), env := ck_ht_destroy E e1 ?t\<rparr>"
  have os1: "owners ?st1 = owners (st\<lparr>channels := without (channels st) (set ?os), env := e1\<rparr>)"
    by (intro owners_cong) simp_all
  have h1: "heap_ok (v_live V (env ?st1)) (owners ?st1)"
    unfolding os1 using d1(2) by (simp add: ht_lawsD(3) [OF L])
  from destroy_dapp_channels_ok [OF L h1 ins(1)] sub(2) obtain e2 where
    d2: "destroy_dapp_channels E ?st1 ?is = Inr (?st1\<lparr>channels := without (channels ?st1) (set ?is), env := e2\<rparr>)"
      "heap_ok (v_live V e2) (owners (?st1\<lparr>channels := without (channels ?st1) (set ?is), env := e2\<rparr>))" by auto
  let ?W = "without (channels st) (set ?os \<union> set ?is)"
  let ?rest = "st\<lparr>channels := ?W, dapps := (dapps st)(a := None)\<rparr>"
  let ?s2 = "st\<lparr>channels := ?W, env := ck_ht_destroy E e2 ?u\<rparr>"
  have os2: "owners (?st1\<lparr>channels := without (channels ?st1) (set ?is), env := e2\<rparr>) = owners ?s2"
    by (intro owners_cong) simp_all
  have h2: "heap_ok (v_live V (env ?s2)) (owners ?s2)"
    using d2(2) unfolding os2 by (simp add: ht_lawsD(3) [OF L])
  have os3: "owners (?s2\<lparr>dapps := (dapps ?s2)(a := None)\<rparr>) = owners ?rest" by (intro owners_cong) simp_all
  obtain e f where fr: "jfree E ?s2 (ringbuffer d) = Inr (?s2\<lparr>env := e\<rparr>)"
    "jfree E (?s2\<lparr>env := jbpf_destroy_mempool E e (data_entry_pool d), dapps := (dapps ?s2)(a := None)\<rparr>) a =
      Inr (?s2\<lparr>dapps := (dapps ?s2)(a := None), env := f\<rparr>)"
    "heap_ok (v_live V f) (owners ?rest)"
    using free_dapp [OF L _ h2, of a d] d unfolding os3 by auto
  let ?i = "nat (app_id d)"
  let ?bm = "ck_bitmap_reset E (app_bitmap st) ?i"
  have bm: "v_bits V ?bm = v_bits V (app_bitmap st) - {?i}" "ck_bitmap_bits E ?bm = ck_bitmap_bits E (app_bitmap st)"
    using bitmap_bit_laws(3,4) [OF L, of ?i "app_bitmap st"] D(3) A by (simp_all add: app_inv_def)
  have "?i < length (app_ctxs st)" using D(3) A by (simp add: app_inv_def)
  then have "jrtc_router_deregister_app E st (Some a) =
      Inr (?rest\<lparr>env := f, app_ctxs := (app_ctxs st)[?i := None], app_bitmap := ?bm\<rparr>)"
    using d d1(1) d2(1) fr(1,2) D(2)
    by (simp add: jrtc_router_deregister_app_def jrtc_router_release_app_def Let_def)
  moreover have "\<forall>c \<in> set ?os \<union> set ?is. \<exists>ch. channels st c = Some ch \<and> ch_app_ctx ch = a"
    using outs(2) ins(2) by blast
  ultimately show ?thesis using fr(3) bm by blast
qed

lemma deregister_app_inv:
  assumes L: "ext_laws E V" and inv: "router_inv E V st" and d: "dapps st a = Some d"
  shows "\<exists>st'. jrtc_router_deregister_app E st (Some a) = Inr st' \<and> router_inv E V st' \<and> subs V st' = subs V st \<and>
    dapps st' = (dapps st)(a := None) \<and> app_ctxs st' = (app_ctxs st)[nat (app_id d) := None] \<and>
    v_bits V (app_bitmap st') = v_bits V (app_bitmap st) - {nat (app_id d)} \<and> calls st' = calls st"
proof -
  have A: "app_inv E V st" and R: "req_inv E V st" using inv by (simp_all add: router_inv_def)
  note D = app_inv_dapp [OF A d]
  let ?i = "nat (app_id d)"
  obtain e chs bm where r: "jrtc_router_deregister_app E st (Some a) =
      Inr (st\<lparr>channels := without (channels st) chs, dapps := (dapps st)(a := None), env := e,
              app_ctxs := (app_ctxs st)[?i := None], app_bitmap := bm\<rparr>)"
    and heap: "heap_ok (v_live V e) (owners (st\<lparr>channels := without (channels st) chs, dapps := (dapps st)(a := None)\<rparr>))"
    and chs: "\<forall>c \<in> chs. \<exists>ch. channels st c = Some ch \<and> ch_app_ctx ch = a"
    and bm: "v_bits V bm = v_bits V (app_bitmap st) - {?i}" "ck_bitmap_bits E bm = ck_bitmap_bits E (app_bitmap st)"
    using deregister_app_cases [OF assms] by blast
  define st' where "st' = st\<lparr>channels := without (channels st) chs, dapps := (dapps st)(a := None), env := e,
    app_ctxs := (app_ctxs st)[?i := None], app_bitmap := bm\<rparr>"
  have "owners st' = owners (st\<lparr>channels := without (channels st) chs, dapps := (dapps st)(a := None)\<rparr>)"
    by (intro owners_cong) (simp_all add: st'_def)
  with heap R have "req_inv E V st'" by (simp add: req_inv_def req_entry_ok_def st'_def)
  moreover have "app_inv E V st'"
  proof -
    have len: "length (app_ctxs st) = JRTC_ROUTER_MAX_NUM_APPS" using A by (simp add: app_inv_def)
    then have il: "?i < length (app_ctxs st)" using D(3) by simp
    have old: "\<not> bad_app_id (app_id d') \<and> app_ctxs st' ! nat (app_id d') = Some x \<and> dapp_ok V d' \<and> chans_ok V st' x d'"
      if x: "dapps st x = Some d'" "x \<noteq> a" for x d'
    proof -
      note X = app_inv_dapp [OF A x(1)]
      have "?i \<noteq> nat (app_id d')" using X(4) D(4) x(2) by auto
      moreover have "channels st c = Some ch \<Longrightarrow> ch_app_ctx ch = x \<Longrightarrow> c \<notin> chs" for c ch using chs x(2) by auto
      then have "chans_ok V st' x d'"
        using X(6) unfolding chans_ok_def st'_def by (fastforce simp: without_def)
      ultimately show ?thesis using X by (simp add: st'_def)
    qed
    have slots: "\<exists>d'. dapps st' x = Some d' \<and> app_id d' = int j" if j: "j < JRTC_ROUTER_MAX_NUM_APPS" "app_ctxs st' ! j = Some x" for j x
    proof -
      have "j \<noteq> ?i" "app_ctxs st ! j = Some x" using j il by (auto simp: st'_def nth_list_update split: if_splits)
      then obtain d' where d': "dapps st x = Some d'" "app_id d' = int j" using app_inv_slot [OF A j(1)] by blast
      then have "x \<noteq> a" using d \<open>j \<noteq> ?i\<close> by auto
      with d' show ?thesis by (simp add: st'_def)
    qed
    show ?thesis
      unfolding app_inv_def
    proof (intro conjI allI impI)
      show "j \<in> v_bits V (app_bitmap st') \<longleftrightarrow> app_ctxs st' ! j \<noteq> None" if "j < JRTC_ROUTER_MAX_NUM_APPS" for j
        using that A bm il by (auto simp: app_inv_def st'_def nth_list_update)
      show "length (app_ctxs st') = JRTC_ROUTER_MAX_NUM_APPS" "ck_bitmap_bits E (app_bitmap st') = JRTC_ROUTER_MAX_NUM_APPS"
        using A bm len by (simp_all add: app_inv_def st'_def)
    qed (use old slots in \<open>auto simp: st'_def split: if_splits\<close>)
  qed
  moreover have "subs V st' = subs V st" by (rule subs_cong) (simp_all add: st'_def)
  ultimately show ?thesis using r bm unfolding st'_def by (auto simp: router_inv_def)
qed

end
