(* ===== verification/Router_Forward.thy ===== *)
theory Router_Forward
  imports Router_Apps
begin

text \<open>
  Delivery of messages: the queue of an application as a bounded first-in first-out list, what
  forwarding a batch of buffers adds to it, and what receiving takes out of it.
\<close>

section \<open>The queue of an application\<close>

definition inbox :: "('e, 'bm, 'it, 'ht, 'rg, 'pl) views \<Rightarrow> ('ht, 'rg, 'pl) dapp_router_ctx \<Rightarrow> jrtc_router_data_entry list" where
  "inbox V d = map (\<lambda>x. the (data_mem d x)) (v_ring V (ring d))"

definition queue_size :: "('e, 'bm, 'it, 'ht, 'rg, 'pl) views \<Rightarrow> ('ht, 'rg, 'pl) dapp_router_ctx \<Rightarrow> nat" where
  "queue_size V d = v_cap V (data_entry_pool d)"

text \<open>The ring buffer has a slot for every index of the ring.\<close>

definition ring_fits :: "('e, 'bm, 'it, 'ht, 'rg, 'pl) views \<Rightarrow> ('ht, 'rg, 'pl) dapp_router_ctx \<Rightarrow> bool" where
  "ring_fits V d \<longleftrightarrow> v_rsize V (ring d) \<le> ring_slots d"

definition app_at :: "('e, 'bm, 'ht, 'rg, 'pl) jrtc_router_ctx \<Rightarrow> nat \<Rightarrow> ('ht, 'rg, 'pl) dapp_router_ctx option" where
  "app_at st i = (case app_ctxs st ! i of None \<Rightarrow> None | Some a \<Rightarrow> dapps st a)"

definition all_rings_fit :: "('e, 'bm, 'it, 'ht, 'rg, 'pl) views \<Rightarrow> ('e, 'bm, 'ht, 'rg, 'pl) jrtc_router_ctx \<Rightarrow> bool" where
  "all_rings_fit V st \<longleftrightarrow> (\<forall>a d. dapps st a = Some d \<longrightarrow> ring_fits V d)"

text \<open>A pointer that sharing the buffer \<open>b\<close> may return.\<close>

definition shared_ptr :: "('e, 'bm, 'it, 'ht, 'rg, 'pl) ext \<Rightarrow> addr \<Rightarrow> addr \<Rightarrow> bool" where
  "shared_ptr E b p \<longleftrightarrow> (\<exists>e. p = fst (jbpf_io_channel_share_data_ptr E e b))"

definition kept :: "('e, 'bm, 'it, 'ht, 'rg, 'pl) views \<Rightarrow> ('ht, 'rg, 'pl) dapp_router_ctx \<Rightarrow> ('ht, 'rg, 'pl) dapp_router_ctx \<Rightarrow> bool" where
  "kept V d d' \<longleftrightarrow> inbox V d' = inbox V d \<and> queue_size V d' = queue_size V d"

text \<open>The message is appended when there is room and dropped when there is none.\<close>

definition delivered :: "('e, 'bm, 'it, 'ht, 'rg, 'pl) ext \<Rightarrow> ('e, 'bm, 'it, 'ht, 'rg, 'pl) views \<Rightarrow> stream_id \<Rightarrow> addr \<Rightarrow> ('ht, 'rg, 'pl) dapp_router_ctx \<Rightarrow> ('ht, 'rg, 'pl) dapp_router_ctx \<Rightarrow> bool" where
  "delivered E V sid b d d' \<longleftrightarrow> queue_size V d' = queue_size V d \<and>
     (if length (inbox V d) < queue_size V d
      then \<exists>p. shared_ptr E b p \<and> inbox V d' = inbox V d @ [\<lparr>de_stream_id = sid, de_data = p\<rparr>]
      else inbox V d' = inbox V d)"

lemma dapp_update_inv:
  assumes inv: "router_inv E V st" and d: "dapps st a = Some d" and ok: "dapp_ok V d'"
    and same: "app_id d' = app_id d" "ringbuffer d' = ringbuffer d"
      "app_out_channel_list d' = app_out_channel_list d" "app_in_channel_list d' = app_in_channel_list d"
    and live: "v_live V e = v_live V (env st)"
  shows "router_inv E V (st\<lparr>env := e, dapps := (dapps st)(a \<mapsto> d')\<rparr>)"
proof -
  let ?st = "st\<lparr>env := e, dapps := (dapps st)(a \<mapsto> d')\<rparr>"
  have A: "app_inv E V st" and R: "req_inv E V st" using inv by (simp_all add: router_inv_def)
  have "owners ?st = owners st" using d same by (intro owners_eqI) auto
  then have "req_inv E V ?st" using R live by (simp add: req_inv_def req_entry_ok_def)
  moreover have "app_inv E V ?st"
  proof -
    have each: "\<not> bad_app_id (app_id x) \<and> app_ctxs ?st ! nat (app_id x) = Some b \<and> dapp_ok V x \<and> chans_ok V ?st b x"
      if "dapps ?st b = Some x" for b x
    proof (cases "b = a")
      case True
      then show ?thesis using that app_inv_dapp [OF A d] ok same by (auto simp: chans_ok_def)
    next
      case False
      then show ?thesis using that app_inv_dapp [OF A, of b x] by (auto simp: chans_ok_def)
    qed
    have slot: "\<exists>x. dapps ?st b = Some x \<and> app_id x = int i" if "i < JRTC_ROUTER_MAX_NUM_APPS" "app_ctxs st ! i = Some b" for i b
      using app_inv_slot [OF A that] d same(1) by auto
    show ?thesis unfolding app_inv_def using A each slot by (auto simp: app_inv_def)
  qed
  ultimately show ?thesis by (simp add: router_inv_def)
qed

lemma inbox_length:
  assumes "dapp_ok V d"
  shows "length (inbox V d) = card (v_used V (data_entry_pool d))"
proof -
  have "card (set (v_ring V (ring d))) = length (v_ring V (ring d))"
    using assms by (intro distinct_card) (simp add: dapp_ok_def)
  then show ?thesis using assms by (simp add: inbox_def dapp_ok_def)
qed

text \<open>Where the ring fits its buffer, the queue size plus one is a power of two and the ring has exactly
  that size: a free buffer of the pool always finds a free place in the ring.\<close>

lemma ring_size_exact:
  assumes "dapp_ok V d" and "ring_fits V d"
  shows "v_rsize V (ring d) = queue_size V d + 1"
proof -
  let ?q = "v_cap V (data_entry_pool d)"
  have q: "?q \<le> 10000" using assms(1) by (simp add: dapp_ok_def JRTC_ROUTER_MAX_APP_QUEUE_SIZE_def)
  then have u: "unat (of_nat (?q + 1) :: u32) = ?q + 1"
    by (simp add: unsigned_of_nat take_bit_nat_eq_self del: of_nat_add of_nat_Suc)
  obtain k where "unat (round_up_pow_of_two (of_nat (?q + 1))) = 2 ^ k" "?q + 1 \<le> 2 ^ k"
    using round_up_pow_of_two_spec [of "of_nat (?q + 1)"] u q by auto
  then show ?thesis using assms by (simp add: dapp_ok_def ring_fits_def queue_size_def)
qed

section \<open>One application\<close>

lemma enqueue_fresh:
  assumes L: "ext_laws E V" and ok: "dapp_ok V d" and fits: "ring_fits V d"
    and al: "jbpf_mbuf_alloc E (data_entry_pool d) = (Some x, pl)"
  shows "\<exists>rg. ck_ring_enqueue_spsc E (ring d) (ring_slots d) x = Inr (True, rg) \<and>
    dapp_ok V (d\<lparr>data_entry_pool := pl, ring := rg, data_mem := (data_mem d)(x \<mapsto> m)\<rparr>) \<and>
    inbox V (d\<lparr>data_entry_pool := pl, ring := rg, data_mem := (data_mem d)(x \<mapsto> m)\<rparr>) = inbox V d @ [m] \<and>
    length (inbox V d) < queue_size V d"
proof -
  note P = pool_lawsD(5) [OF L al]
  have room: "length (v_ring V (ring d)) < v_cap V (data_entry_pool d)"
    using P inbox_length [OF ok] by (simp add: inbox_def)
  have rs: "v_rsize V (ring d) = v_cap V (data_entry_pool d) + 1"
    using ring_size_exact [OF ok fits] by (simp add: queue_size_def)
  obtain rg where rg: "ck_ring_enqueue_spsc E (ring d) (ring_slots d) x = Inr (True, rg)"
    "v_rsize V rg = v_rsize V (ring d)" "v_ring V rg = v_ring V (ring d) @ [x]"
    using ring_lawsD(2) [OF L, of "ring d" "ring_slots d" x] fits room rs by (auto simp: ring_fits_def)
  have new: "x \<notin> set (v_ring V (ring d))" using P ok by (simp add: dapp_ok_def)
  then have "map (\<lambda>y. the (((data_mem d)(x \<mapsto> m)) y)) (v_ring V (ring d)) = map (\<lambda>y. the (data_mem d y)) (v_ring V (ring d))"
    by (intro map_cong) auto
  then have "inbox V (d\<lparr>data_entry_pool := pl, ring := rg, data_mem := (data_mem d)(x \<mapsto> m)\<rparr>) = inbox V d @ [m]"
    using rg(3) by (simp add: inbox_def)
  moreover have "dapp_ok V (d\<lparr>data_entry_pool := pl, ring := rg, data_mem := (data_mem d)(x \<mapsto> m)\<rparr>)"
    using ok P rg new room by (auto simp: dapp_ok_def)
  ultimately show ?thesis using rg(1) room by (simp add: inbox_def queue_size_def)
qed

text \<open>What a step of the inner loop leaves as it is.\<close>

definition step_frame :: "('e, 'bm, 'it, 'ht, 'rg, 'pl) views \<Rightarrow> ('e, 'bm, 'ht, 'rg, 'pl) jrtc_router_ctx \<Rightarrow> ('e, 'bm, 'ht, 'rg, 'pl) jrtc_router_ctx \<Rightarrow> bool" where
  "step_frame V st st' \<longleftrightarrow> reqs st' = reqs st \<and> req_entries st' = req_entries st \<and> lookup_result st' = lookup_result st \<and>
     app_ctxs st' = app_ctxs st \<and> calls st' = calls st"

lemma forward_to_app_ok:
  assumes L: "ext_laws E V" and inv: "router_inv E V st" and fits: "all_rings_fit V st" and i: "i < JRTC_ROUTER_MAX_NUM_APPS"
  shows "\<exists>st'. forward_to_app E st sid b i = Inr st' \<and> router_inv E V st' \<and> all_rings_fit V st' \<and> step_frame V st st' \<and>
    rel_option (delivered E V sid b) (app_at st i) (app_at st' i) \<and>
    (\<forall>j < JRTC_ROUTER_MAX_NUM_APPS. j \<noteq> i \<longrightarrow> app_at st' j = app_at st j)"
proof -
  have A: "app_inv E V st" using inv by (simp add: router_inv_def)
  have il: "i < length (app_ctxs st)" using A i by (simp add: app_inv_def)
  show ?thesis
  proof (cases "app_ctxs st ! i")
    case None
    then show ?thesis using il inv fits by (simp add: forward_to_app_def app_at_def step_frame_def)
  next
    case (Some a)
    then obtain d where d: "dapps st a = Some d" "app_id d = int i" using app_inv_slot [OF A i] by blast
    have ok: "dapp_ok V d" using app_inv_dapp(5) [OF A d(1)] .
    have fit: "ring_fits V d" using fits d(1) by (simp add: all_rings_fit_def)
    have others: "app_at (st\<lparr>env := e, dapps := (dapps st)(a \<mapsto> d')\<rparr>) j = app_at st j" if "j < JRTC_ROUTER_MAX_NUM_APPS" "j \<noteq> i" for j e d'
    proof -
      have "app_ctxs st ! j \<noteq> Some a" using app_inv_slot [OF A that(1), of a] d that(2) by auto
      then show ?thesis by (auto simp: app_at_def split: option.splits)
    qed
    obtain r pl where al: "jbpf_mbuf_alloc E (data_entry_pool d) = (r, pl)" by fastforce
    show ?thesis
    proof (cases r)
      case None
      note P = pool_lawsD(4) [OF L al [unfolded None]]
      let ?d = "d\<lparr>data_entry_pool := pl\<rparr>"
      have "dapp_ok V ?d" using ok P by (auto simp: dapp_ok_def)
      then have "router_inv E V (st\<lparr>env := env st, dapps := (dapps st)(a \<mapsto> ?d)\<rparr>)"
        by (intro dapp_update_inv [OF inv d(1)]) simp_all
      moreover have "delivered E V sid b d ?d"
        using P inbox_length [OF ok] by (simp add: delivered_def inbox_def queue_size_def)
      moreover have "all_rings_fit V (st\<lparr>dapps := (dapps st)(a \<mapsto> ?d)\<rparr>)" using fits fit by (simp add: all_rings_fit_def ring_fits_def)
      ultimately show ?thesis
        using il Some d al None others [where e = "env st" and d' = ?d] by (simp add: forward_to_app_def app_at_def step_frame_def)
    next
      case x: (Some x)
      obtain p e where sh: "jbpf_io_channel_share_data_ptr E (env st) b = (p, e)" by fastforce
      then have ptr: "shared_ptr E b p" unfolding shared_ptr_def by (metis fst_conv)
      let ?m = "\<lparr>de_stream_id = sid, de_data = p\<rparr>"
      obtain rg where rg: "ck_ring_enqueue_spsc E (ring d) (ring_slots d) x = Inr (True, rg)"
        "dapp_ok V (d\<lparr>data_entry_pool := pl, ring := rg, data_mem := (data_mem d)(x \<mapsto> ?m)\<rparr>)"
        "inbox V (d\<lparr>data_entry_pool := pl, ring := rg, data_mem := (data_mem d)(x \<mapsto> ?m)\<rparr>) = inbox V d @ [?m]"
        "length (inbox V d) < queue_size V d"
        using enqueue_fresh [OF L ok fit al [unfolded x], of ?m] by blast
      let ?d = "d\<lparr>data_entry_pool := pl, ring := rg, data_mem := (data_mem d)(x \<mapsto> ?m)\<rparr>"
      have "router_inv E V (st\<lparr>env := e, dapps := (dapps st)(a \<mapsto> ?d)\<rparr>)"
        using rg(2) io_lawsD(1) [OF L sh] by (intro dapp_update_inv [OF inv d(1)]) simp_all
      moreover have cap: "queue_size V ?d = queue_size V d"
        using pool_lawsD(5) [OF L al [unfolded x]] by (simp add: queue_size_def)
      moreover have "ring_fits V ?d"
        using ring_size_exact [OF ok fit] ok rg(2) cap by (auto simp: ring_fits_def dapp_ok_def queue_size_def)
      ultimately show ?thesis
        using il Some d al x sh rg ptr fits others [where e = e and d' = ?d]
        by (simp add: forward_to_app_def app_at_def step_frame_def delivered_def all_rings_fit_def)
    qed
  qed
qed

section \<open>The loops\<close>

lemma step_frame_trans: "step_frame V a b \<Longrightarrow> step_frame V b c \<Longrightarrow> step_frame V a c"
  by (simp add: step_frame_def)

text \<open>The inner loop visits the applications that the iterator has still to return, and delivers to each
  of them once.  It ends with an exhausted iterator when it has fuel for one more step than that.\<close>

lemma forward_buf_ok:
  assumes L: "ext_laws E V"
    and "router_inv E V st" and "all_rings_fit V st" and "v_todo V (lookup_result st) it = is"
    and "distinct is" and "set is \<subseteq> {..<JRTC_ROUTER_MAX_NUM_APPS}" and "length is < n"
  shows "\<exists>st' it'. forward_buf n E st sid b it = Some (Inr (st', it')) \<and> router_inv E V st' \<and> all_rings_fit V st' \<and>
    step_frame V st st' \<and> v_todo V (lookup_result st') it' = [] \<and>
    (\<forall>j < JRTC_ROUTER_MAX_NUM_APPS. if j \<in> set is then rel_option (delivered E V sid b) (app_at st j) (app_at st' j)
       else app_at st' j = app_at st j)"
  using assms(2-)
proof (induction "is" arbitrary: st it n)
  case Nil
  then obtain m where n: "n = Suc m" by (cases n) auto
  obtain it' where "ck_bitmap_next E (lookup_result st) it = (None, it')" "v_todo V (lookup_result st) it' = []"
    using bitmap_lawsD(8) [OF L Nil.prems(3)] by blast
  then show ?case using Nil.prems by (simp add: n step_frame_def)
next
  case (Cons i "is")
  then obtain m where n: "n = Suc m" "length is < m" by (cases n) auto
  obtain it' where it': "ck_bitmap_next E (lookup_result st) it = (Some i, it')" "v_todo V (lookup_result st) it' = is"
    using bitmap_lawsD(9) [OF L Cons.prems(3)] by blast
  have i: "i < JRTC_ROUTER_MAX_NUM_APPS" using Cons.prems(5) by auto
  from forward_to_app_ok [OF L Cons.prems(1,2) i, of sid b] obtain st1 where
    s1: "forward_to_app E st sid b i = Inr st1" "router_inv E V st1" "all_rings_fit V st1" "step_frame V st st1"
      "rel_option (delivered E V sid b) (app_at st i) (app_at st1 i)"
      "\<forall>j < JRTC_ROUTER_MAX_NUM_APPS. j \<noteq> i \<longrightarrow> app_at st1 j = app_at st j" by blast
  have "v_todo V (lookup_result st1) it' = is" using it'(2) s1(4) by (simp add: step_frame_def)
  from Cons.IH [OF s1(2,3) this _ _ n(2)] Cons.prems(4,5) obtain st2 it2 where
    s2: "forward_buf m E st1 sid b it' = Some (Inr (st2, it2))" "router_inv E V st2" "all_rings_fit V st2"
      "step_frame V st1 st2" "v_todo V (lookup_result st2) it2 = []"
      "\<forall>j < JRTC_ROUTER_MAX_NUM_APPS. if j \<in> set is then rel_option (delivered E V sid b) (app_at st1 j) (app_at st2 j)
         else app_at st2 j = app_at st1 j" by auto
  have "i \<notin> set is" using Cons.prems(4) by simp
  then have "\<forall>j < JRTC_ROUTER_MAX_NUM_APPS. if j \<in> set (i # is) then rel_option (delivered E V sid b) (app_at st j) (app_at st2 j)
      else app_at st2 j = app_at st j"
    using s1(5,6) s2(6) i by (metis list.set_intros(1) list.set_intros(2) set_ConsD)
  then show ?case
    using s1(1,4) s2(1-5) it'(1) step_frame_trans [of V st st1 st2] by (simp add: n(1))
qed

text \<open>Once the iterator is exhausted, further buffers are only released.\<close>

lemma forward_bufs_exhausted:
  assumes L: "ext_laws E V" and "0 < n" and "v_todo V (lookup_result st) it = []"
  shows "\<exists>e. forward_bufs n E st sid bs it = Some (Inr (st\<lparr>env := e\<rparr>)) \<and> v_live V e = v_live V (env st)"
  using assms(3)
proof (induction bs arbitrary: st it)
  case Nil
  show ?case by (intro exI [of _ "env st"]) simp
next
  case (Cons b bs)
  obtain m where n: "n = Suc m" using assms(2) by (cases n) auto
  obtain it' where it': "ck_bitmap_next E (lookup_result st) it = (None, it')" "v_todo V (lookup_result st) it' = []"
    using bitmap_lawsD(8) [OF L Cons.prems] by blast
  let ?st = "st\<lparr>env := jbpf_io_channel_release_buf E (env st) b\<rparr>"
  have "v_todo V (lookup_result ?st) it' = []" using it'(2) by simp
  from Cons.IH [OF this] obtain e where "forward_bufs n E ?st sid bs it' = Some (Inr (?st\<lparr>env := e\<rparr>))"
    "v_live V e = v_live V (env ?st)" by blast
  then show ?case using it'(1) io_lawsD(2) [OF L] by (intro exI [of _ e]) (simp add: n)
qed

section \<open>The lookup\<close>

lemma lookup_reqs_ok:
  assumes L: "ext_laws E V" and "req_inv E V st" and "ck_bitmap_bits E (lookup_result st) = JRTC_ROUTER_MAX_NUM_APPS"
  shows "\<exists>bm. lookup_reqs E st ks = Inr (st\<lparr>lookup_result := bm\<rparr>) \<and> ck_bitmap_bits E bm = JRTC_ROUTER_MAX_NUM_APPS \<and>
    v_bits V bm = v_bits V (lookup_result st) \<union> (\<Union>k \<in> set ks. subs V st k)"
  using assms(2,3)
proof (induction ks arbitrary: st)
  case Nil
  then show ?case by (intro exI [of _ "lookup_result st"]) simp
next
  case (Cons k ks)
  note get = lookup_req [OF L Cons.prems(1), of k]
  show ?case
  proof (cases "v_ht V (reqs st) k")
    case None
    then have "subs V st k = {}" by (simp add: subs_def)
    then show ?thesis using Cons.IH [OF Cons.prems] get None by simp
  next
    case (Some pa)
    then obtain a en where a: "v_ht V (reqs st) k = Some (a, a)" "req_entries st a = Some en"
      "ck_bitmap_bits E (re_bitmap en) = JRTC_ROUTER_MAX_NUM_APPS"
      using req_inv_entry [OF Cons.prems(1)] by (cases pa) fastforce
    let ?bm = "ck_bitmap_union E (lookup_result st) (re_bitmap en)"
    let ?st = "st\<lparr>lookup_result := ?bm\<rparr>"
    have bm: "v_bits V ?bm = v_bits V (lookup_result st) \<union> v_bits V (re_bitmap en)" "ck_bitmap_bits E ?bm = JRTC_ROUTER_MAX_NUM_APPS"
      using bitmap_lawsD(5) [OF L, of "re_bitmap en" "lookup_result st"] Cons.prems(2) a(3) by auto
    have "req_inv E V ?st" by (rule req_inv_cong [OF Cons.prems(1)]) simp_all
    moreover have "subs V ?st = subs V st" by (rule subs_cong) simp_all
    ultimately obtain bm' where "lookup_reqs E ?st ks = Inr (?st\<lparr>lookup_result := bm'\<rparr>)" "ck_bitmap_bits E bm' = JRTC_ROUTER_MAX_NUM_APPS"
      "v_bits V bm' = v_bits V ?bm \<union> (\<Union>k \<in> set ks. subs V st k)"
      using Cons.IH [of ?st] bm(2) by auto
    moreover have "subs V st k = v_bits V (re_bitmap en)" using a by (simp add: subs_def)
    ultimately show ?thesis using get a bm(1) by auto
  qed
qed

section \<open>A batch\<close>

text \<open>The applications subscribed to a message: by any of the keys that the lookup tries.\<close>

definition subscribers :: "('e, 'bm, 'it, 'ht, 'rg, 'pl) views \<Rightarrow> bool \<Rightarrow> ('e, 'bm, 'ht, 'rg, 'pl) jrtc_router_ctx \<Rightarrow> stream_id \<Rightarrow> nat set" where
  "subscribers V sc st sid = (\<Union>k \<in> set (lookup_ids sc sid). subs V st k)"

lemma router_inv_cong:
  assumes "router_inv E V st" and "reqs st' = reqs st" and "req_entries st' = req_entries st"
    and "same_apps st st'" and "v_live V (env st) \<subseteq> v_live V (env st')"
  shows "router_inv E V st'"
  using assms req_inv_cong [of E V st st'] app_inv_cong [of E V st st'] by (simp add: router_inv_def same_apps_def)

lemma lookup_inv: "router_inv E V st \<Longrightarrow> router_inv E V (st\<lparr>lookup_result := bm, calls := cs\<rparr>)"
  by (erule router_inv_cong) (simp_all add: same_apps_def)

lemma env_inv: "router_inv E V st \<Longrightarrow> v_live V e = v_live V (env st) \<Longrightarrow> router_inv E V (st\<lparr>env := e\<rparr>)"
  by (erule router_inv_cong) (simp_all add: same_apps_def)

lemma forward_msgs_ok:
  assumes L: "ext_laws E V" and inv: "router_inv E V st" and fits: "all_rings_fit V st" and n: "JRTC_ROUTER_MAX_NUM_APPS < n"
    and wide: "ck_bitmap_bits E (lookup_result st) = JRTC_ROUTER_MAX_NUM_APPS"
  shows "\<exists>st'. jrtc_router_forward_msgs n sc E st (Some ch) sid (b # bs) = Some (Inr st') \<and>
    router_inv E V st' \<and> all_rings_fit V st' \<and> subs V st' = subs V st \<and> app_ctxs st' = app_ctxs st \<and>
    ck_bitmap_bits E (lookup_result st') = JRTC_ROUTER_MAX_NUM_APPS \<and> calls st' = calls st @ [EpochBegin None, EpochEnd None] \<and>
    (\<forall>i < JRTC_ROUTER_MAX_NUM_APPS. if i \<in> subscribers V sc st sid
       then rel_option (delivered E V sid b) (app_at st i) (app_at st' i) else app_at st' i = app_at st i)"
proof -
  let ?clr = "ck_bitmap_clear E (lookup_result st)"
  let ?s0 = "st\<lparr>lookup_result := ?clr, calls := calls st @ [EpochBegin None]\<rparr>"
  have clr: "ck_bitmap_bits E ?clr = JRTC_ROUTER_MAX_NUM_APPS" "v_bits V ?clr = {}"
    using bitmap_lawsD(4) [OF L] wide by auto
  have r0: "req_inv E V ?s0" using lookup_inv [OF inv] by (simp add: router_inv_def)
  have s0: "subs V ?s0 = subs V st" by (rule subs_cong) simp_all
  obtain bm where bm: "lookup_reqs E ?s0 (lookup_ids sc sid) = Inr (?s0\<lparr>lookup_result := bm\<rparr>)"
    "ck_bitmap_bits E bm = JRTC_ROUTER_MAX_NUM_APPS" "v_bits V bm = subscribers V sc st sid"
    using lookup_reqs_ok [OF L r0, of "lookup_ids sc sid"] clr s0 by (auto simp: subscribers_def)
  let ?s1 = "st\<lparr>lookup_result := bm, calls := calls st @ [EpochBegin None, EpochEnd None]\<rparr>"
  let ?it = "ck_bitmap_iterator_init E bm"
  let ?is = "v_todo V bm ?it"
  have i1: "router_inv E V ?s1" using lookup_inv [OF inv] .
  have f1: "all_rings_fit V ?s1" using fits by (simp add: all_rings_fit_def)
  have todo: "set ?is = v_bits V bm" "distinct ?is"
    using bitmap_lawsD(7) [OF L, of bm] bitmap_finite [OF L, of bm] by simp_all
  have ran: "set ?is \<subseteq> {..<JRTC_ROUTER_MAX_NUM_APPS}" using todo(1) bitmap_lawsD(2) [OF L, of bm] bm(2) by auto
  then have len: "length ?is < n" using n todo(2) card_mono [of "{..<JRTC_ROUTER_MAX_NUM_APPS}" "set ?is"] distinct_card [of ?is] by auto
  have td: "v_todo V (lookup_result ?s1) ?it = ?is" by simp
  obtain s2 it2 where s2: "forward_buf n E ?s1 sid b ?it = Some (Inr (s2, it2))" "router_inv E V s2" "all_rings_fit V s2"
    "step_frame V ?s1 s2" "v_todo V (lookup_result s2) it2 = []"
    "\<forall>j < JRTC_ROUTER_MAX_NUM_APPS. if j \<in> set ?is then rel_option (delivered E V sid b) (app_at ?s1 j) (app_at s2 j)
       else app_at s2 j = app_at ?s1 j"
    using forward_buf_ok [OF L i1 f1 td todo(2) ran len] by blast
  let ?s3 = "s2\<lparr>env := jbpf_io_channel_release_buf E (env s2) b\<rparr>"
  obtain e where e: "forward_bufs n E ?s3 sid bs it2 = Some (Inr (s2\<lparr>env := e\<rparr>))" "v_live V e = v_live V (env s2)"
    using forward_bufs_exhausted [OF L, of n ?s3 it2 sid bs] n s2(5) io_lawsD(2) [OF L] by auto
  have "router_inv E V (s2\<lparr>env := e\<rparr>)" using s2(2) e(2) by (rule env_inv)
  moreover have "all_rings_fit V (s2\<lparr>env := e\<rparr>)" using s2(3) by (simp add: all_rings_fit_def)
  moreover have "subs V (s2\<lparr>env := e\<rparr>) = subs V st" using s2(4) by (intro subs_cong) (simp_all add: step_frame_def)
  moreover have at: "app_at ?s1 j = app_at st j" "app_at (s2\<lparr>env := e\<rparr>) j = app_at s2 j" for j by (simp_all add: app_at_def split: option.splits)
  ultimately show ?thesis
    using bm s2(1,4) s2(6) [unfolded at(1)] e(1) todo(1)
    by (intro exI [of _ "s2\<lparr>env := e\<rparr>"]) (simp add: jrtc_router_forward_msgs_def called_def step_frame_def at(2))
qed

section \<open>Receiving\<close>

text \<open>Taking the oldest message.\<close>

lemma dequeue_ok:
  assumes L: "ext_laws E V" and ok: "dapp_ok V d" and fits: "ring_fits V d" and rg: "v_ring V (ring d) = x # xs"
    and dq: "ck_ring_dequeue_spsc E (ring d) (ring_slots d) = (Some x, r)" and r: "v_rsize V r = v_rsize V (ring d)" "v_ring V r = xs"
  defines "d' \<equiv> d\<lparr>ring := r, data_entry_pool := jbpf_mbuf_free_from_data_ptr E (data_entry_pool d) x, data_mem := (data_mem d)(x := None)\<rparr>"
  shows "\<exists>m. data_mem d x = Some m \<and> inbox V d = m # inbox V d' \<and> dapp_ok V d' \<and> ring_fits V d' \<and> queue_size V d' = queue_size V d"
proof -
  obtain m where m: "data_mem d x = Some m" using ok rg by (auto simp: dapp_ok_def)
  have x: "x \<notin> set xs" "x \<in> v_used V (data_entry_pool d)" using ok rg by (auto simp: dapp_ok_def)
  note P = pool_lawsD(6) [OF L x(2)]
  have "map (\<lambda>y. the (((data_mem d)(x := None)) y)) xs = map (\<lambda>y. the (data_mem d y)) xs"
    using x(1) by (intro map_cong) auto
  then have "inbox V d = m # inbox V d'" using m rg r by (simp add: inbox_def d'_def)
  moreover have "dapp_ok V d'" using ok rg r P x(1) by (auto simp: dapp_ok_def d'_def)
  moreover have "ring_fits V d'" using fits r by (simp add: ring_fits_def d'_def)
  ultimately show ?thesis using m P by (simp add: queue_size_def d'_def)
qed

lemma receive_ring_ok:
  assumes L: "ext_laws E V" and "dapp_ok V d" and "ring_fits V d"
  shows "\<exists>d'. receive_ring n E d = Inr (take n (inbox V d), d') \<and> inbox V d' = drop n (inbox V d) \<and>
    dapp_ok V d' \<and> ring_fits V d' \<and> queue_size V d' = queue_size V d \<and> app_id d' = app_id d \<and> ringbuffer d' = ringbuffer d \<and>
    app_out_channel_list d' = app_out_channel_list d \<and> app_in_channel_list d' = app_in_channel_list d"
  using assms(2,3)
proof (induction n arbitrary: d)
  case 0
  then show ?case by simp
next
  case (Suc n)
  obtain r where r: "ck_ring_dequeue_spsc E (ring d) (ring_slots d) = (case v_ring V (ring d) of [] \<Rightarrow> None | a # _ \<Rightarrow> Some a, r)"
    "v_rsize V r = v_rsize V (ring d)" "v_ring V r = tl (v_ring V (ring d))"
    using ring_lawsD(3) [OF L, of "ring d" "ring_slots d"] Suc.prems(2) by (auto simp: ring_fits_def)
  show ?case
  proof (cases "v_ring V (ring d)")
    case Nil
    then show ?thesis using r Suc.prems by (simp add: inbox_def dapp_ok_def ring_fits_def queue_size_def)
  next
    case (Cons x xs)
    let ?d = "d\<lparr>ring := r, data_entry_pool := jbpf_mbuf_free_from_data_ptr E (data_entry_pool d) x, data_mem := (data_mem d)(x := None)\<rparr>"
    have dq: "ck_ring_dequeue_spsc E (ring d) (ring_slots d) = (Some x, r)" "v_ring V r = xs" using r Cons by simp_all
    obtain m where m: "data_mem d x = Some m" "inbox V d = m # inbox V ?d" "dapp_ok V ?d" "ring_fits V ?d" "queue_size V ?d = queue_size V d"
      using dequeue_ok [OF L Suc.prems Cons dq(1) r(2) dq(2)] by blast
    show ?thesis using Suc.IH [OF m(3,4)] m(1,2,5) dq(1) by auto
  qed
qed

lemma receive_channels_ok:
  assumes L: "ext_laws E V" and "router_inv E V st" and "\<forall>c \<in> set cs. channels st c \<noteq> None" and "int (length got) \<le> num"
  shows "\<exists>e more. receive_channels E st num cs got = Inr (got @ more, st\<lparr>env := e\<rparr>) \<and> v_live V e = v_live V (env st) \<and>
    int (length (got @ more)) \<le> num \<and> (\<forall>m \<in> set more. \<exists>c \<in> set cs. de_stream_id m = ch_stream_id (the (channels st c)))"
  using assms(2-)
proof (induction cs arbitrary: st got)
  case Nil
  then show ?case by (intro exI [of _ "env st"] exI [of _ "[]"]) simp
next
  case (Cons c cs)
  show ?case
  proof (cases "int (length got) < num")
    case False
    then show ?thesis using Cons.prems by (intro exI [of _ "env st"] exI [of _ "[]"]) simp
  next
    case True
    obtain ch where ch: "channels st c = Some ch" using Cons.prems(2) by auto
    let ?n = "if num - int (length got) < JRTC_ROUTER_DATA_BATCH_SIZE then num - int (length got) else JRTC_ROUTER_DATA_BATCH_SIZE"
    obtain ps e where io: "jbpf_io_channel_recv_data E (env st) (io_channel ch) ?n = (ps, e)" by fastforce
    have ps: "v_live V e = v_live V (env st)" "int (length ps) \<le> max 0 ?n" using io_lawsD(3) [OF L io] by auto
    let ?got = "map (\<lambda>p. \<lparr>de_stream_id = ch_stream_id ch, de_data = p\<rparr>) ps"
    have len: "int (length (got @ ?got)) \<le> num" using ps(2) True by (auto split: if_splits)
    have "router_inv E V (st\<lparr>env := e\<rparr>)" using Cons.prems(1) ps(1) by (rule env_inv)
    from Cons.IH [OF this _ len] Cons.prems(2) obtain e' more where
      IH: "receive_channels E (st\<lparr>env := e\<rparr>) num cs (got @ ?got) = Inr ((got @ ?got) @ more, st\<lparr>env := e'\<rparr>)"
      "v_live V e' = v_live V e" "int (length ((got @ ?got) @ more)) \<le> num"
      "\<forall>m \<in> set more. \<exists>c \<in> set cs. de_stream_id m = ch_stream_id (the (channels st c))" by auto
    show ?thesis
      using IH True ch io ps(1) by (intro exI [of _ e'] exI [of _ "?got @ more"]) (auto simp: Let_def)
  qed
qed

lemma receive_ok:
  assumes L: "ext_laws E V" and inv: "router_inv E V st" and fits: "all_rings_fit V st" and d: "dapps st a = Some d"
  shows "\<exists>more d' e. jrtc_router_receive E st a n = Inr (take n (inbox V d) @ more, st\<lparr>dapps := (dapps st)(a \<mapsto> d'), env := e\<rparr>) \<and>
    length (take n (inbox V d) @ more) \<le> n \<and> inbox V d' = drop n (inbox V d) \<and> queue_size V d' = queue_size V d \<and>
    router_inv E V (st\<lparr>dapps := (dapps st)(a \<mapsto> d'), env := e\<rparr>) \<and> all_rings_fit V (st\<lparr>dapps := (dapps st)(a \<mapsto> d'), env := e\<rparr>)"
proof -
  have A: "app_inv E V st" using inv by (simp add: router_inv_def)
  obtain d' where d': "receive_ring n E d = Inr (take n (inbox V d), d')" "inbox V d' = drop n (inbox V d)"
    "dapp_ok V d'" "ring_fits V d'" "queue_size V d' = queue_size V d" "app_id d' = app_id d" "ringbuffer d' = ringbuffer d"
    "app_out_channel_list d' = app_out_channel_list d" "app_in_channel_list d' = app_in_channel_list d"
    using receive_ring_ok [OF L app_inv_dapp(5) [OF A d], of n] fits d by (auto simp: all_rings_fit_def)
  let ?st = "st\<lparr>env := env st, dapps := (dapps st)(a \<mapsto> d')\<rparr>"
  have inv': "router_inv E V ?st" using d'(3,6-9) by (intro dapp_update_inv [OF inv d]) simp_all
  have tab: "\<forall>c \<in> set (ck_ht_entries E (app_in_channel_list d')). channels ?st c \<noteq> None"
    using table_channels(2) [OF L, of "app_in_channel_list d" st a False] app_inv_dapp(6) [OF A d] d'(9) by (fastforce simp: chans_ok_def)
  have len: "int (length (take n (inbox V d))) \<le> int n" by simp
  obtain e more where e: "receive_channels E ?st (int n) (ck_ht_entries E (app_in_channel_list d')) (take n (inbox V d)) =
      Inr (take n (inbox V d) @ more, ?st\<lparr>env := e\<rparr>)" "v_live V e = v_live V (env ?st)" "int (length (take n (inbox V d) @ more)) \<le> int n"
    using receive_channels_ok [OF L inv' tab len] by blast
  have "router_inv E V (?st\<lparr>env := e\<rparr>)" using inv' e(2) by (rule env_inv)
  moreover have "all_rings_fit V (?st\<lparr>env := e\<rparr>)" using fits d'(4) by (simp add: all_rings_fit_def)
  ultimately show ?thesis
    using d d'(1,2,5) e by (intro exI [of _ more] exI [of _ d'] exI [of _ e]) (simp add: jrtc_router_receive_def app_of_def)
qed

end
