(* ===== verification/Router_Sim.thy ===== *)
theory Router_Sim
  imports Router_Ext "HOL-Library.AList"
begin

text \<open>
  A sequential implementation of the libraries of \<open>Router_Ext\<close> with lists: an allocator with a budget of
  blocks, bitmaps as lists of booleans, tables as association lists that keep the address of the key,
  rings with a head index, pools as lists of the buffers in use.  It satisfies the laws, so the
  theorems about the router are not about an empty class of libraries, and it runs.
\<close>

record lib_env =
  e_live :: "addr list"
  e_budget :: nat
  e_refs :: "addr \<Rightarrow> int"
  e_chans :: "(addr \<times> stream_id \<times> bool \<times> addr list) list"

definition fresh_addr :: "addr list \<Rightarrow> addr" where
  "fresh_addr as = Suc (foldr max as 0)"

definition sim_malloc :: "lib_env \<Rightarrow> addr option \<times> lib_env" where
  "sim_malloc e =
     (case e_budget e of
        0 \<Rightarrow> (None, e)
      | Suc n \<Rightarrow> (let a = fresh_addr (e_live e) in (Some a, e\<lparr>e_live := a # e_live e, e_budget := n\<rparr>)))"

definition sim_free :: "lib_env \<Rightarrow> addr \<Rightarrow> ub + lib_env" where
  "sim_free e a = (if a \<in> set (e_live e) then Inr (e\<lparr>e_live := removeAll a (e_live e)\<rparr>) else Inl (UseAfterFree a))"

definition sim_next :: "bool list \<Rightarrow> nat list \<Rightarrow> nat option \<times> nat list" where
  "sim_next b it = (case it of [] \<Rightarrow> (None, []) | i # is \<Rightarrow> (Some i, is))"

type_synonym sim_ht = "(stream_id \<times> addr \<times> addr) list"

definition sim_get :: "key_mem \<Rightarrow> sim_ht \<Rightarrow> u64 \<Rightarrow> stream_id \<Rightarrow> addr option" where
  "sim_get M t h k = map_option (snd \<circ> snd) (find (\<lambda>(_, p, _). M p = Some k) (AList.clearjunk t))"

definition sim_set :: "key_mem \<Rightarrow> lib_env \<Rightarrow> sim_ht \<Rightarrow> u64 \<Rightarrow> addr \<Rightarrow> stream_id \<Rightarrow> addr \<Rightarrow> bool \<times> sim_ht \<times> lib_env" where
  "sim_set M e t h p k v = (True, (k, p, v) # t, e)"

definition sim_remove :: "key_mem \<Rightarrow> sim_ht \<Rightarrow> u64 \<Rightarrow> stream_id \<Rightarrow> bool \<times> sim_ht" where
  "sim_remove M t h k =
     (case sim_get M t h k of
        None \<Rightarrow> (False, t)
      | Some _ \<Rightarrow> (True, filter (\<lambda>(_, p, _). M p \<noteq> Some k) (AList.clearjunk t)))"

record sim_ring =
  r_size :: nat
  r_head :: nat
  r_queue :: "addr list"

definition sim_enqueue :: "sim_ring \<Rightarrow> nat \<Rightarrow> addr \<Rightarrow> ub + (bool \<times> sim_ring)" where
  "sim_enqueue r slots a =
     (if length (r_queue r) < r_size r - 1
      then if (r_head r + length (r_queue r)) mod r_size r < slots
           then Inr (True, r\<lparr>r_queue := r_queue r @ [a]\<rparr>) else Inl OutOfBounds
      else Inr (False, r))"

definition sim_dequeue :: "sim_ring \<Rightarrow> nat \<Rightarrow> addr option \<times> sim_ring" where
  "sim_dequeue r slots =
     (case r_queue r of
        [] \<Rightarrow> (None, r)
      | a # as \<Rightarrow> (Some a, r\<lparr>r_head := r_head r + 1, r_queue := as\<rparr>))"

record sim_pool =
  p_cap :: nat
  p_used :: "addr list"

definition sim_mbuf_alloc :: "sim_pool \<Rightarrow> addr option \<times> sim_pool" where
  "sim_mbuf_alloc p =
     (if length (remdups (p_used p)) < p_cap p
      then let a = fresh_addr (p_used p) in (Some a, p\<lparr>p_used := a # p_used p\<rparr>) else (None, p))"

definition sim_recv :: "lib_env \<Rightarrow> addr \<Rightarrow> int \<Rightarrow> addr list \<times> lib_env" where
  "sim_recv e c n =
     (case map_of (e_chans e) c of
        None \<Rightarrow> ([], e)
      | Some (sid, out, bufs) \<Rightarrow> (take (nat n) bufs, e\<lparr>e_chans := (c, sid, out, drop (nat n) bufs) # e_chans e\<rparr>))"

definition sim_create_channel ::
    "lib_env \<Rightarrow> addr option \<Rightarrow> bool \<Rightarrow> int \<Rightarrow> int \<Rightarrow> stream_id \<Rightarrow> u8 list option \<Rightarrow> addr option \<times> lib_env" where
  "sim_create_channel e i out n s sid dsc =
     (let c = fresh_addr (map fst (e_chans e)) in (Some c, e\<lparr>e_chans := (c, sid, out, []) # e_chans e\<rparr>))"

definition sim :: "(lib_env, bool list, nat list, sim_ht, sim_ring, sim_pool) ext" where
  "sim =
    \<lparr>jbpf_malloc = sim_malloc, jbpf_calloc = sim_malloc, jbpf_free = sim_free,
     ck_bitmap_init = replicate, ck_bitmap_bits = length,
     ck_bitmap_set = (\<lambda>b i. b[i := True]), ck_bitmap_reset = (\<lambda>b i. b[i := False]),
     ck_bitmap_bts = (\<lambda>b i. (b ! i, b[i := True])), ck_bitmap_clear = map (\<lambda>_. False),
     ck_bitmap_union = map2 (\<or>), ck_bitmap_empty = (\<lambda>b n. list_all Not (take n b)),
     ck_bitmap_iterator_init = (\<lambda>b. filter ((!) b) [0..<length b]), ck_bitmap_next = sim_next,
     ck_ht_init = (\<lambda>e h n s. (Some [], e)), ck_ht_destroy = (\<lambda>e t. e), ck_ht_hash = (\<lambda>t k. 0),
     ck_ht_get_spmc = sim_get, ck_ht_set_spmc = sim_set, ck_ht_remove_spmc = sim_remove,
     ck_ht_entries = (\<lambda>t. map (snd \<circ> snd) (AList.clearjunk t)),
     ck_epoch_barrier = (\<lambda>xs. xs),
     ck_ring_init = (\<lambda>n. \<lparr>r_size = unat n, r_head = 0, r_queue = []\<rparr>),
     ck_ring_enqueue_spsc = sim_enqueue, ck_ring_dequeue_spsc = sim_dequeue,
     jbpf_init_mempool = (\<lambda>e n. (Some \<lparr>p_cap = n, p_used = []\<rparr>, e)), jbpf_destroy_mempool = (\<lambda>e p. e),
     jbpf_mbuf_alloc = sim_mbuf_alloc,
     jbpf_mbuf_free_from_data_ptr = (\<lambda>p a. p\<lparr>p_used := removeAll a (p_used p)\<rparr>),
     jbpf_io_init = (\<lambda>e c. (Some 0, e)), jbpf_io_stop = (\<lambda>e. e),
     jbpf_io_channel_share_data_ptr = (\<lambda>e b. (b, e\<lparr>e_refs := (e_refs e)(b := e_refs e b + 1)\<rparr>)),
     jbpf_io_channel_release_buf = (\<lambda>e b. e\<lparr>e_refs := (e_refs e)(b := e_refs e b - 1)\<rparr>),
     jbpf_io_channel_recv_data = sim_recv,
     jbpf_io_channel_submit_buf = (\<lambda>e c. (0, e)),
     jbpf_io_channel_reserve_buf = (\<lambda>e c. (Some c, e)),
     jbpf_io_channel_send_msg = (\<lambda>e i sid dat n. (0, e)),
     jbpf_io_create_channel = sim_create_channel,
     jbpf_io_destroy_channel = (\<lambda>e i c. e\<lparr>e_chans := AList.delete c (e_chans e)\<rparr>),
     jbpf_io_find_channel = (\<lambda>e i sid out. list_ex (\<lambda>(_, s, out', _). s = sid \<and> out' = out) (e_chans e)),
     jbpf_io_is_secondary = (\<lambda>e i. False),
     jbpf_io_out_bufs = (\<lambda>e i. ([], e)),
     jbpf_io_channel_pack_msg = (\<lambda>e i b n. (3, [1, 2, of_nat b])),
     jbpf_io_channel_unpack_msg = (\<lambda>e i bs. (None, replicate 16 0, e))\<rparr>"

definition sim_views :: "(lib_env, bool list, nat list, sim_ht, sim_ring, sim_pool) views" where
  "sim_views =
    \<lparr>v_live = set \<circ> e_live, v_refs = e_refs, v_bits = (\<lambda>b. {i. i < length b \<and> b ! i}), v_todo = (\<lambda>b it. it),
     v_ht = map_of, v_ring = r_queue, v_rsize = r_size, v_used = set \<circ> p_used, v_cap = p_cap\<rparr>"

section \<open>The laws hold\<close>

lemma fresh_addr_notin: "fresh_addr as \<notin> set as"
proof -
  have "a \<le> foldr max as 0" if "a \<in> set as" for a using that by (induction as) auto
  then show ?thesis unfolding fresh_addr_def by fastforce
qed

lemma sim_alloc_laws: "alloc_laws sim sim_views"
  unfolding alloc_laws_def by (auto simp: sim_def sim_views_def sim_malloc_def sim_free_def Let_def fresh_addr_notin split: nat.splits)

lemma sim_bitmap_laws: "bitmap_laws sim sim_views"
proof -
  have it: "filter ((!) b) [0..<length b] = sorted_list_of_set {i. i < length b \<and> b ! i}" for b :: "bool list"
    by (rule sorted_distinct_set_unique) (auto simp: sorted_wrt_filter)
  have em: "list_all Not (take (length b) b) \<longleftrightarrow> {i. i < length b \<and> b ! i} = {}" for b :: "bool list"
    by (auto simp: list_all_length)
  show ?thesis
    unfolding bitmap_laws_def
    by (auto simp: sim_def sim_views_def sim_next_def nth_list_update it em [simplified] split: if_splits)
qed

lemma sim_find:
  assumes "distinct (map fst t)" and "\<forall>k p v. map_of t k = Some (p, v) \<longrightarrow> M p = Some k"
  shows "map_option (snd \<circ> snd) (find (\<lambda>(_, p, _). M p = Some k) t) = map_option snd (map_of t k)"
    and "map_of (filter (\<lambda>(_, p, _). M p \<noteq> Some k) t) = (map_of t)(k := None)"
proof -
  have key: "M p = Some j" if "(j, p, v) \<in> set t" for j p v
    using assms that by (auto simp: map_of_eq_Some_iff)
  show "map_option (snd \<circ> snd) (find (\<lambda>(_, p, _). M p = Some k) t) = map_option snd (map_of t k)"
    using key by (induction t) fastforce+
  have "filter (\<lambda>(_, p, _). M p \<noteq> Some k) t = filter (\<lambda>(j, _). k \<noteq> j) t"
    using key by (intro filter_cong) fastforce+
  then show "map_of (filter (\<lambda>(_, p, _). M p \<noteq> Some k) t) = (map_of t)(k := None)"
    using delete_conv' [of k t] by (simp add: AList.delete_eq)
qed

lemma sim_ht_laws: "ht_laws sim sim_views"
proof -
  have F: "sim_get M t h k = map_option snd (map_of t k)" "map_of (snd (sim_remove M t h k)) = (map_of t)(k := None)"
    if "keys_valid sim_views M t" for M t h k
    using that sim_find [of "AList.clearjunk t" M k]
    by (auto simp: sim_get_def sim_remove_def keys_valid_def sim_views_def map_of_clearjunk fun_upd_idem split: option.splits)
  have R: "\<exists>t'. sim_remove M t h k = (map_of t k \<noteq> None, t') \<and> map_of t' = (map_of t)(k := None)"
    if "keys_valid sim_views M t" for M t h k
    using F [OF that, of h k] by (intro exI [of _ "snd (sim_remove M t h k)"]) (simp add: sim_remove_def split: option.splits)
  have N: "sim_remove M t h k = (False, t)" if "no_match sim sim_views M t k" for M t h k
  proof -
    have "M p \<noteq> Some k" if "(j, p, v) \<in> set (AList.clearjunk t)" for j p v
      using that \<open>no_match sim sim_views M t k\<close> map_of_eq_Some_iff [OF distinct_clearjunk, of t j "(p, v)"]
      by (auto simp: no_match_def sim_def sim_views_def map_of_clearjunk)
    then have "find (\<lambda>(_, p, _). M p = Some k) (AList.clearjunk t) = None" by (auto simp: find_None_iff)
    then show ?thesis by (simp add: sim_remove_def sim_get_def)
  qed
  have W: "\<exists>ks. distinct ks \<and> set ks = dom (map_of t) \<and>
      map (snd \<circ> snd) (AList.clearjunk t) = map (\<lambda>k. snd (the (map_of t k))) ks" for t :: sim_ht
  proof (intro exI conjI)
    show "distinct (map fst (AList.clearjunk t))" by simp
    show "set (map fst (AList.clearjunk t)) = dom (map_of t)" by (metis dom_map_of_conv_image_fst map_of_clearjunk set_map)
    have "map_of t (fst x) = Some (snd x)" if "x \<in> set (AList.clearjunk t)" for x
      using that map_of_eq_Some_iff [OF distinct_clearjunk, of t "fst x" "snd x"] by (simp add: map_of_clearjunk)
    then show "map (snd \<circ> snd) (AList.clearjunk t) = map (\<lambda>k. snd (the (map_of t k))) (map fst (AList.clearjunk t))" by simp
  qed
  show ?thesis
    unfolding ht_laws_def using F(1) R W N by (auto simp: sim_def sim_views_def sim_set_def)
qed

lemma sim_ring_laws: "ring_laws sim sim_views"
proof -
  have "(r_head r + length (r_queue r)) mod r_size r < slots"
    if "r_size r \<le> slots" "length (r_queue r) < r_size r - Suc 0" for r slots
    using that mod_less_divisor [of "r_size r" "r_head r + length (r_queue r)"] by linarith
  then show ?thesis
    unfolding ring_laws_def
    by (auto simp: sim_def sim_views_def sim_enqueue_def sim_dequeue_def split: list.splits)
qed

lemma sim_pool_laws: "pool_laws sim sim_views"
  unfolding pool_laws_def
  by (auto simp: sim_def sim_views_def sim_mbuf_alloc_def Let_def fresh_addr_notin length_remdups_card_conv split: if_splits)

lemma sim_io_laws: "io_laws sim sim_views"
  unfolding io_laws_def
  by (auto simp: sim_def sim_views_def sim_recv_def sim_create_channel_def Let_def split: option.splits)

lemma sim_ext_laws: "ext_laws sim sim_views"
  by (simp add: ext_laws_def sim_alloc_laws sim_bitmap_laws sim_ht_laws sim_ring_laws sim_pool_laws sim_io_laws epoch_laws_def)
     (simp add: sim_def)

end
