(* ===== verification/Router_Init.thy ===== *)
theory Router_Init
  imports Router_Forward Router_Sim
begin

text \<open>
  Starting the router and the router thread: \<open>jrtc_router_init\<close>, the scheduling and affinity calls, the
  prologue of the thread and its loop over incoming messages.  The results of the operating system's
  calls are arguments.
\<close>

section \<open>Scheduling and affinity\<close>

record sched_attr =
  at_size :: u32
  at_sched_policy :: u32
  at_sched_flags :: u64
  at_sched_nice :: int
  at_sched_priority :: u32
  at_sched_runtime :: u64
  at_sched_deadline :: u64
  at_sched_period :: u64

definition SCHED_FIFO :: int where "SCHED_FIFO = 1"

definition SCHED_DEADLINE :: u32 where "SCHED_DEADLINE = 6"

datatype os_call =
    PthreadSetschedparam int int
  | SchedSetattr sched_attr
  | PthreadSetaffinity "1024 word"
  | PthreadSetname string

definition jrtc_router_set_scheduler ::
    "(os_call \<Rightarrow> int) \<Rightarrow> bool \<Rightarrow> jrtc_router_sched_config option \<Rightarrow> int \<times> os_call list" where
  "jrtc_router_set_scheduler os has_ctx cfg =
     (case cfg of
        None \<Rightarrow> (-1, [])
      | Some c \<Rightarrow>
          if \<not> has_ctx then (-1, [])
          else if sched_policy c = JRTC_ROUTER_NORMAL then (0, [])
          else if sched_policy c = JRTC_ROUTER_FIFO then
            (let call = PthreadSetschedparam SCHED_FIFO (sched_priority c) in (os call, [call]))
          else if sched_policy c = JRTC_ROUTER_DEADLINE then
            (let call = SchedSetattr \<lparr>at_size = 48, at_sched_policy = SCHED_DEADLINE, at_sched_flags = 0, at_sched_nice = 0,
                   at_sched_priority = 0, at_sched_runtime = sched_runtime c, at_sched_deadline = sched_deadline c,
                   at_sched_period = sched_period c\<rparr>
             in (os call, [call]))
          else (-2, []))"

text \<open>\<open>cpu_set_t\<close> has 1024 bits; the loop copies the 64 bits of the mask into it.\<close>

primrec cpu_set_loop :: "u64 \<Rightarrow> nat list \<Rightarrow> 1024 word \<Rightarrow> 1024 word" where
  "cpu_set_loop m [] s = s"
| "cpu_set_loop m (i # is) s = cpu_set_loop m is (if m AND push_bit i 1 \<noteq> 0 then set_bit i s else s)"

definition jrtc_router_set_cpu_affinity :: "(os_call \<Rightarrow> int) \<Rightarrow> bool \<Rightarrow> u64 \<Rightarrow> int \<times> os_call list" where
  "jrtc_router_set_cpu_affinity os has_ctx cpu_mask =
     (if \<not> has_ctx then (-1, [])
      else
        (let call = PthreadSetaffinity (cpu_set_loop cpu_mask [0..<64] 0)
         in (if os call \<noteq> 0 then -1 else 0, [call])))"

section \<open>The router thread\<close>

primrec forward_all ::
    "nat \<Rightarrow> bool \<Rightarrow> ('e, 'bm, 'it, 'ht, 'rg, 'pl) ext \<Rightarrow> ('e, 'bm, 'ht, 'rg, 'pl) jrtc_router_ctx \<Rightarrow>
     (addr \<times> stream_id \<times> addr list) list \<Rightarrow> (ub + ('e, 'bm, 'ht, 'rg, 'pl) jrtc_router_ctx) option" where
  "forward_all n sc E st [] = Some (Inr st)"
| "forward_all n sc E st (x # xs) =
     (case x of (ch, sid, bufs) \<Rightarrow>
        (case jrtc_router_forward_msgs n sc E st (Some ch) sid bufs of
           None \<Rightarrow> None
         | Some (Inl u) \<Rightarrow> Some (Inl u)
         | Some (Inr st) \<Rightarrow> forward_all n sc E st xs))"

definition jrtc_router_handle_incoming_msgs ::
    "nat \<Rightarrow> bool \<Rightarrow> ('e, 'bm, 'it, 'ht, 'rg, 'pl) ext \<Rightarrow> ('e, 'bm, 'ht, 'rg, 'pl) jrtc_router_ctx \<Rightarrow>
     (ub + ('e, 'bm, 'ht, 'rg, 'pl) jrtc_router_ctx) option" where
  "jrtc_router_handle_incoming_msgs n sc E st =
     (case io_ctx st of
        None \<Rightarrow> Some (Inr st)
      | Some io \<Rightarrow>
          if jbpf_io_is_secondary E (env st) io then Some (Inr st)
          else
            (case jbpf_io_out_bufs E (env st) io of
               (xs, e) \<Rightarrow> forward_all n sc E (st\<lparr>env := e\<rparr>) xs))"

text \<open>What the thread does before its loop: the arguments are freed, then the calls are made whose
  settings the configuration has.  The results of the calls are ignored.\<close>

definition thread_setup :: "(os_call \<Rightarrow> int) \<Rightarrow> jrtc_router_config \<Rightarrow> os_call list" where
  "thread_setup os config =
     (let tc = thread_config config in
      (if has_affinity_mask tc then snd (jrtc_router_set_cpu_affinity os True (affinity_mask tc)) else []) @
      (if has_sched_config tc then snd (jrtc_router_set_scheduler os True (Some (sched_config tc))) else []) @
      [PthreadSetname ''jrtc_router''])"

primrec thread_loop ::
    "nat \<Rightarrow> nat \<Rightarrow> bool \<Rightarrow> ('e, 'bm, 'it, 'ht, 'rg, 'pl) ext \<Rightarrow> ('e, 'bm, 'ht, 'rg, 'pl) jrtc_router_ctx \<Rightarrow>
     (ub + ('e, 'bm, 'ht, 'rg, 'pl) jrtc_router_ctx) option" where
  "thread_loop n 0 sc E st = Some (Inr st)"
| "thread_loop n (Suc k) sc E st =
     (case jrtc_router_handle_incoming_msgs n sc E st of
        None \<Rightarrow> None
      | Some (Inl u) \<Rightarrow> Some (Inl u)
      | Some (Inr st) \<Rightarrow> thread_loop n k sc E st)"

text \<open>The first \<open>k\<close> iterations of the thread.\<close>

definition jrtc_router_thread_start ::
    "nat \<Rightarrow> nat \<Rightarrow> bool \<Rightarrow> ('e, 'bm, 'it, 'ht, 'rg, 'pl) ext \<Rightarrow> (os_call \<Rightarrow> int) \<Rightarrow> ('e, 'bm, 'ht, 'rg, 'pl) jrtc_router_ctx \<Rightarrow> mem \<Rightarrow> addr \<Rightarrow>
     jrtc_router_config \<Rightarrow> (ub + (os_call list \<times> mem \<times> ('e, 'bm, 'ht, 'rg, 'pl) jrtc_router_ctx)) option" where
  "jrtc_router_thread_start n k sc E os st m th_args config =
     (case free m th_args of
        Inl u \<Rightarrow> Some (Inl u)
      | Inr m \<Rightarrow>
          (case thread_loop n k sc E (called [RegisterThread] st) of
             None \<Rightarrow> None
           | Some (Inl u) \<Rightarrow> Some (Inl u)
           | Some (Inr st) \<Rightarrow> Some (Inr (thread_setup os config, m, st))))"

section \<open>Initialisation\<close>

text \<open>The error labels, each falling through to the next.\<close>

definition error_router_thread ::
    "('e, 'bm, 'it, 'ht, 'rg, 'pl) ext \<Rightarrow> ('e, 'bm, 'ht, 'rg, 'pl) jrtc_router_ctx \<Rightarrow> mem \<Rightarrow>
     ub + (int \<times> ('e, 'bm, 'ht, 'rg, 'pl) jrtc_router_ctx \<times> mem)" where
  "error_router_thread E st m = Inr (-1, st\<lparr>env := jbpf_io_stop E (env st)\<rparr>, m)"

definition error_thread_init ::
    "('e, 'bm, 'it, 'ht, 'rg, 'pl) ext \<Rightarrow> ('e, 'bm, 'ht, 'rg, 'pl) jrtc_router_ctx \<Rightarrow> mem \<Rightarrow> addr \<Rightarrow>
     ub + (int \<times> ('e, 'bm, 'ht, 'rg, 'pl) jrtc_router_ctx \<times> mem)" where
  "error_thread_init E st m args = bindS (free m args) (\<lambda>m. error_router_thread E st m)"

definition error_lookup_res ::
    "('e, 'bm, 'it, 'ht, 'rg, 'pl) ext \<Rightarrow> ('e, 'bm, 'ht, 'rg, 'pl) jrtc_router_ctx \<Rightarrow> mem \<Rightarrow> addr \<Rightarrow> addr \<Rightarrow>
     ub + (int \<times> ('e, 'bm, 'ht, 'rg, 'pl) jrtc_router_ctx \<times> mem)" where
  "error_lookup_res E st m args lookup = bindS (jfree E st lookup) (\<lambda>st. error_thread_init E st m args)"

definition error_app_metadata_init ::
    "('e, 'bm, 'it, 'ht, 'rg, 'pl) ext \<Rightarrow> ('e, 'bm, 'ht, 'rg, 'pl) jrtc_router_ctx \<Rightarrow> mem \<Rightarrow> addr \<Rightarrow> addr \<Rightarrow>
     ub + (int \<times> ('e, 'bm, 'ht, 'rg, 'pl) jrtc_router_ctx \<times> mem)" where
  "error_app_metadata_init E st m args lookup =
     error_lookup_res E (st\<lparr>env := ck_ht_destroy E (env st) (reqs st)\<rparr>) m args lookup"

definition sync_init_calls :: "call list" where
  "sync_init_calls =
     [LockInit, EpochInit, EpochRegister None] @ map (\<lambda>i. EpochRegister (Some i)) [0..<JRTC_ROUTER_MAX_NUM_APPS]"

definition init_tables ::
    "('e, 'bm, 'it, 'ht, 'rg, 'pl) ext \<Rightarrow> int \<Rightarrow> ('e, 'bm, 'ht, 'rg, 'pl) jrtc_router_ctx \<Rightarrow> mem \<Rightarrow> addr \<Rightarrow>
     ub + (int \<times> ('e, 'bm, 'ht, 'rg, 'pl) jrtc_router_ctx \<times> mem)" where
  "init_tables E thr st m args =
     (case jbpf_malloc E (env st) of
        (None, e) \<Rightarrow> error_thread_init E (st\<lparr>env := e\<rparr>) m args
      | (Some lookup, e) \<Rightarrow>
          (let st = st\<lparr>env := e, lookup_result := ck_bitmap_init E JRTC_ROUTER_MAX_NUM_APPS False\<rparr>
           in case ck_ht_init E (env st) ht_hash_wrapper JRTC_ROUTER_INIT_NUM_REQ_ENTRIES 6602834 of
                (None, e) \<Rightarrow> error_lookup_res E (st\<lparr>env := e\<rparr>) m args lookup
              | (Some t, e) \<Rightarrow>
                  (let st = st\<lparr>env := e, reqs := t\<rparr>
                   in case jbpf_malloc E (env st) of
                        (None, e) \<Rightarrow> error_app_metadata_init E (st\<lparr>env := e\<rparr>) m args lookup
                      | (Some _, e) \<Rightarrow>
                          (let st = st\<lparr>env := e, app_bitmap := ck_bitmap_init E JRTC_ROUTER_MAX_NUM_APPS False\<rparr>
                           in if thr \<noteq> 0 then error_thread_init E st m args else Inr (0, st, m)))))"

text \<open>\<open>st\<close> is the static context \<open>g_router_ctx\<close>, \<open>thr\<close> the result of \<open>pthread_create\<close>.\<close>

definition jrtc_router_init ::
    "('e, 'bm, 'it, 'ht, 'rg, 'pl) ext \<Rightarrow> int \<Rightarrow> ('e, 'bm, 'ht, 'rg, 'pl) jrtc_router_ctx \<Rightarrow> mem \<Rightarrow> jrtc_config option \<Rightarrow>
     ub + (int \<times> ('e, 'bm, 'ht, 'rg, 'pl) jrtc_router_ctx \<times> mem)" where
  "jrtc_router_init E thr st m config =
     (case config of
        None \<Rightarrow> Inr (-1, st, m)
      | Some c \<Rightarrow>
          (case jbpf_io_init E (env st) (io_config c) of
             (io, e) \<Rightarrow>
               (let st = st\<lparr>env := e, io_ctx := io\<rparr>
                in if io = None then Inr (-1, st, m)
                   else
                     (case malloc m of
                        (None, m) \<Rightarrow> error_router_thread E st m
                      | (Some args, m) \<Rightarrow> init_tables E thr (called sync_init_calls st) m args))))"

definition jrtc_router_stop :: int where
  "jrtc_router_stop = 0"

section \<open>Facts about the thread\<close>

lemma cpu_set_loop_bits:
  "set is \<subseteq> {..<64} \<Longrightarrow> bit (cpu_set_loop m is s) j \<longleftrightarrow> bit s j \<or> j \<in> set is \<and> bit m j"
proof (induction "is" arbitrary: s)
  case Nil
  then show ?case by simp
next
  case (Cons i "is")
  then have i: "i < 64" by simp
  have "m AND push_bit i 1 \<noteq> 0 \<longleftrightarrow> bit m i" using i by (simp add: bit_iff_and_push_bit_not_eq_0)
  moreover have "bit (set_bit i s) j \<longleftrightarrow> bit s j \<or> i = j" using i by (auto simp: bit_set_bit_iff)
  ultimately show ?case using Cons by auto
qed

lemma cpu_set_loop_mask: "cpu_set_loop m [0..<64] 0 = ucast m"
proof (rule bit_word_eqI)
  fix j :: nat
  have "bit (cpu_set_loop m [0..<64] 0) j \<longleftrightarrow> j \<in> set [0..<64] \<and> bit m j"
    using cpu_set_loop_bits [of "[0..<64]" m 0 j] by (simp add: subset_iff del: upt_rec_numeral)
  then show "bit (cpu_set_loop m [0..<64] 0) j = bit (ucast m :: 1024 word) j" if "j < LENGTH(1024)"
    using that bit_imp_le_length [of m j] by (auto simp: bit_ucast_iff simp del: upt_rec_numeral)
qed

text \<open>What holds of the router between operations.\<close>

definition router_ok :: "('e, 'bm, 'it, 'ht, 'rg, 'pl) ext \<Rightarrow> ('e, 'bm, 'it, 'ht, 'rg, 'pl) views \<Rightarrow> ('e, 'bm, 'ht, 'rg, 'pl) jrtc_router_ctx \<Rightarrow> bool" where
  "router_ok E V st \<longleftrightarrow> router_inv E V st \<and> all_rings_fit V st \<and> ck_bitmap_bits E (lookup_result st) = JRTC_ROUTER_MAX_NUM_APPS"

lemma router_ok_cong:
  assumes "router_ok E V st" and "reqs st' = reqs st" and "req_entries st' = req_entries st"
    and "same_apps st st'" and "lookup_result st' = lookup_result st" and "v_live V (env st) \<subseteq> v_live V (env st')"
  shows "router_ok E V st'"
  using assms router_inv_cong [of E V st st'] by (simp add: router_ok_def all_rings_fit_def same_apps_def)

lemma forward_all_ok:
  assumes L: "ext_laws E V" and n: "JRTC_ROUTER_MAX_NUM_APPS < n"
  shows "router_ok E V st \<Longrightarrow>
    \<exists>st'. forward_all n sc E st xs = Some (Inr st') \<and> router_ok E V st' \<and> subs V st' = subs V st \<and> app_ctxs st' = app_ctxs st"
proof (induction xs arbitrary: st)
  case Nil
  then show ?case by simp
next
  case (Cons x xs)
  obtain ch sid bufs where x: "x = (ch, sid, bufs)" by (cases x)
  show ?case
  proof (cases bufs)
    case Nil
    then show ?thesis using Cons x by (simp add: jrtc_router_forward_msgs_def)
  next
    case (Cons b bs)
    obtain st1 where "jrtc_router_forward_msgs n sc E st (Some ch) sid bufs = Some (Inr st1)"
      "router_ok E V st1" "subs V st1 = subs V st" "app_ctxs st1 = app_ctxs st"
      using forward_msgs_ok [OF L _ _ n, of st sc ch sid b bs] Cons.prems unfolding Cons router_ok_def by blast
    then show ?thesis using Cons.IH [of st1] x by simp
  qed
qed

lemma handle_incoming_ok:
  assumes L: "ext_laws E V" and n: "JRTC_ROUTER_MAX_NUM_APPS < n" and ok: "router_ok E V st"
  shows "\<exists>st'. jrtc_router_handle_incoming_msgs n sc E st = Some (Inr st') \<and> router_ok E V st' \<and> subs V st' = subs V st \<and> app_ctxs st' = app_ctxs st"
proof (cases "io_ctx st")
  case None
  then show ?thesis using ok by (simp add: jrtc_router_handle_incoming_msgs_def)
next
  case (Some io)
  obtain xs e where xs: "jbpf_io_out_bufs E (env st) io = (xs, e)" by fastforce
  have "router_ok E V (st\<lparr>env := e\<rparr>)"
    by (rule router_ok_cong [OF ok]) (use io_lawsD(8) [OF L xs] in \<open>simp_all add: same_apps_def\<close>)
  from forward_all_ok [OF L n this, of sc xs] show ?thesis
    using Some xs ok by (auto simp: jrtc_router_handle_incoming_msgs_def)
qed

lemma thread_loop_ok:
  assumes L: "ext_laws E V" and n: "JRTC_ROUTER_MAX_NUM_APPS < n"
  shows "router_ok E V st \<Longrightarrow>
    \<exists>st'. thread_loop n k sc E st = Some (Inr st') \<and> router_ok E V st' \<and> subs V st' = subs V st \<and> app_ctxs st' = app_ctxs st"
proof (induction k arbitrary: st)
  case 0
  then show ?case by simp
next
  case (Suc k)
  obtain st1 where "jrtc_router_handle_incoming_msgs n sc E st = Some (Inr st1)"
    "router_ok E V st1" "subs V st1 = subs V st" "app_ctxs st1 = app_ctxs st"
    using handle_incoming_ok [OF L n Suc.prems] by blast
  then show ?case using Suc.IH [of st1] by auto
qed

section \<open>Facts about initialisation\<close>

text \<open>The static context before initialisation: all members are zero.\<close>

definition zeroed :: "('e, 'bm, 'ht, 'rg, 'pl) jrtc_router_ctx \<Rightarrow> bool" where
  "zeroed st \<longleftrightarrow> app_ctxs st = replicate JRTC_ROUTER_MAX_NUM_APPS None \<and> dapps st = (\<lambda>_. None) \<and>
     req_entries st = (\<lambda>_. None) \<and> channels st = (\<lambda>_. None)"

definition initialised :: "('e, 'bm, 'it, 'ht, 'rg, 'pl) ext \<Rightarrow> ('e, 'bm, 'it, 'ht, 'rg, 'pl) views \<Rightarrow> ('e, 'bm, 'ht, 'rg, 'pl) jrtc_router_ctx \<Rightarrow> bool" where
  "initialised E V st \<longleftrightarrow> router_ok E V st \<and> subs V st = (\<lambda>_. {}) \<and> v_bits V (app_bitmap st) = {}"

lemma initialised_fresh:
  assumes L: "ext_laws E V" and "zeroed st" and "v_ht V (reqs st) = (\<lambda>_. None)"
    and "lookup_result st = ck_bitmap_init E JRTC_ROUTER_MAX_NUM_APPS False"
    and "app_bitmap st = ck_bitmap_init E JRTC_ROUTER_MAX_NUM_APPS False"
  shows "initialised E V st"
proof -
  note bm = bitmap_fresh_laws(1,2) [OF L, of JRTC_ROUTER_MAX_NUM_APPS]
  have "owners st = {}" using assms(2) by (simp add: owners_def req_owners_def app_owners_def zeroed_def)
  then show ?thesis
    using assms bm by (auto simp: initialised_def router_ok_def router_inv_def req_inv_def app_inv_def all_rings_fit_def
      heap_ok_def zeroed_def subs_def single_valued_def)
qed

lemma init_tables_cases:
  assumes L: "ext_laws E V" and z: "zeroed st" and args: "args \<in> live m"
  obtains (ok) st' where "init_tables E thr st m args = Inr (0, st', m)" "thr = 0" "initialised E V st'" "io_ctx st' = io_ctx st"
  | (undone) st' where "init_tables E thr st m args = Inr (-1, st', m\<lparr>live := live m - {args}\<rparr>)" "v_live V (env st') = v_live V (env st)"
  | (leak) st' a b where "init_tables E thr st m args = Inr (-1, st', m\<lparr>live := live m - {args}\<rparr>)" "thr \<noteq> 0"
      "v_live V (env st') = {a, b} \<union> v_live V (env st)" "a \<notin> v_live V (env st)" "b \<notin> v_live V (env st)" "a \<noteq> b"
proof -
  note errs = error_thread_init_def error_router_thread_def error_lookup_res_def error_app_metadata_init_def free_live [OF args]
    io_lawsD(7) [OF L] ht_lawsD(3) [OF L] init_tables_def
  obtain r1 e1 where m1: "jbpf_malloc E (env st) = (r1, e1)" by fastforce
  show thesis
  proof (cases r1)
    case None
    then show thesis using undone m1 alloc_lawsD(1) [OF L, of "env st" e1] by (simp add: errs)
  next
    case (Some lp)
    note live1 = alloc_lawsD(2) [OF L m1 [unfolded Some]]
    obtain r2 e2 where h: "ck_ht_init E e1 ht_hash_wrapper JRTC_ROUTER_INIT_NUM_REQ_ENTRIES 6602834 = (r2, e2)" by fastforce
    note live2 = ht_lawsD(2) [OF L h]
    show thesis
    proof (cases r2)
      case None
      obtain e3 where "jbpf_free E e2 lp = Inr e3" "v_live V e3 = v_live V e2 - {lp}"
        using alloc_lawsD(5) [OF L, of lp e2] live1 live2 by auto
      then show thesis using undone Some None m1 h live1 live2 by (simp add: errs jfree_def)
    next
      case t: (Some t)
      obtain r3 e3 where m3: "jbpf_malloc E e2 = (r3, e3)" by fastforce
      show thesis
      proof (cases r3)
        case None
        note live3 = alloc_lawsD(1) [OF L m3 [unfolded None]]
        obtain e4 where "jbpf_free E (ck_ht_destroy E e3 t) lp = Inr e4" "v_live V e4 = v_live V e3 - {lp}"
          using alloc_lawsD(5) [OF L, of lp "ck_ht_destroy E e3 t"] ht_lawsD(3) [OF L, of e3 t] live1 live2 live3 by auto
        then show thesis using undone Some t None m1 h m3 live1 live2 live3 by (simp add: errs jfree_def)
      next
        case b: (Some bp)
        note live3 = alloc_lawsD(2) [OF L m3 [unfolded b]]
        let ?bm = "ck_bitmap_init E JRTC_ROUTER_MAX_NUM_APPS False"
        let ?st = "st\<lparr>env := e3, reqs := t, lookup_result := ?bm, app_bitmap := ?bm\<rparr>"
        have "initialised E V ?st"
          by (rule initialised_fresh [OF L]) (use z ht_lawsD(1) [OF L h [unfolded t]] in \<open>simp_all add: zeroed_def\<close>)
        then show thesis using ok [of ?st] leak Some t b m1 h m3 live1 live2 live3 by (cases "thr = 0") (auto simp: errs)
      qed
    qed
  qed
qed

end
