(* ===== verification/Router_Channels.thy ===== *)
theory Router_Channels
  imports Router_Init
begin

text \<open>
  The channels of applications: creating and destroying them, sending, reserving and releasing buffers,
  and the calls that only pass on to the IO library.  The table of an application's channels stores the
  address of a by-value parameter as its key, so the operations take the contents of the stack that the
  stored keys point into as an argument \<open>stk\<close>, and creating a channel also takes the parameter's address \<open>sp\<close>.
\<close>

definition chan_table :: "('ht, 'rg, 'pl) dapp_router_ctx \<Rightarrow> bool \<Rightarrow> 'ht" where
  "chan_table d out = (if out then app_out_channel_list d else app_in_channel_list d)"

definition set_chan_table :: "('ht, 'rg, 'pl) dapp_router_ctx \<Rightarrow> bool \<Rightarrow> 'ht \<Rightarrow> ('ht, 'rg, 'pl) dapp_router_ctx" where
  "set_chan_table d out t = (if out then d\<lparr>app_out_channel_list := t\<rparr> else d\<lparr>app_in_channel_list := t\<rparr>)"

definition channel_error ::
    "('e, 'bm, 'it, 'ht, 'rg, 'pl) ext \<Rightarrow> ('e, 'bm, 'ht, 'rg, 'pl) jrtc_router_ctx \<Rightarrow> addr \<Rightarrow>
     ub + (addr option \<times> ('e, 'bm, 'ht, 'rg, 'pl) jrtc_router_ctx)" where
  "channel_error E st c = bindS (jfree E st c) (\<lambda>st. Inr (None, st))"

definition jrtc_router_channel_create ::
    "('e, 'bm, 'it, 'ht, 'rg, 'pl) ext \<Rightarrow> ('e, 'bm, 'ht, 'rg, 'pl) jrtc_router_ctx \<Rightarrow> key_mem \<Rightarrow> addr \<Rightarrow> addr option \<Rightarrow> bool \<Rightarrow>
     int \<Rightarrow> int \<Rightarrow> stream_id \<Rightarrow> u8 list option \<Rightarrow> ub + (addr option \<times> ('e, 'bm, 'ht, 'rg, 'pl) jrtc_router_ctx)" where
  "jrtc_router_channel_create E st stk sp app_ctx out num_elems elem_size sid descriptor =
     (case app_ctx of
        None \<Rightarrow> Inr (None, st)
      | Some a \<Rightarrow>
          (case jbpf_malloc E (env st) of
             (None, e) \<Rightarrow> Inr (None, st\<lparr>env := e\<rparr>)
           | (Some c, e) \<Rightarrow>
               bindS (app_of st a) (\<lambda>d.
               (case jbpf_io_create_channel E e (io_ctx st) out num_elems elem_size sid descriptor of
                  (None, e) \<Rightarrow> channel_error E (st\<lparr>env := e\<rparr>) c
                | (Some io, e) \<Rightarrow>
                    (let t = chan_table d out
                     in case ck_ht_set_spmc E (stk(sp \<mapsto> sid)) e t (ck_ht_hash E t sid) sp sid c of
                          (ok, t, e) \<Rightarrow>
                            (let st = st\<lparr>env := e, dapps := (dapps st)(a \<mapsto> set_chan_table d out t)\<rparr>
                             in if ok
                                then Inr (Some c, st\<lparr>channels := (channels st)(c \<mapsto>
                                       \<lparr>io_channel = io, ch_stream_id = sid, ch_app_ctx = a, is_output = out\<rparr>)\<rparr>)
                                else channel_error E (st\<lparr>env := jbpf_io_destroy_channel E (env st) (io_ctx st) io\<rparr>) c))))))"

definition jrtc_router_channel_destroy ::
    "('e, 'bm, 'it, 'ht, 'rg, 'pl) ext \<Rightarrow> ('e, 'bm, 'ht, 'rg, 'pl) jrtc_router_ctx \<Rightarrow> key_mem \<Rightarrow> addr option \<Rightarrow>
     ub + ('e, 'bm, 'ht, 'rg, 'pl) jrtc_router_ctx" where
  "jrtc_router_channel_destroy E st stk chan =
     (case chan of
        None \<Rightarrow> Inr st
      | Some c \<Rightarrow>
          (case channels st c of
             None \<Rightarrow> Inl (UseAfterFree c)
           | Some ch \<Rightarrow>
               bindS (app_of st (ch_app_ctx ch)) (\<lambda>d.
               (let t = chan_table d (is_output ch)
                in case ck_ht_remove_spmc E stk t (ck_ht_hash E t (ch_stream_id ch)) (ch_stream_id ch) of
                     (found, t) \<Rightarrow>
                       (let st = st\<lparr>dapps := (dapps st)(ch_app_ctx ch \<mapsto> set_chan_table d (is_output ch) t)\<rparr>
                        in if found then destroy_dapp_channel E st c else Inr st)))))"

section \<open>Sending\<close>

definition channel_at :: "('e, 'bm, 'ht, 'rg, 'pl) jrtc_router_ctx \<Rightarrow> addr \<Rightarrow> ub + dapp_channel_ctx" where
  "channel_at st c = (case channels st c of None \<Rightarrow> Inl (UseAfterFree c) | Some ch \<Rightarrow> Inr ch)"

definition jrtc_router_channel_send_output ::
    "('e, 'bm, 'it, 'ht, 'rg, 'pl) ext \<Rightarrow> ('e, 'bm, 'ht, 'rg, 'pl) jrtc_router_ctx \<Rightarrow> addr option \<Rightarrow>
     ub + (int \<times> ('e, 'bm, 'ht, 'rg, 'pl) jrtc_router_ctx)" where
  "jrtc_router_channel_send_output E st chan =
     (case chan of
        None \<Rightarrow> Inr (-1, st)
      | Some c \<Rightarrow>
          bindS (channel_at st c) (\<lambda>ch.
            (case jbpf_io_channel_submit_buf E (env st) (io_channel ch) of (r, e) \<Rightarrow> Inr (r, st\<lparr>env := e\<rparr>))))"

text \<open>\<open>cap\<close> is the size of a buffer of the library, which the copy must not exceed.\<close>

definition jrtc_router_channel_send_output_msg ::
    "('e, 'bm, 'it, 'ht, 'rg, 'pl) ext \<Rightarrow> (addr \<Rightarrow> nat) \<Rightarrow> ('e, 'bm, 'ht, 'rg, 'pl) jrtc_router_ctx \<Rightarrow> addr option \<Rightarrow>
     u8 list option \<Rightarrow> ub + (int \<times> (addr \<times> u8 list) option \<times> ('e, 'bm, 'ht, 'rg, 'pl) jrtc_router_ctx)" where
  "jrtc_router_channel_send_output_msg E cap st chan dat =
     (case chan of
        None \<Rightarrow> Inr (-1, None, st)
      | Some c \<Rightarrow>
          (case dat of
             None \<Rightarrow> Inr (-1, None, st)
           | Some bs \<Rightarrow>
               if length bs = 0 then Inr (-1, None, st)
               else
                 bindS (channel_at st c) (\<lambda>ch.
                 (case jbpf_io_channel_reserve_buf E (env st) (io_channel ch) of
                    (None, e) \<Rightarrow> Inr (-1, None, st\<lparr>env := e\<rparr>)
                  | (Some b, e) \<Rightarrow>
                      if cap b < length bs then Inl OutOfBounds
                      else
                        (case jbpf_io_channel_submit_buf E e (io_channel ch) of
                           (r, e) \<Rightarrow> Inr (r, Some (b, bs), st\<lparr>env := e\<rparr>))))))"

definition jrtc_router_channel_send_input_msg ::
    "('e, 'bm, 'it, 'ht, 'rg, 'pl) ext \<Rightarrow> ('e, 'bm, 'ht, 'rg, 'pl) jrtc_router_ctx \<Rightarrow> stream_id \<Rightarrow> u8 list option \<Rightarrow> u64 \<Rightarrow>
     int \<times> ('e, 'bm, 'ht, 'rg, 'pl) jrtc_router_ctx" where
  "jrtc_router_channel_send_input_msg E st sid dat data_len =
     (case jbpf_io_channel_send_msg E (env st) (io_ctx st) sid dat data_len of (r, e) \<Rightarrow> (r, st\<lparr>env := e\<rparr>))"

definition jrtc_router_channel_reserve_buf ::
    "('e, 'bm, 'it, 'ht, 'rg, 'pl) ext \<Rightarrow> ('e, 'bm, 'ht, 'rg, 'pl) jrtc_router_ctx \<Rightarrow> addr option \<Rightarrow>
     ub + (addr option \<times> ('e, 'bm, 'ht, 'rg, 'pl) jrtc_router_ctx)" where
  "jrtc_router_channel_reserve_buf E st chan =
     (case chan of
        None \<Rightarrow> Inr (None, st)
      | Some c \<Rightarrow>
          bindS (channel_at st c) (\<lambda>ch.
            (case jbpf_io_channel_reserve_buf E (env st) (io_channel ch) of (r, e) \<Rightarrow> Inr (r, st\<lparr>env := e\<rparr>))))"

definition jrtc_router_channel_release_buf ::
    "('e, 'bm, 'it, 'ht, 'rg, 'pl) ext \<Rightarrow> ('e, 'bm, 'ht, 'rg, 'pl) jrtc_router_ctx \<Rightarrow> addr option \<Rightarrow>
     ('e, 'bm, 'ht, 'rg, 'pl) jrtc_router_ctx" where
  "jrtc_router_channel_release_buf E st ptr =
     (case ptr of None \<Rightarrow> st | Some p \<Rightarrow> st\<lparr>env := jbpf_io_channel_release_buf E (env st) p\<rparr>)"

definition jrtc_router_input_channel_exists ::
    "('e, 'bm, 'it, 'ht, 'rg, 'pl) ext \<Rightarrow> ('e, 'bm, 'ht, 'rg, 'pl) jrtc_router_ctx \<Rightarrow> stream_id \<Rightarrow> int" where
  "jrtc_router_input_channel_exists E st sid =
     (case io_ctx st of
        None \<Rightarrow> 0
      | Some io \<Rightarrow> if jbpf_io_find_channel E (env st) io sid False then 1 else 0)"

definition jrtc_router_create_serialized_msg ::
    "('e, 'bm, 'it, 'ht, 'rg, 'pl) ext \<Rightarrow> ('e, 'bm, 'ht, 'rg, 'pl) jrtc_router_ctx \<Rightarrow> jrtc_router_data_entry \<Rightarrow> u64 \<Rightarrow>
     int \<times> u8 list" where
  "jrtc_router_create_serialized_msg E st entry buf_len =
     jbpf_io_channel_pack_msg E (env st) (io_ctx st) (de_data entry) buf_len"

text \<open>The request id is an output parameter that is never written.\<close>

definition jrtc_router_deserialize_msg ::
    "('e, 'bm, 'it, 'ht, 'rg, 'pl) ext \<Rightarrow> ('e, 'bm, 'ht, 'rg, 'pl) jrtc_router_ctx \<Rightarrow> u8 list \<Rightarrow> int \<Rightarrow>
     addr option \<times> stream_id \<times> int \<times> ('e, 'bm, 'ht, 'rg, 'pl) jrtc_router_ctx" where
  "jrtc_router_deserialize_msg E st in_data req_id =
     (case jbpf_io_channel_unpack_msg E (env st) (io_ctx st) in_data of
        (p, sid, e) \<Rightarrow> (p, sid, req_id, st\<lparr>env := e\<rparr>))"

section \<open>Facts about channels\<close>

lemma set_chan_table_simps [simp]:
  "ring (set_chan_table d out t) = ring d" "ringbuffer (set_chan_table d out t) = ringbuffer d"
  "ring_slots (set_chan_table d out t) = ring_slots d" "data_entry_pool (set_chan_table d out t) = data_entry_pool d"
  "data_mem (set_chan_table d out t) = data_mem d" "app_id (set_chan_table d out t) = app_id d"
  "chan_table (set_chan_table d out t) b = (if b = out then t else chan_table d b)"
  "set_chan_table d out (chan_table d out) = d"
  by (simp_all add: set_chan_table_def chan_table_def)

lemma set_chan_table_ok: "dapp_ok V (set_chan_table d out t) = dapp_ok V d" "ring_fits V (set_chan_table d out t) = ring_fits V d"
  by (simp_all add: dapp_ok_def ring_fits_def)

lemma chans_ok_table:
  "chans_ok V st a d \<longleftrightarrow> (\<forall>b k p c. v_ht V (chan_table d b) k = Some (p, c) \<longrightarrow>
     (\<exists>ch. channels st c = Some ch \<and> ch_app_ctx ch = a \<and> ch_stream_id ch = k \<and> is_output ch = b))"
  unfolding chans_ok_def chan_table_def by (simp add: all_bool_eq conj_commute)

lemma chan_update_ok:
  assumes ok: "router_ok E V st" and d: "dapps st a = Some d"
    and st'_def: "st' = st\<lparr>env := e, dapps := (dapps st)(a \<mapsto> set_chan_table d out t), channels := C\<rparr>"
    and heap: "heap_ok (v_live V e) (owners st')"
    and chans: "\<And>b x. dapps st' b = Some x \<Longrightarrow> chans_ok V st' b x"
  shows "router_ok E V st'"
proof -
  have A: "app_inv E V st" and R: "req_inv E V st" using ok by (simp_all add: router_ok_def router_inv_def)
  have "req_inv E V st'" using R heap by (simp add: req_inv_def req_entry_ok_def st'_def)
  moreover have "app_inv E V st'"
  proof -
    have each: "\<not> bad_app_id (app_id x) \<and> app_ctxs st ! nat (app_id x) = Some b \<and> dapp_ok V x"
      if "dapps st' b = Some x" for b x
      using that app_inv_dapp(1,4,5) [OF A d] app_inv_dapp(1,4,5) [OF A, of b x]
      by (auto simp: st'_def set_chan_table_ok split: if_splits)
    have slot: "\<exists>x. dapps st' b = Some x \<and> app_id x = int i" if "i < JRTC_ROUTER_MAX_NUM_APPS" "app_ctxs st ! i = Some b" for i b
      using app_inv_slot [OF A that] d by (auto simp: st'_def)
    show ?thesis unfolding app_inv_def using A each slot chans by (auto simp: app_inv_def st'_def)
  qed
  moreover have "all_rings_fit V st'" using ok d by (simp add: router_ok_def all_rings_fit_def st'_def set_chan_table_ok)
  ultimately show ?thesis using ok by (simp add: router_ok_def router_inv_def st'_def)
qed

lemma channel_add_ok:
  assumes ok: "router_ok E V st" and d: "dapps st a = Some d" and c: "c \<notin> v_live V (env st)"
    and e: "v_live V e = insert c (v_live V (env st))"
    and t: "v_ht V t = (v_ht V (chan_table d out))(sid \<mapsto> (p, c))"
  shows "router_ok E V (st\<lparr>env := e, dapps := (dapps st)(a \<mapsto> set_chan_table d out t),
    channels := (channels st)(c \<mapsto> \<lparr>io_channel = io, ch_stream_id = sid, ch_app_ctx = a, is_output = out\<rparr>)\<rparr>)"
    (is "router_ok E V (?st t ?C e)")
proof -
  have A: "app_inv E V st" and H: "heap_ok (v_live V (env st)) (owners st)"
    using ok by (simp_all add: router_ok_def router_inv_def req_inv_def)
  have fresh: "channels st c = None" using c heap_ok_live [OF H, of c "Chan c"] by (cases "channels st c") auto
  have "owners (?st t ?C e) \<subseteq> insert (c, Chan c) (owners st)"
  proof
    fix x assume "x \<in> owners (?st t ?C e)"
    then show "x \<in> insert (c, Chan c) (owners st)" using d by (cases x; cases "snd x") (auto split: if_splits)
  qed
  then have "heap_ok (v_live V e) (owners (?st t ?C e))" unfolding e by (rule heap_ok_alloc [OF H c])
  moreover have "chans_ok V (?st t ?C e) b x" if "dapps (?st t ?C e) b = Some x" for b x
    using that app_inv_dapp(6) [OF A d] app_inv_dapp(6) [OF A, of b x] fresh t
    by (fastforce simp: chans_ok_table split: if_splits)
  ultimately show ?thesis by (rule chan_update_ok [OF ok d refl])
qed

lemma channel_error_ok:
  assumes L: "ext_laws E V" and ok: "router_ok E V st" and c: "c \<notin> v_live V (env st)" and e: "v_live V e = insert c (v_live V (env st))"
  shows "\<exists>e'. channel_error E (st\<lparr>env := e\<rparr>) c = Inr (None, st\<lparr>env := e'\<rparr>) \<and> v_live V e' = v_live V (env st) \<and> router_ok E V (st\<lparr>env := e'\<rparr>)"
proof -
  obtain e' where e': "jfree E (st\<lparr>env := e\<rparr>) c = Inr (st\<lparr>env := e'\<rparr>)" "v_live V e' = v_live V (env st)"
    using jfree_live [OF L, of c "st\<lparr>env := e\<rparr>"] c e by auto
  have "router_ok E V (st\<lparr>env := e'\<rparr>)" by (rule router_ok_cong [OF ok]) (simp_all add: same_apps_def e'(2))
  then show ?thesis using e' by (intro exI [of _ e']) (simp add: channel_error_def)
qed

text \<open>Creating a channel gives a channel that the application's table has, or it leaves no trace.\<close>

definition created ::
    "('e, 'bm, 'it, 'ht, 'rg, 'pl) views \<Rightarrow> ('e, 'bm, 'ht, 'rg, 'pl) jrtc_router_ctx \<Rightarrow> addr \<Rightarrow> ('ht, 'rg, 'pl) dapp_router_ctx \<Rightarrow>
     bool \<Rightarrow> addr \<Rightarrow> stream_id \<Rightarrow> addr \<Rightarrow> ('e, 'bm, 'ht, 'rg, 'pl) jrtc_router_ctx \<Rightarrow> bool" where
  "created V st a d out sp sid c st' \<longleftrightarrow>
     c \<notin> v_live V (env st) \<and> v_live V (env st') = insert c (v_live V (env st)) \<and>
     (\<exists>io. channels st' = (channels st)(c \<mapsto> \<lparr>io_channel = io, ch_stream_id = sid, ch_app_ctx = a, is_output = out\<rparr>)) \<and>
     (\<exists>t. v_ht V t = (v_ht V (chan_table d out))(sid \<mapsto> (sp, c)) \<and> dapps st' = (dapps st)(a \<mapsto> set_chan_table d out t))"

lemma channel_create_cases:
  assumes L: "ext_laws E V" and ok: "router_ok E V st" and d: "dapps st a = Some d"
    and new: "v_ht V (chan_table d out) sid = None" and key: "no_match E V (stk(sp \<mapsto> sid)) (chan_table d out) sid"
  shows "(\<exists>c st'. jrtc_router_channel_create E st stk sp (Some a) out n sz sid desc = Inr (Some c, st') \<and> router_ok E V st' \<and>
      subs V st' = subs V st \<and> created V st a d out sp sid c st') \<or>
    (\<exists>st'. jrtc_router_channel_create E st stk sp (Some a) out n sz sid desc = Inr (None, st') \<and> router_ok E V st' \<and>
      subs V st' = subs V st \<and> channels st' = channels st \<and> v_live V (env st') = v_live V (env st))"
proof -
  obtain r1 e1 where m: "jbpf_malloc E (env st) = (r1, e1)" by fastforce
  show ?thesis
  proof (cases r1)
    case None
    have live: "v_live V e1 = v_live V (env st)" using alloc_lawsD(1) [OF L m [unfolded None]] .
    have "router_ok E V (st\<lparr>env := e1\<rparr>)" by (rule router_ok_cong [OF ok]) (simp_all add: same_apps_def live)
    then show ?thesis using m None live by (simp add: jrtc_router_channel_create_def)
  next
    case (Some c)
    note c = alloc_lawsD(2) [OF L m [unfolded Some]]
    obtain r2 e2 where io: "jbpf_io_create_channel E e1 (io_ctx st) out n sz sid desc = (r2, e2)" by fastforce
    note live2 = io_lawsD(4) [OF L io]
    show ?thesis
    proof (cases r2)
      case None
      then show ?thesis using channel_error_ok [OF L ok, of c e2] c live2 m Some io d
        by (auto simp: jrtc_router_channel_create_def app_of_def)
    next
      case io2: (Some i)
      let ?t = "chan_table d out"
      obtain b t' e3 where set: "ck_ht_set_spmc E (stk(sp \<mapsto> sid)) e2 ?t (ck_ht_hash E ?t sid) sp sid c = (b, t', e3)" by (metis prod_cases3)
      note ht = ht_lawsD(5) [OF L key new set]
      have live3: "v_live V e3 = insert c (v_live V (env st))" using ht live2 c by simp
      let ?st = "st\<lparr>env := e3, dapps := (dapps st)(a \<mapsto> set_chan_table d out t')\<rparr>"
      show ?thesis
      proof (cases b)
        case True
        let ?st' = "?st\<lparr>channels := (channels st)(c \<mapsto> \<lparr>io_channel = i, ch_stream_id = sid, ch_app_ctx = a, is_output = out\<rparr>)\<rparr>"
        have "v_ht V t' = (v_ht V ?t)(sid \<mapsto> (sp, c))" using ht True by simp
        moreover then have "router_ok E V ?st'" using channel_add_ok [OF ok d _ live3] c by simp
        moreover have "subs V ?st' = subs V st" by (rule subs_cong) simp_all
        ultimately have "jrtc_router_channel_create E st stk sp (Some a) out n sz sid desc = Inr (Some c, ?st') \<and> router_ok E V ?st' \<and>
            subs V ?st' = subs V st \<and> created V st a d out sp sid c ?st'"
          using True m Some io io2 d set live3 c by (auto simp: jrtc_router_channel_create_def app_of_def created_def)
        then show ?thesis by blast
      next
        case False
        let ?s1 = "st\<lparr>env := env st, dapps := (dapps st)(a \<mapsto> set_chan_table d out t'), channels := channels st\<rparr>"
        have A: "app_inv E V st" and H: "heap_ok (v_live V (env st)) (owners st)"
          using ok by (simp_all add: router_ok_def router_inv_def req_inv_def)
        have s1: "router_ok E V ?s1"
        proof (rule chan_update_ok [OF ok d refl])
          have "owners ?s1 = owners st" using d by (intro owners_eqI) auto
          then show "heap_ok (v_live V (env st)) (owners ?s1)" using H by simp
          show "chans_ok V ?s1 b' x" if "dapps ?s1 b' = Some x" for b' x
            using that app_inv_dapp(6) [OF A d] app_inv_dapp(6) [OF A, of b' x] ht False
            by (fastforce simp: chans_ok_table split: if_splits)
        qed
        let ?e = "jbpf_io_destroy_channel E e3 (io_ctx st) i"
        obtain e4 where e4: "channel_error E (?s1\<lparr>env := ?e\<rparr>) c = Inr (None, ?s1\<lparr>env := e4\<rparr>)" "v_live V e4 = v_live V (env st)"
          "router_ok E V (?s1\<lparr>env := e4\<rparr>)"
          using channel_error_ok [OF L s1, of c ?e] c live3 io_lawsD(5) [OF L] by auto
        moreover have "subs V (?s1\<lparr>env := e4\<rparr>) = subs V st" by (rule subs_cong) simp_all
        ultimately show ?thesis using False m Some io io2 d set
          by (intro disjI2 exI [of _ "?s1\<lparr>env := e4\<rparr>"]) (simp add: jrtc_router_channel_create_def app_of_def)
      qed
    qed
  qed
qed

text \<open>While the stored keys are intact, destroying a channel takes it out of its table and frees it.\<close>

lemma channel_destroy_ok:
  assumes L: "ext_laws E V" and ok: "router_ok E V st" and ch: "channels st c = Some ch" and d: "dapps st (ch_app_ctx ch) = Some d"
    and tab: "v_ht V (chan_table d (is_output ch)) (ch_stream_id ch) = Some (p, c)"
    and valid: "keys_valid V stk (chan_table d (is_output ch))"
  shows "\<exists>st'. jrtc_router_channel_destroy E st stk (Some c) = Inr st' \<and> router_ok E V st' \<and> subs V st' = subs V st \<and>
    channels st' = (channels st)(c := None) \<and> v_live V (env st') = v_live V (env st) - {c}"
proof -
  let ?a = "ch_app_ctx ch" and ?t = "chan_table d (is_output ch)" and ?k = "ch_stream_id ch"
  have A: "app_inv E V st" and H: "heap_ok (v_live V (env st)) (owners st)"
    using ok by (simp_all add: router_ok_def router_inv_def req_inv_def)
  obtain t' where t': "ck_ht_remove_spmc E stk ?t (ck_ht_hash E ?t ?k) ?k = (True, t')" "v_ht V t' = (v_ht V ?t)(?k := None)"
    using ht_lawsD(6) [OF L valid, of ?k] tab by auto
  let ?C = "(channels st)(c := None)" and ?e = "jbpf_io_destroy_channel E (env st) (io_ctx st) (io_channel ch)"
  let ?s1 = "st\<lparr>dapps := (dapps st)(?a \<mapsto> set_chan_table d (is_output ch) t'), env := ?e, channels := ?C\<rparr>"
  have mem: "(c, Chan c) \<in> owners st" using ch by simp
  obtain e where e: "jfree E ?s1 c = Inr (?s1\<lparr>env := e\<rparr>)" "v_live V e = v_live V (env st) - {c}"
    using jfree_live [OF L, of c ?s1] heap_ok_live [OF H mem] io_lawsD(5) [OF L] by auto
  let ?st = "st\<lparr>env := e, dapps := (dapps st)(?a \<mapsto> set_chan_table d (is_output ch) t'), channels := ?C\<rparr>"
  have "router_ok E V ?st"
  proof (rule chan_update_ok [OF ok d refl])
    have "owners ?st = owners st - {(c, Chan c)}" using d by (intro owners_eqI) auto
    then show "heap_ok (v_live V e) (owners ?st)" unfolding e(2) using heap_ok_free [OF H mem] by simp
    show "chans_ok V ?st b x" if x: "dapps ?st b = Some x" for b x
      unfolding chans_ok_table
    proof (intro allI impI)
      fix o' k p' c' assume k: "v_ht V (chan_table x o') k = Some (p', c')"
      obtain x0 where x0: "dapps st b = Some x0" "v_ht V (chan_table x0 o') k = Some (p', c')"
        "\<not> (b = ?a \<and> o' = is_output ch \<and> k = ?k)"
        using x k d t'(2) by (auto split: if_splits)
      obtain ch' where "channels st c' = Some ch'" "ch_app_ctx ch' = b" "ch_stream_id ch' = k" "is_output ch' = o'"
        using app_inv_dapp(6) [OF A x0(1)] x0(2) unfolding chans_ok_table by blast
      then show "\<exists>ch'. channels ?st c' = Some ch' \<and> ch_app_ctx ch' = b \<and> ch_stream_id ch' = k \<and> is_output ch' = o'"
        using x0(3) ch by auto
    qed
  qed
  moreover have "subs V ?st = subs V st" by (rule subs_cong) simp_all
  ultimately show ?thesis
    using ch d t'(1) e by (intro exI [of _ ?st]) (simp add: jrtc_router_channel_destroy_def destroy_dapp_channel_def app_of_def)
qed

text \<open>Once the stack holds other bytes, destroying a channel finds nothing and does nothing.\<close>

lemma channel_destroy_stale:
  assumes L: "ext_laws E V" and ch: "channels st c = Some ch" and d: "dapps st (ch_app_ctx ch) = Some d"
    and miss: "no_match E V stk (chan_table d (is_output ch)) (ch_stream_id ch)"
  shows "jrtc_router_channel_destroy E st stk (Some c) = Inr st"
proof -
  have "(dapps st)(ch_app_ctx ch \<mapsto> d) = dapps st" using d by auto
  then show ?thesis using ch d ht_lawsD(8) [OF L miss] by (simp add: jrtc_router_channel_destroy_def app_of_def)
qed

end
