(* ===== verification/Router_System.thy ===== *)
theory Router_System
  imports Router_Channels
begin

text \<open>
  The router as a whole: its operations as steps of a transition system, an abstract specification with
  the registered applications, their subscriptions and their queues, a simulation between the two, and
  the invariant of the reachable states.
\<close>

section \<open>Operations\<close>

datatype router_op =
    RegisterApp nat
  | DeregisterApp addr
  | RegisterReq addr stream_id
  | DeregisterReq addr stream_id
  | Forward addr stream_id addr "addr list"
  | Receive addr nat

text \<open>The fuel of the inner forwarding loop: one more step than there are application ids.\<close>

definition forward_fuel :: nat where
  "forward_fuel = Suc JRTC_ROUTER_MAX_NUM_APPS"

definition exec_op ::
    "bool \<Rightarrow> ('e, 'bm, 'it, 'ht, 'rg, 'pl) ext \<Rightarrow> router_op \<Rightarrow> ('e, 'bm, 'ht, 'rg, 'pl) jrtc_router_ctx \<Rightarrow>
     (ub + ('e, 'bm, 'ht, 'rg, 'pl) jrtc_router_ctx) option" where
  "exec_op sc E op st =
     (case op of
        RegisterApp q \<Rightarrow> Some (bindS (jrtc_router_register_app E st q) (\<lambda>(_, st). Inr st))
      | DeregisterApp a \<Rightarrow> Some (jrtc_router_deregister_app E st (Some a))
      | RegisterReq a sid \<Rightarrow> Some (bindS (jrtc_router_channel_register_stream_id_req E st (Some a) sid) (\<lambda>(_, st). Inr st))
      | DeregisterReq a sid \<Rightarrow> Some (jrtc_router_channel_deregister_stream_id_req E st (Some a) sid)
      | Forward ch sid b bs \<Rightarrow> jrtc_router_forward_msgs forward_fuel sc E st (Some ch) sid (b # bs)
      | Receive a n \<Rightarrow> Some (bindS (jrtc_router_receive E st a n) (\<lambda>(_, st). Inr st)))"

text \<open>An application is used between its registration and its deregistration.  Queues have sizes for which
  the ring buffer is as large as the ring.\<close>

definition enabled :: "('e, 'bm, 'ht, 'rg, 'pl) jrtc_router_ctx \<Rightarrow> router_op \<Rightarrow> bool" where
  "enabled st op =
     (case op of
        RegisterApp q \<Rightarrow> q \<le> JRTC_ROUTER_MAX_APP_QUEUE_SIZE \<longrightarrow> (\<exists>k. q + 1 = 2 ^ k)
      | DeregisterApp a \<Rightarrow> dapps st a \<noteq> None
      | RegisterReq a _ \<Rightarrow> dapps st a \<noteq> None
      | DeregisterReq a _ \<Rightarrow> dapps st a \<noteq> None
      | Forward _ _ _ _ \<Rightarrow> True
      | Receive a _ \<Rightarrow> dapps st a \<noteq> None)"

section \<open>Specification\<close>

record router_spec =
  sp_apps :: "nat \<Rightarrow> nat option"
  sp_subs :: "stream_id \<Rightarrow> nat set"
  sp_queue :: "nat \<Rightarrow> jrtc_router_data_entry list"

datatype spec_op =
    SRegister nat
  | SDeregister nat
  | SSubscribe nat stream_id
  | SUnsubscribe nat stream_id
  | SForward stream_id "addr \<Rightarrow> bool"
  | SReceive nat nat

text \<open>An entry is added to the queue of every registered subscriber that has room.\<close>

definition spec_delivered :: "bool \<Rightarrow> stream_id \<Rightarrow> (addr \<Rightarrow> bool) \<Rightarrow> router_spec \<Rightarrow> router_spec \<Rightarrow> bool" where
  "spec_delivered sc sid ptr s s' \<longleftrightarrow> sp_apps s' = sp_apps s \<and> sp_subs s' = sp_subs s \<and>
     (\<forall>i. if (\<exists>k \<in> set (lookup_ids sc sid). i \<in> sp_subs s k) \<and> (\<exists>q. sp_apps s i = Some q \<and> length (sp_queue s i) < q)
          then \<exists>p. ptr p \<and> sp_queue s' i = sp_queue s i @ [\<lparr>de_stream_id = sid, de_data = p\<rparr>]
          else sp_queue s' i = sp_queue s i)"

inductive spec_step :: "bool \<Rightarrow> spec_op \<Rightarrow> router_spec \<Rightarrow> router_spec \<Rightarrow> bool" for sc where
  register: "spec_step sc (SRegister q) s (s\<lparr>sp_apps := (sp_apps s)(i \<mapsto> q), sp_queue := (sp_queue s)(i := [])\<rparr>)"
    if "i < JRTC_ROUTER_MAX_NUM_APPS" and "sp_apps s i = None" and "\<forall>j < i. sp_apps s j \<noteq> None"
      and "q \<le> JRTC_ROUTER_MAX_APP_QUEUE_SIZE"
| refused: "spec_step sc (SRegister q) s s"
| deregister: "spec_step sc (SDeregister i) s (s\<lparr>sp_apps := (sp_apps s)(i := None), sp_queue := (sp_queue s)(i := [])\<rparr>)"
    if "sp_apps s i \<noteq> None"
| subscribe: "spec_step sc (SSubscribe i sid) s (s\<lparr>sp_subs := (sp_subs s)(sid := insert i (sp_subs s sid))\<rparr>)"
    if "sp_apps s i \<noteq> None"
| no_memory: "spec_step sc (SSubscribe i sid) s s"
| unsubscribe: "spec_step sc (SUnsubscribe i sid) s (s\<lparr>sp_subs := (sp_subs s)(sid := sp_subs s sid - {i})\<rparr>)"
    if "sp_apps s i \<noteq> None"
| forward: "spec_step sc (SForward sid ptr) s s'" if "spec_delivered sc sid ptr s s'"
| receive: "spec_step sc (SReceive i n) s (s\<lparr>sp_queue := (sp_queue s)(i := drop n (sp_queue s i))\<rparr>)"
    if "sp_apps s i \<noteq> None"

inductive_cases spec_stepE: "spec_step sc op s s'"

section \<open>Abstraction\<close>

definition app_slot :: "('e, 'bm, 'ht, 'rg, 'pl) jrtc_router_ctx \<Rightarrow> nat \<Rightarrow> ('ht, 'rg, 'pl) dapp_router_ctx option" where
  "app_slot st i = (if i < JRTC_ROUTER_MAX_NUM_APPS then app_at st i else None)"

definition abs_router :: "('e, 'bm, 'it, 'ht, 'rg, 'pl) views \<Rightarrow> ('e, 'bm, 'ht, 'rg, 'pl) jrtc_router_ctx \<Rightarrow> router_spec" where
  "abs_router V st =
     \<lparr>sp_apps = (\<lambda>i. map_option (queue_size V) (app_slot st i)), sp_subs = subs V st,
      sp_queue = (\<lambda>i. case app_slot st i of None \<Rightarrow> [] | Some d \<Rightarrow> inbox V d)\<rparr>"

definition id_of :: "('e, 'bm, 'ht, 'rg, 'pl) jrtc_router_ctx \<Rightarrow> addr \<Rightarrow> nat" where
  "id_of st a = nat (app_id (the (dapps st a)))"

definition abs_op :: "('e, 'bm, 'it, 'ht, 'rg, 'pl) ext \<Rightarrow> ('e, 'bm, 'ht, 'rg, 'pl) jrtc_router_ctx \<Rightarrow> router_op \<Rightarrow> spec_op" where
  "abs_op E st op =
     (case op of
        RegisterApp q \<Rightarrow> SRegister q
      | DeregisterApp a \<Rightarrow> SDeregister (id_of st a)
      | RegisterReq a sid \<Rightarrow> SSubscribe (id_of st a) sid
      | DeregisterReq a sid \<Rightarrow> SUnsubscribe (id_of st a) sid
      | Forward ch sid b bs \<Rightarrow> SForward sid (shared_ptr E b)
      | Receive a n \<Rightarrow> SReceive (id_of st a) n)"

lemma app_slot_of:
  assumes "app_inv E V st" and "dapps st a = Some d"
  shows "app_slot st (id_of st a) = Some d" and "id_of st a < JRTC_ROUTER_MAX_NUM_APPS" and "id_of st a = nat (app_id d)"
  using assms app_inv_dapp [OF assms] by (auto simp: app_slot_def app_at_def id_of_def)

lemma app_slot_cong: "app_ctxs st' = app_ctxs st \<Longrightarrow> dapps st' = dapps st \<Longrightarrow> app_slot st' = app_slot st"
  by (rule ext) (simp add: app_slot_def app_at_def split: option.splits)

lemma app_slot_upd:
  assumes A: "app_inv E V st" and d: "dapps st a = Some d" and "app_ctxs st' = app_ctxs st" and "dapps st' = (dapps st)(a \<mapsto> d')"
  shows "app_slot st' = (app_slot st)(id_of st a \<mapsto> d')"
proof
  fix i
  have "app_ctxs st ! i \<noteq> Some a" if "i < JRTC_ROUTER_MAX_NUM_APPS" "i \<noteq> id_of st a"
    using app_inv_slot [OF A that(1), of a] d that(2) by (auto simp: id_of_def)
  then show "app_slot st' i = ((app_slot st)(id_of st a \<mapsto> d')) i"
    using assms(3,4) app_slot_of [OF A d] app_inv_dapp(4) [OF A d] by (auto simp: app_slot_def app_at_def split: option.splits)
qed

lemma app_slot_bit:
  assumes "app_inv E V st" and "i < JRTC_ROUTER_MAX_NUM_APPS"
  shows "app_slot st i = None \<longleftrightarrow> i \<notin> v_bits V (app_bitmap st)"
proof -
  have "i \<in> v_bits V (app_bitmap st) \<longleftrightarrow> app_ctxs st ! i \<noteq> None" using assms unfolding app_inv_def by blast
  moreover have "dapps st a \<noteq> None" if "app_ctxs st ! i = Some a" for a using app_inv_slot [OF assms that] by auto
  ultimately show ?thesis using assms(2) by (cases "app_ctxs st ! i") (auto simp: app_slot_def app_at_def)
qed

lemma abs_router_upd:
  assumes "app_slot st' = (app_slot st)(i \<mapsto> d')" and "subs V st' = subs V st" and "app_slot st i = Some d"
    and "queue_size V d' = queue_size V d"
  shows "abs_router V st' = (abs_router V st)\<lparr>sp_queue := (sp_queue (abs_router V st))(i := inbox V d')\<rparr>"
  using assms by (auto simp: abs_router_def fun_eq_iff)

section \<open>What the operations leave alone\<close>

lemma register_req_lookup:
  assumes "jrtc_router_channel_register_stream_id_req E st a sid = Inr (r, st')"
  shows "lookup_result st' = lookup_result st"
  using assms
  by (auto simp: jrtc_router_channel_register_stream_id_req_def add_req_entry_def update_req_entry_def jfree_def Let_def called_def
      elim!: bindS_InrE split: option.splits if_splits prod.splits)

lemma destructor_lookup: "stream_id_req_destructor E st a = Inr st' \<Longrightarrow> lookup_result st' = lookup_result st"
  by (auto simp: stream_id_req_destructor_def jfree_def elim!: bindS_InrE split: option.splits)

lemma run_destructors_lookup: "run_destructors E st as = Inr st' \<Longrightarrow> lookup_result st' = lookup_result st"
proof (induction as arbitrary: st)
  case (Cons a as)
  then show ?case by (auto elim!: bindS_InrE dest: destructor_lookup)
qed simp

lemma deregister_req_lookup:
  assumes "jrtc_router_channel_deregister_stream_id_req E st a sid = Inr st'"
  shows "lookup_result st' = lookup_result st"
  using assms
  by (auto simp: jrtc_router_channel_deregister_stream_id_req_def remove_req_entry_def update_req_entry_def Let_def called_def
      elim!: bindS_InrE dest!: run_destructors_lookup split: option.splits if_splits prod.splits)

section \<open>Simulation\<close>

text \<open>What every step keeps, and what it does to the abstract state.\<close>

definition simulates ::
    "bool \<Rightarrow> ('e, 'bm, 'it, 'ht, 'rg, 'pl) ext \<Rightarrow> ('e, 'bm, 'it, 'ht, 'rg, 'pl) views \<Rightarrow> router_op \<Rightarrow> ('e, 'bm, 'ht, 'rg, 'pl) jrtc_router_ctx \<Rightarrow> bool" where
  "simulates sc E V op st \<longleftrightarrow>
     (\<exists>st'. exec_op sc E op st = Some (Inr st') \<and> router_ok E V st' \<and> spec_step sc (abs_op E st op) (abs_router V st) (abs_router V st'))"

lemma simulatesI:
  "exec_op sc E op st = Some (Inr st') \<Longrightarrow> router_ok E V st' \<Longrightarrow>
   spec_step sc (abs_op E st op) (abs_router V st) (abs_router V st') \<Longrightarrow> simulates sc E V op st"
  by (auto simp: simulates_def)

lemma register_req_simulates:
  assumes L: "ext_laws E V" and ok: "router_ok E V st" and d: "dapps st a = Some d"
  shows "simulates sc E V (RegisterReq a sid) st"
proof -
  have A: "app_inv E V st" and R: "req_inv E V st" using ok by (simp_all add: router_ok_def router_inv_def)
  obtain res st' where r: "jrtc_router_channel_register_stream_id_req E st (Some a) sid = Inr (res, st')" "req_inv E V st'" "same_apps st st'"
    "subs V st' = (subs V st)(sid := insert (nat (app_id d)) (subs V st sid)) \<or> subs V st' = subs V st"
    using register_cases [OF L R d app_inv_dapp(1) [OF A d]] by blast
  have ok': "router_ok E V st'"
    using ok r(2,3) app_inv_cong [OF A r(3)] register_req_lookup [OF r(1)]
    by (simp add: router_ok_def router_inv_def all_rings_fit_def same_apps_def)
  have slots: "app_slot st' = app_slot st" using r(3) by (intro app_slot_cong) (simp_all add: same_apps_def)
  note id = app_slot_of [OF A d]
  have reg: "sp_apps (abs_router V st) (id_of st a) \<noteq> None" using id(1) by (simp add: abs_router_def)
  show ?thesis
  proof (rule simulatesI [OF _ ok'])
    show "exec_op sc E (RegisterReq a sid) st = Some (Inr st')" using r(1) by (simp add: exec_op_def)
    show "spec_step sc (abs_op E st (RegisterReq a sid)) (abs_router V st) (abs_router V st')"
      using r(4) spec_step.subscribe [of _ _ sc sid, OF reg] spec_step.no_memory [of sc "id_of st a" sid "abs_router V st"] slots id(3)
      by (auto simp: abs_op_def abs_router_def)
  qed
qed

lemma deregister_req_simulates:
  assumes L: "ext_laws E V" and ok: "router_ok E V st" and d: "dapps st a = Some d"
  shows "simulates sc E V (DeregisterReq a sid) st"
proof -
  have A: "app_inv E V st" and R: "req_inv E V st" using ok by (simp_all add: router_ok_def router_inv_def)
  obtain st' where r: "jrtc_router_channel_deregister_stream_id_req E st (Some a) sid = Inr st'" "req_inv E V st'" "same_apps st st'"
    "subs V st' = (subs V st)(sid := subs V st sid - {nat (app_id d)})"
    using deregister_cases [OF L R d app_inv_dapp(1) [OF A d]] by blast
  have ok': "router_ok E V st'"
    using ok r(2,3) app_inv_cong [OF A r(3)] deregister_req_lookup [OF r(1)]
    by (simp add: router_ok_def router_inv_def all_rings_fit_def same_apps_def)
  have slots: "app_slot st' = app_slot st" using r(3) by (intro app_slot_cong) (simp_all add: same_apps_def)
  note id = app_slot_of [OF A d]
  have reg: "sp_apps (abs_router V st) (id_of st a) \<noteq> None" using id(1) by (simp add: abs_router_def)
  show ?thesis
  proof (rule simulatesI [OF _ ok'])
    show "exec_op sc E (DeregisterReq a sid) st = Some (Inr st')" using r(1) by (simp add: exec_op_def)
    show "spec_step sc (abs_op E st (DeregisterReq a sid)) (abs_router V st) (abs_router V st')"
      using r(4) spec_step.unsubscribe [of _ _ sc sid, OF reg] slots id(3) by (simp add: abs_op_def abs_router_def)
  qed
qed

lemma receive_simulates:
  assumes L: "ext_laws E V" and ok: "router_ok E V st" and d: "dapps st a = Some d"
  shows "simulates sc E V (Receive a n) st"
proof -
  have I: "router_inv E V st" "all_rings_fit V st" and A: "app_inv E V st" using ok by (simp_all add: router_ok_def router_inv_def)
  obtain more d' e where r: "jrtc_router_receive E st a n = Inr (more, st\<lparr>dapps := (dapps st)(a \<mapsto> d'), env := e\<rparr>)"
    "inbox V d' = drop n (inbox V d)" "queue_size V d' = queue_size V d"
    "router_inv E V (st\<lparr>dapps := (dapps st)(a \<mapsto> d'), env := e\<rparr>)" "all_rings_fit V (st\<lparr>dapps := (dapps st)(a \<mapsto> d'), env := e\<rparr>)"
    using receive_ok [OF L I d] by blast
  let ?st = "st\<lparr>dapps := (dapps st)(a \<mapsto> d'), env := e\<rparr>"
  note id = app_slot_of [OF A d]
  have "app_slot ?st = (app_slot st)(id_of st a \<mapsto> d')" by (rule app_slot_upd [OF A d]) simp_all
  moreover have "subs V ?st = subs V st" by (rule subs_cong) simp_all
  ultimately have abs: "abs_router V ?st = (abs_router V st)\<lparr>sp_queue := (sp_queue (abs_router V st))(id_of st a := inbox V d')\<rparr>"
    using id(1) r(3) by (rule abs_router_upd)
  have reg: "sp_apps (abs_router V st) (id_of st a) \<noteq> None" "sp_queue (abs_router V st) (id_of st a) = inbox V d"
    using id(1) by (simp_all add: abs_router_def)
  have "spec_step sc (abs_op E st (Receive a n)) (abs_router V st) (abs_router V ?st)"
    unfolding abs r(2) using spec_step.receive [of _ _ sc n, OF reg(1)] reg(2) by (simp add: abs_op_def)
  then show ?thesis
    using r(1,4,5) ok by (intro simulatesI [of _ _ _ _ ?st]) (simp_all add: exec_op_def router_ok_def)
qed

lemma round_up_exact:
  assumes "q \<le> JRTC_ROUTER_MAX_APP_QUEUE_SIZE"
  shows "unat (round_up_pow_of_two (of_nat (q + 1))) \<le> q + 1 \<longleftrightarrow> (\<exists>k. q + 1 = 2 ^ k)"
proof -
  have q: "q \<le> 10000" using assms by (simp add: JRTC_ROUTER_MAX_APP_QUEUE_SIZE_def)
  then have u: "unat (of_nat (q + 1) :: u32) = q + 1"
    by (simp add: unsigned_of_nat take_bit_nat_eq_self del: of_nat_add of_nat_Suc)
  obtain j where j: "unat (round_up_pow_of_two (of_nat (q + 1))) = 2 ^ j" "q + 1 \<le> 2 ^ j" "2 ^ j < 2 * (q + 1)"
    using round_up_pow_of_two_spec [of "of_nat (q + 1)"] u q by auto
  have "j = k" if "q + 1 = 2 ^ k" for k
  proof -
    have "(2::nat) ^ k \<le> 2 ^ j" "(2::nat) ^ j < 2 ^ Suc k" using j that by simp_all
    then have "k \<le> j" "j < Suc k" using power_le_imp_le_exp [of "2::nat" k j] power_less_imp_less_exp [of "2::nat" j "Suc k"] by simp_all
    then show ?thesis by simp
  qed
  then show ?thesis using j by (metis le_antisym order_refl)
qed

lemma refused_simulates:
  assumes L: "ext_laws E V" and ok: "router_ok E V st" and g: "gave_up E V st (jrtc_router_register_app E st q)"
  shows "simulates sc E V (RegisterApp q) st"
proof -
  have I: "router_inv E V st" using ok by (simp add: router_ok_def)
  obtain st' where r: "jrtc_router_register_app E st q = Inr (None, st')" "router_inv E V st'" "subs V st' = subs V st"
    "dapps st' = dapps st" "app_ctxs st' = app_ctxs st" using gave_up_inv [OF I g] by blast
  have "lookup_result st' = lookup_result st" using g r(1) by (auto simp: gave_up_def)
  then have "router_ok E V st'" using ok r by (simp add: router_ok_def all_rings_fit_def)
  moreover have "abs_router V st' = abs_router V st" using r(3) app_slot_cong [OF r(5,4)] by (simp add: abs_router_def)
  ultimately show ?thesis
    using r(1) by (intro simulatesI [of _ _ _ _ st']) (simp_all add: exec_op_def abs_op_def spec_step.refused)
qed

lemma register_simulates:
  assumes L: "ext_laws E V" and ok: "router_ok E V st" and q: "q \<le> JRTC_ROUTER_MAX_APP_QUEUE_SIZE" "q + 1 = 2 ^ k"
    and g: "registered E V st q (jrtc_router_register_app E st q)"
  shows "simulates sc E V (RegisterApp q) st"
proof -
  have I: "router_inv E V st" and A: "app_inv E V st" using ok by (simp_all add: router_ok_def router_inv_def)
  obtain a i d st' where r: "jrtc_router_register_app E st q = Inr (Some a, st')" "router_inv E V st'" "subs V st' = subs V st"
    "i \<notin> v_bits V (app_bitmap st)" "{..<i} \<subseteq> v_bits V (app_bitmap st)" "v_bits V (app_bitmap st') = insert i (v_bits V (app_bitmap st))"
    "dapps st a = None" "dapps st' = (dapps st)(a \<mapsto> d)" "app_ctxs st' = (app_ctxs st)[i := Some a]" "fresh_dapp V q i d"
    using registered_inv [OF I q(1) g] by blast
  have A': "app_inv E V st'" using r(2) by (simp add: router_inv_def)
  have i: "i < JRTC_ROUTER_MAX_NUM_APPS" using A' r(6) bitmap_lawsD(2) [OF L, of "app_bitmap st'"] by (auto simp: app_inv_def)
  have len: "length (app_ctxs st) = JRTC_ROUTER_MAX_NUM_APPS" using A by (simp add: app_inv_def)
  have other: "app_ctxs st ! j \<noteq> Some a" if "j < JRTC_ROUTER_MAX_NUM_APPS" for j using app_inv_slot [OF A that, of a] r(7) by auto
  have slot: "app_slot st' = (app_slot st)(i \<mapsto> d)"
  proof
    fix j
    show "app_slot st' j = ((app_slot st)(i \<mapsto> d)) j"
      using i len r(8,9) other [of j] by (cases "j = i") (auto simp: app_slot_def app_at_def split: option.splits)
  qed
  have d: "queue_size V d = q" "inbox V d = []" using r(10) by (simp_all add: fresh_dapp_def queue_size_def inbox_def)
  have abs: "abs_router V st' = (abs_router V st)\<lparr>sp_apps := (sp_apps (abs_router V st))(i \<mapsto> q), sp_queue := (sp_queue (abs_router V st))(i := [])\<rparr>"
    using slot r(3) d by (auto simp: abs_router_def fun_eq_iff)
  have "ring_fits V d" using r(10) round_up_exact [OF q(1)] q(2) by (auto simp: fresh_dapp_def ring_fits_def)
  moreover have "lookup_result st' = lookup_result st" using g r(1) by (auto simp: registered_def called_def)
  ultimately have "router_ok E V st'" using ok r(2,8) by (simp add: router_ok_def all_rings_fit_def)
  moreover have "spec_step sc (SRegister q) (abs_router V st) (abs_router V st')"
    unfolding abs using i r(4,5) q(1) app_slot_bit [OF A] by (intro spec_step.register) (auto simp: abs_router_def)
  ultimately show ?thesis using r(1) by (intro simulatesI [of _ _ _ _ st']) (simp_all add: exec_op_def abs_op_def)
qed

lemma deregister_simulates:
  assumes L: "ext_laws E V" and ok: "router_ok E V st" and d: "dapps st a = Some d"
  shows "simulates sc E V (DeregisterApp a) st"
proof -
  have I: "router_inv E V st" and A: "app_inv E V st" using ok by (simp_all add: router_ok_def router_inv_def)
  obtain st' where r: "jrtc_router_deregister_app E st (Some a) = Inr st'" "router_inv E V st'" "subs V st' = subs V st"
    "dapps st' = (dapps st)(a := None)" "app_ctxs st' = (app_ctxs st)[nat (app_id d) := None]"
    using deregister_app_inv [OF L I d] by blast
  have len: "length (app_ctxs st) = JRTC_ROUTER_MAX_NUM_APPS" using A by (simp add: app_inv_def)
  note id = app_slot_of [OF A d]
  have slot: "app_slot st' = (app_slot st)(id_of st a := None)"
  proof
    fix j
    have "app_ctxs st ! j \<noteq> Some a" if "j < JRTC_ROUTER_MAX_NUM_APPS" "j \<noteq> id_of st a"
      using app_inv_slot [OF A that(1), of a] d that(2) id(3) by auto
    then show "app_slot st' j = ((app_slot st)(id_of st a := None)) j"
      using len r(4,5) id(2,3) by (auto simp: app_slot_def app_at_def split: option.splits)
  qed
  have abs: "abs_router V st' = (abs_router V st)\<lparr>sp_apps := (sp_apps (abs_router V st))(id_of st a := None),
      sp_queue := (sp_queue (abs_router V st))(id_of st a := [])\<rparr>"
    using slot r(3) by (auto simp: abs_router_def fun_eq_iff)
  have "lookup_result st' = lookup_result st" using deregister_app_cases [OF L I d] r(1) by auto
  then have "router_ok E V st'" using ok r(2,4) by (auto simp: router_ok_def all_rings_fit_def)
  moreover have "spec_step sc (SDeregister (id_of st a)) (abs_router V st) (abs_router V st')"
    unfolding abs using id(1) by (intro spec_step.deregister) (simp add: abs_router_def)
  ultimately show ?thesis using r(1) by (intro simulatesI [of _ _ _ _ st']) (simp_all add: exec_op_def abs_op_def)
qed

lemma forward_simulates:
  assumes L: "ext_laws E V" and ok: "router_ok E V st"
  shows "simulates sc E V (Forward ch sid b bs) st"
proof -
  have I: "router_inv E V st" "all_rings_fit V st" "ck_bitmap_bits E (lookup_result st) = JRTC_ROUTER_MAX_NUM_APPS"
    using ok by (simp_all add: router_ok_def)
  have n: "JRTC_ROUTER_MAX_NUM_APPS < forward_fuel" by (simp add: forward_fuel_def)
  obtain st' where r: "jrtc_router_forward_msgs forward_fuel sc E st (Some ch) sid (b # bs) = Some (Inr st')"
    "router_ok E V st'" "subs V st' = subs V st"
    "\<forall>i < JRTC_ROUTER_MAX_NUM_APPS. if i \<in> subscribers V sc st sid
       then rel_option (delivered E V sid b) (app_at st i) (app_at st' i) else app_at st' i = app_at st i"
    using forward_msgs_ok [OF L I(1,2) n I(3), of sc ch sid b bs] unfolding router_ok_def by blast
  have each: "if i \<in> subscribers V sc st sid then rel_option (delivered E V sid b) (app_slot st i) (app_slot st' i)
      else app_slot st' i = app_slot st i" for i
    using r(4) by (simp add: app_slot_def)
  have "spec_delivered sc sid (shared_ptr E b) (abs_router V st) (abs_router V st')"
    unfolding spec_delivered_def
  proof (intro conjI allI)
    show "sp_apps (abs_router V st') = sp_apps (abs_router V st)"
    proof
      fix i show "sp_apps (abs_router V st') i = sp_apps (abs_router V st) i"
        using each [of i] by (cases "app_slot st i"; cases "app_slot st' i") (auto simp: abs_router_def delivered_def split: if_splits)
    qed
    show "sp_subs (abs_router V st') = sp_subs (abs_router V st)" using r(3) by (simp add: abs_router_def)
    fix i
    have sub: "(\<exists>k \<in> set (lookup_ids sc sid). i \<in> sp_subs (abs_router V st) k) \<longleftrightarrow> i \<in> subscribers V sc st sid"
      by (simp add: subscribers_def abs_router_def)
    show "if (\<exists>k \<in> set (lookup_ids sc sid). i \<in> sp_subs (abs_router V st) k) \<and>
        (\<exists>q. sp_apps (abs_router V st) i = Some q \<and> length (sp_queue (abs_router V st) i) < q)
      then \<exists>p. shared_ptr E b p \<and> sp_queue (abs_router V st') i = sp_queue (abs_router V st) i @ [\<lparr>de_stream_id = sid, de_data = p\<rparr>]
      else sp_queue (abs_router V st') i = sp_queue (abs_router V st) i"
      unfolding sub using each [of i]
      by (cases "app_slot st i"; cases "app_slot st' i") (auto simp: abs_router_def delivered_def split: if_splits)
  qed
  then show ?thesis
    using r(1,2) by (intro simulatesI [of _ _ _ _ st']) (simp_all add: exec_op_def abs_op_def spec_step.forward)
qed

lemma step_simulates:
  assumes L: "ext_laws E V" and ok: "router_ok E V st" and en: "enabled st op"
  shows "simulates sc E V op st"
proof (cases op)
  case (RegisterApp q)
  show ?thesis
  proof (cases "q \<le> JRTC_ROUTER_MAX_APP_QUEUE_SIZE")
    case True
    then obtain k where "q + 1 = 2 ^ k" using en RegisterApp by (auto simp: enabled_def)
    moreover have "app_inv E V st" using ok by (simp add: router_ok_def router_inv_def)
    ultimately show ?thesis
      using register_app_cases [OF L _ True] refused_simulates [OF L ok] register_simulates [OF L ok True] RegisterApp by blast
  next
    case False
    then have "jrtc_router_register_app E st q = Inr (None, st)" by (simp add: jrtc_router_register_app_def)
    then show ?thesis
      using ok RegisterApp by (intro simulatesI [of _ _ _ _ st]) (simp_all add: exec_op_def abs_op_def spec_step.refused)
  qed
qed (use en L ok in \<open>auto simp: enabled_def intro: register_req_simulates deregister_req_simulates receive_simulates deregister_simulates forward_simulates\<close>)

section \<open>Reachable states\<close>

inductive reachable :: "bool \<Rightarrow> ('e, 'bm, 'it, 'ht, 'rg, 'pl) ext \<Rightarrow> ('e, 'bm, 'it, 'ht, 'rg, 'pl) views \<Rightarrow> ('e, 'bm, 'ht, 'rg, 'pl) jrtc_router_ctx \<Rightarrow> bool"
  for sc E V where
  start: "reachable sc E V st" if "initialised E V st"
| step: "reachable sc E V st'" if "reachable sc E V st" and "enabled st op" and "exec_op sc E op st = Some (Inr st')"

lemma reachable_ok:
  assumes "ext_laws E V" and "reachable sc E V st"
  shows "router_ok E V st"
  using assms(2)
proof (induction rule: reachable.induct)
  case (start st)
  then show ?case by (simp add: initialised_def)
next
  case (step st op st')
  then show ?case using step_simulates [OF assms(1) step.IH step.hyps(2), of sc] by (auto simp: simulates_def)
qed

section \<open>Registration, all outcomes\<close>

lemma fresh_dapp_view: "fresh_dapp V q i d \<Longrightarrow> app_id d = int i \<and> inbox V d = [] \<and> queue_size V d = q"
  by (simp add: fresh_dapp_def inbox_def queue_size_def)

lemma register_app_any:
  assumes "ext_laws E V" and "router_inv E V st"
  shows "(\<exists>st'. jrtc_router_register_app E st q = Inr (None, st') \<and> router_inv E V st' \<and> v_live V (env st') = v_live V (env st) \<and>
      v_bits V (app_bitmap st') = v_bits V (app_bitmap st) \<and> dapps st' = dapps st \<and> subs V st' = subs V st) \<or>
    (\<exists>a i d st'. jrtc_router_register_app E st q = Inr (Some a, st') \<and> q \<le> JRTC_ROUTER_MAX_APP_QUEUE_SIZE \<and> router_inv E V st' \<and>
      subs V st' = subs V st \<and> i \<notin> v_bits V (app_bitmap st) \<and> {..<i} \<subseteq> v_bits V (app_bitmap st) \<and>
      v_bits V (app_bitmap st') = insert i (v_bits V (app_bitmap st)) \<and> dapps st a = None \<and> dapps st' = (dapps st)(a \<mapsto> d) \<and>
      app_id d = int i \<and> inbox V d = [] \<and> queue_size V d = q)"
proof (cases "q \<le> JRTC_ROUTER_MAX_APP_QUEUE_SIZE")
  case True
  have "app_inv E V st" using assms(2) by (simp add: router_inv_def)
  from register_app_cases [OF assms(1) this True] show ?thesis
  proof
    assume "gave_up E V st (jrtc_router_register_app E st q)"
    from gave_up_inv [OF assms(2) this] show ?thesis by blast
  next
    assume "registered E V st q (jrtc_router_register_app E st q)"
    from registered_inv [OF assms(2) True this] show ?thesis using True fresh_dapp_view by blast
  qed
next
  case False
  then have "jrtc_router_register_app E st q = Inr (None, st)" by (simp add: jrtc_router_register_app_def)
  then show ?thesis using assms(2) by auto
qed

end
