(* ===== verification/Router_Props.thy ===== *)
theory Router_Props
  imports Router_System
begin

text \<open>
  The properties of the router, each with an instance on the list implementation of the libraries.
\<close>

section \<open>A router to run\<close>

definition sim_st0 :: "(lib_env, bool list, sim_ht, sim_ring, sim_pool) jrtc_router_ctx" where
  "sim_st0 = \<lparr>env = \<lparr>e_live = [], e_budget = 100, e_refs = (\<lambda>_. 0), e_chans = []\<rparr>, io_ctx = Some 0, reqs = [],
     req_entries = (\<lambda>_. None), lookup_result = replicate JRTC_ROUTER_MAX_NUM_APPS False, app_ctxs = replicate JRTC_ROUTER_MAX_NUM_APPS None,
     app_bitmap = replicate JRTC_ROUTER_MAX_NUM_APPS False, dapps = (\<lambda>_. None), channels = (\<lambda>_. None), calls = []\<rparr>"

definition sim_run :: "router_op list \<Rightarrow> (lib_env, bool list, sim_ht, sim_ring, sim_pool) jrtc_router_ctx" where
  "sim_run ops = foldl (\<lambda>st op. case exec_op True sim op st of Some (Inr st') \<Rightarrow> st' | _ \<Rightarrow> st) sim_st0 ops"

lemma sim_run_start: "initialised sim sim_views (sim_run [])"
  by (rule initialised_fresh [OF sim_ext_laws]) (simp_all add: sim_run_def sim_st0_def zeroed_def sim_def sim_views_def fun_eq_iff)

lemma sim_run_step:
  assumes "reachable True sim sim_views (sim_run ops)" and "enabled (sim_run ops) op"
  shows "exec_op True sim op (sim_run ops) = Some (Inr (sim_run (ops @ [op])))" and "reachable True sim sim_views (sim_run (ops @ [op]))"
proof -
  show ex: "exec_op True sim op (sim_run ops) = Some (Inr (sim_run (ops @ [op])))"
    using step_simulates [OF sim_ext_laws reachable_ok [OF sim_ext_laws assms(1)] assms(2), of True]
    by (auto simp: simulates_def sim_run_def)
  show "reachable True sim sim_views (sim_run (ops @ [op]))" using assms ex by (rule reachable.step)
qed

definition sid_a :: stream_id where
  "sid_a = replicate 16 0"

text \<open>One application with a queue for three messages, and the same one after it has subscribed.\<close>

definition sim_one :: "(lib_env, bool list, sim_ht, sim_ring, sim_pool) jrtc_router_ctx" where
  "sim_one = sim_run [RegisterApp 3]"

definition sim_sub :: "(lib_env, bool list, sim_ht, sim_ring, sim_pool) jrtc_router_ctx" where
  "sim_sub = sim_run [RegisterApp 3, RegisterReq 1 sid_a]"

lemma pow2_4: "\<exists>k. 3 + 1 = (2::nat) ^ k"
  by (rule exI [of _ 2]) simp

lemma sim_one_app: "map_option app_id (dapps sim_one 1) = Some 0"
  by code_simp

lemma sim_one_dapp: "dapps sim_one 1 = Some (the (dapps sim_one 1))"
  using sim_one_app by auto

lemma sim_one_reachable: "reachable True sim sim_views sim_one"
  using sim_run_step(2) [OF reachable.start [OF sim_run_start], of "RegisterApp 3"] pow2_4 by (simp add: enabled_def sim_one_def)

lemma sim_sub_reachable: "reachable True sim sim_views sim_sub"
  using sim_run_step(2) [of "[RegisterApp 3]" "RegisterReq 1 sid_a"] sim_one_reachable sim_one_app
  by (auto simp: enabled_def sim_one_def sim_sub_def)

lemma sim_sub_app: "map_option app_id (dapps sim_sub 1) = Some 0"
  by code_simp

lemmas sim_one_ok = reachable_ok [OF sim_ext_laws sim_one_reachable]

lemmas sim_sub_ok = reachable_ok [OF sim_ext_laws sim_sub_reachable]

section \<open>The router as a whole\<close>

text \<open>C1: The router implements its specification.  In a state that satisfies the router's invariant, every
  API call of a registered application, every registration with a queue size that fits its ring buffer
  and every batch of messages returns within the fuel and without undefined behaviour, keeps the
  invariant, and has the effect of the corresponding step of the abstract router.\<close>

theorem router_refines_spec:
  assumes "ext_laws E V" and "router_ok E V st" and "enabled st op"
  shows "\<exists>st'. exec_op sc E op st = Some (Inr st') \<and> router_ok E V st' \<and>
    spec_step sc (abs_op E st op) (abs_router V st) (abs_router V st')"
  using step_simulates [OF assms] by (simp add: simulates_def)

theorem router_refines_spec_witness:
  "ext_laws sim sim_views \<and> router_ok sim sim_views sim_sub \<and> enabled sim_sub (Forward 0 sid_a 7 [8]) \<and>
   (\<exists>st'. exec_op True sim (Forward 0 sid_a 7 [8]) sim_sub = Some (Inr st') \<and> router_ok sim sim_views st' \<and>
     spec_step True (abs_op sim sim_sub (Forward 0 sid_a 7 [8])) (abs_router sim_views sim_sub) (abs_router sim_views st'))"
  using router_refines_spec [OF sim_ext_laws sim_sub_ok, of "Forward 0 sid_a 7 [8]" True] sim_ext_laws sim_sub_ok
  by (simp add: enabled_def)

text \<open>C2: Every state that the router reaches from its initialisation has the invariant: each registered
  application has the id of its slot and its bit in the id bitmap, all heap objects of the router are
  allocated and none is owned twice, the request table refers only to live entries, and no queue holds
  more messages than its application asked for.\<close>

theorem router_invariant_reachable:
  assumes "ext_laws E V" and "reachable sc E V st"
  shows "router_ok E V st \<and> (\<forall>i < JRTC_ROUTER_MAX_NUM_APPS. \<forall>d. app_at st i = Some d \<longrightarrow>
    app_id d = int i \<and> i \<in> v_bits V (app_bitmap st) \<and> length (inbox V d) \<le> queue_size V d \<and>
    queue_size V d \<le> JRTC_ROUTER_MAX_APP_QUEUE_SIZE)"
proof (intro conjI allI impI)
  show ok: "router_ok E V st" using assms by (rule reachable_ok)
  then have A: "app_inv E V st" by (simp add: router_ok_def router_inv_def)
  fix i d assume i: "i < JRTC_ROUTER_MAX_NUM_APPS" "app_at st i = Some d"
  then obtain a where a: "app_ctxs st ! i = Some a" "dapps st a = Some d" by (auto simp: app_at_def split: option.splits)
  show "app_id d = int i" using app_inv_slot [OF A i(1) a(1)] a(2) by auto
  show "i \<in> v_bits V (app_bitmap st)" using A i(1) a(1) by (simp add: app_inv_def)
  show "length (inbox V d) \<le> queue_size V d" "queue_size V d \<le> JRTC_ROUTER_MAX_APP_QUEUE_SIZE"
    using app_inv_dapp(5) [OF A a(2)] by (simp_all add: dapp_ok_def inbox_def queue_size_def)
qed

theorem router_invariant_reachable_witness:
  "ext_laws sim sim_views \<and> reachable True sim sim_views sim_sub \<and> router_ok sim sim_views sim_sub"
  using router_invariant_reachable [OF sim_ext_laws sim_sub_reachable] sim_ext_laws sim_sub_reachable by blast

text \<open>C4: The router thread never stops serving.  Whatever messages arrive, every number of iterations of
  its loop is completed without undefined behaviour, within the fuel of the forwarding loop, and the
  subscriptions and the set of applications are those from before.\<close>

theorem router_thread_keeps_running:
  assumes "ext_laws E V" and "router_ok E V st" and "args \<in> live m"
  shows "\<exists>st'. jrtc_router_thread_start forward_fuel k sc E os st m args config =
      Some (Inr (thread_setup os config, m\<lparr>live := live m - {args}\<rparr>, st')) \<and>
    router_ok E V st' \<and> subs V st' = subs V st \<and> app_ctxs st' = app_ctxs st"
proof -
  have "router_ok E V (called [RegisterThread] st)"
    by (rule router_ok_cong [OF assms(2)]) (simp_all add: same_apps_def called_def)
  then show ?thesis
    using thread_loop_ok [OF assms(1), of forward_fuel "called [RegisterThread] st" k sc] assms(3)
    by (auto simp: jrtc_router_thread_start_def forward_fuel_def free_live)
qed

definition config0 :: jrtc_config where
  "config0 = \<lparr>router_config = \<lparr>thread_config = \<lparr>has_affinity_mask = False, affinity_mask = 2, has_sched_config = False,
       sched_config = \<lparr>sched_policy = 0, sched_priority = 99, sched_runtime = 10, sched_deadline = 30, sched_period = 30\<rparr>\<rparr>,
     ipc_name = ''jrt_controller''\<rparr>,
   io_config = \<lparr>io_primary = True, memory_size = 1, jbpf_path = ''/tmp'', jbpf_namespace = ''jbpf'', jbpf_io_ipc_name = ''jrt_controller''\<rparr>,
   port = 3001\<rparr>"

definition mem0 :: mem where
  "mem0 = \<lparr>live = {}, next_addr = 1, oom = (\<lambda>_. False)\<rparr>"

theorem router_thread_keeps_running_witness:
  "ext_laws sim sim_views \<and> router_ok sim sim_views sim_one \<and> 5 \<in> live (mem0\<lparr>live := {5}\<rparr>) \<and>
   (\<exists>st'. jrtc_router_thread_start forward_fuel 1000 True sim (\<lambda>_. 0) sim_one (mem0\<lparr>live := {5}\<rparr>) 5 (router_config config0) =
      Some (Inr (thread_setup (\<lambda>_. 0) (router_config config0), mem0\<lparr>live := {}\<rparr>, st')) \<and> router_ok sim sim_views st')"
  using router_thread_keeps_running [OF sim_ext_laws sim_one_ok, of 5 "mem0\<lparr>live := {5}\<rparr>" 1000 True "\<lambda>_. 0" "router_config config0"]
    sim_ext_laws sim_one_ok by auto

section \<open>Initialisation\<close>

text \<open>C19: Initialisation either succeeds, returns 0 and leaves a router with no applications and no
  subscriptions that satisfies the invariant, or returns -1 with every block of the process heap given
  back.  In that case the library's heap is as before too, except when the thread could not be created:
  then the two bitmaps stay allocated.\<close>

theorem router_init_outcome:
  assumes "ext_laws E V" and "zeroed st" and "mem_wf m"
  shows "\<exists>res st' m'. jrtc_router_init E thr st m config = Inr (res, st', m') \<and>
    (res = 0 \<and> thr = 0 \<and> initialised E V st' \<and> io_ctx st' \<noteq> None \<and> (\<exists>args. args \<notin> live m \<and> live m' = insert args (live m)) \<or>
     res = -1 \<and> live m' = live m \<and> v_live V (env st') = v_live V (env st) \<or>
     res = -1 \<and> thr \<noteq> 0 \<and> live m' = live m \<and> (\<exists>a b. a \<noteq> b \<and> a \<notin> v_live V (env st) \<and> b \<notin> v_live V (env st) \<and>
       v_live V (env st') = {a, b} \<union> v_live V (env st)))"
proof (cases config)
  case None
  then show ?thesis by (simp add: jrtc_router_init_def)
next
  case (Some c)
  obtain io e where io: "jbpf_io_init E (env st) (io_config c) = (io, e)" by fastforce
  note live = io_lawsD(6) [OF assms(1) io]
  obtain r m1 where m1: "malloc m = (r, m1)" by fastforce
  let ?st = "called sync_init_calls (st\<lparr>env := e, io_ctx := io\<rparr>)"
  show ?thesis
  proof (cases "io = None")
    case True
    then show ?thesis using Some io live by (simp add: jrtc_router_init_def)
  next
    case ioctx: False
    show ?thesis
    proof (cases r)
      case None
      then show ?thesis using Some io ioctx live m1 malloc_None [of m m1] io_lawsD(7) [OF assms(1)]
        by (auto simp: jrtc_router_init_def error_router_thread_def Let_def)
    next
      case args: (Some args)
      have f: "args \<notin> live m" "live m1 = insert args (live m)" "args \<in> live m1"
        using malloc_fresh [OF assms(3) m1 [unfolded args]] malloc_Some [OF m1 [unfolded args]] by auto
      have init: "jrtc_router_init E thr st m config = init_tables E thr ?st m1 args"
        using Some io ioctx m1 args by (auto simp: jrtc_router_init_def Let_def)
      have z: "zeroed ?st" using assms(2) by (simp add: zeroed_def called_def)
      show ?thesis
      proof (cases rule: init_tables_cases [OF assms(1) z f(3), where thr = thr, case_names ok undone leak])
        case (ok st')
        then show ?thesis unfolding init using f ioctx by auto
      next
        case (undone st')
        then show ?thesis unfolding init using f live by auto
      next
        case (leak st' a b)
        then show ?thesis unfolding init using f live
          by (intro exI [of _ "-1"] exI [of _ st'] exI [of _ "m1\<lparr>live := live m1 - {args}\<rparr>"]) auto
      qed
    qed
  qed
qed

theorem router_init_outcome_witness:
  "ext_laws sim sim_views \<and> zeroed sim_st0 \<and> mem_wf mem0 \<and>
   (\<exists>res st' m'. jrtc_router_init sim 0 sim_st0 mem0 (Some config0) = Inr (res, st', m'))"
  using router_init_outcome [OF sim_ext_laws, of sim_st0 mem0 0 "Some config0"] sim_ext_laws
  by (auto simp: zeroed_def sim_st0_def mem_wf_def mem0_def)

section \<open>Applications\<close>

text \<open>Registering an application gives it the least free id and an empty queue of the size it asked
  for, or returns no context and leaves the heap, the ids, the applications and the subscriptions as
  they were; a queue size above the maximum is always refused.\<close>

lemma register_app_outcome:
  assumes "ext_laws E V" and "router_inv E V st"
  shows "(\<exists>st'. jrtc_router_register_app E st q = Inr (None, st') \<and> router_inv E V st' \<and> v_live V (env st') = v_live V (env st) \<and>
      v_bits V (app_bitmap st') = v_bits V (app_bitmap st) \<and> dapps st' = dapps st \<and> subs V st' = subs V st) \<or>
    (\<exists>a i d st'. jrtc_router_register_app E st q = Inr (Some a, st') \<and> q \<le> JRTC_ROUTER_MAX_APP_QUEUE_SIZE \<and> router_inv E V st' \<and>
      subs V st' = subs V st \<and> i \<notin> v_bits V (app_bitmap st) \<and> {..<i} \<subseteq> v_bits V (app_bitmap st) \<and>
      v_bits V (app_bitmap st') = insert i (v_bits V (app_bitmap st)) \<and> dapps st a = None \<and> dapps st' = (dapps st)(a \<mapsto> d) \<and>
      app_id d = int i \<and> inbox V d = [] \<and> queue_size V d = q)"
  using register_app_any [OF assms] .

text \<open>C20: Deregistering an application frees its context, its ring buffer and its channels and gives its id
  back, but its subscriptions stay: the next application that is given the id is subscribed to
  everything the former one was.\<close>

theorem deregistered_subscriptions_survive:
  assumes L: "ext_laws E V" and "router_inv E V st" and d: "dapps st a = Some d" and "app_id d = int i"
  shows "\<exists>st'. jrtc_router_deregister_app E st (Some a) = Inr st' \<and> router_inv E V st' \<and> dapps st' a = None \<and>
    v_bits V (app_bitmap st') = v_bits V (app_bitmap st) - {i} \<and> subs V st' = subs V st \<and>
    (\<forall>q b st''. {..<i} \<subseteq> v_bits V (app_bitmap st) \<longrightarrow> jrtc_router_register_app E st' q = Inr (Some b, st'') \<longrightarrow>
       id_of st'' b = i \<and> subs V st'' = subs V st)"
proof -
  obtain st' where r: "jrtc_router_deregister_app E st (Some a) = Inr st'" "router_inv E V st'" "subs V st' = subs V st"
    "dapps st' = (dapps st)(a := None)" "v_bits V (app_bitmap st') = v_bits V (app_bitmap st) - {i}"
    using deregister_app_inv [OF L assms(2) d] assms(4) by auto
  have A: "app_inv E V st'" using r(2) by (simp add: router_inv_def)
  have "id_of st'' b = i \<and> subs V st'' = subs V st"
    if low: "{..<i} \<subseteq> v_bits V (app_bitmap st)" and reg: "jrtc_router_register_app E st' q = Inr (Some b, st'')" for q b st''
  proof -
    have q: "q \<le> JRTC_ROUTER_MAX_APP_QUEUE_SIZE" using reg by (auto simp: jrtc_router_register_app_def split: if_splits)
    have "registered E V st' q (jrtc_router_register_app E st' q)"
      using register_app_cases [OF L A q] reg by (auto simp: gave_up_def)
    from registered_inv [OF r(2) q this] reg obtain j d' where
      j: "subs V st'' = subs V st'" "j \<notin> v_bits V (app_bitmap st')" "{..<j} \<subseteq> v_bits V (app_bitmap st')"
        "dapps st'' = (dapps st')(b \<mapsto> d')" "app_id d' = int j" by (auto simp: fresh_dapp_def)
    have "\<not> j < i" using j(2) low r(5) by auto
    moreover have "\<not> i < j" using j(3) r(5) by auto
    ultimately show ?thesis using j(1,4,5) r(3) by (simp add: id_of_def)
  qed
  then show ?thesis using r by auto
qed

theorem deregistered_subscriptions_survive_witness:
  "ext_laws sim sim_views \<and> router_inv sim sim_views sim_sub \<and> app_id (the (dapps sim_sub 1)) = int 0 \<and>
   (\<exists>st'. jrtc_router_deregister_app sim sim_sub (Some 1) = Inr st' \<and> dapps st' 1 = None \<and> subs sim_views st' = subs sim_views sim_sub)"
proof -
  have inv: "router_inv sim sim_views sim_sub" using sim_sub_ok by (simp add: router_ok_def)
  obtain d where d: "dapps sim_sub 1 = Some d" "app_id d = int 0" using sim_sub_app by auto
  show ?thesis using deregistered_subscriptions_survive [OF sim_ext_laws inv d] sim_ext_laws inv d by auto
qed

section \<open>Requests\<close>



text \<open>C10: Deregistering a request removes the application from the subscribers of that id and changes no
  other subscription; when it was the last one the entry and its bitmap are freed, after the grace
  period, and the lock is released.\<close>

theorem deregister_req_unsubscribes:
  assumes "ext_laws E V" and "router_inv E V st" and "dapps st a = Some d"
  shows "\<exists>st' cs. jrtc_router_channel_deregister_stream_id_req E st (Some a) sid = Inr st' \<and> router_inv E V st' \<and>
    calls st' = calls st @ Lock # cs @ [Unlock] \<and> set cs \<inter> {Lock, Unlock} = {} \<and>
    subs V st' = (subs V st)(sid := subs V st sid - {nat (app_id d)})"
proof -
  have A: "app_inv E V st" and R: "req_inv E V st" using assms(2) by (simp_all add: router_inv_def)
  from deregister_cases [OF assms(1) R assms(3) app_inv_dapp(1) [OF A assms(3)], of sid] show ?thesis
    using app_inv_cong [OF A] unfolding router_inv_def by blast
qed

theorem deregister_req_unsubscribes_witness:
  "ext_laws sim sim_views \<and> router_inv sim sim_views sim_sub \<and> dapps sim_sub 1 \<noteq> None \<and>
   (\<exists>st'. jrtc_router_channel_deregister_stream_id_req sim sim_sub (Some 1) sid_a = Inr st' \<and> 0 \<notin> subs sim_views st' sid_a)"
proof -
  have inv: "router_inv sim sim_views sim_sub" using sim_sub_ok by (simp add: router_ok_def)
  obtain d where d: "dapps sim_sub 1 = Some d" "app_id d = 0" using sim_sub_app by auto
  obtain st' where "jrtc_router_channel_deregister_stream_id_req sim sim_sub (Some 1) sid_a = Inr st'"
    "subs sim_views st' = (subs sim_views sim_sub)(sid_a := subs sim_views sim_sub sid_a - {nat (app_id d)})"
    using deregister_req_unsubscribes [OF sim_ext_laws inv d(1), of sid_a] by blast
  then show ?thesis using sim_ext_laws inv d by auto
qed

section \<open>Messages\<close>

text \<open>C5: A batch of buffers of one stream adds at most one message to any queue: the first buffer is
  delivered to every registered application that has subscribed to one of the sixteen patterns of the
  stream's id and has room, and no application is given any of the other buffers.  Applications that
  have not subscribed keep their queue.\<close>

theorem forward_delivers_first_buffer:
  assumes "ext_laws E V" and "router_ok E V st" and "i < JRTC_ROUTER_MAX_NUM_APPS" and "app_at st i = Some d"
  shows "\<exists>st' d'. jrtc_router_forward_msgs forward_fuel sc E st (Some ch) sid (b # bs) = Some (Inr st') \<and> app_at st' i = Some d' \<and>
    (if i \<in> subscribers V sc st sid \<and> length (inbox V d) < queue_size V d
     then \<exists>p. shared_ptr E b p \<and> inbox V d' = inbox V d @ [\<lparr>de_stream_id = sid, de_data = p\<rparr>]
     else inbox V d' = inbox V d)"
proof -
  have I: "router_inv E V st" "all_rings_fit V st" "ck_bitmap_bits E (lookup_result st) = JRTC_ROUTER_MAX_NUM_APPS"
    using assms(2) by (simp_all add: router_ok_def)
  have n: "JRTC_ROUTER_MAX_NUM_APPS < forward_fuel" by (simp add: forward_fuel_def)
  obtain st' where r: "jrtc_router_forward_msgs forward_fuel sc E st (Some ch) sid (b # bs) = Some (Inr st')"
    "if i \<in> subscribers V sc st sid then rel_option (delivered E V sid b) (app_at st i) (app_at st' i) else app_at st' i = app_at st i"
    using forward_msgs_ok [OF assms(1) I(1,2) n I(3), of sc ch sid b bs] assms(3) by blast
  then obtain d' where "app_at st' i = Some d'" using assms(4) by (auto simp: option_rel_Some1 split: if_splits)
  with r assms(4) show ?thesis by (auto simp: delivered_def split: if_splits)
qed

lemma sim_sub_at: "app_at sim_sub 0 = dapps sim_sub 1"
proof -
  have "app_ctxs sim_sub ! 0 = Some 1" by code_simp
  then show ?thesis by (simp add: app_at_def)
qed

theorem forward_delivers_first_buffer_witness:
  "ext_laws sim sim_views \<and> router_ok sim sim_views sim_sub \<and> 0 < JRTC_ROUTER_MAX_NUM_APPS \<and> app_at sim_sub 0 \<noteq> None \<and>
   (\<exists>st' d'. jrtc_router_forward_msgs forward_fuel True sim sim_sub (Some 0) sid_a [7, 8] = Some (Inr st') \<and> app_at st' 0 = Some d')"
proof -
  have at: "0 < JRTC_ROUTER_MAX_NUM_APPS" "app_at sim_sub 0 = Some (the (dapps sim_sub 1))"
    using sim_sub_app by (auto simp: JRTC_ROUTER_MAX_NUM_APPS_def sim_sub_at)
  show ?thesis using forward_delivers_first_buffer [OF sim_ext_laws sim_sub_ok at, of True 0 sid_a 7 "[8]"] sim_ext_laws sim_sub_ok at by blast
qed

text \<open>C8: Receiving returns the oldest messages of the application's queue in order, then messages of its
  input channels, never more than were asked for, and leaves the rest of the queue.\<close>

theorem receive_fifo:
  assumes "ext_laws E V" and "router_ok E V st" and "dapps st a = Some d"
  shows "\<exists>more st' d'. jrtc_router_receive E st a n = Inr (take n (inbox V d) @ more, st') \<and> router_ok E V st' \<and>
    dapps st' = (dapps st)(a \<mapsto> d') \<and> inbox V d' = drop n (inbox V d) \<and> length (take n (inbox V d) @ more) \<le> n"
proof -
  have I: "router_inv E V st" "all_rings_fit V st" using assms(2) by (simp_all add: router_ok_def)
  obtain more d' e where "jrtc_router_receive E st a n = Inr (take n (inbox V d) @ more, st\<lparr>dapps := (dapps st)(a \<mapsto> d'), env := e\<rparr>)"
    "length (take n (inbox V d) @ more) \<le> n" "inbox V d' = drop n (inbox V d)"
    "router_inv E V (st\<lparr>dapps := (dapps st)(a \<mapsto> d'), env := e\<rparr>)" "all_rings_fit V (st\<lparr>dapps := (dapps st)(a \<mapsto> d'), env := e\<rparr>)"
    using receive_ok [OF assms(1) I assms(3)] by blast
  then show ?thesis
    using assms(2) by (intro exI [of _ more] exI [of _ "st\<lparr>dapps := (dapps st)(a \<mapsto> d'), env := e\<rparr>"] exI [of _ d']) (simp add: router_ok_def)
qed

theorem receive_fifo_witness:
  "ext_laws sim sim_views \<and> router_ok sim sim_views sim_one \<and> dapps sim_one 1 \<noteq> None \<and>
   (\<exists>xs st'. jrtc_router_receive sim sim_one 1 4 = Inr (xs, st') \<and> length xs \<le> 4)"
  using receive_fifo [OF sim_ext_laws sim_one_ok sim_one_dapp, of 4] sim_ext_laws sim_one_ok sim_one_app by fastforce

section \<open>Rings\<close>

text \<open>The ring size that is computed for a queue is the least power of two that is not below its
  argument, for every argument up to \<open>2 ^ 31\<close>.\<close>

lemma round_up_least_power:
  assumes "1 \<le> x" and "x \<le> 2 ^ 31"
  shows "\<exists>k. unat (round_up_pow_of_two x) = 2 ^ k \<and> unat x \<le> 2 ^ k \<and> (\<forall>j. unat x \<le> 2 ^ j \<longrightarrow> 2 ^ k \<le> (2::nat) ^ j)"
proof -
  obtain k where k: "unat (round_up_pow_of_two x) = 2 ^ k" "unat x \<le> 2 ^ k" "2 ^ k < 2 * unat x"
    using round_up_pow_of_two_spec [of x] assms by (auto simp: word_le_nat_alt)
  have "(2::nat) ^ k \<le> 2 ^ j" if "unat x \<le> 2 ^ j" for j
  proof -
    have "(2::nat) ^ k < 2 ^ Suc j" using k(3) that by simp
    then have "k < Suc j" by (rule power_less_imp_less_exp [rotated]) simp
    then have "k \<le> j" by simp
    then show ?thesis by (rule power_increasing) simp
  qed
  with k show ?thesis by blast
qed

text \<open>C21: The buffer of a new application's ring has \<open>queue size + 1\<close> slots, but the ring is given the next
  power of two as its size.  All indices of the ring lie within the buffer exactly when the queue size
  plus one is itself a power of two.\<close>

theorem ring_buffer_fits:
  assumes "ext_laws E V" and "router_inv E V st" and "jrtc_router_register_app E st q = Inr (Some a, st')"
  shows "\<exists>d. dapps st' a = Some d \<and> ring_slots d = q + 1 \<and> (ring_fits V d \<longleftrightarrow> (\<exists>k. q + 1 = 2 ^ k))"
proof -
  have q: "q \<le> JRTC_ROUTER_MAX_APP_QUEUE_SIZE" using assms(3) by (auto simp: jrtc_router_register_app_def split: if_splits)
  have A: "app_inv E V st" using assms(2) by (simp add: router_inv_def)
  have "registered E V st q (jrtc_router_register_app E st q)"
    using register_app_cases [OF assms(1) A q] assms(3) by (auto simp: gave_up_def)
  from registered_inv [OF assms(2) q this] assms(3) obtain i d where "dapps st' = (dapps st)(a \<mapsto> d)" "fresh_dapp V q i d" by auto
  then show ?thesis using round_up_exact [OF q] by (simp add: fresh_dapp_def ring_fits_def)
qed

lemma sim_bad_ring: "\<exists>st'. jrtc_router_register_app sim sim_st0 10 = Inr (Some 1, st')"
proof -
  have "(case jrtc_router_register_app sim sim_st0 10 of Inr (r, _) \<Rightarrow> r | _ \<Rightarrow> None) = Some 1" by code_simp
  then show ?thesis by (auto split: sum.splits prod.splits)
qed

theorem ring_buffer_fits_witness:
  "\<exists>st'. ext_laws sim sim_views \<and> router_inv sim sim_views sim_st0 \<and> jrtc_router_register_app sim sim_st0 10 = Inr (Some 1, st') \<and>
     (\<exists>d. dapps st' 1 = Some d \<and> ring_slots d = 11 \<and> \<not> ring_fits sim_views d)"
proof -
  have inv: "router_inv sim sim_views sim_st0" using sim_run_start by (simp add: initialised_def router_ok_def sim_run_def)
  obtain st' where st': "jrtc_router_register_app sim sim_st0 10 = Inr (Some 1, st')" using sim_bad_ring by blast
  have no: "\<nexists>k. 10 + 1 = (2::nat) ^ k"
  proof
    assume "\<exists>k. 10 + 1 = (2::nat) ^ k"
    then obtain k where "11 = (2::nat) ^ k" by auto
    then show False by (cases k) (auto, presburger)
  qed
  show ?thesis using ring_buffer_fits [OF sim_ext_laws inv st'] sim_ext_laws inv st' no by auto
qed

section \<open>Channels\<close>


lemma sim_one_tables: "map_option (\<lambda>d. chan_table d True) (dapps sim_one 1) = Some []"
  by code_simp


text \<open>The key under which a channel is stored is the address of a by-value parameter of the function
  that created it.  Destroying the channel removes and frees it only while that stack memory still holds
  the channel's id; once it holds other bytes the call does nothing and the channel stays.\<close>

lemma channel_destroy_depends_on_stack:
  assumes "ext_laws E V" and "router_ok E V st" and "channels st c = Some ch" and "dapps st (ch_app_ctx ch) = Some d"
    and "v_ht V (chan_table d (is_output ch)) (ch_stream_id ch) = Some (p, c)"
  shows "(keys_valid V stk (chan_table d (is_output ch)) \<longrightarrow>
      (\<exists>st'. jrtc_router_channel_destroy E st stk (Some c) = Inr st' \<and> router_ok E V st' \<and> channels st' = (channels st)(c := None) \<and>
        v_live V (env st') = v_live V (env st) - {c})) \<and>
    (no_match E V stk (chan_table d (is_output ch)) (ch_stream_id ch) \<longrightarrow> jrtc_router_channel_destroy E st stk (Some c) = Inr st)"
  using channel_destroy_ok [OF assms] channel_destroy_stale [OF assms(1,3,4)] by blast

lemma sim_chan: "\<exists>c st' d. jrtc_router_channel_create sim sim_one Map.empty 99 (Some 1) True 10 64 sid_a None = Inr (Some c, st') \<and>
  router_ok sim sim_views st' \<and> (\<exists>io. channels st' c = Some \<lparr>io_channel = io, ch_stream_id = sid_a, ch_app_ctx = 1, is_output = True\<rparr>) \<and>
  dapps st' 1 = Some d \<and> v_ht sim_views (chan_table d True) = [sid_a \<mapsto> (99, c)]"
proof -
  let ?d = "the (dapps sim_one 1)"
  have t: "chan_table ?d True = []" using sim_one_tables sim_one_dapp by (metis option.map_sel option.sel option.distinct(1))
  have nm: "no_match sim sim_views [99 \<mapsto> sid_a] (chan_table ?d True) sid_a" unfolding t by (simp add: no_match_def sim_views_def)
  have new: "v_ht sim_views (chan_table ?d True) sid_a = None" unfolding t by (simp add: sim_views_def)
  have "(case jrtc_router_channel_create sim sim_one Map.empty 99 (Some 1) True 10 64 sid_a None of Inr (Some c, _) \<Rightarrow> True | _ \<Rightarrow> False)"
    by code_simp
  with channel_create_cases [OF sim_ext_laws sim_one_ok sim_one_dapp new nm, of 10 64 None] obtain c st' where
    c: "jrtc_router_channel_create sim sim_one Map.empty 99 (Some 1) True 10 64 sid_a None = Inr (Some c, st')" "router_ok sim sim_views st'"
      "created sim_views sim_one 1 ?d True 99 sid_a c st'" by auto
  then show ?thesis unfolding created_def t by (auto simp: sim_views_def)
qed

text \<open>Sending a message through an output channel copies it into a reserved buffer without comparing
  lengths: with a buffer available, the copy stays within the buffer exactly when the message is no longer
  than the buffer.\<close>

lemma send_output_msg_bounds:
  assumes "channels st c = Some ch" and "bs \<noteq> []" and "jbpf_io_channel_reserve_buf E (env st) (io_channel ch) = (Some b, e)"
  shows "(jrtc_router_channel_send_output_msg E cap st (Some c) (Some bs) = Inl OutOfBounds) = (cap b < length bs)"
  using assms by (auto simp: jrtc_router_channel_send_output_msg_def channel_at_def split: prod.splits)

text \<open>The processor set that is requested for the router thread has exactly the processors of the
  64-bit mask.\<close>

lemma cpu_affinity_mask:
  "snd (jrtc_router_set_cpu_affinity os True m) = [PthreadSetaffinity (ucast m)] \<and>
   (bit (cpu_set_loop m [0..<64] 0) i \<longleftrightarrow> bit m i)"
proof -
  have "bit (cpu_set_loop m [0..<64] 0) i \<longleftrightarrow> bit m i"
    unfolding cpu_set_loop_mask using bit_imp_le_length [of m i] by (auto simp: bit_ucast_iff)
  then show ?thesis unfolding jrtc_router_set_cpu_affinity_def Let_def cpu_set_loop_mask by simp
qed

end
