(* ===== verification/Logging.thy ===== *)
theory Logging
  imports Prelude
begin

text \<open>
  The logger of \<open>src/logger\<close>: levels and their names, the filter of the default logging function, and the
  prefix that is computed from the source file's path.  The time and the environment are arguments.
\<close>

section \<open>Levels\<close>

datatype jrtc_logging_level = JRTC_DEBUG_LEVEL | JRTC_INFO_LEVEL | JRTC_WARN_LEVEL | JRTC_ERROR_LEVEL | JRTC_CRITICAL_LEVEL

primrec level_num :: "jrtc_logging_level \<Rightarrow> nat" where
  "level_num JRTC_DEBUG_LEVEL = 0"
| "level_num JRTC_INFO_LEVEL = 1"
| "level_num JRTC_WARN_LEVEL = 2"
| "level_num JRTC_ERROR_LEVEL = 3"
| "level_num JRTC_CRITICAL_LEVEL = 4"

primrec STR_level :: "jrtc_logging_level \<Rightarrow> string" where
  "STR_level JRTC_DEBUG_LEVEL = ''[DEBUG]: ''"
| "STR_level JRTC_INFO_LEVEL = ''[INFO]: ''"
| "STR_level JRTC_WARN_LEVEL = ''[WARN]: ''"
| "STR_level JRTC_ERROR_LEVEL = ''[ERROR]: ''"
| "STR_level JRTC_CRITICAL_LEVEL = ''[CRITICAL]: ''"

definition tolower :: "char \<Rightarrow> char" where
  "tolower c = (if 65 \<le> (of_char c :: nat) \<and> (of_char c :: nat) \<le> 90 then char_of ((of_char c :: nat) + 32) else c)"

definition toupper :: "char \<Rightarrow> char" where
  "toupper c = (if 97 \<le> (of_char c :: nat) \<and> (of_char c :: nat) \<le> 122 then char_of ((of_char c :: nat) - 32) else c)"

definition strcaseeq :: "string \<Rightarrow> string \<Rightarrow> bool" where
  "strcaseeq s t \<longleftrightarrow> map tolower s = map tolower t"

definition jrtc_get_logging_level :: "string \<Rightarrow> jrtc_logging_level" where
  "jrtc_get_logging_level s =
     (if strcaseeq s ''DEBUG'' then JRTC_DEBUG_LEVEL
      else if strcaseeq s ''INFO'' then JRTC_INFO_LEVEL
      else if strcaseeq s ''WARN'' \<or> strcaseeq s ''WARNING'' then JRTC_WARN_LEVEL
      else if strcaseeq s ''ERROR'' then JRTC_ERROR_LEVEL
      else if strcaseeq s ''CRITICAL'' \<or> strcaseeq s ''FATAL'' then JRTC_CRITICAL_LEVEL
      else JRTC_DEBUG_LEVEL)"

section \<open>The default logging function\<close>

definition LOGGING_BUFFER_LEN :: nat where
  "LOGGING_BUFFER_LEN = 8192"

text \<open>The functions that print are \<open>jrtc_default_logging\<close> and \<open>jrtc_default_va_logging\<close> or ones that are set; the
  functions of the model are their names.\<close>

datatype log_function = DefaultLogging | OtherLogging nat

record logger =
  jrtc_logger_level :: jrtc_logging_level
  jrtc_logger_fn :: log_function
  jrtc_va_logger_fn :: log_function

definition logger0 :: logger where
  "logger0 = \<lparr>jrtc_logger_level = JRTC_DEBUG_LEVEL, jrtc_logger_fn = DefaultLogging, jrtc_va_logger_fn = DefaultLogging\<rparr>"

definition jrtc_set_logging_level :: "logger \<Rightarrow> jrtc_logging_level \<Rightarrow> logger" where
  "jrtc_set_logging_level l v = l\<lparr>jrtc_logger_level := v\<rparr>"

definition jrtc_set_logging_function :: "logger \<Rightarrow> log_function \<Rightarrow> logger" where
  "jrtc_set_logging_function l f = l\<lparr>jrtc_logger_fn := f\<rparr>"

definition jrtc_set_va_logging_function :: "logger \<Rightarrow> log_function \<Rightarrow> logger" where
  "jrtc_set_va_logging_function l f = l\<lparr>jrtc_va_logger_fn := f\<rparr>"

definition jrtc_get_current_logging_level :: "logger \<Rightarrow> jrtc_logging_level" where
  "jrtc_get_current_logging_level l = jrtc_logger_level l"

datatype log_stream = Stdout | Stderr

text \<open>The stream and the format string that are handed to \<open>vfprintf\<close>; both default functions compute the
  same.  \<open>stamp\<close> is the formatted time.\<close>

definition jrtc_default_logging ::
    "logger \<Rightarrow> string \<Rightarrow> string \<Rightarrow> jrtc_logging_level \<Rightarrow> string \<Rightarrow> (log_stream \<times> string) option" where
  "jrtc_default_logging l stamp domain level s =
     (if level_num (jrtc_logger_level l) \<le> level_num level
      then Some (if level_num JRTC_INFO_LEVEL \<le> level_num level then Stderr else Stdout,
                 take (LOGGING_BUFFER_LEN - 1) (stamp @ '' '' @ domain @ STR_level level @ s))
      else None)"

definition jrtc_default_va_logging ::
    "logger \<Rightarrow> string \<Rightarrow> string \<Rightarrow> jrtc_logging_level \<Rightarrow> string \<Rightarrow> (log_stream \<times> string) option" where
  "jrtc_default_va_logging l stamp domain level s =
     (if level_num (jrtc_logger_level l) \<le> level_num level
      then Some (if level_num JRTC_INFO_LEVEL \<le> level_num level then Stderr else Stdout,
                 take (LOGGING_BUFFER_LEN - 1) (stamp @ '' '' @ domain @ STR_level level @ s))
      else None)"

section \<open>The prefix\<close>

text \<open>\<open>strrchr\<close>, \<open>strchr\<close> and \<open>strstr\<close>: the part of the string from the occurrence on.\<close>

fun strchr :: "string \<Rightarrow> char \<Rightarrow> string option" where
  "strchr [] c = None"
| "strchr (x # xs) c = (if x = c then Some (x # xs) else strchr xs c)"

fun strrchr :: "string \<Rightarrow> char \<Rightarrow> string option" where
  "strrchr [] c = None"
| "strrchr (x # xs) c = (case strrchr xs c of Some r \<Rightarrow> Some r | None \<Rightarrow> if x = c then Some (x # xs) else None)"

fun strstr :: "string \<Rightarrow> string \<Rightarrow> string option" where
  "strstr [] p = (if p = [] then Some [] else None)"
| "strstr (x # xs) p = (if take (length p) (x # xs) = p then Some (x # xs) else strstr xs p)"

definition get_file_name_jrtc :: "string \<Rightarrow> string" where
  "get_file_name_jrtc file = (case strrchr file (CHR ''/'') of Some p \<Rightarrow> drop 1 p | None \<Rightarrow> file)"

definition get_domain_jrtc :: "mem \<Rightarrow> string \<Rightarrow> cstr option \<times> mem" where
  "get_domain_jrtc m file =
     (case strstr file ''src/'' of
        None \<Rightarrow> (None, m)
      | Some p \<Rightarrow>
          (let p = drop 4 p in
           case strchr p (CHR ''/'') of
             None \<Rightarrow> (None, m)
           | Some q \<Rightarrow>
               (let len = length p - length q in
                case malloc m of
                  (None, m) \<Rightarrow> (None, m)
                | (Some a, m) \<Rightarrow> (Some (a, map toupper (take len p)), m))))"

text \<open>\<open>lines\<close> is the decimal form of the line number.\<close>

definition get_log_prefix_jrtc :: "mem \<Rightarrow> bool \<Rightarrow> string \<Rightarrow> string \<Rightarrow> string \<Rightarrow> ub + (string \<times> mem)" where
  "get_log_prefix_jrtc m verbose file func line =
     (case get_domain_jrtc m file of
        (dm, m) \<Rightarrow>
          (let d = (case dm of None \<Rightarrow> ''[JRTC]'' | Some (_, s) \<Rightarrow> ''[JRTC]['' @ s @ '']'');
               text = (if verbose then d @ '':'' @ get_file_name_jrtc file @ '':'' @ func @ '':'' @ line else d)
           in bindS (free_opt m dm) (\<lambda>m. Inr (take 255 text, m))))"

section \<open>Facts\<close>

lemma strrchr_Some: "strrchr s c = Some r \<Longrightarrow> \<exists>d b. s = d @ r \<and> r = c # b \<and> c \<notin> set b"
proof (induction s)
  case (Cons x xs)
  show ?case
  proof (cases "strrchr xs c")
    case None
    then have "c \<notin> set xs" by (induction xs) (auto split: option.splits if_splits)
    then show ?thesis using Cons.prems None by (auto split: if_splits)
  next
    case (Some r')
    then obtain d b where "xs = d @ r'" "r' = c # b" "c \<notin> set b" using Cons.IH Cons.prems by auto
    then have "x # xs = (x # d) @ r \<and> r = c # b \<and> c \<notin> set b" using Cons.prems Some by simp
    then show ?thesis by blast
  qed
qed simp

lemma strrchr_None: "strrchr s c = None \<longleftrightarrow> c \<notin> set s"
  by (induction s) (auto split: option.splits)

text \<open>The file name is the part after the last slash.\<close>

lemma get_file_name_base: "CHR ''/'' \<notin> set (get_file_name_jrtc file) \<and> (\<exists>d. file = d @ get_file_name_jrtc file)"
proof (cases "strrchr file (CHR ''/'')")
  case None
  then show ?thesis using strrchr_None [of "file" "CHR ''/''"] by (simp add: get_file_name_jrtc_def)
next
  case (Some r)
  then show ?thesis using strrchr_Some [OF Some] by (auto simp: get_file_name_jrtc_def)
qed

lemma get_domain_grows: "mem_wf m \<Longrightarrow> get_domain_jrtc m file = (d, m') \<Longrightarrow> grows m m' (blocks [d])"
  by (auto simp: get_domain_jrtc_def Let_def grows_refl malloc_grows malloc_fails_grows split: option.splits prod.splits)

text \<open>Computing the prefix of a log line never overruns its buffer of 256 characters, leaves the heap
  as it was, and a message is printed exactly when its level is at least the current one.\<close>

lemma log_line_ok:
  assumes "mem_wf m"
  shows "(\<exists>p m'. get_log_prefix_jrtc m verbose file func line = Inr (p, m') \<and> length p < 256 \<and> live m' = live m) \<and>
    (jrtc_default_logging l stamp domain level s \<noteq> None \<longleftrightarrow> level_num (jrtc_logger_level l) \<le> level_num level)"
proof -
  obtain d m1 where d: "get_domain_jrtc m file = (d, m1)" by fastforce
  have g: "grows m m1 (blocks [d])" using get_domain_grows [OF assms d] .
  have "\<exists>m'. free_opt m1 d = Inr m' \<and> live m' = live m"
    using g by (cases d) (auto simp: free_opt_def free_def grows_def)
  then show ?thesis using d by (auto simp: get_log_prefix_jrtc_def Let_def jrtc_default_logging_def)
qed

end
