(* ===== verification/Config.thy ===== *)
theory Config
  imports Config_Types Logging
begin

text \<open>
  Reading the configuration: \<open>src/controller/jrtc_config.c\<close>.  The YAML parser is not part of this repository;
  the sequence of its events is an argument.  So are the environment and the constants of jbpf.
\<close>

section \<open>Expansion of environment variables\<close>

text \<open>The regular expression finds the leftmost dollar sign and opening brace that are followed by at least
  one character other than a closing brace and then a closing brace.  \<open>var_at\<close> is given what follows the
  opening brace.\<close>

definition var_at :: "string \<Rightarrow> (string \<times> string) option" where
  "var_at s =
     (let name = takeWhile (\<lambda>c. c \<noteq> CHR ''}'') s; rest = dropWhile (\<lambda>c. c \<noteq> CHR ''}'') s
      in if name = [] \<or> rest = [] then None else Some (name, tl rest))"

fun find_var :: "string \<Rightarrow> (string \<times> string \<times> string) option" where
  "find_var [] = None"
| "find_var (c # s) =
     (let here = (if c = CHR ''$'' then (case s of [] \<Rightarrow> None | d # r \<Rightarrow> if d = CHR ''{'' then var_at r else None) else None)
      in case here of
           Some (name, suf) \<Rightarrow> Some ([], name, suf)
         | None \<Rightarrow> (case find_var s of None \<Rightarrow> None | Some (pre, name, suf) \<Rightarrow> Some (c # pre, name, suf)))"

text \<open>The loop replaces one variable in each iteration; \<open>None\<close> is running out of fuel.  The name is copied into an
  array of 256 characters.\<close>

fun expand_loop :: "nat \<Rightarrow> (string \<Rightarrow> string option) \<Rightarrow> mem \<Rightarrow> cstr \<Rightarrow> (ub + (cstr option \<times> mem)) option" where
  "expand_loop 0 getenv m e = None"
| "expand_loop (Suc n) getenv m (a, s) =
     (case find_var s of
        None \<Rightarrow> Some (Inr (Some (a, s), m))
      | Some (pre, name, suf) \<Rightarrow>
          if 256 \<le> length name then Some (Inl OutOfBounds)
          else
            (let env_value = (case getenv name of None \<Rightarrow> [] | Some v \<Rightarrow> v)
             in case malloc m of
                  (None, m) \<Rightarrow> Some (bindS (free m a) (\<lambda>m. Inr (None, m)))
                | (Some b, m) \<Rightarrow>
                    (case free m a of
                       Inl u \<Rightarrow> Some (Inl u)
                     | Inr m \<Rightarrow> expand_loop n getenv m (b, pre @ env_value @ suf))))"

text \<open>\<open>re\<close> is the result of \<open>regcomp\<close>.\<close>

definition expand_env_vars ::
    "nat \<Rightarrow> int \<Rightarrow> (string \<Rightarrow> string option) \<Rightarrow> mem \<Rightarrow> string option \<Rightarrow> (ub + (cstr option \<times> mem)) option" where
  "expand_env_vars n re getenv m input =
     (case input of
        None \<Rightarrow> Some (Inr (None, m))
      | Some s \<Rightarrow>
          (case malloc m of
             (None, m) \<Rightarrow> Some (Inr (None, m))
           | (Some a, m) \<Rightarrow>
               if re \<noteq> 0 then Some (bindS (free m a) (\<lambda>m. Inr (None, m)))
               else expand_loop n getenv m (a, s)))"

section \<open>Defaults\<close>

record jbpf_consts =
  JBPF_DEFAULT_RUN_PATH :: string
  JBPF_DEFAULT_NAMESPACE :: string
  JBPF_RUN_PATH_LEN :: nat
  JBPF_NAMESPACE_LEN :: nat
  JBPF_IO_IPC_MAX_NAMELEN :: nat

definition DEFAULT_JRTC_NAME :: string where
  "DEFAULT_JRTC_NAME = ''jrt_controller''"

definition DEFAULT_PORT :: int where
  "DEFAULT_PORT = 3001"

text \<open>\<open>strncpy\<close> into a zeroed or terminated array of the given size keeps one character less.\<close>

definition str_in :: "nat \<Rightarrow> string \<Rightarrow> string" where
  "str_in size_of s = take (size_of - 1) s"

text \<open>The name of the router's IPC is an array of 32 characters that is filled up to the library's maximal
  name length.\<close>

definition init_jrtc_config :: "jbpf_consts \<Rightarrow> ub + jrtc_config" where
  "init_jrtc_config K =
     (if 32 < JBPF_IO_IPC_MAX_NAMELEN K then Inl OutOfBounds
      else Inr
        \<lparr>router_config =
           \<lparr>thread_config =
              \<lparr>has_affinity_mask = False, affinity_mask = push_bit 1 1, has_sched_config = False,
               sched_config = \<lparr>sched_policy = 0, sched_priority = 99, sched_runtime = 10 * 1000 * 1000,
                 sched_deadline = 30 * 1000 * 1000, sched_period = 30 * 1000 * 1000\<rparr>\<rparr>,
            ipc_name = str_in (JBPF_IO_IPC_MAX_NAMELEN K) DEFAULT_JRTC_NAME\<rparr>,
         io_config =
           \<lparr>io_primary = True, memory_size = 1024 * 1024 * 1024,
            jbpf_path = str_in (JBPF_RUN_PATH_LEN K) (JBPF_DEFAULT_RUN_PATH K),
            jbpf_namespace = str_in (JBPF_NAMESPACE_LEN K) (JBPF_DEFAULT_NAMESPACE K),
            jbpf_io_ipc_name = str_in (JBPF_IO_IPC_MAX_NAMELEN K) DEFAULT_JRTC_NAME\<rparr>,
         port = DEFAULT_PORT\<rparr>)"

section \<open>Numbers\<close>

text \<open>\<open>strtol\<close>: white space, a sign, digits, with saturation; \<open>atoi\<close> keeps the low 32 bits of it.\<close>

definition is_digit :: "char \<Rightarrow> bool" where
  "is_digit c \<longleftrightarrow> 48 \<le> (of_char c :: nat) \<and> (of_char c :: nat) \<le> 57"

definition is_space :: "char \<Rightarrow> bool" where
  "is_space c \<longleftrightarrow> (of_char c :: nat) = 32 \<or> 9 \<le> (of_char c :: nat) \<and> (of_char c :: nat) \<le> 13"

definition digits_value :: "string \<Rightarrow> int" where
  "digits_value s = foldl (\<lambda>n c. 10 * n + (int (of_char c) - 48)) 0 (takeWhile is_digit s)"

definition strtoll :: "string \<Rightarrow> int" where
  "strtoll s =
     (let s = dropWhile is_space s;
          v = (case s of
                 [] \<Rightarrow> 0
               | c # r \<Rightarrow> if c = CHR ''-'' then - digits_value r else if c = CHR ''+'' then digits_value r else digits_value s)
      in max (- (2 ^ 63)) (min (2 ^ 63 - 1) v))"

definition atoi :: "string \<Rightarrow> int" where
  "atoi s = signed_take_bit 31 (strtoll s)"

definition atoll :: "string \<Rightarrow> int" where
  "atoll s = strtoll s"

section \<open>Events\<close>

datatype yaml_event = Scalar string | MappingStart | MappingEnd | StreamEnd | OtherEvent

record config_state =
  cs_key :: string
  in_jrtc_router_config :: bool
  in_thread_config :: bool
  in_sched_config :: bool
  in_jbpf_io_config :: bool
  in_logging :: bool
  cs_config :: jrtc_config
  cs_logger :: logger
  jbpf_level :: jrtc_logging_level

definition upd_thread :: "(jrtc_router_thread_config \<Rightarrow> jrtc_router_thread_config) \<Rightarrow> jrtc_config \<Rightarrow> jrtc_config" where
  "upd_thread f c = c\<lparr>router_config := (router_config c)\<lparr>thread_config := f (thread_config (router_config c))\<rparr>\<rparr>"

definition upd_sched :: "(jrtc_router_sched_config \<Rightarrow> jrtc_router_sched_config) \<Rightarrow> jrtc_config \<Rightarrow> jrtc_config" where
  "upd_sched f = upd_thread (\<lambda>t. t\<lparr>sched_config := f (sched_config t)\<rparr>)"

definition upd_io :: "(jbpf_io_config \<Rightarrow> jbpf_io_config) \<Rightarrow> jrtc_config \<Rightarrow> jrtc_config" where
  "upd_io f c = c\<lparr>io_config := f (io_config c)\<rparr>"

definition upd_router :: "(jrtc_router_config \<Rightarrow> jrtc_router_config) \<Rightarrow> jrtc_config \<Rightarrow> jrtc_config" where
  "upd_router f c = c\<lparr>router_config := f (router_config c)\<rparr>"

text \<open>What a value does under the current key, by the mapping the parser is in.\<close>

definition set_thread_value :: "string \<Rightarrow> string \<Rightarrow> jrtc_config \<Rightarrow> jrtc_config" where
  "set_thread_value key v =
     (if key = ''affinity_mask'' then upd_thread (\<lambda>t. t\<lparr>affinity_mask := of_int (atoi v)\<rparr>)
      else if key = ''has_sched_config'' then upd_thread (\<lambda>t. t\<lparr>has_sched_config := v = ''true''\<rparr>)
      else (\<lambda>c. c))"

definition set_sched_value :: "string \<Rightarrow> string \<Rightarrow> jrtc_config \<Rightarrow> jrtc_config" where
  "set_sched_value key v =
     (if key = ''sched_policy'' then upd_sched (\<lambda>s. s\<lparr>sched_policy := atoi v\<rparr>)
      else if key = ''sched_priority'' then upd_sched (\<lambda>s. s\<lparr>sched_priority := atoi v\<rparr>)
      else if key = ''sched_deadline'' then upd_sched (\<lambda>s. s\<lparr>sched_deadline := of_int (atoll v)\<rparr>)
      else if key = ''sched_runtime'' then upd_sched (\<lambda>s. s\<lparr>sched_runtime := of_int (atoll v)\<rparr>)
      else if key = ''sched_period'' then upd_sched (\<lambda>s. s\<lparr>sched_period := of_int (atoll v)\<rparr>)
      else (\<lambda>c. c))"

definition set_io_value :: "jbpf_consts \<Rightarrow> string \<Rightarrow> string \<Rightarrow> jrtc_config \<Rightarrow> jrtc_config" where
  "set_io_value K key v =
     (if key = ''jbpf_namespace'' then upd_io (\<lambda>i. i\<lparr>jbpf_namespace := str_in (JBPF_NAMESPACE_LEN K) v\<rparr>)
      else if key = ''jbpf_path'' then upd_io (\<lambda>i. i\<lparr>jbpf_path := str_in (JBPF_RUN_PATH_LEN K) v\<rparr>)
      else (\<lambda>c. c))"

definition set_router_value :: "jbpf_consts \<Rightarrow> string \<Rightarrow> string \<Rightarrow> jrtc_config \<Rightarrow> jrtc_config" where
  "set_router_value K key v =
     (if key = ''ipc_name''
      then upd_io (\<lambda>i. i\<lparr>jbpf_io_ipc_name := str_in (JBPF_IO_IPC_MAX_NAMELEN K) v\<rparr>) \<circ> upd_router (\<lambda>r. r\<lparr>ipc_name := str_in 32 v\<rparr>)
      else if key = ''port'' then (\<lambda>c. c\<lparr>port := atoi v\<rparr>)
      else (\<lambda>c. c))"

definition set_logging_value :: "string \<Rightarrow> string \<Rightarrow> config_state \<Rightarrow> config_state" where
  "set_logging_value key v st =
     (if key = ''jrtc_level'' then st\<lparr>cs_logger := jrtc_set_logging_level (cs_logger st) (jrtc_get_logging_level v)\<rparr>
      else if key = ''jbpf_level'' then st\<lparr>jbpf_level := jrtc_get_logging_level v\<rparr>
      else st)"

definition set_value :: "jbpf_consts \<Rightarrow> string \<Rightarrow> config_state \<Rightarrow> config_state" where
  "set_value K v st =
     (let key = cs_key st in
      if in_thread_config st \<and> \<not> in_sched_config st then st\<lparr>cs_config := set_thread_value key v (cs_config st)\<rparr>
      else if in_sched_config st then st\<lparr>cs_config := set_sched_value key v (cs_config st)\<rparr>
      else if in_jbpf_io_config st then st\<lparr>cs_config := set_io_value K key v (cs_config st)\<rparr>
      else if in_jrtc_router_config st then st\<lparr>cs_config := set_router_value K key v (cs_config st)\<rparr>
      else if in_logging st then set_logging_value key v st
      else st)"

text \<open>Whether the value is looked at under the current key: then a failed expansion is a null pointer that is
  read.\<close>

definition reads_value :: "config_state \<Rightarrow> bool" where
  "reads_value st =
     (let key = cs_key st in
      if in_thread_config st \<and> \<not> in_sched_config st then key \<in> {''affinity_mask'', ''has_sched_config''}
      else if in_sched_config st then key \<in> {''sched_policy'', ''sched_priority'', ''sched_deadline'', ''sched_runtime'', ''sched_period''}
      else if in_jbpf_io_config st then key \<in> {''jbpf_namespace'', ''jbpf_path''}
      else if in_jrtc_router_config st then key \<in> {''ipc_name'', ''port''}
      else if in_logging st then key \<in> {''jrtc_level'', ''jbpf_level''}
      else False)"

definition scalar_event ::
    "jbpf_consts \<Rightarrow> nat \<Rightarrow> int \<Rightarrow> (string \<Rightarrow> string option) \<Rightarrow> mem \<Rightarrow> config_state \<Rightarrow> string \<Rightarrow> (ub + (mem \<times> config_state)) option" where
  "scalar_event K n re getenv m st v =
     (if cs_key st = [] then Some (Inr (m, st\<lparr>cs_key := take 255 v\<rparr>))
      else
        (case expand_env_vars n re getenv m (Some v) of
           None \<Rightarrow> None
         | Some (Inl u) \<Rightarrow> Some (Inl u)
         | Some (Inr (None, m)) \<Rightarrow> Some (if reads_value st then Inl NullDeref else Inr (m, st\<lparr>cs_key := []\<rparr>))
         | Some (Inr (Some (a, s), m)) \<Rightarrow>
             Some (bindS (free m a) (\<lambda>m. Inr (m, (set_value K s st)\<lparr>cs_key := []\<rparr>)))))"

definition mapping_start :: "config_state \<Rightarrow> config_state" where
  "mapping_start st =
     (let key = cs_key st;
          st = (if key = ''jrtc_router_config'' then st\<lparr>in_jrtc_router_config := True\<rparr>
                else if key = ''thread_config'' \<and> in_jrtc_router_config st then st\<lparr>in_thread_config := True\<rparr>
                else if key = ''sched_config'' \<and> in_thread_config st then st\<lparr>in_sched_config := True\<rparr>
                else if key = ''jbpf_io_config'' then st\<lparr>in_jbpf_io_config := True\<rparr>
                else if key = ''logging'' then st\<lparr>in_logging := True\<rparr>
                else st)
      in st\<lparr>cs_key := []\<rparr>)"

definition mapping_end :: "config_state \<Rightarrow> config_state" where
  "mapping_end st =
     (if in_sched_config st then st\<lparr>in_sched_config := False\<rparr>
      else if in_thread_config st then st\<lparr>in_thread_config := False\<rparr>
      else if in_jrtc_router_config st then st\<lparr>in_jrtc_router_config := False\<rparr>
      else if in_jbpf_io_config st then st\<lparr>in_jbpf_io_config := False\<rparr>
      else st)"

text \<open>The loop over the events.  An event of \<open>None\<close> is a parse error; the list ends before the stream only if
  the parser never returns.\<close>

fun config_loop ::
    "jbpf_consts \<Rightarrow> nat \<Rightarrow> int \<Rightarrow> (string \<Rightarrow> string option) \<Rightarrow> mem \<Rightarrow> config_state \<Rightarrow> yaml_event option list \<Rightarrow>
     (ub + (int \<times> mem \<times> config_state)) option" where
  "config_loop K n re getenv m st [] = None"
| "config_loop K n re getenv m st (None # evs) = Some (Inr (-1, m, st))"
| "config_loop K n re getenv m st (Some ev # evs) =
     (case ev of
        StreamEnd \<Rightarrow> Some (Inr (0, m, st))
      | Scalar v \<Rightarrow>
          (case scalar_event K n re getenv m st v of
             None \<Rightarrow> None
           | Some (Inl u) \<Rightarrow> Some (Inl u)
           | Some (Inr (m, st)) \<Rightarrow> config_loop K n re getenv m st evs)
      | MappingStart \<Rightarrow> config_loop K n re getenv m (mapping_start st) evs
      | MappingEnd \<Rightarrow> config_loop K n re getenv m (mapping_end st) evs
      | OtherEvent \<Rightarrow> config_loop K n re getenv m st evs)"

definition config_start :: "jrtc_config \<Rightarrow> logger \<Rightarrow> jrtc_logging_level \<Rightarrow> config_state" where
  "config_start c l jl =
     \<lparr>cs_key = [], in_jrtc_router_config = False, in_thread_config = False, in_sched_config = False,
      in_jbpf_io_config = False, in_logging = False, cs_config = c, cs_logger = l, jbpf_level = jl\<rparr>"

text \<open>The file is absent, or the parser cannot be set up, or its events are given.\<close>

datatype yaml_file = NoFile | NoParser | Events "yaml_event option list"

definition set_config_values ::
    "jbpf_consts \<Rightarrow> nat \<Rightarrow> int \<Rightarrow> (string \<Rightarrow> string option) \<Rightarrow> mem \<Rightarrow> logger \<Rightarrow> jrtc_logging_level \<Rightarrow> yaml_file option \<Rightarrow>
     (ub + (int \<times> mem \<times> config_state)) option" where
  "set_config_values K n re getenv m l jl filename =
     (case init_jrtc_config K of
        Inl u \<Rightarrow> Some (Inl u)
      | Inr c \<Rightarrow>
          (let st = config_start c l jl in
           case filename of
             None \<Rightarrow> Some (Inr (0, m, st))
           | Some NoFile \<Rightarrow> Some (Inr (-1, m, st))
           | Some NoParser \<Rightarrow> Some (Inr (-1, m, st))
           | Some (Events evs) \<Rightarrow> config_loop K n re getenv m st evs))"

end
