(* ===== verification/Config_Props.thy ===== *)
theory Config_Props
  imports Config Router_Init
begin

text \<open>
  Properties of the configuration: when the expansion of variables ends, what a document sets, and what no
  document can set.
\<close>

section \<open>Expansion\<close>

lemma var_at_Some: "var_at s = Some (name, suf) \<Longrightarrow> name \<noteq> [] \<and> s = name @ ''}'' @ suf"
proof -
  assume v: "var_at s = Some (name, suf)"
  let ?P = "\<lambda>c. c \<noteq> CHR ''}''"
  have ne: "dropWhile ?P s \<noteq> []" and n: "name = takeWhile ?P s" "name \<noteq> []" and f: "suf = tl (dropWhile ?P s)"
    using v by (auto simp: var_at_def Let_def split: if_splits)
  have "hd (dropWhile ?P s) = CHR ''}''" using hd_dropWhile [OF ne] by simp
  then have d: "dropWhile ?P s = ''}'' @ suf" using list.collapse [OF ne] f by simp
  have "s = takeWhile ?P s @ dropWhile ?P s" by (rule takeWhile_dropWhile_id [symmetric])
  also have "\<dots> = name @ ''}'' @ suf" unfolding d n(1) [symmetric] by (rule refl)
  finally show ?thesis using n(2) by blast
qed

lemma find_var_Some: "find_var s = Some (pre, name, suf) \<Longrightarrow> s = pre @ ''${'' @ name @ ''}'' @ suf \<and> name \<noteq> []"
proof (induction s arbitrary: pre)
  case (Cons c s)
  define here where "here = (if c = CHR ''$'' then (case s of [] \<Rightarrow> None | d # r \<Rightarrow> if d = CHR ''{'' then var_at r else None) else None)"
  have f: "find_var (c # s) = (case here of Some (name, suf) \<Rightarrow> Some ([], name, suf)
      | None \<Rightarrow> (case find_var s of None \<Rightarrow> None | Some (pre, name, suf) \<Rightarrow> Some (c # pre, name, suf)))"
    by (simp add: here_def Let_def)
  show ?case
  proof (cases here)
    case None
    then show ?thesis using f Cons by (auto split: option.splits)
  next
    case (Some q)
    then have p: "pre = []" "here = Some (name, suf)" using f Cons.prems by (auto split: prod.splits)
    then obtain r where "c = CHR ''$''" "s = CHR ''{'' # r" "var_at r = Some (name, suf)"
      unfolding here_def by (auto split: if_splits list.splits)
    then show ?thesis using var_at_Some [of r name suf] p(1) by simp
  qed
qed simp

text \<open>What the expansion leaves: an overrun of the name's buffer, nothing, or one new string with no variable
  in it.  \<open>L\<close> are the blocks that it does not own.\<close>

definition expanded :: "addr set \<Rightarrow> ub + (cstr option \<times> mem) \<Rightarrow> bool" where
  "expanded L r \<longleftrightarrow>
     (case r of
        Inl u \<Rightarrow> u = OutOfBounds
      | Inr (None, m') \<Rightarrow> live m' = L
      | Inr (Some (b, t), m') \<Rightarrow> find_var t = None \<and> b \<notin> L \<and> live m' = insert b L)"

lemma expand_loop_ok:
  assumes "mem_wf m" and "a \<in> live m" and env: "\<And>x v. getenv x = Some v \<Longrightarrow> CHR ''$'' \<notin> set v"
    and "count_list s (CHR ''$'') < n"
  shows "\<exists>r. expand_loop n getenv m (a, s) = Some r \<and> expanded (live m - {a}) r"
  using assms(1,2,4)
proof (induction n arbitrary: m a s)
  case (Suc n)
  show ?case
  proof (cases "find_var s")
    case None
    then show ?thesis using Suc.prems(2) by (auto simp: expanded_def)
  next
    case (Some p)
    then obtain pre name suf where v: "find_var s = Some (pre, name, suf)" by (metis prod_cases3)
    define w where "w = (case getenv name of None \<Rightarrow> [] | Some v \<Rightarrow> v)"
    have cw: "count_list w (CHR ''$'') = 0" using env by (auto simp: w_def count_list_0_iff split: option.split)
    have s: "s = pre @ ''${'' @ name @ ''}'' @ suf" using find_var_Some [OF v] by simp
    have c: "count_list (pre @ w @ suf) (CHR ''$'') < n" using Suc.prems(3) cw by (simp add: s)
    show ?thesis
    proof (cases "256 \<le> length name")
      case True
      then show ?thesis using v by (simp add: expanded_def)
    next
      case False
      obtain r m1 where mm: "malloc m = (r, m1)" by fastforce
      show ?thesis
      proof (cases r)
        case None
        then show ?thesis using v False mm malloc_None [of m m1] Suc.prems(2)
          by (simp add: expanded_def free_live)
      next
        case (Some b)
        then have 1: "mem_wf m1" "b \<notin> live m" "live m1 = insert b (live m)"
          using mm Suc.prems(1) malloc_wf malloc_fresh malloc_Some by auto
        let ?m2 = "m1\<lparr>live := live m1 - {a}\<rparr>"
        have f: "free m1 a = Inr ?m2" using 1(3) Suc.prems(2) by (simp add: free_live)
        have "mem_wf ?m2" using free_wf [OF 1(1) f] .
        moreover have "b \<in> live ?m2" using 1 Suc.prems(2) by auto
        moreover have "live ?m2 - {b} = live m - {a}" using 1 by auto
        ultimately show ?thesis using Suc.IH [of ?m2 b "pre @ w @ suf"] c v False mm Some f by (simp add: w_def)
      qed
    qed
  qed
qed simp


definition env_home :: "string \<Rightarrow> string option" where
  "env_home x = (if x = ''HOME'' then Some ''/root'' else None)"

lemma env_home_plain: "env_home x = Some v \<Longrightarrow> CHR ''$'' \<notin> set v"
  by (auto simp: env_home_def split: if_splits)

definition heap0 :: mem where
  "heap0 = \<lparr>live = {}, next_addr = 1, oom = (\<lambda>_. False)\<rparr>"

lemma heap0_wf [simp]: "mem_wf heap0" "live heap0 = {}" "\<not> oom heap0 k"
  by (simp_all add: heap0_def mem_wf_def)


lemma self_reference:
  assumes "getenv ''A'' = Some ''${A}''" and "\<And>k. \<not> oom m k" and "mem_wf m" and "a \<in> live m"
  shows "expand_loop n getenv m (a, ''${A}'') = None"
  using assms(2,3,4)
proof (induction n arbitrary: m a)
  case (Suc n)
  obtain b m1 where mm: "malloc m = (Some b, m1)" using Suc.prems(1) by (auto simp: malloc_def)
  have 1: "mem_wf m1" "b \<notin> live m" "live m1 = insert b (live m)" "oom m1 = oom m"
    using mm Suc.prems(2) malloc_wf malloc_fresh malloc_Some by auto
  let ?m2 = "m1\<lparr>live := live m1 - {a}\<rparr>"
  have f: "free m1 a = Inr ?m2" using 1(3) Suc.prems(3) by (simp add: free_live)
  have "expand_loop n getenv ?m2 (b, ''${A}'') = None"
    using Suc.IH [of ?m2 b] free_wf [OF 1(1) f] 1 Suc.prems by auto
  then show ?case using mm f assms(1) by (simp add: var_at_def)
qed simp

text \<open>A variable whose value refers to itself is expanded for ever: whatever the number of iterations, the
  expansion has not returned.\<close>

lemma expand_self_reference_diverges:
  assumes "getenv ''A'' = Some ''${A}''" and "\<And>k. \<not> oom m k" and "mem_wf m"
  shows "expand_env_vars n 0 getenv m (Some ''${A}'') = None"
proof -
  obtain b m1 where mm: "malloc m = (Some b, m1)" using assms(2) by (auto simp: malloc_def)
  then have "expand_loop n getenv m1 (b, ''${A}'') = None"
    using self_reference [of getenv m1 b n] assms malloc_wf malloc_Some by auto
  then show ?thesis using mm by (simp add: expand_env_vars_def)
qed

section \<open>Documents without variables\<close>

text \<open>The effect of an event on the state where its scalar has no variable and memory suffices.\<close>

definition plain_step :: "jbpf_consts \<Rightarrow> config_state \<Rightarrow> yaml_event \<Rightarrow> config_state" where
  "plain_step K st ev =
     (case ev of
        Scalar v \<Rightarrow> if cs_key st = [] then st\<lparr>cs_key := take 255 v\<rparr> else (set_value K v st)\<lparr>cs_key := []\<rparr>
      | MappingStart \<Rightarrow> mapping_start st
      | MappingEnd \<Rightarrow> mapping_end st
      | StreamEnd \<Rightarrow> st
      | OtherEvent \<Rightarrow> st)"

definition plain :: "yaml_event \<Rightarrow> bool" where
  "plain ev \<longleftrightarrow> (case ev of Scalar v \<Rightarrow> find_var v = None | StreamEnd \<Rightarrow> False | _ \<Rightarrow> True)"

lemma scalar_plain:
  assumes "find_var v = None" and "\<And>k. \<not> oom m k" and "mem_wf m"
  obtains m' where "scalar_event K (Suc n) 0 getenv m st v = Some (Inr (m', plain_step K st (Scalar v)))"
    and "\<And>k. \<not> oom m' k" and "mem_wf m'" and "live m' = live m"
proof (cases "cs_key st = []")
  case True
  show ?thesis by (rule that [of m]) (use True assms in \<open>simp_all add: scalar_event_def plain_step_def\<close>)
next
  case False
  obtain b m1 where mm: "malloc m = (Some b, m1)" using assms(2) by (auto simp: malloc_def)
  have 1: "mem_wf m1" "b \<notin> live m" "live m1 = insert b (live m)" "oom m1 = oom m"
    using mm assms(3) malloc_wf malloc_fresh malloc_Some by auto
  let ?m2 = "m1\<lparr>live := live m1 - {b}\<rparr>"
  have f: "free m1 b = Inr ?m2" using 1(3) by (simp add: free_live)
  show ?thesis
    by (rule that [of ?m2])
      (use False mm assms 1 f free_wf [OF 1(1) f] in \<open>simp_all add: scalar_event_def plain_step_def expand_env_vars_def\<close>)
qed

text \<open>The loop computes the sequence of these steps.\<close>

lemma config_loop_plain:
  assumes "list_all plain evs" and "\<And>k. \<not> oom m k" and "mem_wf m"
  shows "\<exists>m'. config_loop K (Suc n) 0 getenv m st (map Some evs @ [Some StreamEnd]) = Some (Inr (0, m', foldl (plain_step K) st evs)) \<and>
    live m' = live m"
  using assms
proof (induction evs arbitrary: st m)
  case (Cons ev evs)
  have rest: "list_all plain evs" using Cons.prems(1) by simp
  note step = Cons.IH [OF rest Cons.prems(2,3), of "plain_step K st ev"]
  show ?case
  proof (cases ev)
    case (Scalar v)
    then have "find_var v = None" using Cons.prems(1) by (simp add: plain_def)
    then obtain m1 where 1: "scalar_event K (Suc n) 0 getenv m st v = Some (Inr (m1, plain_step K st (Scalar v)))"
      and 2: "\<And>k. \<not> oom m1 k" "mem_wf m1" "live m1 = live m"
      by (rule scalar_plain [OF _ Cons.prems(2,3)]) blast+
    show ?thesis using Cons.IH [OF rest 2(1,2), of "plain_step K st ev"] 1 2(3) Scalar by simp
  next
    case StreamEnd
    then show ?thesis using Cons.prems(1) by (simp add: plain_def)
  qed (use step in \<open>simp_all add: plain_step_def\<close>)
qed simp

text \<open>A document with every setting, in the layout of \<open>jrtc_config_sample.yaml\<close> and the tests: the router with its
  thread and scheduling parameters, the IO library, and logging.\<close>

definition document :: "(string \<Rightarrow> string) \<Rightarrow> yaml_event list" where
  "document v =
     [OtherEvent, OtherEvent, MappingStart,
      Scalar ''jrtc_router_config'', MappingStart,
        Scalar ''ipc_name'', Scalar (v ''ipc_name''), Scalar ''port'', Scalar (v ''port''),
        Scalar ''thread_config'', MappingStart,
          Scalar ''affinity_mask'', Scalar (v ''affinity_mask''), Scalar ''has_sched_config'', Scalar (v ''has_sched_config''),
          Scalar ''sched_config'', MappingStart,
            Scalar ''sched_policy'', Scalar (v ''sched_policy''), Scalar ''sched_priority'', Scalar (v ''sched_priority''),
            Scalar ''sched_deadline'', Scalar (v ''sched_deadline''), Scalar ''sched_runtime'', Scalar (v ''sched_runtime''),
            Scalar ''sched_period'', Scalar (v ''sched_period''), MappingEnd, MappingEnd, MappingEnd,
      Scalar ''jbpf_io_config'', MappingStart,
        Scalar ''jbpf_namespace'', Scalar (v ''jbpf_namespace''), Scalar ''jbpf_path'', Scalar (v ''jbpf_path''), MappingEnd,
      Scalar ''logging'', MappingStart,
        Scalar ''jrtc_level'', Scalar (v ''jrtc_level''), Scalar ''jbpf_level'', Scalar (v ''jbpf_level''), MappingEnd,
      MappingEnd, OtherEvent]"

text \<open>The configuration that it describes.\<close>

definition described :: "jbpf_consts \<Rightarrow> (string \<Rightarrow> string) \<Rightarrow> jrtc_config" where
  "described K v =
     \<lparr>router_config =
        \<lparr>thread_config =
           \<lparr>has_affinity_mask = False, affinity_mask = of_int (atoi (v ''affinity_mask'')),
            has_sched_config = v ''has_sched_config'' = ''true'',
            sched_config = \<lparr>sched_policy = atoi (v ''sched_policy''), sched_priority = atoi (v ''sched_priority''),
              sched_runtime = of_int (atoll (v ''sched_runtime'')), sched_deadline = of_int (atoll (v ''sched_deadline'')),
              sched_period = of_int (atoll (v ''sched_period''))\<rparr>\<rparr>,
         ipc_name = str_in 32 (v ''ipc_name'')\<rparr>,
      io_config =
        \<lparr>io_primary = True, memory_size = 1024 * 1024 * 1024, jbpf_path = str_in (JBPF_RUN_PATH_LEN K) (v ''jbpf_path''),
         jbpf_namespace = str_in (JBPF_NAMESPACE_LEN K) (v ''jbpf_namespace''),
         jbpf_io_ipc_name = str_in (JBPF_IO_IPC_MAX_NAMELEN K) (v ''ipc_name'')\<rparr>,
      port = atoi (v ''port'')\<rparr>"

lemmas value_defs = set_value_def set_thread_value_def set_sched_value_def set_io_value_def set_router_value_def
  set_logging_value_def upd_thread_def upd_sched_def upd_io_def upd_router_def

lemma document_plain: "(\<And>k. find_var (v k) = None) \<Longrightarrow> list_all plain (document v)"
  by (simp add: document_def plain_def)

lemma document_steps:
  assumes "init_jrtc_config K = Inr c"
  shows "cs_config (foldl (plain_step K) (config_start c l jl) (document v)) = described K v"
    and "cs_logger (foldl (plain_step K) (config_start c l jl) (document v)) = l\<lparr>jrtc_logger_level := jrtc_get_logging_level (v ''jrtc_level'')\<rparr>"
    and "jbpf_level (foldl (plain_step K) (config_start c l jl) (document v)) = jrtc_get_logging_level (v ''jbpf_level'')"
  using assms
  by (auto simp: document_def described_def plain_step_def config_start_def mapping_start_def mapping_end_def value_defs
      init_jrtc_config_def jrtc_set_logging_level_def Let_def split: if_splits)

text \<open>C27: Reading a document with every setting succeeds and yields exactly the configuration it describes,
  with both logging levels set and nothing left on the heap: the numbers as \<open>atoi\<close> and \<open>atoll\<close> read them
  and the strings cut to the arrays that hold them.\<close>

theorem document_is_read:
  assumes "\<And>k. find_var (v k) = None" and "\<And>k. \<not> oom m k" and "mem_wf m" and "JBPF_IO_IPC_MAX_NAMELEN K \<le> 32"
  shows "\<exists>m' st. set_config_values K (Suc n) 0 getenv m l jl (Some (Events (map Some (document v) @ [Some StreamEnd]))) = Some (Inr (0, m', st)) \<and>
    live m' = live m \<and> cs_config st = described K v \<and>
    cs_logger st = l\<lparr>jrtc_logger_level := jrtc_get_logging_level (v ''jrtc_level'')\<rparr> \<and>
    jbpf_level st = jrtc_get_logging_level (v ''jbpf_level'')"
proof -
  obtain c where c: "init_jrtc_config K = Inr c" using assms(4) by (simp add: init_jrtc_config_def)
  obtain m' where "config_loop K (Suc n) 0 getenv m (config_start c l jl) (map Some (document v) @ [Some StreamEnd]) =
      Some (Inr (0, m', foldl (plain_step K) (config_start c l jl) (document v)))" and "live m' = live m"
    using config_loop_plain [OF document_plain assms(2,3), of v K n getenv "config_start c l jl"] assms(1) by blast
  then show ?thesis using document_steps [OF c, of l jl v] c by (simp add: set_config_values_def Let_def)
qed

definition consts0 :: jbpf_consts where
  "consts0 = \<lparr>JBPF_DEFAULT_RUN_PATH = ''/var/run'', JBPF_DEFAULT_NAMESPACE = ''jbpf'', JBPF_RUN_PATH_LEN = 128,
     JBPF_NAMESPACE_LEN = 64, JBPF_IO_IPC_MAX_NAMELEN = 32\<rparr>"

definition values0 :: "string \<Rightarrow> string" where
  "values0 k = (if k = ''port'' then ''3001'' else if k = ''jrtc_level'' then ''warn'' else ''7'')"

lemma values0_plain: "find_var (values0 k) = None"
  by (simp add: values0_def)

theorem document_is_read_witness:
  "\<exists>m' st. set_config_values consts0 1 0 env_home heap0 logger0 JRTC_INFO_LEVEL (Some (Events (map Some (document values0) @ [Some StreamEnd]))) =
     Some (Inr (0, m', st)) \<and> live m' = {} \<and> port (cs_config st) = 3001 \<and> jrtc_logger_level (cs_logger st) = JRTC_WARN_LEVEL"
proof -
  have "port (described consts0 values0) = 3001" by code_simp
  moreover have "jrtc_get_logging_level (values0 ''jrtc_level'') = JRTC_WARN_LEVEL" by code_simp
  ultimately show ?thesis
    using document_is_read [of values0 heap0 consts0 0 env_home logger0 JRTC_INFO_LEVEL, OF values0_plain]
    by (auto simp: consts0_def)
qed

section \<open>What no document sets\<close>

lemma set_value_mask:
  "has_affinity_mask (thread_config (router_config (cs_config (set_value K v st)))) = has_affinity_mask (thread_config (router_config (cs_config st)))"
  by (simp add: value_defs Let_def)

lemma scalar_event_mask:
  "scalar_event K n re getenv m st v = Some (Inr (m', st')) \<Longrightarrow>
   has_affinity_mask (thread_config (router_config (cs_config st'))) = has_affinity_mask (thread_config (router_config (cs_config st)))"
  by (auto simp: scalar_event_def set_value_mask elim!: bindS_InrE split: if_splits option.splits sum.splits)

lemma config_loop_mask:
  "config_loop K n re getenv m st evs = Some (Inr (r, m', st')) \<Longrightarrow>
   has_affinity_mask (thread_config (router_config (cs_config st'))) = has_affinity_mask (thread_config (router_config (cs_config st)))"
proof (induction evs arbitrary: m st)
  case (Cons e evs)
  show ?case
  proof (cases e)
    case (Some ev)
    show ?thesis
    proof (cases ev)
      case (Scalar v)
      then obtain m1 st1 where 1: "scalar_event K n re getenv m st v = Some (Inr (m1, st1))"
        and 2: "config_loop K n re getenv m1 st1 evs = Some (Inr (r, m', st'))"
        using Cons.prems Some by (auto split: option.splits sum.splits)
      show ?thesis using Cons.IH [OF 2] scalar_event_mask [OF 1] by simp
    qed (use Cons Some in \<open>auto simp: mapping_start_def mapping_end_def Let_def split: if_splits\<close>)
  qed (use Cons.prems in simp)
qed simp

text \<open>Whatever the file says, the router thread that is started with the configuration never asks the operating
  system for a CPU affinity: the setting \<open>affinity_mask\<close> is read but has no effect.\<close>

lemma affinity_mask_has_no_effect:
  assumes "set_config_values K n re getenv m l jl filename = Some (Inr (r, m', st))"
  shows "PthreadSetaffinity w \<notin> set (thread_setup os (router_config (cs_config st)))"
proof -
  have "\<not> has_affinity_mask (thread_config (router_config (cs_config st)))"
    using assms
    by (auto simp: set_config_values_def init_jrtc_config_def config_start_def Let_def dest!: config_loop_mask
        split: sum.splits option.splits yaml_file.splits if_splits)
  then show ?thesis by (auto simp: thread_setup_def jrtc_router_set_scheduler_def Let_def split: if_splits)
qed

text \<open>The end of a mapping that the code does not know closes the mapping around it: a port after it is not read.\<close>

lemma unknown_mapping_hides_port:
  assumes "init_jrtc_config K = Inr c"
  shows "port (cs_config (foldl (plain_step K) (config_start c l jl)
     [MappingStart, Scalar ''jrtc_router_config'', MappingStart, Scalar ''other'', MappingStart, MappingEnd,
      Scalar ''port'', Scalar ''1234'', MappingEnd, MappingEnd])) = DEFAULT_PORT"
  using assms by (auto simp: plain_step_def config_start_def mapping_start_def mapping_end_def value_defs init_jrtc_config_def
      Let_def split: if_splits)

end
