(* ===== verification/Sched.thy ===== *)
theory Sched
  imports Router_Init
begin

text \<open>
  Scheduling of application threads: \<open>jrtc_thread_set_scheduler\<close> of \<open>src/controller/jrtc_sched.c\<close>.  Times are
  configured in microseconds and handed to the kernel in nanoseconds.
\<close>

definition JRTC_SCHED_NORMAL :: int where
  "JRTC_SCHED_NORMAL = 0"

definition JRTC_SCHED_FIFO :: int where
  "JRTC_SCHED_FIFO = 1"

definition JRTC_SCHED_DEADLINE :: int where
  "JRTC_SCHED_DEADLINE = 2"

lemmas sched_policy_defs = JRTC_SCHED_NORMAL_def JRTC_SCHED_FIFO_def JRTC_SCHED_DEADLINE_def

record jrtc_sched_config =
  app_sched_policy :: int
  app_sched_priority :: int
  sched_runtime_us :: u64
  sched_deadline_us :: u64
  sched_period_us :: u64

definition deadline_attr :: "jrtc_sched_config \<Rightarrow> sched_attr" where
  "deadline_attr c =
     \<lparr>at_size = 48, at_sched_policy = SCHED_DEADLINE, at_sched_flags = 0, at_sched_nice = 0, at_sched_priority = 0,
      at_sched_runtime = sched_runtime_us c * 1000, at_sched_deadline = sched_deadline_us c * 1000,
      at_sched_period = sched_period_us c * 1000\<rparr>"

definition jrtc_thread_set_scheduler :: "(os_call \<Rightarrow> int) \<Rightarrow> jrtc_sched_config option \<Rightarrow> int \<times> os_call list" where
  "jrtc_thread_set_scheduler os cfg =
     (case cfg of
        None \<Rightarrow> (-1, [])
      | Some c \<Rightarrow>
          if app_sched_policy c = JRTC_SCHED_NORMAL then (0, [])
          else if app_sched_policy c = JRTC_SCHED_FIFO then
            (let call = PthreadSetschedparam SCHED_FIFO (app_sched_priority c) in (os call, [call]))
          else if app_sched_policy c = JRTC_SCHED_DEADLINE then
            (let call = SchedSetattr (deadline_attr c) in (os call, [call]))
          else (-2, []))"

text \<open>The times of a load request are 32 bits wide, so their product with 1000 does not wrap around.\<close>

lemma us_to_ns: "unat (ucast (t :: u32) * 1000 :: u64) = 1000 * unat t"
proof -
  have t: "unat t < 2 ^ 32" using unsigned_less [of t] by simp
  have u: "unat (ucast t :: u64) = unat t" by (simp add: unsigned_ucast_eq take_bit_nat_eq_self_iff less_trans [OF t])
  have "unat (ucast t :: u64) * unat (1000 :: u64) < 2 ^ 64" unfolding u using t by simp
  then show ?thesis unfolding unat_word_ariths u by (simp add: take_bit_nat_eq_self)
qed

text \<open>The deadline parameters that the kernel is given for an application's thread are its requested
  times in nanoseconds: for times that come from the 32-bit microsecond fields of a load request the
  conversion never wraps around.\<close>

lemma deadline_times_exact:
  "\<exists>at. snd (jrtc_thread_set_scheduler os (Some (c\<lparr>app_sched_policy := JRTC_SCHED_DEADLINE, sched_runtime_us := ucast (r :: u32),
       sched_deadline_us := ucast (d :: u32), sched_period_us := ucast (p :: u32)\<rparr>))) = [SchedSetattr at] \<and>
   at_sched_policy at = SCHED_DEADLINE \<and> unat (at_sched_runtime at) = 1000 * unat r \<and>
   unat (at_sched_deadline at) = 1000 * unat d \<and> unat (at_sched_period at) = 1000 * unat p"
  by (simp add: jrtc_thread_set_scheduler_def sched_policy_defs deadline_attr_def us_to_ns Let_def)

end
