(* ===== verification/Controller.thy ===== *)
theory Controller
  imports Router_System Sched
begin

text \<open>
  Loading and unloading of applications: \<open>src/controller/jrtc_int.c\<close>.  The state has the process heap, the
  table of application environments, the environments themselves, the handles and file descriptors that
  are open, and the router.  Results of the operating system and of the dynamic linker are arguments.
\<close>

section \<open>State\<close>

definition MAX_NUM_JRTC_APPS :: nat where
  "MAX_NUM_JRTC_APPS = 64"

record jrtc_app_env =
  env_app_name :: "cstr option"
  env_app_handle :: "nat option"
  env_dapp_ctx :: "addr option"
  env_io_queue_size :: u32
  env_app_exit :: bool
  env_sched_config :: jrtc_sched_config
  env_app_path :: "cstr option"
  env_params :: "(cstr option \<times> cstr option) list"
  env_device_mapping :: "(cstr option \<times> cstr option) list"
  env_app_modules :: "cstr option list"

record load_app_request =
  lr_app :: "u8 list option"
  lr_app_size :: nat
  lr_app_name :: "string option"
  lr_runtime_us :: u32
  lr_deadline_us :: u32
  lr_period_us :: u32
  lr_ioq_size :: u32
  lr_app_path :: "string option"
  lr_app_type :: "string option"
  lr_params :: "(string option \<times> string option) list"
  lr_device_mapping :: "(string option \<times> string option) list"
  lr_app_modules :: "string option list"

record os_results =
  memfd_create_r :: int
  ftruncate_r :: int
  write_r :: int
  dlopen_r :: "nat option"
  dlsym_r :: bool
  pthread_create_r :: int
  pthread_join_r :: int
  sched_r :: "os_call \<Rightarrow> int"

record ('e, 'bm, 'ht, 'rg, 'pl) controller =
  heap :: mem
  app_envs :: "addr option list"
  next_available_app_env :: nat
  env_mem :: "addr \<Rightarrow> jrtc_app_env option"
  dl_open :: "nat list"
  fds :: "int list"
  router :: "('e, 'bm, 'ht, 'rg, 'pl) jrtc_router_ctx"
  os_calls :: "os_call list"

section \<open>Strings and files\<close>

text \<open>\<open>concat\<close> ends the process when it has no memory.\<close>

definition concat_str :: "mem \<Rightarrow> string \<Rightarrow> string \<Rightarrow> ub + (cstr \<times> mem)" where
  "concat_str m s1 s2 =
     (case malloc m of
        (None, m) \<Rightarrow> Inl (Exited 1)
      | (Some a, m) \<Rightarrow> Inr ((a, s1 @ s2), m))"

text \<open>A file is absent, or it has a size as told by \<open>ftell\<close> and the bytes that reading it gives.  The result
  has the buffer with its terminating zero, and what was done with the stream.\<close>

datatype file_call = FOpen | FClose

definition read_file ::
    "mem \<Rightarrow> (int \<times> u8 list) option \<Rightarrow> (addr \<times> u8 list \<times> nat) option \<times> mem \<times> file_call list" where
  "read_file m file =
     (case file of
        None \<Rightarrow> (None, m, [])
      | Some (file_size, contents) \<Rightarrow>
          if file_size = -1 then (None, m, [FOpen, FClose])
          else
            (case malloc m of
               (None, m) \<Rightarrow> (None, m, [FOpen, FClose])
             | (Some a, m) \<Rightarrow>
                 if length (take (nat file_size) contents) \<noteq> nat file_size
                 then (None, m\<lparr>live := live m - {a}\<rparr>, [FOpen, FClose])
                 else (Some (a, take (nat file_size) contents @ [0], nat file_size), m, [FOpen, FClose])))"

section \<open>The dynamic linker\<close>

definition dlclose :: "('e, 'bm, 'ht, 'rg, 'pl) controller \<Rightarrow> nat \<Rightarrow> int \<times> ('e, 'bm, 'ht, 'rg, 'pl) controller" where
  "dlclose st h = (if h \<in> set (dl_open st) then (0, st\<lparr>dl_open := remove1 h (dl_open st)\<rparr>) else (-1, st))"

definition close_fd :: "int \<Rightarrow> ('e, 'bm, 'ht, 'rg, 'pl) controller \<Rightarrow> ('e, 'bm, 'ht, 'rg, 'pl) controller" where
  "close_fd fd st = st\<lparr>fds := remove1 fd (fds st)\<rparr>"

definition jrtc_load_app_from_memory ::
    "os_results \<Rightarrow> ('e, 'bm, 'ht, 'rg, 'pl) controller \<Rightarrow> nat \<Rightarrow> nat option \<times> ('e, 'bm, 'ht, 'rg, 'pl) controller" where
  "jrtc_load_app_from_memory os st app_size =
     (let fd = memfd_create_r os in
      if fd = -1 then (None, st)
      else
        (let st = st\<lparr>fds := fd # fds st\<rparr> in
         if ftruncate_r os = -1 then (None, close_fd fd st)
         else if write_r os \<noteq> int app_size then (None, close_fd fd st)
         else
           (case dlopen_r os of
              None \<Rightarrow> (None, close_fd fd st)
            | Some h \<Rightarrow> (Some h, close_fd fd (st\<lparr>dl_open := h # dl_open st\<rparr>)))))"

section \<open>Slots\<close>

primrec reserve_env_scan :: "addr option list \<Rightarrow> nat \<Rightarrow> nat list \<Rightarrow> nat option" where
  "reserve_env_scan envs nxt [] = None"
| "reserve_env_scan envs nxt (i # is) =
     (let index = (nxt + i) mod MAX_NUM_JRTC_APPS
      in if envs ! index = None then Some index else reserve_env_scan envs nxt is)"

definition jrtc_reserve_app_id ::
    "('e, 'bm, 'ht, 'rg, 'pl) controller \<Rightarrow> addr \<Rightarrow> int \<times> ('e, 'bm, 'ht, 'rg, 'pl) controller" where
  "jrtc_reserve_app_id st a =
     (case reserve_env_scan (app_envs st) (next_available_app_env st) [0..<MAX_NUM_JRTC_APPS] of
        None \<Rightarrow> (-1, st)
      | Some index \<Rightarrow>
          (int index, st\<lparr>app_envs := (app_envs st)[index := Some a],
             next_available_app_env := (index + 1) mod MAX_NUM_JRTC_APPS\<rparr>))"

definition jrtc_release_app_id ::
    "('e, 'bm, 'ht, 'rg, 'pl) controller \<Rightarrow> int \<Rightarrow> ub + ('e, 'bm, 'ht, 'rg, 'pl) controller" where
  "jrtc_release_app_id st i =
     (if 0 \<le> i \<and> i < int MAX_NUM_JRTC_APPS
      then
        (case app_envs st ! nat i of
           None \<Rightarrow> Inr st
         | Some a \<Rightarrow>
             bindS (free (heap st) a) (\<lambda>m.
               Inr (st\<lparr>heap := m, env_mem := (env_mem st)(a := None), app_envs := (app_envs st)[nat i := None]\<rparr>)))
      else Inr st)"

definition c_string :: "cstr option \<Rightarrow> string option" where
  "c_string = map_option snd"

text \<open>\<open>strcmp\<close> of two strings that are both present.\<close>

definition same_string :: "cstr option \<Rightarrow> string option \<Rightarrow> bool" where
  "same_string c s \<longleftrightarrow> c \<noteq> None \<and> s \<noteq> None \<and> c_string c = s"

definition slot_env :: "('e, 'bm, 'ht, 'rg, 'pl) controller \<Rightarrow> nat \<Rightarrow> jrtc_app_env option" where
  "slot_env st i = (case app_envs st ! i of None \<Rightarrow> None | Some a \<Rightarrow> env_mem st a)"

definition is_app_loaded :: "('e, 'bm, 'ht, 'rg, 'pl) controller \<Rightarrow> load_app_request \<Rightarrow> bool" where
  "is_app_loaded st req =
     (case lr_app_type req of
        None \<Rightarrow> False
      | Some ty \<Rightarrow>
          if ty = ''python'' then
            (case lr_params req of
               [] \<Rightarrow> False
             | (k, v) # _ \<Rightarrow>
                 list_ex (\<lambda>i. case slot_env st i of None \<Rightarrow> False
                   | Some ae \<Rightarrow> (case env_params ae of [] \<Rightarrow> False | (k', v') # _ \<Rightarrow> same_string k' k \<and> same_string v' v))
                   [0..<MAX_NUM_JRTC_APPS])
          else
            list_ex (\<lambda>i. case slot_env st i of None \<Rightarrow> False
              | Some ae \<Rightarrow> same_string (env_app_path ae) (lr_app_path req)) [0..<MAX_NUM_JRTC_APPS])"

section \<open>Loading\<close>

primrec dup_pairs :: "mem \<Rightarrow> (string option \<times> string option) list \<Rightarrow> (cstr option \<times> cstr option) list \<times> mem" where
  "dup_pairs m [] = ([], m)"
| "dup_pairs m (p # ps) =
     (case dup_opt m (fst p) of (k, m) \<Rightarrow>
        (case dup_opt m (snd p) of (v, m) \<Rightarrow>
           (case dup_pairs m ps of (kvs, m) \<Rightarrow> ((k, v) # kvs, m))))"

definition fill_env :: "mem \<Rightarrow> load_app_request \<Rightarrow> nat \<Rightarrow> jrtc_app_env \<times> mem" where
  "fill_env m req h =
     (case strdup m (case lr_app_path req of None \<Rightarrow> ''unknown'' | Some p \<Rightarrow> p) of (path, m) \<Rightarrow>
     (case dup_pairs m (lr_params req) of (ps, m) \<Rightarrow>
     (case dup_pairs m (lr_device_mapping req) of (dm, m) \<Rightarrow>
     (case dup_opts m (lr_app_modules req) of (ms, m) \<Rightarrow>
     (case strdup m (case lr_app_name req of None \<Rightarrow> ''jrtc_app'' | Some n \<Rightarrow> n) of (name, m) \<Rightarrow>
       (\<lparr>env_app_name = name, env_app_handle = Some h, env_dapp_ctx = None, env_io_queue_size = lr_ioq_size req,
         env_app_exit = False,
         env_sched_config = \<lparr>app_sched_policy = (if 0 < lr_deadline_us req then JRTC_SCHED_DEADLINE else JRTC_SCHED_NORMAL),
           app_sched_priority = 0, sched_runtime_us = ucast (lr_runtime_us req),
           sched_deadline_us = ucast (lr_deadline_us req), sched_period_us = ucast (lr_period_us req)\<rparr>,
         env_app_path = path, env_params = ps, env_device_mapping = dm, env_app_modules = ms\<rparr>, m))))))"

text \<open>The label \<open>error\<close>: the id is released, then the environment is freed.\<close>

definition load_error ::
    "('e, 'bm, 'ht, 'rg, 'pl) controller \<Rightarrow> int \<Rightarrow> addr \<Rightarrow> ub + (int \<times> ('e, 'bm, 'ht, 'rg, 'pl) controller)" where
  "load_error st i a =
     bindS (jrtc_release_app_id st i) (\<lambda>st.
     bindS (free (heap st) a) (\<lambda>m. Inr (-1, st\<lparr>heap := m, env_mem := (env_mem st)(a := None)\<rparr>)))"

definition zero_env :: jrtc_app_env where
  "zero_env =
     \<lparr>env_app_name = None, env_app_handle = None, env_dapp_ctx = None, env_io_queue_size = 0, env_app_exit = False,
      env_sched_config = \<lparr>app_sched_policy = 0, app_sched_priority = 0, sched_runtime_us = 0, sched_deadline_us = 0,
        sched_period_us = 0\<rparr>,
      env_app_path = None, env_params = [], env_device_mapping = [], env_app_modules = []\<rparr>"

definition load_app ::
    "os_results \<Rightarrow> ('e, 'bm, 'ht, 'rg, 'pl) controller \<Rightarrow> load_app_request \<Rightarrow>
     ub + (int \<times> ('e, 'bm, 'ht, 'rg, 'pl) controller)" where
  "load_app os st req =
     (if lr_app req = None \<or> lr_app_size req = 0 then Inr (-1, st)
      else if is_app_loaded st req then Inr (-1, st)
      else
        (case malloc (heap st) of
           (None, m) \<Rightarrow> Inr (-1, st\<lparr>heap := m\<rparr>)
         | (Some a, m) \<Rightarrow>
             (case jrtc_reserve_app_id (st\<lparr>heap := m, env_mem := (env_mem st)(a \<mapsto> zero_env)\<rparr>) a of
                (i, st) \<Rightarrow>
                  if i < 0 then Inr (-1, st)
                  else
                    (case jrtc_load_app_from_memory os st (lr_app_size req) of
                       (None, st) \<Rightarrow> load_error st i a
                     | (Some h, st) \<Rightarrow>
                         (case fill_env (heap st) req h of
                            (ae, m) \<Rightarrow>
                              (let st = st\<lparr>heap := m, env_mem := (env_mem st)(a \<mapsto> ae)\<rparr>
                               in if pthread_create_r os \<noteq> 0 then load_error (snd (dlclose st h)) i a
                                  else Inr (i, st)))))))"

section \<open>Running\<close>

text \<open>\<open>app\<close> stands for the application's own code, which gets the environment.\<close>

definition run_app ::
    "('e, 'bm, 'it, 'ht, 'rg, 'pl) ext \<Rightarrow> os_results \<Rightarrow>
     (('e, 'bm, 'ht, 'rg, 'pl) controller \<Rightarrow> addr \<Rightarrow> ub + ('e, 'bm, 'ht, 'rg, 'pl) controller) \<Rightarrow>
     ('e, 'bm, 'ht, 'rg, 'pl) controller \<Rightarrow> addr \<Rightarrow> ub + ('e, 'bm, 'ht, 'rg, 'pl) controller" where
  "run_app E os app st a =
     (case env_mem st a of
        None \<Rightarrow> Inl (UseAfterFree a)
      | Some ae \<Rightarrow>
          bindS (jrtc_router_register_app E (router st) (unat (env_io_queue_size ae))) (\<lambda>(ctx, r).
          (case env_app_name ae of
             None \<Rightarrow> Inl NullDeref
           | Some (_, name) \<Rightarrow>
               (let st = st\<lparr>router := r, env_mem := (env_mem st)(a \<mapsto> ae\<lparr>env_dapp_ctx := ctx\<rparr>),
                      os_calls := os_calls st @
                        (if 0 < sched_deadline_us (env_sched_config ae)
                         then snd (jrtc_thread_set_scheduler (sched_r os) (Some (env_sched_config ae))) else []) @
                        [PthreadSetname name]\<rparr>
                in if dlsym_r os then app st a
                   else Inr (case env_app_handle ae of None \<Rightarrow> st | Some h \<Rightarrow> snd (dlclose st h))))))"

section \<open>Unloading\<close>

definition unload_app ::
    "('e, 'bm, 'it, 'ht, 'rg, 'pl) ext \<Rightarrow> os_results \<Rightarrow> ('e, 'bm, 'ht, 'rg, 'pl) controller \<Rightarrow> int \<Rightarrow>
     ub + (int \<times> ('e, 'bm, 'ht, 'rg, 'pl) controller)" where
  "unload_app E os st i =
     (if \<not> (0 \<le> i \<and> i < int MAX_NUM_JRTC_APPS) then Inl OutOfBounds
      else
        (case app_envs st ! nat i of
           None \<Rightarrow> Inr (-1, st)
         | Some a \<Rightarrow>
             (case env_mem st a of
                None \<Rightarrow> Inl (UseAfterFree a)
              | Some ae \<Rightarrow>
                  (let st = st\<lparr>env_mem := (env_mem st)(a \<mapsto> ae\<lparr>env_app_exit := True\<rparr>)\<rparr>
                   in if pthread_join_r os \<noteq> 0 then Inl Aborted
                      else
                        (case env_app_handle ae of
                           None \<Rightarrow> Inl Aborted
                         | Some h \<Rightarrow>
                             (case dlclose st h of
                                (r, st) \<Rightarrow>
                                  if r \<noteq> 0 then Inl Aborted
                                  else
                                    bindS (jrtc_router_deregister_app E (router st) (env_dapp_ctx ae)) (\<lambda>rt.
                                    bindS (free_opt (heap st) (env_app_name ae)) (\<lambda>m.
                                    bindS (free_opt m (env_app_path ae)) (\<lambda>m.
                                    bindS (jrtc_release_app_id (st\<lparr>router := rt, heap := m\<rparr>) i) (\<lambda>st.
                                      Inr (0, st)))))))))))"

end
