(* ===== verification/Controller_Apps.thy ===== *)
theory Controller_Apps
  imports Controller "HOL-Library.Multiset"
begin

text \<open>
  Facts about loading and unloading: how slots are given out, which heap blocks an application owns, and
  what each call does to them.
\<close>

section \<open>Slots\<close>

text \<open>What \<open>load_app\<close> relies on: a free slot is found if there is one, it was free, and the others stay.\<close>

locale slot_table =
  fixes reserve :: "'s \<Rightarrow> 'a \<Rightarrow> int \<times> 's" and slots :: "'s \<Rightarrow> 'a option list" and wf :: "'s \<Rightarrow> bool"
  assumes reserve_cases: "wf s \<Longrightarrow> reserve s a = (i, s') \<Longrightarrow> wf s' \<and>
    (i = -1 \<and> s' = s \<and> None \<notin> set (slots s) \<or>
     (\<exists>n. i = int n \<and> n < length (slots s) \<and> slots s ! n = None \<and> slots s' = (slots s)[n := Some a]))"
begin

definition used :: "'s \<Rightarrow> nat" where
  "used s = length (filter (\<lambda>x. x \<noteq> None) (slots s))"

lemma reserve_finds:
  assumes "wf s" and "None \<in> set (slots s)" and "reserve s a = (i, s')"
  shows "0 \<le> i"
  using reserve_cases [OF assms(1,3)] assms(2) by auto

lemma filter_update:
  assumes "n < length xs" and "xs ! n = None"
  shows "length (filter (\<lambda>x. x \<noteq> None) (xs[n := Some a])) = Suc (length (filter (\<lambda>x. x \<noteq> None) xs))"
  using assms
proof (induction xs arbitrary: n)
  case (Cons x xs)
  then show ?case by (cases n) auto
qed simp

lemma reserve_uses_one:
  assumes "wf s" and "reserve s a = (i, s')" and "0 \<le> i"
  shows "used s' = Suc (used s) \<and> (\<forall>k < length (slots s). slots s ! k \<noteq> None \<longrightarrow> slots s' ! k = slots s ! k)"
proof -
  obtain n where n: "n < length (slots s)" "slots s ! n = None" "slots s' = (slots s)[n := Some a]"
    using reserve_cases [OF assms(1,2)] assms(3) by auto
  then show ?thesis using filter_update [OF n(1,2)] unfolding used_def n(3) by (auto simp: nth_list_update)
qed

end

lemma reserve_env_scan_cases:
  assumes "length envs = MAX_NUM_JRTC_APPS" and "set is \<subseteq> {..<MAX_NUM_JRTC_APPS}"
  shows "case reserve_env_scan envs nxt is of
      None \<Rightarrow> \<forall>i \<in> set is. envs ! ((nxt + i) mod MAX_NUM_JRTC_APPS) \<noteq> None
    | Some n \<Rightarrow> n < MAX_NUM_JRTC_APPS \<and> envs ! n = None"
  using assms(2) by (induction "is") (auto simp: Let_def MAX_NUM_JRTC_APPS_def split: option.splits)

text \<open>Stepping through all indices from any start visits every slot.\<close>

lemma cyclic_index:
  assumes "n < MAX_NUM_JRTC_APPS"
  shows "\<exists>i < MAX_NUM_JRTC_APPS. (nxt + i) mod MAX_NUM_JRTC_APPS = n"
proof -
  let ?N = MAX_NUM_JRTC_APPS
  let ?i = "(n + ?N - nxt mod ?N) mod ?N"
  have le: "nxt mod ?N \<le> n + ?N" using mod_less_divisor [of ?N nxt] by (simp add: MAX_NUM_JRTC_APPS_def)
  have "(nxt + ?i) mod ?N = (nxt mod ?N + (n + ?N - nxt mod ?N)) mod ?N" by (simp add: mod_simps)
  also have "\<dots> = n" using le assms by simp
  finally show ?thesis by (intro exI [of _ ?i]) (simp add: MAX_NUM_JRTC_APPS_def)
qed

definition slots_wf :: "('e, 'bm, 'ht, 'rg, 'pl) controller \<Rightarrow> bool" where
  "slots_wf st \<longleftrightarrow> length (app_envs st) = MAX_NUM_JRTC_APPS \<and> next_available_app_env st < MAX_NUM_JRTC_APPS"

lemma jrtc_reserve_cases:
  assumes "slots_wf st" and "jrtc_reserve_app_id st a = (i, st')"
  shows "slots_wf st' \<and> (i = -1 \<and> st' = st \<and> None \<notin> set (app_envs st) \<or>
    (\<exists>n. i = int n \<and> n < length (app_envs st) \<and> app_envs st ! n = None \<and> app_envs st' = (app_envs st)[n := Some a]))"
proof -
  let ?N = MAX_NUM_JRTC_APPS
  have len: "length (app_envs st) = ?N" using assms(1) by (simp add: slots_wf_def)
  have sub: "set [0..<?N] \<subseteq> {..<?N}" by auto
  note scan = reserve_env_scan_cases [OF len sub, of "next_available_app_env st"]
  show ?thesis
  proof (cases "reserve_env_scan (app_envs st) (next_available_app_env st) [0..<?N]")
    case None
    have "app_envs st ! n \<noteq> None" if "n < ?N" for n
      using scan None cyclic_index [OF that, of "next_available_app_env st"] by force
    then have "None \<notin> set (app_envs st)" using len by (auto simp: in_set_conv_nth)
    then show ?thesis using assms None by (simp add: jrtc_reserve_app_id_def)
  next
    case (Some n)
    then show ?thesis using assms scan len by (auto simp: jrtc_reserve_app_id_def slots_wf_def MAX_NUM_JRTC_APPS_def)
  qed
qed

interpretation env_slots: slot_table jrtc_reserve_app_id app_envs slots_wf
  by unfold_locales (rule jrtc_reserve_cases)

section \<open>Blocks\<close>

definition flat :: "('a \<times> 'a) list \<Rightarrow> 'a list" where
  "flat ps = concat (map (\<lambda>(k, v). [k, v]) ps)"

lemma flat_simps [simp]: "flat [] = []" "flat ((k, v) # ps) = k # v # flat ps"
  by (simp_all add: flat_def)

lemma dup_pairs_flat: "dup_pairs m ps = (kvs, m') \<Longrightarrow> dup_opts m (flat ps) = (flat kvs, m')"
proof (induction ps arbitrary: m kvs)
  case (Cons p ps)
  then show ?case by (cases p) (auto split: prod.splits)
qed simp

text \<open>The strings that unloading frees, and those it does not.\<close>

definition kept_blocks :: "jrtc_app_env \<Rightarrow> addr list" where
  "kept_blocks ae = blocks (flat (env_params ae) @ flat (env_device_mapping ae) @ env_app_modules ae)"

definition env_blocks :: "jrtc_app_env \<Rightarrow> addr list" where
  "env_blocks ae = blocks [env_app_name ae] @ blocks [env_app_path ae] @ kept_blocks ae"

lemma blocks_append: "blocks (xs @ ys) = blocks xs @ blocks ys"
  by (simp add: blocks_def List.map_filter_def)

lemma fill_env_grows:
  assumes "mem_wf m" and "fill_env m req h = (ae, m')"
  shows "\<exists>bs. grows m m' bs \<and> set bs = set (env_blocks ae) \<and> distinct (env_blocks ae)"
proof -
  obtain path m1 ps m2 dm m3 ms m4 name where s:
    "strdup m (case lr_app_path req of None \<Rightarrow> ''unknown'' | Some p \<Rightarrow> p) = (path, m1)"
    "dup_pairs m1 (lr_params req) = (ps, m2)" "dup_pairs m2 (lr_device_mapping req) = (dm, m3)"
    "dup_opts m3 (lr_app_modules req) = (ms, m4)"
    "strdup m4 (case lr_app_name req of None \<Rightarrow> ''jrtc_app'' | Some n \<Rightarrow> n) = (name, m')"
    "env_app_name ae = name" "env_app_path ae = path" "env_params ae = ps" "env_device_mapping ae = dm" "env_app_modules ae = ms"
    using assms(2) unfolding fill_env_def by (auto split: prod.splits)
  have g1: "grows m m1 (blocks [path])" using strdup_grows [OF assms(1) s(1)] .
  then have g2: "grows m1 m2 (blocks (flat ps))" using dup_opts_grows [OF _ dup_pairs_flat [OF s(2)]] by (simp add: grows_def)
  then have g3: "grows m2 m3 (blocks (flat dm))" using dup_opts_grows [OF _ dup_pairs_flat [OF s(3)]] by (simp add: grows_def)
  then have g4: "grows m3 m4 (blocks ms)" using dup_opts_grows [OF _ s(4)] by (simp add: grows_def)
  then have g5: "grows m4 m' (blocks [name])" using strdup_grows [OF _ s(5)] by (simp add: grows_def)
  let ?bs = "(((blocks [path] @ blocks (flat ps)) @ blocks (flat dm)) @ blocks ms) @ blocks [name]"
  have g: "grows m m' ?bs" by (rule grows_trans [OF grows_trans [OF grows_trans [OF grows_trans [OF g1 g2] g3] g4] g5])
  have "mset (env_blocks ae) = mset ?bs" by (simp add: env_blocks_def kept_blocks_def blocks_append s(6-10))
  then have "set (env_blocks ae) = set ?bs" "distinct (env_blocks ae) = distinct ?bs"
    by (metis mset_eq_setD, metis mset_eq_imp_distinct_iff)
  moreover have "distinct ?bs" using g by (simp only: grows_def)
  ultimately show ?thesis using g by metis
qed

definition slot_blocks :: "('e, 'bm, 'ht, 'rg, 'pl) controller \<Rightarrow> nat \<Rightarrow> addr list" where
  "slot_blocks st i =
     (case app_envs st ! i of
        None \<Rightarrow> []
      | Some a \<Rightarrow> a # (case env_mem st a of None \<Rightarrow> [] | Some ae \<Rightarrow> env_blocks ae))"

text \<open>Every slot in use has an environment; its block and its strings are allocated, and no block belongs
  to two slots or twice to one.\<close>

definition ctrl_inv :: "('e, 'bm, 'ht, 'rg, 'pl) controller \<Rightarrow> bool" where
  "ctrl_inv st \<longleftrightarrow> slots_wf st \<and> mem_wf (heap st) \<and>
     (\<forall>i < MAX_NUM_JRTC_APPS. \<forall>a. app_envs st ! i = Some a \<longrightarrow> env_mem st a \<noteq> None) \<and>
     (\<forall>i < MAX_NUM_JRTC_APPS. distinct (slot_blocks st i) \<and> set (slot_blocks st i) \<subseteq> live (heap st)) \<and>
     (\<forall>i < MAX_NUM_JRTC_APPS. \<forall>j < MAX_NUM_JRTC_APPS. i \<noteq> j \<longrightarrow> set (slot_blocks st i) \<inter> set (slot_blocks st j) = {})"

lemma ctrl_inv_slot:
  assumes "ctrl_inv st" and "n < MAX_NUM_JRTC_APPS" and "app_envs st ! n = Some a"
  obtains ae where "env_mem st a = Some ae" and "slot_blocks st n = a # env_blocks ae" and "distinct (a # env_blocks ae)"
    and "set (a # env_blocks ae) \<subseteq> live (heap st)"
proof -
  have "env_mem st a \<noteq> None" using assms unfolding ctrl_inv_def by blast
  then obtain ae where ae: "env_mem st a = Some ae" by auto
  then have sb: "slot_blocks st n = a # env_blocks ae" using assms(3) by (simp add: slot_blocks_def)
  have "distinct (slot_blocks st n)" "set (slot_blocks st n) \<subseteq> live (heap st)" using assms(1,2) unfolding ctrl_inv_def by blast+
  then show thesis using that [OF ae sb] unfolding sb by blast
qed

lemma slot_owner:
  assumes "ctrl_inv st" and "i < MAX_NUM_JRTC_APPS" and "j < MAX_NUM_JRTC_APPS"
    and "app_envs st ! i = Some a" and "a \<in> set (slot_blocks st j)"
  shows "i = j"
proof -
  have "a \<in> set (slot_blocks st i)" using assms(4) by (simp add: slot_blocks_def)
  then show ?thesis using assms(1-3,5) unfolding ctrl_inv_def by blast
qed

text \<open>Changing one slot.\<close>

lemma slot_change_inv:
  assumes inv: "ctrl_inv st" and n: "n < MAX_NUM_JRTC_APPS"
    and wf: "slots_wf st'" "mem_wf (heap st')" and tab: "app_envs st' = (app_envs st)[n := x]"
    and other: "\<And>j b. j < MAX_NUM_JRTC_APPS \<Longrightarrow> j \<noteq> n \<Longrightarrow> app_envs st ! j = Some b \<Longrightarrow> env_mem st' b = env_mem st b"
    and own: "x \<noteq> None \<longrightarrow> env_mem st' (the x) \<noteq> None" "distinct (slot_blocks st' n)" "set (slot_blocks st' n) \<subseteq> live (heap st')"
    and apart: "\<And>j. j < MAX_NUM_JRTC_APPS \<Longrightarrow> j \<noteq> n \<Longrightarrow> set (slot_blocks st j) \<subseteq> live (heap st') - set (slot_blocks st' n)"
  shows "ctrl_inv st'"
proof -
  have len: "length (app_envs st) = MAX_NUM_JRTC_APPS" using inv by (simp add: ctrl_inv_def slots_wf_def)
  have same: "slot_blocks st' j = slot_blocks st j" if "j < MAX_NUM_JRTC_APPS" "j \<noteq> n" for j
    using other [OF that] tab that by (auto simp: slot_blocks_def split: option.splits)
  have I: "slots_wf st" "mem_wf (heap st)" "\<And>i a. i < MAX_NUM_JRTC_APPS \<Longrightarrow> app_envs st ! i = Some a \<Longrightarrow> env_mem st a \<noteq> None"
    "\<And>i. i < MAX_NUM_JRTC_APPS \<Longrightarrow> distinct (slot_blocks st i)"
    "\<And>i j. i < MAX_NUM_JRTC_APPS \<Longrightarrow> j < MAX_NUM_JRTC_APPS \<Longrightarrow> i \<noteq> j \<Longrightarrow> set (slot_blocks st i) \<inter> set (slot_blocks st j) = {}"
    using inv unfolding ctrl_inv_def by blast+
  have "env_mem st' a \<noteq> None" if j: "j < MAX_NUM_JRTC_APPS" "app_envs st' ! j = Some a" for j a
  proof (cases "j = n")
    case True
    then show ?thesis using j own(1) tab len n by simp
  next
    case False
    then have "app_envs st ! j = Some a" using j(2) tab by simp
    then show ?thesis using other [OF j(1) False] I(3) [OF j(1)] by simp
  qed
  moreover have "distinct (slot_blocks st' j) \<and> set (slot_blocks st' j) \<subseteq> live (heap st')" if "j < MAX_NUM_JRTC_APPS" for j
    using own(2,3) same [OF that] apart [OF that] I(4) [OF that] by (cases "j = n") auto
  moreover have "set (slot_blocks st' i) \<inter> set (slot_blocks st' j) = {}"
    if ij: "i < MAX_NUM_JRTC_APPS" "j < MAX_NUM_JRTC_APPS" "i \<noteq> j" for i j
  proof -
    consider "i = n" "j \<noteq> n" | "j = n" "i \<noteq> n" | "i \<noteq> n" "j \<noteq> n" using ij(3) by blast
    then show ?thesis using same [OF ij(1)] same [OF ij(2)] apart [OF ij(1)] apart [OF ij(2)] I(5) [OF ij] by cases auto
  qed
  ultimately show ?thesis using wf by (simp add: ctrl_inv_def)
qed

section \<open>Loading\<close>

lemma load_from_memory_frame:
  assumes "jrtc_load_app_from_memory os st sz = (r, st')"
  shows "st' = st\<lparr>dl_open := (case r of None \<Rightarrow> dl_open st | Some h \<Rightarrow> h # dl_open st)\<rparr>"
  using assms by (auto simp: jrtc_load_app_from_memory_def close_fd_def Let_def split: if_splits option.splits)

text \<open>Both calls of the label \<open>error\<close> free the environment.\<close>

lemma load_error_double_free:
  assumes "n < MAX_NUM_JRTC_APPS" and "app_envs st ! n = Some a" and "a \<in> live (heap st)"
  shows "load_error st (int n) a = Inl (DoubleFree a)"
  using assms by (simp add: load_error_def jrtc_release_app_id_def free_def)

definition loaded ::
    "('e, 'bm, 'ht, 'rg, 'pl) controller \<Rightarrow> load_app_request \<Rightarrow> nat \<Rightarrow> nat \<Rightarrow> ('e, 'bm, 'ht, 'rg, 'pl) controller \<Rightarrow> bool" where
  "loaded st req h n st' \<longleftrightarrow>
     n < MAX_NUM_JRTC_APPS \<and> app_envs st ! n = None \<and>
     (\<exists>a m ae m'. malloc (heap st) = (Some a, m) \<and> fill_env m req h = (ae, m') \<and>
        app_envs st' = (app_envs st)[n := Some a] \<and> env_mem st' = (env_mem st)(a \<mapsto> ae) \<and> heap st' = m' \<and>
        dl_open st' = h # dl_open st \<and> fds st' = fds st \<and> router st' = router st)"

lemma loaded_inv:
  assumes inv: "ctrl_inv st" and l: "loaded st req h n st'" and wf: "slots_wf st'"
  shows "ctrl_inv st'" and "\<exists>bs. grows (heap st) (heap st') bs \<and> set bs = set (slot_blocks st' n)"
proof -
  obtain a m ae m' where s: "n < MAX_NUM_JRTC_APPS" "app_envs st ! n = None" "malloc (heap st) = (Some a, m)" "fill_env m req h = (ae, m')"
    "app_envs st' = (app_envs st)[n := Some a]" "env_mem st' = (env_mem st)(a \<mapsto> ae)" "heap st' = m'"
    using l unfolding loaded_def by blast
  have len: "length (app_envs st) = MAX_NUM_JRTC_APPS" and mwf: "mem_wf (heap st)" using inv by (simp_all add: ctrl_inv_def slots_wf_def)
  have g1: "grows (heap st) m [a]" using malloc_grows [OF mwf s(3)] .
  then have "mem_wf m" by (simp add: grows_def)
  then obtain bs where g2: "grows m m' bs" "set bs = set (env_blocks ae)" "distinct (env_blocks ae)" using fill_env_grows [OF _ s(4)] by blast
  have g: "grows (heap st) (heap st') ([a] @ bs)" unfolding s(7) by (rule grows_trans [OF g1 g2(1)])
  have sb: "slot_blocks st' n = a # env_blocks ae" using s len by (simp add: slot_blocks_def)
  show "\<exists>bs. grows (heap st) (heap st') bs \<and> set bs = set (slot_blocks st' n)" using g g2(2) sb by (intro exI [of _ "[a] @ bs"]) simp
  have fresh: "set (slot_blocks st' n) \<inter> live (heap st) = {}" "live (heap st') = live (heap st) \<union> set (slot_blocks st' n)"
    "a \<notin> set (env_blocks ae)" "a \<notin> live (heap st)"
    using g g2(2) unfolding sb grows_def by auto
  have low: "set (slot_blocks st j) \<subseteq> live (heap st)" if "j < MAX_NUM_JRTC_APPS" for j using inv that unfolding ctrl_inv_def by blast
  show "ctrl_inv st'"
  proof (rule slot_change_inv [OF inv s(1) wf _ s(5)])
    show "mem_wf (heap st')" using g by (simp add: grows_def)
    show "env_mem st' b = env_mem st b" if "j < MAX_NUM_JRTC_APPS" "j \<noteq> n" "app_envs st ! j = Some b" for j b
    proof -
      have "b \<in> set (slot_blocks st j)" using that(3) by (simp add: slot_blocks_def)
      then have "b \<noteq> a" using low [OF that(1)] fresh(4) by auto
      then show ?thesis using s(6) by simp
    qed
    show "Some a \<noteq> None \<longrightarrow> env_mem st' (the (Some a)) \<noteq> None" using s(6) by simp
    show "distinct (slot_blocks st' n)" unfolding sb using g2(3) fresh(3) by simp
    show "set (slot_blocks st' n) \<subseteq> live (heap st')" using fresh(2) by simp
    show "set (slot_blocks st j) \<subseteq> live (heap st') - set (slot_blocks st' n)" if "j < MAX_NUM_JRTC_APPS" "j \<noteq> n" for j
      using low [OF that(1)] fresh(1,2) by blast
  qed
qed

lemma load_app_cases:
  assumes inv: "ctrl_inv st"
  obtains (refused) m where "load_app os st req = Inr (-1, st\<lparr>heap := m\<rparr>)" "live m = live (heap st)" "mem_wf m"
      "lr_app req = None \<or> lr_app_size req = 0 \<or> is_app_loaded st req \<or> oom (heap st) (next_addr (heap st))"
  | (full) st' a where "load_app os st req = Inr (-1, st')" "None \<notin> set (app_envs st)" "app_envs st' = app_envs st" "grows (heap st) (heap st') [a]"
      "env_mem st' = (env_mem st)(a \<mapsto> zero_env)" "dl_open st' = dl_open st" "router st' = router st" "next_available_app_env st' = next_available_app_env st"
  | (failed) a where "load_app os st req = Inl (DoubleFree a)"
      "fst (jrtc_load_app_from_memory os st (lr_app_size req)) = None \<or> pthread_create_r os \<noteq> 0"
  | (loaded) n h st' where "load_app os st req = Inr (int n, st')" "loaded st req h n st'" "ctrl_inv st'"
      "fst (jrtc_load_app_from_memory os st (lr_app_size req)) = Some h" "pthread_create_r os = 0"
proof -
  have mwf: "mem_wf (heap st)" and swf: "slots_wf st" using inv by (simp_all add: ctrl_inv_def)
  obtain r m where m: "malloc (heap st) = (r, m)" by fastforce
  consider "lr_app req = None \<or> lr_app_size req = 0 \<or> is_app_loaded st req"
    | "\<not> (lr_app req = None \<or> lr_app_size req = 0)" "\<not> is_app_loaded st req" "r = None"
    | a where "\<not> (lr_app req = None \<or> lr_app_size req = 0)" "\<not> is_app_loaded st req" "r = Some a"
    by (cases r) blast+
  then show thesis
  proof cases
    case 1
    have "st\<lparr>heap := heap st\<rparr> = st" by simp
    then show thesis using refused [of "heap st"] mwf 1 by (auto simp: load_app_def)
  next
    case 2
    then show thesis using refused [of m] m malloc_None [of "heap st" m] malloc_wf [OF mwf m] malloc_def [of "heap st"]
      by (auto simp: load_app_def split: if_splits)
  next
    case (3 a)
    let ?s1 = "st\<lparr>heap := m, env_mem := (env_mem st)(a \<mapsto> zero_env)\<rparr>"
    have g: "grows (heap st) m [a]" using malloc_grows [OF mwf] m 3(3) by simp
    obtain i s2 where res: "jrtc_reserve_app_id ?s1 a = (i, s2)" by fastforce
    have wf1: "slots_wf ?s1" using swf by (simp add: slots_wf_def)
    from env_slots.reserve_cases [OF wf1 res]
    consider "i = -1" "s2 = ?s1" "None \<notin> set (app_envs st)"
      | n where "slots_wf s2" "i = int n" "n < length (app_envs st)" "app_envs st ! n = None" "app_envs s2 = (app_envs st)[n := Some a]" by auto
    then show thesis
    proof cases
      case 1
      then show thesis using full [of ?s1 a] 3 m res g by (auto simp: load_app_def)
    next
      case (2 n)
      have same: "heap s2 = m" "env_mem s2 = (env_mem st)(a \<mapsto> zero_env)" "dl_open s2 = dl_open st" "fds s2 = fds st" "router s2 = router st"
        using res by (auto simp: jrtc_reserve_app_id_def split: option.splits)
      have n: "n < MAX_NUM_JRTC_APPS" using 2(3) swf by (simp add: slots_wf_def)
      have at: "app_envs s2 ! n = Some a" using 2(3,5) by simp
      have al: "a \<in> live m" using g by (simp add: grows_def)
      obtain rh s3 where lib: "jrtc_load_app_from_memory os s2 (lr_app_size req) = (rh, s3)" by fastforce
      note s3 = load_from_memory_frame [OF lib]
      have rh: "fst (jrtc_load_app_from_memory os st (lr_app_size req)) = rh"
        using lib by (auto simp: jrtc_load_app_from_memory_def Let_def split: if_splits option.splits)
      show thesis
      proof (cases rh)
        case None
        have "load_app os st req = load_error s3 (int n) a" using 3 m res 2 lib None by (auto simp: load_app_def)
        moreover have "load_error s3 (int n) a = Inl (DoubleFree a)"
          using s3 same at al n by (intro load_error_double_free) simp_all
        ultimately show thesis using failed rh None by simp
      next
        case (Some h)
        obtain ae m' where f: "fill_env m req h = (ae, m')" by fastforce
        let ?s4 = "s3\<lparr>heap := m', env_mem := (env_mem s3)(a \<mapsto> ae)\<rparr>"
        have ld: "load_app os st req = (if pthread_create_r os \<noteq> 0 then load_error (snd (dlclose ?s4 h)) (int n) a else Inr (int n, ?s4))"
          using 3 m res 2 lib Some f same(1) s3 by (auto simp: load_app_def Let_def)
        have "loaded st req h n ?s4" unfolding loaded_def using n 2 3(3) m f s3 same Some by auto
        moreover have "slots_wf ?s4" using 2(1) s3 by (simp add: slots_wf_def)
        moreover have "a \<in> live m'" using fill_env_grows [OF _ f] g al by (auto simp: grows_def)
        moreover then have "load_error (snd (dlclose ?s4 h)) (int n) a = Inl (DoubleFree a)"
          using at n s3 by (intro load_error_double_free) (simp_all add: dlclose_def)
        ultimately show thesis using failed [of a] loaded [of n ?s4 h] loaded_inv(1) [OF inv] ld rh Some by auto
      qed
    qed
  qed
qed

section \<open>Unloading\<close>

lemma free_opt_ok:
  assumes "mem_wf m" and "set (blocks [c]) \<subseteq> live m"
  shows "\<exists>m'. free_opt m c = Inr m' \<and> live m' = live m - set (blocks [c]) \<and> mem_wf m' \<and> oom m' = oom m"
proof (cases c)
  case None
  then show ?thesis using assms by (simp add: free_opt_def)
next
  case (Some x)
  then show ?thesis using assms free_wf [OF assms(1), of "fst x"] by (cases x) (auto simp: free_opt_def free_live)
qed

lemma deregister_any_inv:
  assumes "ext_laws E V" and "router_inv E V rt" and "\<forall>c. ctx = Some c \<longrightarrow> dapps rt c \<noteq> None"
  shows "\<exists>rt'. jrtc_router_deregister_app E rt ctx = Inr rt' \<and> router_inv E V rt' \<and> subs V rt' = subs V rt \<and>
    dapps rt' = (case ctx of None \<Rightarrow> dapps rt | Some c \<Rightarrow> (dapps rt)(c := None))"
proof (cases ctx)
  case None
  then show ?thesis using assms(2) by (simp add: jrtc_router_deregister_app_def)
next
  case (Some c)
  then obtain d where d: "dapps rt c = Some d" using assms(3) by auto
  from deregister_app_inv [OF assms(1,2) d] show ?thesis using Some by auto
qed

lemma unload_ok:
  assumes L: "ext_laws E V" and inv: "ctrl_inv st" and R: "router_inv E V (router st)" and n: "n < MAX_NUM_JRTC_APPS"
    and a: "app_envs st ! n = Some a" and ae: "env_mem st a = Some ae"
    and join: "pthread_join_r os = 0" and h: "env_app_handle ae = Some h" "h \<in> set (dl_open st)"
    and reg: "\<forall>c. env_dapp_ctx ae = Some c \<longrightarrow> dapps (router st) c \<noteq> None"
  shows "\<exists>st'. unload_app E os st (int n) = Inr (0, st') \<and> ctrl_inv st' \<and> router_inv E V (router st') \<and>
    app_envs st' = (app_envs st)[n := None] \<and> dl_open st' = remove1 h (dl_open st) \<and>
    live (heap st') = live (heap st) - insert a (set (blocks [env_app_name ae]) \<union> set (blocks [env_app_path ae])) \<and>
    dapps (router st') = (case env_dapp_ctx ae of None \<Rightarrow> dapps (router st) | Some c \<Rightarrow> (dapps (router st))(c := None)) \<and>
    env_mem st' = (env_mem st)(a := None) \<and> oom (heap st') = oom (heap st)"
proof -
  have len: "length (app_envs st) = MAX_NUM_JRTC_APPS" and mwf: "mem_wf (heap st)" using inv by (simp_all add: ctrl_inv_def slots_wf_def)
  have sb: "slot_blocks st n = a # env_blocks ae" "distinct (a # env_blocks ae)" "set (a # env_blocks ae) \<subseteq> live (heap st)"
    using ctrl_inv_slot [OF inv n a] ae by auto
  let ?name = "blocks [env_app_name ae]" and ?path = "blocks [env_app_path ae]"
  have b: "set ?name \<subseteq> live (heap st)" "set ?path \<subseteq> live (heap st)" "set ?name \<inter> set ?path = {}" "a \<notin> set ?name" "a \<notin> set ?path"
    "a \<in> live (heap st)"
    using sb(2,3) by (auto simp: env_blocks_def)
  obtain rt where rt: "jrtc_router_deregister_app E (router st) (env_dapp_ctx ae) = Inr rt" "router_inv E V rt"
    "dapps rt = (case env_dapp_ctx ae of None \<Rightarrow> dapps (router st) | Some c \<Rightarrow> (dapps (router st))(c := None))"
    using deregister_any_inv [OF L R reg] by blast
  obtain m1 where m1: "free_opt (heap st) (env_app_name ae) = Inr m1" "live m1 = live (heap st) - set ?name" "mem_wf m1" "oom m1 = oom (heap st)"
    using free_opt_ok [OF mwf b(1)] by blast
  have "set ?path \<subseteq> live m1" using b m1(2) by auto
  then obtain m2 where m2: "free_opt m1 (env_app_path ae) = Inr m2" "live m2 = live m1 - set ?path" "mem_wf m2" "oom m2 = oom m1"
    using free_opt_ok [OF m1(3)] by blast
  have al: "a \<in> live m2" using b m1(2) m2(2) by auto
  let ?m = "m2\<lparr>live := live m2 - {a}\<rparr>"
  let ?st = "st\<lparr>env_mem := (env_mem st)(a := None), dl_open := remove1 h (dl_open st), router := rt, heap := ?m,
    app_envs := (app_envs st)[n := None]\<rparr>"
  have un: "unload_app E os st (int n) = Inr (0, ?st)"
    using n a ae join h rt(1) m1(1) m2(1) al by (simp add: unload_app_def dlclose_def jrtc_release_app_id_def free_live)
  have live: "live ?m = live (heap st) - insert a (set ?name \<union> set ?path)" using m1(2) m2(2) by auto
  have "ctrl_inv ?st"
  proof (rule slot_change_inv [OF inv n])
    show "slots_wf ?st" using inv by (simp add: ctrl_inv_def slots_wf_def)
    show "mem_wf (heap ?st)" using m2(3) by (simp add: mem_wf_def)
    show "app_envs ?st = (app_envs st)[n := None]" by simp
    show "env_mem ?st c = env_mem st c" if "j < MAX_NUM_JRTC_APPS" "j \<noteq> n" "app_envs st ! j = Some c" for j c
      using slot_owner [OF inv that(1) n that(3)] that(2) sb(1) by auto
    show "None \<noteq> None \<longrightarrow> env_mem ?st (the None) \<noteq> None" by simp
    have none: "slot_blocks ?st n = []" using n len by (simp add: slot_blocks_def)
    then show "distinct (slot_blocks ?st n)" "set (slot_blocks ?st n) \<subseteq> live (heap ?st)" by simp_all
    show "set (slot_blocks st j) \<subseteq> live (heap ?st) - set (slot_blocks ?st n)" if j: "j < MAX_NUM_JRTC_APPS" "j \<noteq> n" for j
    proof -
      have "set (slot_blocks st j) \<subseteq> live (heap st)" "set (slot_blocks st j) \<inter> set (slot_blocks st n) = {}"
        using inv j n unfolding ctrl_inv_def by blast+
      then show ?thesis unfolding none using live sb(1) by (auto simp: env_blocks_def)
    qed
  qed
  moreover have "live (heap ?st) = live (heap st) - insert a (set ?name \<union> set ?path)" unfolding live [symmetric] by simp
  moreover have "router ?st = rt" "app_envs ?st = (app_envs st)[n := None]" "dl_open ?st = remove1 h (dl_open st)"
    "env_mem ?st = (env_mem st)(a := None)" "oom (heap ?st) = oom (heap st)" using m1(4) m2(4) by simp_all
  ultimately show ?thesis using un rt(2,3) by metis
qed

text \<open>Unloading does not free the strings of parameters, device mappings and modules.\<close>

lemma kept_after_unload:
  assumes "ctrl_inv st" and "n < MAX_NUM_JRTC_APPS" and "app_envs st ! n = Some a" and "env_mem st a = Some ae"
  shows "set (kept_blocks ae) \<subseteq> live (heap st) - insert a (set (blocks [env_app_name ae]) \<union> set (blocks [env_app_path ae]))"
proof -
  have "distinct (a # env_blocks ae)" "set (a # env_blocks ae) \<subseteq> live (heap st)"
    by (rule ctrl_inv_slot [OF assms(1-3)], use assms(4) in simp)+
  then show ?thesis by (auto simp: env_blocks_def)
qed

section \<open>Running\<close>

lemma dup_opts_oom: "dup_opts m ss = (cs, m') \<Longrightarrow> oom m' = oom m"
proof (induction ss arbitrary: m cs)
  case (Cons s ss)
  then obtain c m1 cs1 where 1: "dup_opt m s = (c, m1)" "dup_opts m1 ss = (cs1, m')" by (auto split: prod.splits)
  have "oom m1 = oom m" using 1(1) by (auto simp: dup_opt_def strdup_def malloc_def split: option.splits prod.splits if_splits)
  then show ?case using Cons.IH [OF 1(2)] by simp
qed simp

lemma strdup_oom: "strdup m s = (c, m') \<Longrightarrow> oom m' = oom m \<and> ((\<forall>k. \<not> oom m k) \<longrightarrow> c \<noteq> None)"
  by (auto simp: strdup_def malloc_def split: option.splits prod.splits if_splits)

text \<open>Where memory suffices, the environment has a name.\<close>

lemma fill_env_name:
  assumes "\<And>k. \<not> oom m k" and "fill_env m req h = (ae, m')"
  shows "env_app_name ae \<noteq> None"
proof -
  obtain path m1 ps m2 dm m3 ms m4 name where
    e: "strdup m (case lr_app_path req of None \<Rightarrow> ''unknown'' | Some p \<Rightarrow> p) = (path, m1)" "dup_pairs m1 (lr_params req) = (ps, m2)"
      "dup_pairs m2 (lr_device_mapping req) = (dm, m3)" "dup_opts m3 (lr_app_modules req) = (ms, m4)"
      "strdup m4 (case lr_app_name req of None \<Rightarrow> ''jrtc_app'' | Some n \<Rightarrow> n) = (name, m')" "env_app_name ae = name"
    using assms(2) by (auto simp: fill_env_def split: prod.splits)
  have "oom m4 = oom m"
    using strdup_oom [OF e(1)] dup_opts_oom [OF dup_pairs_flat [OF e(2)]] dup_opts_oom [OF dup_pairs_flat [OF e(3)]] dup_opts_oom [OF e(4)] by simp
  then show ?thesis using strdup_oom [OF e(5)] assms(1) e(6) by simp
qed

lemma env_update_inv:
  assumes inv: "ctrl_inv st" and ae: "env_mem st a = Some ae" and same: "env_blocks ae' = env_blocks ae"
    and st': "app_envs st' = app_envs st" "next_available_app_env st' = next_available_app_env st" "heap st' = heap st"
      "env_mem st' = (env_mem st)(a \<mapsto> ae')"
  shows "ctrl_inv st'"
proof -
  have "slot_blocks st' i = slot_blocks st i" for i using st' ae same by (auto simp: slot_blocks_def split: option.splits)
  then show ?thesis using inv st' by (auto simp: ctrl_inv_def slots_wf_def)
qed

text \<open>An application that finds its entry point is registered with the router while it runs.\<close>

lemma run_app_ok:
  assumes L: "ext_laws E V" and inv: "ctrl_inv st" and R: "router_inv E V (router st)" and ae: "env_mem st a = Some ae" and sym: "dlsym_r os"
    and name: "env_app_name ae \<noteq> None"
  obtains st' ctx where "run_app E os (\<lambda>st a. Inr st) st a = Inr st'" "ctrl_inv st'" "router_inv E V (router st')"
    "heap st' = heap st" "app_envs st' = app_envs st" "dl_open st' = dl_open st" "env_mem st' = (env_mem st)(a \<mapsto> ae\<lparr>env_dapp_ctx := ctx\<rparr>)"
    "case ctx of None \<Rightarrow> dapps (router st') = dapps (router st) | Some c \<Rightarrow> dapps (router st) c = None \<and> (\<exists>d. dapps (router st') = (dapps (router st))(c \<mapsto> d))"
proof -
  from register_app_any [OF L R, of "unat (env_io_queue_size ae)"] obtain ctx r where
    r: "jrtc_router_register_app E (router st) (unat (env_io_queue_size ae)) = Inr (ctx, r)" "router_inv E V r"
      "case ctx of None \<Rightarrow> dapps r = dapps (router st) | Some c \<Rightarrow> dapps (router st) c = None \<and> (\<exists>d. dapps r = (dapps (router st))(c \<mapsto> d))"
    by (elim disjE exE conjE) (auto split: option.splits)
  obtain na nm where nm: "env_app_name ae = Some (na, nm)" using name by auto
  let ?os = "os_calls st @ (if 0 < sched_deadline_us (env_sched_config ae)
      then snd (jrtc_thread_set_scheduler (sched_r os) (Some (env_sched_config ae))) else []) @
    [PthreadSetname nm]"
  define S where "S = st\<lparr>router := r, env_mem := (env_mem st)(a \<mapsto> ae\<lparr>env_dapp_ctx := ctx\<rparr>), os_calls := ?os\<rparr>"
  have sel: "router S = r" "heap S = heap st" "app_envs S = app_envs st" "dl_open S = dl_open st"
    "next_available_app_env S = next_available_app_env st" "env_mem S = (env_mem st)(a \<mapsto> ae\<lparr>env_dapp_ctx := ctx\<rparr>)"
    by (simp_all add: S_def)
  have "env_blocks (ae\<lparr>env_dapp_ctx := ctx\<rparr>) = env_blocks ae" by (simp add: env_blocks_def kept_blocks_def)
  then have "ctrl_inv S" by (rule env_update_inv [OF inv ae]) (rule sel)+
  moreover have "run_app E os (\<lambda>st a. Inr st) st a = Inr S" using ae r(1) sym nm by (simp add: run_app_def Let_def S_def)
  moreover have "router_inv E V (router S)" using r(2) sel(1) by simp
  ultimately show thesis using that [of S ctx] sel(2-) r(3) [folded sel(1)] by simp
qed

text \<open>A library without the entry point is closed by its own thread.\<close>

lemma run_app_no_symbol:
  assumes L: "ext_laws E V" and R: "router_inv E V (router st)" and ae: "env_mem st a = Some ae" and sym: "\<not> dlsym_r os"
    and h: "env_app_handle ae = Some h" and name: "env_app_name ae \<noteq> None"
  obtains st' ctx where "run_app E os app st a = Inr st'" "app_envs st' = app_envs st" "dl_open st' = remove1 h (dl_open st)"
    "env_mem st' = (env_mem st)(a \<mapsto> ae\<lparr>env_dapp_ctx := ctx\<rparr>)"
proof -
  from register_app_any [OF L R, of "unat (env_io_queue_size ae)"] obtain ctx r where
    r: "jrtc_router_register_app E (router st) (unat (env_io_queue_size ae)) = Inr (ctx, r)"
    by (elim disjE exE conjE) auto
  obtain na nm where nm: "env_app_name ae = Some (na, nm)" using name by auto
  show thesis using r nm ae sym h that
    by (auto simp: run_app_def dlclose_def Let_def remove1_idem split: if_splits)
qed

end
