(* ===== verification/Startup.thy ===== *)
theory Startup
  imports Controller_Apps Config
begin

text \<open>
  The life of the process: \<open>start_jrtc\<close> and \<open>stop_jrtc\<close> of \<open>src/controller/jrtc_int.c\<close> and \<open>main\<close> of
  \<open>src/controller/jrtc.c\<close>.  While the main thread waits for the semaphore, the other threads act on the
  controller; their actions are a sequence of events.  The REST server's own code is an argument.
\<close>

section \<open>The default application\<close>

definition NORTH_IO_LIB :: string where
  "NORTH_IO_LIB = ''libjrtc_north_io.so''"

definition MAX_APP_PARAMS :: nat where "MAX_APP_PARAMS = 255"

definition MAX_DEVICE_MAPPING :: nat where "MAX_DEVICE_MAPPING = 255"

definition MAX_APP_MODULES :: nat where "MAX_APP_MODULES = 255"

definition north_io_request :: "u8 list \<Rightarrow> nat \<Rightarrow> cstr option \<Rightarrow> cstr option \<Rightarrow> load_app_request" where
  "north_io_request data size_of name path =
     \<lparr>lr_app = Some data, lr_app_size = size_of, lr_app_name = c_string name, lr_runtime_us = 0, lr_deadline_us = 0,
      lr_period_us = 0, lr_ioq_size = 1000, lr_app_path = c_string path, lr_app_type = None,
      lr_params = replicate MAX_APP_PARAMS (None, None), lr_device_mapping = replicate MAX_DEVICE_MAPPING (None, None),
      lr_app_modules = replicate MAX_APP_MODULES None\<rparr>"

text \<open>The path of the library on the heap.\<close>

definition north_io_path :: "(string \<Rightarrow> string option) \<Rightarrow> mem \<Rightarrow> ub + (cstr option \<times> mem)" where
  "north_io_path getenv m =
     (case getenv ''JRTC_APP_PATH'' of
        Some p \<Rightarrow> bindS (concat_str m p NORTH_IO_LIB) (\<lambda>(c, m). Inr (Some c, m))
      | None \<Rightarrow> Inr (strdup m NORTH_IO_LIB))"

definition load_default_north_io_app ::
    "os_results \<Rightarrow> (string \<Rightarrow> string option) \<Rightarrow> (string \<Rightarrow> (int \<times> u8 list) option) \<Rightarrow>
     ('e, 'bm, 'ht, 'rg, 'pl) controller \<Rightarrow> ub + (int \<times> ('e, 'bm, 'ht, 'rg, 'pl) controller)" where
  "load_default_north_io_app os getenv files st =
     bindS (north_io_path getenv (heap st)) (\<lambda>(c, m).
       (case c of
          None \<Rightarrow> Inl NullDeref
        | Some (pa, path) \<Rightarrow>
            (case read_file m (files path) of
               (None, m, _) \<Rightarrow> bindS (free m pa) (\<lambda>m. Inr (-1, st\<lparr>heap := m\<rparr>))
             | (Some (da, data, size_of), m, _) \<Rightarrow>
                 (case strdup m ''north_io_app'' of (name, m) \<Rightarrow>
                 (case strdup m path of (path', m) \<Rightarrow>
                    bindS (load_app os (st\<lparr>heap := m\<rparr>) (north_io_request data size_of name path')) (\<lambda>(res, st).
                    bindS (free_opt (heap st) name) (\<lambda>m.
                    bindS (free_opt m path') (\<lambda>m.
                    bindS (free m pa) (\<lambda>m.
                    bindS (free m da) (\<lambda>m. Inr (res, st\<lparr>heap := m\<rparr>)))))))))))"

section \<open>Signals\<close>

record signals =
  jrtc_stop :: nat
  py_initialized :: bool

definition SIGINT :: int where "SIGINT = 2"

definition ctrlc_handler :: "int \<Rightarrow> signals \<Rightarrow> signals" where
  "ctrlc_handler signo s =
     (if signo = SIGINT then s\<lparr>jrtc_stop := Suc (jrtc_stop s), py_initialized := False\<rparr> else s)"

definition stop_jrtc :: "signals \<Rightarrow> signals" where
  "stop_jrtc s = s\<lparr>jrtc_stop := Suc (jrtc_stop s)\<rparr>"

section \<open>Serving\<close>

text \<open>What other threads do while the main thread waits: a request of the REST server, the thread of an
  application in a slot, a signal, or a call of \<open>stop_jrtc\<close>.\<close>

datatype process_event =
    LoadRequest load_app_request os_results
  | UnloadRequest int os_results
  | AppThread nat os_results
  | Signal int
  | StopCall

definition handle_event ::
    "('e, 'bm, 'it, 'ht, 'rg, 'pl) ext \<Rightarrow>
     (('e, 'bm, 'ht, 'rg, 'pl) controller \<Rightarrow> addr \<Rightarrow> ub + ('e, 'bm, 'ht, 'rg, 'pl) controller) \<Rightarrow>
     process_event \<Rightarrow> ('e, 'bm, 'ht, 'rg, 'pl) controller \<times> signals \<Rightarrow> ub + (('e, 'bm, 'ht, 'rg, 'pl) controller \<times> signals)" where
  "handle_event E app ev p =
     (case p of (st, sg) \<Rightarrow>
        (case ev of
           LoadRequest req os \<Rightarrow> bindS (load_app os st req) (\<lambda>(r, st). Inr (st, sg))
         | UnloadRequest i os \<Rightarrow> bindS (unload_app E os st i) (\<lambda>(r, st). Inr (st, sg))
         | AppThread i os \<Rightarrow>
             (if MAX_NUM_JRTC_APPS \<le> i then Inr (st, sg)
              else (case app_envs st ! i of None \<Rightarrow> Inr (st, sg) | Some a \<Rightarrow> bindS (run_app E os app st a) (\<lambda>st. Inr (st, sg))))
         | Signal signo \<Rightarrow> Inr (st, ctrlc_handler signo sg)
         | StopCall \<Rightarrow> Inr (st, stop_jrtc sg)))"

text \<open>\<open>sem_wait\<close>: the events up to the one that posts the semaphore; \<open>None\<close> is waiting.\<close>

fun serve ::
    "('e, 'bm, 'it, 'ht, 'rg, 'pl) ext \<Rightarrow>
     (('e, 'bm, 'ht, 'rg, 'pl) controller \<Rightarrow> addr \<Rightarrow> ub + ('e, 'bm, 'ht, 'rg, 'pl) controller) \<Rightarrow>
     ('e, 'bm, 'ht, 'rg, 'pl) controller \<times> signals \<Rightarrow> process_event list \<Rightarrow> (ub + (('e, 'bm, 'ht, 'rg, 'pl) controller \<times> signals)) option" where
  "serve E app (st, sg) evs =
     (if 0 < jrtc_stop sg then Some (Inr (st, sg\<lparr>jrtc_stop := jrtc_stop sg - 1\<rparr>))
      else
        (case evs of
           [] \<Rightarrow> None
         | ev # evs \<Rightarrow>
             (case handle_event E app ev (st, sg) of
                Inl u \<Rightarrow> Some (Inl u)
              | Inr p \<Rightarrow> serve E app p evs)))"

section \<open>Shutting down\<close>

text \<open>The loop over the slots.\<close>

primrec unload_all ::
    "('e, 'bm, 'it, 'ht, 'rg, 'pl) ext \<Rightarrow> os_results \<Rightarrow> int \<Rightarrow> ('e, 'bm, 'ht, 'rg, 'pl) controller \<Rightarrow> nat list \<Rightarrow>
     ub + (int \<times> ('e, 'bm, 'ht, 'rg, 'pl) controller)" where
  "unload_all E os res st [] = Inr (res, st)"
| "unload_all E os res st (i # is) =
     (if app_envs st ! i = None then unload_all E os res st is
      else bindS (unload_app E os st (int i)) (\<lambda>(r, st). unload_all E os (if r = 0 then res else -1) st is))"

section \<open>The process\<close>

record process_params =
  signal_ok :: bool
  rest_server :: bool
  router_thread_r :: int
  os_r :: os_results
  getenv_r :: "string \<Rightarrow> string option"
  files_r :: "string \<Rightarrow> (int \<times> u8 list) option"
  regcomp_r :: int
  events_r :: "process_event list"

text \<open>Where the process has got to, for the operations that the controller's state does not show.\<close>

datatype milestone = RestCreated | RestThread int | RouterUp int | NorthIo int | RestStopped | RouterStopped int

definition start_jrtc ::
    "('e, 'bm, 'it, 'ht, 'rg, 'pl) ext \<Rightarrow> jbpf_consts \<Rightarrow>
     (('e, 'bm, 'ht, 'rg, 'pl) controller \<Rightarrow> addr \<Rightarrow> ub + ('e, 'bm, 'ht, 'rg, 'pl) controller) \<Rightarrow> nat \<Rightarrow> process_params \<Rightarrow>
     ('e, 'bm, 'ht, 'rg, 'pl) controller \<Rightarrow> bool \<Rightarrow> yaml_file option \<Rightarrow>
     (ub + (int \<times> milestone list \<times> ('e, 'bm, 'ht, 'rg, 'pl) controller)) option" where
  "start_jrtc E K app n P st py config_file =
     (if \<not> signal_ok P then Some (Inr (1, [], st))
      else
        (case set_config_values K n (regcomp_r P) (getenv_r P) (heap st) logger0 JRTC_INFO_LEVEL config_file of
           None \<Rightarrow> None
         | Some (Inl u) \<Rightarrow> Some (Inl u)
         | Some (Inr (res, m, cs)) \<Rightarrow>
             (let st = st\<lparr>heap := m\<rparr> in
              if res \<noteq> 0 then Some (Inr (-2, [], st))
              else if \<not> rest_server P then Some (Inr (-1, [], st))
              else
                (case malloc m of
                   (None, m) \<Rightarrow> Some (Inr (-1, [RestCreated], st\<lparr>heap := m\<rparr>))
                 | (Some args, m) \<Rightarrow>
                     (case jrtc_router_init E (router_thread_r P) (router st) m (Some (cs_config cs)) of
                        Inl u \<Rightarrow> Some (Inl u)
                      | Inr (r1, rt, m) \<Rightarrow>
                          (case load_default_north_io_app (os_r P) (getenv_r P) (files_r P)
                               (st\<lparr>heap := m, router := rt, os_calls := os_calls st @ [PthreadSetname ''jrtc_main'']\<rparr>) of
                             Inl u \<Rightarrow> Some (Inl u)
                           | Inr (r2, st) \<Rightarrow>
                               (case serve E app (st, \<lparr>jrtc_stop = 0, py_initialized = py\<rparr>) (events_r P) of
                                  None \<Rightarrow> None
                                | Some (Inl u) \<Rightarrow> Some (Inl u)
                                | Some (Inr (st, sg)) \<Rightarrow>
                                    Some (bindS (unload_all E (os_r P) r2 st [0..<MAX_NUM_JRTC_APPS]) (\<lambda>(r3, st).
                                      bindS (free (heap st) args) (\<lambda>m.
                                        Inr (if jrtc_router_stop < 0 then -1 else r3,
                                             [RestCreated, RestThread (port (cs_config cs)), RouterUp r1, NorthIo r2, RestStopped,
                                              RouterStopped jrtc_router_stop],
                                             st\<lparr>heap := m\<rparr>)))))))))))"

text \<open>The options as \<open>getopt_long\<close> reports them: a configuration file, or one that is not known.\<close>

datatype opt = OptConfig "yaml_file" | OptUnknown

primrec main_options :: "opt list \<Rightarrow> yaml_file option \<Rightarrow> yaml_file option option" where
  "main_options [] f = Some f"
| "main_options (x # xs) f = (case x of OptConfig c \<Rightarrow> main_options xs (Some c) | OptUnknown \<Rightarrow> None)"

definition main ::
    "('e, 'bm, 'it, 'ht, 'rg, 'pl) ext \<Rightarrow> jbpf_consts \<Rightarrow>
     (('e, 'bm, 'ht, 'rg, 'pl) controller \<Rightarrow> addr \<Rightarrow> ub + ('e, 'bm, 'ht, 'rg, 'pl) controller) \<Rightarrow> nat \<Rightarrow> process_params \<Rightarrow>
     ('e, 'bm, 'ht, 'rg, 'pl) controller \<Rightarrow> bool \<Rightarrow> opt list \<Rightarrow>
     (ub + (int \<times> milestone list \<times> ('e, 'bm, 'ht, 'rg, 'pl) controller)) option" where
  "main E K app n P st py opts =
     (case main_options opts None of
        None \<Rightarrow> Some (Inr (-1, [], st))
      | Some config_file \<Rightarrow> start_jrtc E K app n P st py config_file)"

section \<open>Facts\<close>

text \<open>An application in a slot can be unloaded: its library is open and its registration is one of the router.  Different
  slots have different libraries and registrations.\<close>

definition unloadable :: "('e, 'bm, 'ht, 'rg, 'pl) controller \<Rightarrow> bool" where
  "unloadable st \<longleftrightarrow>
     (\<forall>i < MAX_NUM_JRTC_APPS. \<forall>ae. slot_env st i = Some ae \<longrightarrow>
        (\<exists>h. env_app_handle ae = Some h \<and> h \<in> set (dl_open st)) \<and>
        (\<forall>c. env_dapp_ctx ae = Some c \<longrightarrow> dapps (router st) c \<noteq> None)) \<and>
     (\<forall>i < MAX_NUM_JRTC_APPS. \<forall>j < MAX_NUM_JRTC_APPS. \<forall>ae be. i \<noteq> j \<longrightarrow> slot_env st i = Some ae \<longrightarrow> slot_env st j = Some be \<longrightarrow>
        env_app_handle ae \<noteq> env_app_handle be \<and> (env_dapp_ctx ae = None \<or> env_dapp_ctx ae \<noteq> env_dapp_ctx be))"

lemma unload_slot:
  assumes L: "ext_laws E V" and inv: "ctrl_inv st" and R: "router_inv E V (router st)" and un: "unloadable st"
    and n: "n < MAX_NUM_JRTC_APPS" and a: "app_envs st ! n = Some a" and join: "pthread_join_r os = 0"
  obtains st' where "unload_app E os st (int n) = Inr (0, st')" "ctrl_inv st'" "router_inv E V (router st')" "unloadable st'"
    "app_envs st' = (app_envs st)[n := None]" "live (heap st') \<subseteq> live (heap st)" "live (heap st) - set (slot_blocks st n) \<subseteq> live (heap st')"
    "\<forall>i < MAX_NUM_JRTC_APPS. i \<noteq> n \<longrightarrow> slot_blocks st' i = slot_blocks st i"
    "\<forall>i < MAX_NUM_JRTC_APPS. slot_env st' i = (if i = n then None else slot_env st i)" "oom (heap st') = oom (heap st)"
proof -
  obtain ae where ae: "env_mem st a = Some ae" by (rule ctrl_inv_slot [OF inv n a])
  have s: "slot_env st n = Some ae" using a ae by (simp add: slot_env_def)
  obtain h where h: "env_app_handle ae = Some h" "h \<in> set (dl_open st)" and reg: "\<forall>c. env_dapp_ctx ae = Some c \<longrightarrow> dapps (router st) c \<noteq> None"
    using un n s unfolding unloadable_def by blast
  from unload_ok [OF L inv R n a ae join h reg] obtain st' where
    u: "unload_app E os st (int n) = Inr (0, st')" "ctrl_inv st'" "router_inv E V (router st')" "app_envs st' = (app_envs st)[n := None]"
      "dl_open st' = remove1 h (dl_open st)"
      "live (heap st') = live (heap st) - insert a (set (blocks [env_app_name ae]) \<union> set (blocks [env_app_path ae]))"
      "dapps (router st') = (case env_dapp_ctx ae of None \<Rightarrow> dapps (router st) | Some c \<Rightarrow> (dapps (router st))(c := None))"
      "env_mem st' = (env_mem st)(a := None)" "oom (heap st') = oom (heap st)" by blast
  have len: "length (app_envs st) = MAX_NUM_JRTC_APPS" using inv by (simp add: ctrl_inv_def slots_wf_def)
  have other: "app_envs st ! i \<noteq> Some a" if "i < MAX_NUM_JRTC_APPS" "i \<noteq> n" for i
    using slot_owner [OF inv that(1) n _, of a] that a by (auto simp: slot_blocks_def)
  have slot: "slot_env st' i = (if i = n then None else slot_env st i)" if "i < MAX_NUM_JRTC_APPS" for i
    using u(4,8) that n len other by (auto simp: slot_env_def split: option.splits)
  have sb: "\<forall>i < MAX_NUM_JRTC_APPS. i \<noteq> n \<longrightarrow> slot_blocks st' i = slot_blocks st i"
    using u(4,8) n len other by (auto simp: slot_blocks_def split: option.splits)
  have "unloadable st'"
    unfolding unloadable_def
  proof (intro conjI allI impI)
    fix i be assume i: "i < MAX_NUM_JRTC_APPS" "slot_env st' i = Some be"
    then have j: "i \<noteq> n" "slot_env st i = Some be" using slot by (auto split: if_splits)
    then have d: "env_app_handle be \<noteq> Some h" "env_dapp_ctx be = None \<or> env_dapp_ctx be \<noteq> env_dapp_ctx ae"
      using un i(1) n s h(1) unfolding unloadable_def by metis+
    obtain g where g: "env_app_handle be = Some g" "g \<in> set (dl_open st)" "\<forall>c. env_dapp_ctx be = Some c \<longrightarrow> dapps (router st) c \<noteq> None"
      using un i(1) j(2) unfolding unloadable_def by blast
    show "\<exists>g. env_app_handle be = Some g \<and> g \<in> set (dl_open st')" using g(1,2) d(1) u(5) by auto
    show "dapps (router st') c \<noteq> None" if "env_dapp_ctx be = Some c" for c using that g(3) d(2) u(7) by (auto split: option.splits)
  next
    fix i j be ce assume "i < MAX_NUM_JRTC_APPS" "j < MAX_NUM_JRTC_APPS" "i \<noteq> j" "slot_env st' i = Some be" "slot_env st' j = Some ce"
    then show "env_app_handle be \<noteq> env_app_handle ce" "env_dapp_ctx be = None \<or> env_dapp_ctx be \<noteq> env_dapp_ctx ce"
      using un slot unfolding unloadable_def by (metis option.distinct(1))+
  qed
  moreover have "live (heap st') \<subseteq> live (heap st)" "live (heap st) - set (slot_blocks st n) \<subseteq> live (heap st')"
    unfolding u(6) using a ae by (auto simp: slot_blocks_def env_blocks_def)
  moreover have "\<forall>i < MAX_NUM_JRTC_APPS. slot_env st' i = (if i = n then None else slot_env st i)" using slot by blast
  ultimately show thesis using that [OF u(1-3) _ u(4)] sb u(9) by blast
qed

lemma unload_all_ok:
  assumes "ext_laws E V" and "ctrl_inv st" and "router_inv E V (router st)" and "unloadable st" and "pthread_join_r os = 0"
    and "set is \<subseteq> {..<MAX_NUM_JRTC_APPS}"
  shows "\<exists>st'. unload_all E os res st is = Inr (res, st') \<and> ctrl_inv st' \<and> router_inv E V (router st') \<and>
    (\<forall>i < MAX_NUM_JRTC_APPS. app_envs st' ! i = (if i \<in> set is then None else app_envs st ! i)) \<and>
    live (heap st') \<subseteq> live (heap st) \<and> live (heap st) - (\<Union>i \<in> set is. set (slot_blocks st i)) \<subseteq> live (heap st')"
  using assms(2-4,6)
proof (induction "is" arbitrary: st)
  case (Cons i "is")
  show ?case
  proof (cases "app_envs st ! i")
    case None
    then show ?thesis using Cons.IH [OF Cons.prems(1-3)] Cons.prems(4) by auto
  next
    case (Some a)
    have i: "i < MAX_NUM_JRTC_APPS" using Cons.prems(4) by simp
    have len: "length (app_envs st) = MAX_NUM_JRTC_APPS" using Cons.prems(1) by (simp add: ctrl_inv_def slots_wf_def)
    obtain st1 where 1: "unload_app E os st (int i) = Inr (0, st1)" "ctrl_inv st1" "router_inv E V (router st1)" "unloadable st1"
      "app_envs st1 = (app_envs st)[i := None]" "live (heap st1) \<subseteq> live (heap st)" "live (heap st) - set (slot_blocks st i) \<subseteq> live (heap st1)"
      "\<forall>j < MAX_NUM_JRTC_APPS. j \<noteq> i \<longrightarrow> slot_blocks st1 j = slot_blocks st j"
      "\<forall>j < MAX_NUM_JRTC_APPS. slot_env st1 j = (if j = i then None else slot_env st j)" "oom (heap st1) = oom (heap st)"
      by (rule unload_slot [OF assms(1) Cons.prems(1-3) i Some assms(5)])
    from Cons.IH [OF 1(2-4)] Cons.prems(4) obtain st2 where
      2: "unload_all E os res st1 is = Inr (res, st2)" "ctrl_inv st2" "router_inv E V (router st2)"
        "\<forall>j < MAX_NUM_JRTC_APPS. app_envs st2 ! j = (if j \<in> set is then None else app_envs st1 ! j)" "live (heap st2) \<subseteq> live (heap st1)"
        "live (heap st1) - (\<Union>i \<in> set is. set (slot_blocks st1 i)) \<subseteq> live (heap st2)"
      by auto
    have sub: "set (slot_blocks st1 j) \<subseteq> set (slot_blocks st j)" if "j \<in> set is" for j
    proof (cases "j = i")
      case True
      then show ?thesis using 1(5) i len by (simp add: slot_blocks_def)
    next
      case False
      then show ?thesis using 1(8) that Cons.prems(4) by auto
    qed
    have "live (heap st) - (\<Union>j \<in> set (i # is). set (slot_blocks st j)) \<subseteq> live (heap st1) - (\<Union>j \<in> set is. set (slot_blocks st1 j))"
    proof -
      have "(\<Union>j \<in> set is. set (slot_blocks st1 j)) \<subseteq> (\<Union>j \<in> set is. set (slot_blocks st j))" using sub by (rule UN_mono [OF subset_refl])
      then show ?thesis using 1(7) unfolding list.set UN_insert by blast
    qed
    then have "live (heap st) - (\<Union>j \<in> set (i # is). set (slot_blocks st j)) \<subseteq> live (heap st2)" using 2(6) by (rule subset_trans)
    moreover have "\<forall>j < MAX_NUM_JRTC_APPS. app_envs st2 ! j = (if j \<in> set (i # is) then None else app_envs st ! j)"
      using 2(4) 1(5) len by (auto simp: nth_list_update)
    moreover have "live (heap st2) \<subseteq> live (heap st)" using 2(5) 1(6) by (rule subset_trans)
    moreover have "unload_all E os res st (i # is) = Inr (res, st2)" using 1(1) 2(1) Some by simp
    ultimately show ?thesis using 2(2,3) by (intro exI [of _ st2] conjI)
  qed
qed simp

end
