(* ===== verification/Controller_Props.thy ===== *)
theory Controller_Props
  imports Router_Props Controller_Apps
begin

text \<open>
  The properties of loading and unloading applications, each with an instance on a controller with an
  empty table.
\<close>

definition os0 :: os_results where
  "os0 = \<lparr>memfd_create_r = 5, ftruncate_r = 0, write_r = 2, dlopen_r = Some 9, dlsym_r = True, pthread_create_r = 0,
     pthread_join_r = 0, sched_r = (\<lambda>_. 0)\<rparr>"

definition ctrl0 :: "(lib_env, bool list, sim_ht, sim_ring, sim_pool) controller" where
  "ctrl0 = \<lparr>heap = mem0, app_envs = replicate MAX_NUM_JRTC_APPS None, next_available_app_env = 0, env_mem = Map.empty,
     dl_open = [], fds = [], router = sim_st0, os_calls = []\<rparr>"

definition req0 :: load_app_request where
  "req0 = \<lparr>lr_app = Some [1, 2], lr_app_size = 2, lr_app_name = Some ''a'', lr_runtime_us = 0, lr_deadline_us = 0, lr_period_us = 0,
     lr_ioq_size = 3, lr_app_path = Some ''/a.so'', lr_app_type = Some ''c'', lr_params = [(Some ''k'', Some ''v'')],
     lr_device_mapping = [], lr_app_modules = [None, Some ''m'']\<rparr>"

lemma ctrl0_inv: "ctrl_inv ctrl0"
  by (simp add: ctrl_inv_def slots_wf_def slot_blocks_def ctrl0_def mem_wf_def mem0_def MAX_NUM_JRTC_APPS_def)

lemma ctrl0_router: "router_inv sim sim_views (router ctrl0)"
  using sim_run_start by (simp add: initialised_def router_ok_def sim_run_def ctrl0_def)



text \<open>Whenever an application passes the checks and gets a slot, but its library cannot be opened or its
  thread cannot be created, the error path frees the environment a second time.\<close>

lemma load_app_failure_double_free:
  assumes "ctrl_inv st" and "lr_app req \<noteq> None" and "lr_app_size req \<noteq> 0" and "\<not> is_app_loaded st req"
    and "\<not> oom (heap st) (next_addr (heap st))" and "None \<in> set (app_envs st)"
    and "fst (jrtc_load_app_from_memory os st (lr_app_size req)) = None \<or> pthread_create_r os \<noteq> 0"
  shows "\<exists>a. load_app os st req = Inl (DoubleFree a)"
  by (rule load_app_cases [OF assms(1), of os req]) (use assms in auto)

lemma ctrl0_load:
  obtains st' where "load_app os0 ctrl0 req0 = Inr (int 0, st')" "loaded ctrl0 req0 9 0 st'" "ctrl_inv st'"
proof -
  have i: "(case load_app os0 ctrl0 req0 of Inr (i, _) \<Rightarrow> i | Inl _ \<Rightarrow> -1) = 0" by code_simp
  have h: "fst (jrtc_load_app_from_memory os0 ctrl0 (lr_app_size req0)) = Some 9" by code_simp
  show thesis by (rule load_app_cases [OF ctrl0_inv, of os0 req0]) (use i h that in auto)
qed

text \<open>The environment that loading puts into a slot.\<close>

lemma loaded_env:
  assumes "ctrl_inv st" and "loaded st req h n st'" and "ctrl_inv st'"
  obtains a ae where "n < MAX_NUM_JRTC_APPS" "app_envs st' = (app_envs st)[n := Some a]" "app_envs st' ! n = Some a" "env_mem st' a = Some ae"
    "env_app_handle ae = Some h" "env_dapp_ctx ae = None" "dl_open st' = h # dl_open st" "router st' = router st"
    "live (heap st') = live (heap st) \<union> set (a # env_blocks ae)" "set (a # env_blocks ae) \<inter> live (heap st) = {}"
    "(\<forall>k. \<not> oom (heap st) k) \<longrightarrow> env_app_name ae \<noteq> None"
proof -
  obtain a m ae m' where s: "n < MAX_NUM_JRTC_APPS" "fill_env m req h = (ae, m')" "app_envs st' = (app_envs st)[n := Some a]"
    "env_mem st' = (env_mem st)(a \<mapsto> ae)" "dl_open st' = h # dl_open st" "router st' = router st"
    "malloc (heap st) = (Some a, m)"
    using assms(2) unfolding loaded_def by blast
  have name: "(\<forall>k. \<not> oom (heap st) k) \<longrightarrow> env_app_name ae \<noteq> None"
    using fill_env_name [OF _ s(2)] malloc_Some [OF s(7)] by simp
  have len: "length (app_envs st) = MAX_NUM_JRTC_APPS" using assms(1) by (simp add: ctrl_inv_def slots_wf_def)
  have "slots_wf st'" using assms(3) by (simp add: ctrl_inv_def)
  then obtain bs where g: "grows (heap st) (heap st') bs" "set bs = set (slot_blocks st' n)" using loaded_inv(2) [OF assms(1,2)] by blast
  have "slot_blocks st' n = a # env_blocks ae" using s len by (simp add: slot_blocks_def)
  moreover have "env_app_handle ae = Some h" "env_dapp_ctx ae = None" using s(2) by (auto simp: fill_env_def split: prod.splits)
  ultimately show thesis using that [of a ae] s len g name by (simp add: grows_def)
qed



text \<open>A library that does not export the entry point is closed by its own thread and again by
  \<open>unload_app\<close>; the second close fails and the process is aborted.\<close>

lemma missing_entry_point_aborts:
  assumes "ext_laws E V" and "ctrl_inv st" and "router_inv E V (router st)" and "load_app os st req = Inr (int n, st1)"
    and "\<not> dlsym_r os" and "fst (jrtc_load_app_from_memory os st (lr_app_size req)) = Some h" and "h \<notin> set (dl_open st)"
    and "\<forall>k. \<not> oom (heap st) k"
  shows "\<exists>a st2. app_envs st1 ! n = Some a \<and> run_app E os app st1 a = Inr st2 \<and> unload_app E os st2 (int n) = Inl Aborted"
proof -
  have l: "loaded st req h n st1" "ctrl_inv st1"
    by (rule load_app_cases [OF assms(2), of os req]; use assms(4,6) in auto)+
  obtain a ae where
    e: "n < MAX_NUM_JRTC_APPS" "app_envs st1 = (app_envs st)[n := Some a]" "app_envs st1 ! n = Some a" "env_mem st1 a = Some ae"
      "env_app_handle ae = Some h" "env_dapp_ctx ae = None" "dl_open st1 = h # dl_open st" "router st1 = router st"
      "live (heap st1) = live (heap st) \<union> set (a # env_blocks ae)" "set (a # env_blocks ae) \<inter> live (heap st) = {}"
      "(\<forall>k. \<not> oom (heap st) k) \<longrightarrow> env_app_name ae \<noteq> None"
    by (rule loaded_env [OF assms(2) l])
  have R: "router_inv E V (router st1)" using assms(3) e(8) by simp
  obtain st2 ctx where r: "run_app E os app st1 a = Inr st2" "app_envs st2 = app_envs st1" "dl_open st2 = remove1 h (dl_open st1)"
    "env_mem st2 = (env_mem st1)(a \<mapsto> ae\<lparr>env_dapp_ctx := ctx\<rparr>)"
    by (rule run_app_no_symbol [OF assms(1) R e(4) assms(5) e(5) e(11) [rule_format, OF assms(8) [rule_format]]])
  have "unload_app E os st2 (int n) = Inl Aborted"
    using e(1,3,5,7) r(2-4) assms(7) by (simp add: unload_app_def dlclose_def)
  then show ?thesis using e(3) r(1) by blast
qed

lemma list_ex_slot: "n < MAX_NUM_JRTC_APPS \<Longrightarrow> P n \<Longrightarrow> list_ex P [0..<MAX_NUM_JRTC_APPS]"
  by (auto simp: list_ex_iff)

text \<open>An application is loaded at most once: while memory suffices, a second request with the same path
  (or, for a Python application, with the same first parameter) is refused and changes nothing.\<close>

lemma reload_refused:
  assumes "ctrl_inv st" and "\<And>k. \<not> oom (heap st) k" and "load_app os st req = Inr (int n, st1)" and "lr_app_type req = Some ty"
    and "if ty = ''python'' then \<exists>k v ps. lr_params req = (Some k, Some v) # ps else \<exists>p. lr_app_path req = Some p"
  shows "load_app os' st1 req = Inr (-1, st1)"
proof -
  obtain h where l: "loaded st req h n st1" by (rule load_app_cases [OF assms(1), of os req]) (use assms(3) in auto)
  obtain a m ae m' where s: "n < MAX_NUM_JRTC_APPS" "malloc (heap st) = (Some a, m)" "fill_env m req h = (ae, m')"
    "app_envs st1 = (app_envs st)[n := Some a]" "env_mem st1 = (env_mem st)(a \<mapsto> ae)"
    using l unfolding loaded_def by blast
  have len: "length (app_envs st) = MAX_NUM_JRTC_APPS" using assms(1) by (simp add: ctrl_inv_def slots_wf_def)
  have env: "slot_env st1 n = Some ae" using s len by (simp add: slot_env_def)
  have oom: "\<not> oom m k" for k using assms(2) malloc_Some [OF s(2)] by simp
  have path: "c_string (env_app_path ae) = lr_app_path req" if "lr_app_path req \<noteq> None"
    using s(3) that oom by (auto simp: fill_env_def strdup_def malloc_def c_string_def split: prod.splits option.splits if_splits)
  have parm: "\<exists>k' v' ps'. env_params ae = (k', v') # ps' \<and> c_string k' = Some k \<and> c_string v' = Some v" if "lr_params req = (Some k, Some v) # ps" for k v ps
    using s(3) that oom by (auto simp: fill_env_def strdup_def dup_opt_def malloc_def c_string_def split: prod.splits option.splits if_splits)
  have "is_app_loaded st1 req"
  proof (cases "ty = ''python''")
    case True
    then obtain k v ps where p: "lr_params req = (Some k, Some v) # ps" using assms(5) by auto
    from parm [OF p] obtain k' v' ps' where e: "env_params ae = (k', v') # ps'" "c_string k' = Some k" "c_string v' = Some v" by blast
    then have "same_string k' (Some k) \<and> same_string v' (Some v)" by (auto simp: same_string_def c_string_def)
    then show ?thesis using assms(4) True p e(1) env list_ex_slot [OF s(1)] by (simp add: is_app_loaded_def)
  next
    case False
    then have "same_string (env_app_path ae) (lr_app_path req)" using path assms(5) by (auto simp: same_string_def c_string_def)
    then show ?thesis using assms(4) False env list_ex_slot [OF s(1)] by (simp add: is_app_loaded_def)
  qed
  then show ?thesis by (simp add: load_app_def)
qed

end
