(* ===== verification/Startup_Props.thy ===== *)
theory Startup_Props
  imports Startup Controller_Props
begin

text \<open>
  Properties of the running process: loading, running and unloading in any order keep the controller and the
  router consistent, so that shutting down always empties the table; and the default application is
  loaded without leaving its temporary strings behind.
\<close>

section \<open>Events keep the process consistent\<close>

definition proc_inv ::
    "('e, 'bm, 'it, 'ht, 'rg, 'pl) ext \<Rightarrow> ('e, 'bm, 'it, 'ht, 'rg, 'pl) views \<Rightarrow> ('e, 'bm, 'ht, 'rg, 'pl) controller \<Rightarrow> bool" where
  "proc_inv E V st \<longleftrightarrow> ctrl_inv st \<and> router_inv E V (router st) \<and> unloadable st \<and> (\<forall>k. \<not> oom (heap st) k) \<and>
     (\<forall>i < MAX_NUM_JRTC_APPS. \<forall>ae. slot_env st i = Some ae \<longrightarrow> env_app_name ae \<noteq> None)"

lemma proc_invD:
  assumes "proc_inv E V st"
  shows "ctrl_inv st" "router_inv E V (router st)" "unloadable st" "\<And>k. \<not> oom (heap st) k"
    "\<And>i ae. i < MAX_NUM_JRTC_APPS \<Longrightarrow> slot_env st i = Some ae \<Longrightarrow> env_app_name ae \<noteq> None"
  using assms unfolding proc_inv_def by blast+

lemma unloadableD:
  assumes "unloadable st" and "i < MAX_NUM_JRTC_APPS" and "slot_env st i = Some ae"
  shows "\<exists>h. env_app_handle ae = Some h \<and> h \<in> set (dl_open st)" "\<And>c. env_dapp_ctx ae = Some c \<Longrightarrow> dapps (router st) c \<noteq> None"
    "\<And>j be. j < MAX_NUM_JRTC_APPS \<Longrightarrow> i \<noteq> j \<Longrightarrow> slot_env st j = Some be \<Longrightarrow>
       env_app_handle ae \<noteq> env_app_handle be \<and> (env_dapp_ctx ae = None \<or> env_dapp_ctx ae \<noteq> env_dapp_ctx be)"
  using assms unfolding unloadable_def by blast+

text \<open>Putting an environment into one slot: it must be unloadable itself and differ from the others.\<close>

lemma unloadable_slot:
  assumes un: "unloadable st" and n: "n < MAX_NUM_JRTC_APPS"
    and slot: "\<forall>i < MAX_NUM_JRTC_APPS. slot_env st' i = (if i = n then Some ae else slot_env st i)"
    and h: "env_app_handle ae = Some h" "h \<in> set (dl_open st')" and reg: "\<forall>c. env_dapp_ctx ae = Some c \<longrightarrow> dapps (router st') c \<noteq> None"
    and dl: "set (dl_open st) \<subseteq> set (dl_open st')" and da: "\<forall>c. dapps (router st) c \<noteq> None \<longrightarrow> dapps (router st') c \<noteq> None"
    and new: "\<forall>i < MAX_NUM_JRTC_APPS. \<forall>be. i \<noteq> n \<longrightarrow> slot_env st i = Some be \<longrightarrow> env_app_handle be \<noteq> Some h \<and>
      (env_dapp_ctx ae = None \<or> env_dapp_ctx be \<noteq> env_dapp_ctx ae)"
  shows "unloadable st'"
  unfolding unloadable_def
proof (intro conjI allI impI)
  fix i be assume i: "i < MAX_NUM_JRTC_APPS" "slot_env st' i = Some be"
  show "\<exists>g. env_app_handle be = Some g \<and> g \<in> set (dl_open st')"
    using i slot h dl unloadableD(1) [OF un i(1)] by (cases "i = n") auto
  show "dapps (router st') c \<noteq> None" if "env_dapp_ctx be = Some c" for c
    using i slot reg da that unloadableD(2) [OF un i(1)] by (cases "i = n") auto
next
  fix i j be ce assume i: "i < MAX_NUM_JRTC_APPS" "j < MAX_NUM_JRTC_APPS" "i \<noteq> j" "slot_env st' i = Some be" "slot_env st' j = Some ce"
  consider "i = n" "be = ae" "slot_env st j = Some ce" | "j = n" "ce = ae" "slot_env st i = Some be"
    | "i \<noteq> n" "slot_env st i = Some be" "slot_env st j = Some ce"
    using i slot by (cases "i = n"; cases "j = n") auto
  then have "env_app_handle be \<noteq> env_app_handle ce \<and> (env_dapp_ctx be = None \<or> env_dapp_ctx be \<noteq> env_dapp_ctx ce)"
  proof cases
    case 1
    then show ?thesis using new i h(1) by auto
  next
    case 2
    then show ?thesis using new i h(1) by auto
  next
    case 3
    then show ?thesis using unloadableD(3) [OF un i(1) 3(2) i(2,3)] by blast
  qed
  then show "env_app_handle be \<noteq> env_app_handle ce" "env_dapp_ctx be = None \<or> env_dapp_ctx be \<noteq> env_dapp_ctx ce" by blast+
qed

lemma unloadable_cong:
  assumes un: "unloadable st" and slot: "\<forall>i < MAX_NUM_JRTC_APPS. slot_env st' i = slot_env st i"
    and "dl_open st' = dl_open st" and "router st' = router st"
  shows "unloadable st'"
  unfolding unloadable_def assms(3,4)
proof (intro conjI allI impI)
  fix i be assume i: "i < MAX_NUM_JRTC_APPS" "slot_env st' i = Some be"
  then have s: "slot_env st i = Some be" using slot by simp
  show "\<exists>g. env_app_handle be = Some g \<and> g \<in> set (dl_open st)" using unloadableD(1) [OF un i(1) s] .
  show "dapps (router st) c \<noteq> None" if "env_dapp_ctx be = Some c" for c using unloadableD(2) [OF un i(1) s that] .
next
  fix i j be ce assume i: "i < MAX_NUM_JRTC_APPS" "j < MAX_NUM_JRTC_APPS" "i \<noteq> j" "slot_env st' i = Some be" "slot_env st' j = Some ce"
  then have "slot_env st i = Some be" "slot_env st j = Some ce" using slot by simp_all
  from unloadableD(3) [OF un i(1) this(1) i(2,3) this(2)]
  show "env_app_handle be \<noteq> env_app_handle ce" "env_dapp_ctx be = None \<or> env_dapp_ctx be \<noteq> env_dapp_ctx ce" by blast+
qed

lemma slot_addr_live:
  assumes "ctrl_inv st" and "i < MAX_NUM_JRTC_APPS" and "app_envs st ! i = Some a"
  shows "a \<in> live (heap st)"
  by (rule ctrl_inv_slot [OF assms]) simp

text \<open>Changes that leave the slots and their blocks alone.\<close>

lemma ctrl_inv_frame:
  assumes inv: "ctrl_inv st" and same: "\<forall>i < MAX_NUM_JRTC_APPS. slot_blocks st' i = slot_blocks st i"
    and wf: "slots_wf st'" "mem_wf (heap st')" and live: "live (heap st) \<subseteq> live (heap st')"
    and env: "\<forall>i < MAX_NUM_JRTC_APPS. \<forall>a. app_envs st' ! i = Some a \<longrightarrow> env_mem st' a \<noteq> None"
  shows "ctrl_inv st'"
proof -
  have "distinct (slot_blocks st' i)" "set (slot_blocks st' i) \<subseteq> live (heap st')" if "i < MAX_NUM_JRTC_APPS" for i
  proof -
    have "distinct (slot_blocks st i)" "set (slot_blocks st i) \<subseteq> live (heap st)" using inv that unfolding ctrl_inv_def by blast+
    then show "distinct (slot_blocks st' i)" "set (slot_blocks st' i) \<subseteq> live (heap st')" using same that live by auto
  qed
  moreover have "set (slot_blocks st' i) \<inter> set (slot_blocks st' j) = {}" if "i < MAX_NUM_JRTC_APPS" "j < MAX_NUM_JRTC_APPS" "i \<noteq> j" for i j
  proof -
    have "set (slot_blocks st i) \<inter> set (slot_blocks st j) = {}" using inv that unfolding ctrl_inv_def by blast
    then show ?thesis using same that by simp
  qed
  ultimately show ?thesis using wf env by (simp add: ctrl_inv_def)
qed

text \<open>Loading.\<close>

lemma load_keeps:
  assumes P: "proc_inv E V st" and h: "fst (jrtc_load_app_from_memory os st (lr_app_size req)) = Some h" "h \<notin> set (dl_open st)"
    and th: "pthread_create_r os = 0"
  shows "\<exists>r st'. load_app os st req = Inr (r, st') \<and> proc_inv E V st'"
proof (rule load_app_cases [OF proc_invD(1) [OF P], of os req])
  assume r: "lr_app req = None \<or> lr_app_size req = 0 \<or> is_app_loaded st req \<or> oom (heap st) (next_addr (heap st))"
  have "lr_app req = None \<or> lr_app_size req = 0 \<or> is_app_loaded st req" using r proc_invD(4) [OF P] by blast
  then have "load_app os st req = Inr (-1, st)" by (auto simp: load_app_def)
  then show ?thesis using P by blast
next
  fix st' a assume r: "load_app os st req = Inr (-1, st')" "app_envs st' = app_envs st" "grows (heap st) (heap st') [a]"
    "env_mem st' = (env_mem st)(a \<mapsto> zero_env)" "dl_open st' = dl_open st" "router st' = router st" "next_available_app_env st' = next_available_app_env st"
  have na: "app_envs st ! i \<noteq> Some a" if "i < MAX_NUM_JRTC_APPS" for i
    using slot_addr_live [OF proc_invD(1) [OF P] that] r(3) by (auto simp: grows_def)
  have slot: "\<forall>i < MAX_NUM_JRTC_APPS. slot_env st' i = slot_env st i \<and> slot_blocks st' i = slot_blocks st i"
    using na r(2,4) by (auto simp: slot_env_def slot_blocks_def split: option.splits)
  have "ctrl_inv st'"
    by (rule ctrl_inv_frame [OF proc_invD(1) [OF P], of st'])
      (use slot r proc_invD(1) [OF P] in \<open>auto simp: ctrl_inv_def slots_wf_def grows_def slot_blocks_def\<close>)
  moreover have "unloadable st'" by (rule unloadable_cong [OF proc_invD(3) [OF P] _ r(5,6)]) (use slot in blast)
  moreover have "\<forall>k. \<not> oom (heap st') k" using proc_invD(4) [OF P] r(3) by (simp add: grows_def)
  moreover have "\<forall>i < MAX_NUM_JRTC_APPS. \<forall>ae. slot_env st' i = Some ae \<longrightarrow> env_app_name ae \<noteq> None" using proc_invD(5) [OF P] slot by simp
  ultimately have "proc_inv E V st'" using proc_invD(2) [OF P] r(6) by (simp add: proc_inv_def)
  then show ?thesis using r(1) by blast
next
  fix a assume "fst (jrtc_load_app_from_memory os st (lr_app_size req)) = None \<or> pthread_create_r os \<noteq> 0"
  then show ?thesis using h th by simp
next
  fix n h' st' assume r: "load_app os st req = Inr (int n, st')" "loaded st req h' n st'" "ctrl_inv st'"
    "fst (jrtc_load_app_from_memory os st (lr_app_size req)) = Some h'"
  have hh: "h' = h" using r(4) h(1) by simp
  have n: "n < MAX_NUM_JRTC_APPS" "app_envs st ! n = None" using r(2) by (simp_all add: loaded_def)
  have len: "length (app_envs st) = MAX_NUM_JRTC_APPS" using proc_invD(1) [OF P] by (simp add: ctrl_inv_def slots_wf_def)
  obtain a ae where e: "app_envs st' = (app_envs st)[n := Some a]" "env_mem st' = (env_mem st)(a \<mapsto> ae)" "dl_open st' = h # dl_open st"
    "router st' = router st" "env_app_handle ae = Some h" "env_dapp_ctx ae = None" "a \<notin> live (heap st)" "env_app_name ae \<noteq> None"
  proof -
    obtain a m ae m' where f: "malloc (heap st) = (Some a, m)" "fill_env m req h' = (ae, m')" "app_envs st' = (app_envs st)[n := Some a]"
      "env_mem st' = (env_mem st)(a \<mapsto> ae)" "dl_open st' = h' # dl_open st" "router st' = router st"
      using r(2) unfolding loaded_def by blast
    have "a \<notin> live (heap st)" using malloc_fresh f(1) proc_invD(1) [OF P] unfolding ctrl_inv_def by blast
    moreover have "env_app_name ae \<noteq> None" using fill_env_name [OF _ f(2)] malloc_Some [OF f(1)] proc_invD(4) [OF P] by simp
    moreover have "env_app_handle ae = Some h'" "env_dapp_ctx ae = None" using f(2) by (auto simp: fill_env_def split: prod.splits)
    ultimately show thesis using that [of a ae] f hh by simp
  qed
  have na: "app_envs st ! i \<noteq> Some a" if "i < MAX_NUM_JRTC_APPS" for i
    using slot_addr_live [OF proc_invD(1) [OF P] that] e(7) by blast
  have slot: "\<forall>i < MAX_NUM_JRTC_APPS. slot_env st' i = (if i = n then Some ae else slot_env st i)"
    using na e(1,2) n(1) len by (auto simp: slot_env_def split: option.splits)
  have new: "\<forall>i < MAX_NUM_JRTC_APPS. \<forall>be. i \<noteq> n \<longrightarrow> slot_env st i = Some be \<longrightarrow> env_app_handle be \<noteq> Some h \<and>
      (env_dapp_ctx ae = None \<or> env_dapp_ctx be \<noteq> env_dapp_ctx ae)"
    using unloadableD(1) [OF proc_invD(3) [OF P]] h(2) e(6) by fastforce
  have "unloadable st'"
    by (rule unloadable_slot [OF proc_invD(3) [OF P] n(1) slot e(5) _ _ _ _ new]) (use e in auto)
  moreover have "\<forall>k. \<not> oom (heap st') k"
  proof -
    have "slots_wf st'" using r(3) by (simp add: ctrl_inv_def)
    then show ?thesis using loaded_inv(2) [OF proc_invD(1) [OF P] r(2)] proc_invD(4) [OF P] by (auto simp: grows_def)
  qed
  moreover have "\<forall>i < MAX_NUM_JRTC_APPS. \<forall>be. slot_env st' i = Some be \<longrightarrow> env_app_name be \<noteq> None" using slot e(8) proc_invD(5) [OF P] by auto
  ultimately have "proc_inv E V st'" using r(3) proc_invD(2) [OF P] e(4) by (simp add: proc_inv_def)
  then show ?thesis using r(1) by blast
qed

text \<open>Running: first the environment is registered, then the application's own code runs.\<close>

lemma run_app_app: "dlsym_r os \<Longrightarrow> run_app E os app st a = bindS (run_app E os (\<lambda>st a. Inr st) st a) (\<lambda>st. app st a)"
  by (cases "env_mem st a"; cases "jrtc_router_register_app E (router st) (unat (env_io_queue_size (the (env_mem st a))))")
    (auto simp: run_app_def Let_def split: option.splits)

lemma run_registers:
  assumes L: "ext_laws E V" and P: "proc_inv E V st" and sym: "dlsym_r os" and n: "n < MAX_NUM_JRTC_APPS" and a: "app_envs st ! n = Some a"
  shows "\<exists>st'. run_app E os (\<lambda>st a. Inr st) st a = Inr st' \<and> proc_inv E V st'"
proof -
  note I = proc_invD [OF P]
  obtain ae where ae: "env_mem st a = Some ae" by (rule ctrl_inv_slot [OF I(1) n a])
  have s: "slot_env st n = Some ae" using a ae by (simp add: slot_env_def)
  obtain st' ctx where r: "run_app E os (\<lambda>st a. Inr st) st a = Inr st'" "ctrl_inv st'" "router_inv E V (router st')"
    "heap st' = heap st" "app_envs st' = app_envs st" "dl_open st' = dl_open st" "env_mem st' = (env_mem st)(a \<mapsto> ae\<lparr>env_dapp_ctx := ctx\<rparr>)"
    "case ctx of None \<Rightarrow> dapps (router st') = dapps (router st) | Some c \<Rightarrow> dapps (router st) c = None \<and> (\<exists>d. dapps (router st') = (dapps (router st))(c \<mapsto> d))"
    by (rule run_app_ok [OF L I(1,2) ae sym I(5) [OF n s]])
  let ?ae = "ae\<lparr>env_dapp_ctx := ctx\<rparr>"
  have other: "app_envs st ! i \<noteq> Some a" if "i < MAX_NUM_JRTC_APPS" "i \<noteq> n" for i
    using slot_owner [OF I(1) that(1) n _, of a] that a by (auto simp: slot_blocks_def)
  have slot: "\<forall>i < MAX_NUM_JRTC_APPS. slot_env st' i = (if i = n then Some ?ae else slot_env st i)"
    using other r(5,7) a by (auto simp: slot_env_def split: option.splits)
  obtain h where h: "env_app_handle ae = Some h" "h \<in> set (dl_open st)" using unloadableD(1) [OF I(3) n s] by blast
  have new: "\<forall>i < MAX_NUM_JRTC_APPS. \<forall>be. i \<noteq> n \<longrightarrow> slot_env st i = Some be \<longrightarrow> env_app_handle be \<noteq> Some h \<and>
      (env_dapp_ctx ?ae = None \<or> env_dapp_ctx be \<noteq> env_dapp_ctx ?ae)"
  proof (intro allI impI conjI)
    fix i be assume i: "i < MAX_NUM_JRTC_APPS" "i \<noteq> n" "slot_env st i = Some be"
    show "env_app_handle be \<noteq> Some h" using unloadableD(3) [OF I(3) i(1,3) n i(2) s] h(1) by simp
    show "env_dapp_ctx ?ae = None \<or> env_dapp_ctx be \<noteq> env_dapp_ctx ?ae"
      using unloadableD(2) [OF I(3) i(1,3)] r(8) by (cases ctx) auto
  qed
  have "unloadable st'"
    by (rule unloadable_slot [OF I(3) n slot _ _ _ _ _ new]) (use h r(6,8) in \<open>auto split: option.splits\<close>)
  moreover have "\<forall>i < MAX_NUM_JRTC_APPS. \<forall>be. slot_env st' i = Some be \<longrightarrow> env_app_name be \<noteq> None" using slot I(5) s n by auto
  ultimately have "proc_inv E V st'" using r(2-4) I(4) by (simp add: proc_inv_def)
  then show ?thesis using r(1) by blast
qed

lemma unload_keeps:
  assumes L: "ext_laws E V" and P: "proc_inv E V st" and i: "0 \<le> i" "i < int MAX_NUM_JRTC_APPS" and join: "pthread_join_r os = 0"
  shows "\<exists>r st'. unload_app E os st i = Inr (r, st') \<and> proc_inv E V st'"
proof -
  obtain n where n: "i = int n" "n < MAX_NUM_JRTC_APPS" using i by (metis nonneg_int_cases of_nat_less_iff)
  note I = proc_invD [OF P]
  show ?thesis
  proof (cases "app_envs st ! n")
    case None
    then show ?thesis using n P by (simp add: unload_app_def)
  next
    case (Some a)
    obtain st' where u: "unload_app E os st (int n) = Inr (0, st')" "ctrl_inv st'" "router_inv E V (router st')" "unloadable st'"
      "app_envs st' = (app_envs st)[n := None]" "live (heap st') \<subseteq> live (heap st)" "live (heap st) - set (slot_blocks st n) \<subseteq> live (heap st')"
      "\<forall>i < MAX_NUM_JRTC_APPS. i \<noteq> n \<longrightarrow> slot_blocks st' i = slot_blocks st i"
      "\<forall>i < MAX_NUM_JRTC_APPS. slot_env st' i = (if i = n then None else slot_env st i)" "oom (heap st') = oom (heap st)"
      by (rule unload_slot [OF L I(1-3) n(2) Some join])
    have "proc_inv E V st'" using u(2-4,9,10) I(4,5) by (auto simp: proc_inv_def)
    then show ?thesis using u(1) n(1) by blast
  qed
qed

text \<open>What is asked of the operating system in one event: libraries open with a new handle and have the entry
  point, threads start and can be joined.  Ids of unload requests are in range.\<close>

definition good_event :: "('e, 'bm, 'ht, 'rg, 'pl) controller \<Rightarrow> process_event \<Rightarrow> bool" where
  "good_event st ev \<longleftrightarrow>
     (case ev of
        LoadRequest req os \<Rightarrow>
          (case fst (jrtc_load_app_from_memory os st (lr_app_size req)) of None \<Rightarrow> False | Some h \<Rightarrow> h \<notin> set (dl_open st)) \<and> pthread_create_r os = 0
      | UnloadRequest i os \<Rightarrow> 0 \<le> i \<and> i < int MAX_NUM_JRTC_APPS \<and> pthread_join_r os = 0
      | AppThread i os \<Rightarrow> dlsym_r os
      | Signal signo \<Rightarrow> True
      | StopCall \<Rightarrow> True)"

text \<open>What is asked of an application's own code: it returns and leaves the controller consistent.\<close>

definition app_ok ::
    "('e, 'bm, 'it, 'ht, 'rg, 'pl) ext \<Rightarrow> ('e, 'bm, 'it, 'ht, 'rg, 'pl) views \<Rightarrow>
     (('e, 'bm, 'ht, 'rg, 'pl) controller \<Rightarrow> addr \<Rightarrow> ub + ('e, 'bm, 'ht, 'rg, 'pl) controller) \<Rightarrow> bool" where
  "app_ok E V app \<longleftrightarrow> (\<forall>st a. proc_inv E V st \<longrightarrow> (\<exists>st'. app st a = Inr st' \<and> proc_inv E V st'))"

lemma event_keeps:
  assumes L: "ext_laws E V" and A: "app_ok E V app" and P: "proc_inv E V st" and g: "good_event st ev"
  shows "\<exists>st' sg'. handle_event E app ev (st, sg) = Inr (st', sg') \<and> proc_inv E V st'"
proof (cases ev)
  case (LoadRequest req os)
  then obtain h where h: "fst (jrtc_load_app_from_memory os st (lr_app_size req)) = Some h" "h \<notin> set (dl_open st)" "pthread_create_r os = 0"
    using g by (auto simp: good_event_def split: option.splits)
  from load_keeps [OF P h] show ?thesis using LoadRequest by (auto simp: handle_event_def)
next
  case (UnloadRequest i os)
  then have "0 \<le> i" "i < int MAX_NUM_JRTC_APPS" "pthread_join_r os = 0" using g by (simp_all add: good_event_def)
  from unload_keeps [OF L P this] show ?thesis using UnloadRequest by (auto simp: handle_event_def)
next
  case (AppThread i os)
  show ?thesis
  proof (cases "i < MAX_NUM_JRTC_APPS \<and> app_envs st ! i \<noteq> None")
    case True
    then obtain a where a: "app_envs st ! i = Some a" by auto
    have sym: "dlsym_r os" using g AppThread by (simp add: good_event_def)
    from run_registers [OF L P sym conjunct1 [OF True] a] obtain st1 where
      1: "run_app E os (\<lambda>st a. Inr st) st a = Inr st1" "proc_inv E V st1" by blast
    from A 1(2) obtain st2 where "app st1 a = Inr st2" "proc_inv E V st2" unfolding app_ok_def by blast
    then show ?thesis using AppThread a True 1(1) run_app_app [OF sym, of E app st a] by (simp add: handle_event_def)
  next
    case False
    then show ?thesis using AppThread P by (auto simp: handle_event_def)
  qed
qed (use P in \<open>simp_all add: handle_event_def\<close>)

text \<open>The states that the process gets into while it serves.\<close>

inductive runs ::
    "('e, 'bm, 'it, 'ht, 'rg, 'pl) ext \<Rightarrow>
     (('e, 'bm, 'ht, 'rg, 'pl) controller \<Rightarrow> addr \<Rightarrow> ub + ('e, 'bm, 'ht, 'rg, 'pl) controller) \<Rightarrow>
     ('e, 'bm, 'ht, 'rg, 'pl) controller \<times> signals \<Rightarrow> ('e, 'bm, 'ht, 'rg, 'pl) controller \<times> signals \<Rightarrow> bool"
  for E app p where
  start: "runs E app p p"
| event: "runs E app p (st, sg) \<Longrightarrow> good_event st ev \<Longrightarrow> handle_event E app ev (st, sg) = Inr q \<Longrightarrow> runs E app p q"

inductive_simps runs_simps: "runs E app p q"

lemma runs_keeps:
  assumes "runs E app p q" and L: "ext_laws E V" and A: "app_ok E V app" and "proc_inv E V (fst p)"
  shows "proc_inv E V (fst q)"
  using assms(1,4)
proof induction
  case (event st sg ev q)
  then show ?case using event_keeps [OF L A _ event.hyps(2), of sg] event.hyps(3) by auto
qed simp

text \<open>C3: Applications may be loaded, run, reloaded and unloaded in any order and interleaved with signals: as long as
  the operating system and the applications' own code do their part, every reachable state satisfies the
  invariant of the controller and of the router, the next event is handled without undefined behaviour, and
  the shutdown loop that may start at any time unloads every application and leaves an empty table.\<close>

theorem process_stays_consistent:
  assumes "ext_laws E V" and "app_ok E V app" and "proc_inv E V st0" and "runs E app (st0, sg0) (st, sg)" and "pthread_join_r os = 0"
  shows "proc_inv E V st \<and> (good_event st ev \<longrightarrow> (\<exists>p. handle_event E app ev (st, sg) = Inr p)) \<and>
    (\<exists>st'. unload_all E os res st [0..<MAX_NUM_JRTC_APPS] = Inr (res, st') \<and> ctrl_inv st' \<and> router_inv E V (router st') \<and>
      (\<forall>i < MAX_NUM_JRTC_APPS. app_envs st' ! i = None))"
proof -
  have P: "proc_inv E V st" using runs_keeps [OF assms(4,1,2)] assms(3) by simp
  have "\<exists>p. handle_event E app ev (st, sg) = Inr p" if "good_event st ev" using event_keeps [OF assms(1,2) P that, of sg] by blast
  moreover have "\<exists>st'. unload_all E os res st [0..<MAX_NUM_JRTC_APPS] = Inr (res, st') \<and> ctrl_inv st' \<and> router_inv E V (router st') \<and>
      (\<forall>i < MAX_NUM_JRTC_APPS. app_envs st' ! i = None)"
  proof -
    have "set [0..<MAX_NUM_JRTC_APPS] \<subseteq> {..<MAX_NUM_JRTC_APPS}" by auto
    from unload_all_ok [OF assms(1) proc_invD(1-3) [OF P] assms(5) this, of res] show ?thesis by auto
  qed
  ultimately show ?thesis using P by blast
qed

lemma ctrl0_proc_inv: "proc_inv sim sim_views ctrl0"
proof -
  have "\<forall>i < MAX_NUM_JRTC_APPS. slot_env ctrl0 i = None" by (simp add: slot_env_def ctrl0_def)
  moreover then have "unloadable ctrl0" by (simp add: unloadable_def)
  moreover have "\<forall>k. \<not> oom (heap ctrl0) k" by (simp add: ctrl0_def mem0_def)
  ultimately show ?thesis using ctrl0_inv ctrl0_router by (simp add: proc_inv_def)
qed

definition stopped :: signals where
  "stopped = \<lparr>jrtc_stop = 0, py_initialized = False\<rparr>"

theorem process_stays_consistent_witness:
  "\<exists>st sg. handle_event sim (\<lambda>st a. Inr st) (LoadRequest req0 os0) (ctrl0, stopped) = Inr (st, sg) \<and> app_envs st ! 0 \<noteq> None \<and>
     (\<exists>st'. unload_all sim os0 0 st [0..<MAX_NUM_JRTC_APPS] = Inr (0, st') \<and> (\<forall>i < MAX_NUM_JRTC_APPS. app_envs st' ! i = None))"
proof -
  have A: "app_ok sim sim_views (\<lambda>st a. Inr st)" by (simp add: app_ok_def)
  have h: "fst (jrtc_load_app_from_memory os0 ctrl0 (lr_app_size req0)) = Some 9" by code_simp
  have g: "good_event ctrl0 (LoadRequest req0 os0)" using h by (simp add: good_event_def ctrl0_def os0_def)
  obtain st' where l: "load_app os0 ctrl0 req0 = Inr (int 0, st')" "loaded ctrl0 req0 9 0 st'" "ctrl_inv st'" by (rule ctrl0_load)
  have e: "handle_event sim (\<lambda>st a. Inr st) (LoadRequest req0 os0) (ctrl0, stopped) = Inr (st', stopped)" using l(1) by (simp add: handle_event_def)
  have r: "runs sim (\<lambda>st a. Inr st) (ctrl0, stopped) (st', stopped)" by (rule runs.event [OF runs.start g e])
  have "app_envs st' ! 0 \<noteq> None" using l(2) by (auto simp: loaded_def ctrl0_def MAX_NUM_JRTC_APPS_def)
  moreover have "pthread_join_r os0 = 0" by (simp add: os0_def)
  ultimately show ?thesis using process_stays_consistent [OF sim_ext_laws A ctrl0_proc_inv r, of os0 StopCall 0] e by blast
qed

section \<open>The default application\<close>

lemma free_ok: "mem_wf m \<Longrightarrow> a \<in> live m \<Longrightarrow> \<exists>m'. free m a = Inr m' \<and> live m' = live m - {a} \<and> mem_wf m'"
  by (auto simp: free_def mem_wf_def)

text \<open>Giving back blocks that belong to no slot.\<close>

lemma ctrl_inv_heap:
  assumes inv: "ctrl_inv st" and wf: "mem_wf m" and live: "\<forall>i < MAX_NUM_JRTC_APPS. set (slot_blocks st i) \<subseteq> live m"
  shows "ctrl_inv (st\<lparr>heap := m\<rparr>)"
proof -
  have sb: "slot_blocks (st\<lparr>heap := m\<rparr>) i = slot_blocks st i" for i by (auto simp: slot_blocks_def split: option.splits)
  show ?thesis using inv wf live unfolding ctrl_inv_def sb slots_wf_def by simp
qed

lemma grows_ok: "grows m m' as \<Longrightarrow> \<forall>k. \<not> oom m k \<Longrightarrow> (\<forall>k. \<not> oom m' k) \<and> mem_wf m'"
  by (simp add: grows_def)

lemma strdup_Some: "\<forall>k. \<not> oom m k \<Longrightarrow> mem_wf m \<Longrightarrow> \<exists>a m'. strdup m s = (Some (a, s), m') \<and> grows m m' [a]"
  by (auto simp: strdup_def malloc_def grows_def mem_wf_def less_Suc_eq)

definition north_io_file :: "(string \<Rightarrow> string option) \<Rightarrow> string" where
  "north_io_file getenv = (case getenv ''JRTC_APP_PATH'' of None \<Rightarrow> NORTH_IO_LIB | Some p \<Rightarrow> p @ NORTH_IO_LIB)"

lemma north_io_path_Some:
  assumes "\<forall>k. \<not> oom m k" and "mem_wf m"
  shows "\<exists>a m'. north_io_path getenv m = Inr (Some (a, north_io_file getenv), m') \<and> grows m m' [a]"
  using assms strdup_Some [OF assms, of NORTH_IO_LIB]
  by (auto simp: north_io_path_def north_io_file_def concat_str_def malloc_def grows_def mem_wf_def less_Suc_eq split: option.splits)

lemma read_file_Some:
  assumes "\<forall>k. \<not> oom m k" and "mem_wf m" and "0 < sz" and "nat sz \<le> length contents"
  shows "\<exists>a m'. read_file m (Some (sz, contents)) = (Some (a, take (nat sz) contents @ [0], nat sz), m', [FOpen, FClose]) \<and> grows m m' [a]"
  using assms by (auto simp: read_file_def malloc_def grows_def mem_wf_def less_Suc_eq)

lemma free_four:
  assumes "mem_wf m" and "distinct [a, b, c, d]" and "set [a, b, c, d] \<subseteq> live m"
  obtains m1 m2 m3 m4 where "free m a = Inr m1" "free m1 b = Inr m2" "free m2 c = Inr m3" "free m3 d = Inr m4"
    "live m4 = live m - {a, b, c, d}" "mem_wf m4"
proof -
  obtain m1 where 1: "free m a = Inr m1" "live m1 = live m - {a}" "mem_wf m1" using free_ok [of m a] assms by auto
  obtain m2 where 2: "free m1 b = Inr m2" "live m2 = live m1 - {b}" "mem_wf m2" using free_ok [of m1 b] 1 assms by auto
  obtain m3 where 3: "free m2 c = Inr m3" "live m3 = live m2 - {c}" "mem_wf m3" using free_ok [of m2 c] 1 2 assms by auto
  obtain m4 where 4: "free m3 d = Inr m4" "live m4 = live m3 - {d}" "mem_wf m4" using free_ok [of m3 d] 1 2 3 assms by auto
  have "live m4 = live m - {a, b, c, d}" using 1(2) 2(2) 3(2) 4(2) by auto
  then show thesis using that 1(1) 2(1) 3(1) 4(1,3) by blast
qed

text \<open>Freeing blocks after a load that were allocated before it and belong to no slot.\<close>

lemma loaded_slot:
  assumes inv: "ctrl_inv s" and l: "loaded s req h n s1" "ctrl_inv s1"
    and X: "X \<subseteq> live (heap s)" "\<forall>i < MAX_NUM_JRTC_APPS. X \<inter> set (slot_blocks s i) = {}"
  shows "\<forall>i < MAX_NUM_JRTC_APPS. X \<inter> set (slot_blocks s1 i) = {}" and "live (heap s1) = live (heap s) \<union> set (slot_blocks s1 n)"
    and "slot_env s1 n \<noteq> None"
proof -
  obtain a ae where e: "n < MAX_NUM_JRTC_APPS" "app_envs s1 = (app_envs s)[n := Some a]" "app_envs s1 ! n = Some a" "env_mem s1 a = Some ae"
    "env_app_handle ae = Some h" "env_dapp_ctx ae = None" "dl_open s1 = h # dl_open s" "router s1 = router s"
    "live (heap s1) = live (heap s) \<union> set (a # env_blocks ae)" "set (a # env_blocks ae) \<inter> live (heap s) = {}"
    "(\<forall>k. \<not> oom (heap s) k) \<longrightarrow> env_app_name ae \<noteq> None"
    by (rule loaded_env [OF inv l])
  have sb: "slot_blocks s1 n = a # env_blocks ae" using e(3,4) by (simp add: slot_blocks_def)
  have em: "env_mem s1 = (env_mem s)(a \<mapsto> ae)"
  proof -
    obtain b be where b: "app_envs s1 = (app_envs s)[n := Some b]" "env_mem s1 = (env_mem s)(b \<mapsto> be)"
      using l(1) unfolding loaded_def by blast
    have "b = a" using b(1) e(1,3) inv by (auto simp: ctrl_inv_def slots_wf_def)
    then show ?thesis using b(2) e(4) by simp
  qed
  have other: "slot_blocks s1 i = slot_blocks s i" if "i < MAX_NUM_JRTC_APPS" "i \<noteq> n" for i
  proof -
    have "app_envs s ! i \<noteq> Some a" using slot_addr_live [OF inv that(1), of a] e(10) by auto
    then show ?thesis using e(2) em that by (auto simp: slot_blocks_def split: option.splits)
  qed
  show "\<forall>i < MAX_NUM_JRTC_APPS. X \<inter> set (slot_blocks s1 i) = {}"
  proof (intro allI impI)
    fix i assume "i < MAX_NUM_JRTC_APPS"
    then show "X \<inter> set (slot_blocks s1 i) = {}" using X other [of i] e(10) sb by (cases "i = n") auto
  qed
  show "live (heap s1) = live (heap s) \<union> set (slot_blocks s1 n)" unfolding sb by (rule e(9))
  show "slot_env s1 n \<noteq> None" using e(3,4) by (simp add: slot_env_def)
qed

lemma ctrl_inv_drop:
  assumes inv: "ctrl_inv st" and wf: "mem_wf m" and live: "live m = live (heap st) - X"
    and X: "\<forall>i < MAX_NUM_JRTC_APPS. X \<inter> set (slot_blocks st i) = {}"
  shows "ctrl_inv (st\<lparr>heap := m\<rparr>)"
proof (rule ctrl_inv_heap [OF inv wf], intro allI impI)
  fix i assume i: "i < MAX_NUM_JRTC_APPS"
  have "set (slot_blocks st i) \<subseteq> live (heap st)" using inv i unfolding ctrl_inv_def by blast
  moreover have "X \<inter> set (slot_blocks st i) = {}" using X i by blast
  ultimately show "set (slot_blocks st i) \<subseteq> live m" unfolding live by blast
qed

text \<open>What is allocated before the load: the path, the contents of the file and the two strings of the request.\<close>

lemma north_io_setup:
  assumes oom: "\<forall>k. \<not> oom m k" and wf: "mem_wf m" and sz: "0 < sz" "nat sz \<le> length contents"
  obtains pa m1 da m2 na m3 pb m4 where "north_io_path getenv m = Inr (Some (pa, north_io_file getenv), m1)"
    "read_file m1 (Some (sz, contents)) = (Some (da, take (nat sz) contents @ [0], nat sz), m2, [FOpen, FClose])"
    "strdup m2 ''north_io_app'' = (Some (na, ''north_io_app''), m3)" "strdup m3 (north_io_file getenv) = (Some (pb, north_io_file getenv), m4)"
    "grows m m4 [pa, da, na, pb]"
proof -
  obtain pa m1 where 1: "north_io_path getenv m = Inr (Some (pa, north_io_file getenv), m1)" "grows m m1 [pa]"
    using north_io_path_Some [OF oom wf] by blast
  obtain da m2 where 2: "read_file m1 (Some (sz, contents)) = (Some (da, take (nat sz) contents @ [0], nat sz), m2, [FOpen, FClose])" "grows m1 m2 [da]"
    using read_file_Some [OF _ _ sz, of m1] grows_ok [OF 1(2) oom] by blast
  obtain na m3 where 3: "strdup m2 ''north_io_app'' = (Some (na, ''north_io_app''), m3)" "grows m2 m3 [na]"
    using strdup_Some [of m2] grows_ok [OF 2(2)] grows_ok [OF 1(2) oom] by blast
  obtain pb m4 where 4: "strdup m3 (north_io_file getenv) = (Some (pb, north_io_file getenv), m4)" "grows m3 m4 [pb]"
    using strdup_Some [of m3] grows_ok [OF 3(2)] grows_ok [OF 2(2)] grows_ok [OF 1(2) oom] by blast
  have "grows m m4 [pa, da, na, pb]"
    using grows_trans [OF grows_trans [OF grows_trans [OF 1(2) 2(2)] 3(2)] 4(2)] by simp
  then show thesis by (rule that [OF 1(1) 2(1) 3(1) 4(1)])
qed

text \<open>A request without a type is not compared with what is loaded.\<close>

lemma load_untyped:
  assumes inv: "ctrl_inv st" and req: "lr_app req \<noteq> None" "0 < lr_app_size req" "lr_app_type req = None" and oom: "\<forall>k. \<not> oom (heap st) k"
    and fr: "None \<in> set (app_envs st)" and os: "fst (jrtc_load_app_from_memory os st (lr_app_size req)) \<noteq> None" "pthread_create_r os = 0"
  obtains n h st' where "load_app os st req = Inr (int n, st')" "loaded st req h n st'" "ctrl_inv st'"
proof -
  have nl: "\<not> is_app_loaded st req" using req(3) by (simp add: is_app_loaded_def)
  show thesis
  proof (rule load_app_cases [OF inv, of os req])
    assume "lr_app req = None \<or> lr_app_size req = 0 \<or> is_app_loaded st req \<or> oom (heap st) (next_addr (heap st))"
    then show thesis using req(1,2) nl oom by simp
  next
    assume "None \<notin> set (app_envs st)"
    then show thesis using fr by contradiction
  next
    assume "fst (jrtc_load_app_from_memory os st (lr_app_size req)) = None \<or> pthread_create_r os \<noteq> 0"
    then show thesis using os by blast
  qed (rule that)
qed

text \<open>C23: The default application is loaded into a free slot, whether its path comes from the environment or not, and of the
  strings and the file contents that were needed for it nothing stays on the heap.\<close>

theorem north_io_app_loaded:
  assumes inv: "ctrl_inv st" and oom: "\<forall>k. \<not> oom (heap st) k" and f: "files (north_io_file getenv) = Some (sz, contents)"
    and sz: "0 < sz" "nat sz \<le> length contents" and fr: "None \<in> set (app_envs st)"
    and os: "fst (jrtc_load_app_from_memory os st (nat sz)) \<noteq> None" "pthread_create_r os = 0"
  shows "\<exists>n st'. load_default_north_io_app os getenv files st = Inr (int n, st') \<and> ctrl_inv st' \<and> app_envs st ! n = None \<and>
    slot_env st' n \<noteq> None \<and> live (heap st') = live (heap st) \<union> set (slot_blocks st' n)"
proof -
  have wf: "mem_wf (heap st)" using inv by (simp add: ctrl_inv_def)
  obtain pa m1 da m2 na m3 pb m4 where s: "north_io_path getenv (heap st) = Inr (Some (pa, north_io_file getenv), m1)"
    "read_file m1 (Some (sz, contents)) = (Some (da, take (nat sz) contents @ [0], nat sz), m2, [FOpen, FClose])"
    "strdup m2 ''north_io_app'' = (Some (na, ''north_io_app''), m3)" "strdup m3 (north_io_file getenv) = (Some (pb, north_io_file getenv), m4)"
    "grows (heap st) m4 [pa, da, na, pb]"
    by (rule north_io_setup [OF oom wf sz])
  let ?s = "st\<lparr>heap := m4\<rparr>" and ?X = "{na, pb, pa, da}"
  let ?req = "north_io_request (take (nat sz) contents @ [0]) (nat sz) (Some (na, ''north_io_app'')) (Some (pb, north_io_file getenv))"
  have inv4: "ctrl_inv ?s" by (rule ctrl_inv_heap [OF inv]) (use s(5) inv in \<open>auto simp: grows_def ctrl_inv_def\<close>)
  have lib: "fst (jrtc_load_app_from_memory os ?s (nat sz)) = fst (jrtc_load_app_from_memory os st (nat sz))"
    by (auto simp: jrtc_load_app_from_memory_def Let_def split: option.splits)
  obtain n h s1 where l: "load_app os ?s ?req = Inr (int n, s1)" "loaded ?s ?req h n s1" "ctrl_inv s1"
    by (rule load_untyped [OF inv4, of ?req os]) (use s(5) oom sz(1) fr os lib in \<open>auto simp: north_io_request_def grows_def\<close>)
  have lv: "live m4 = live (heap st) \<union> ?X" "distinct [na, pb, pa, da]" "?X \<inter> live (heap st) = {}" "mem_wf (heap s1)"
    using s(5) l(3) by (auto simp: grows_def ctrl_inv_def)
  have X: "?X \<subseteq> live (heap ?s)" "\<forall>i < MAX_NUM_JRTC_APPS. ?X \<inter> set (slot_blocks ?s i) = {}"
  proof -
    have "set (slot_blocks st i) \<subseteq> live (heap st)" if "i < MAX_NUM_JRTC_APPS" for i using inv that unfolding ctrl_inv_def by blast
    moreover have "slot_blocks ?s i = slot_blocks st i" for i by (auto simp: slot_blocks_def split: option.splits)
    ultimately show "\<forall>i < MAX_NUM_JRTC_APPS. ?X \<inter> set (slot_blocks ?s i) = {}" using lv(3) by fastforce
  qed (use lv(1) in simp)
  note ls = loaded_slot [OF inv4 l(2,3) X]
  have n: "n < MAX_NUM_JRTC_APPS" "app_envs st ! n = None" using l(2) by (simp_all add: loaded_def)
  obtain f1 f2 f3 f4 where f4: "free (heap s1) na = Inr f1" "free f1 pb = Inr f2" "free f2 pa = Inr f3" "free f3 da = Inr f4"
    "live f4 = live (heap s1) - ?X" "mem_wf f4"
    by (rule free_four [OF lv(4,2)]) (use ls(2) lv(1) in auto)
  have run: "load_default_north_io_app os getenv files st = Inr (int n, s1\<lparr>heap := f4\<rparr>)"
    using s(1-4) l(1) f f4(1-4) by (simp add: load_default_north_io_app_def free_opt_def)
  have "?X \<inter> set (slot_blocks s1 n) = {}" using ls(1) n(1) by blast
  then have "live f4 = live (heap st) \<union> set (slot_blocks s1 n)" using f4(5) ls(2) lv by auto
  moreover have "ctrl_inv (s1\<lparr>heap := f4\<rparr>)" by (rule ctrl_inv_drop [OF l(3) f4(6,5) ls(1)])
  moreover have "slot_env (s1\<lparr>heap := f4\<rparr>) n = slot_env s1 n" "slot_blocks (s1\<lparr>heap := f4\<rparr>) n = slot_blocks s1 n"
    by (auto simp: slot_env_def slot_blocks_def split: option.splits)
  ultimately show ?thesis using run n(2) ls(3) by (intro exI [of _ n] exI [of _ "s1\<lparr>heap := f4\<rparr>"]) simp
qed

theorem north_io_app_loaded_witness:
  "\<exists>n st'. load_default_north_io_app os0 (\<lambda>_. None) (\<lambda>x. if x = ''libjrtc_north_io.so'' then Some (2, [7, 8]) else None) ctrl0 = Inr (int n, st') \<and>
     slot_env st' n \<noteq> None"
proof -
  have "fst (jrtc_load_app_from_memory os0 ctrl0 (nat 2)) = Some 9" by code_simp
  moreover have "None \<in> set (app_envs ctrl0)" by (simp add: ctrl0_def MAX_NUM_JRTC_APPS_def)
  moreover have "north_io_file (\<lambda>_. None) = ''libjrtc_north_io.so''" by (simp add: north_io_file_def NORTH_IO_LIB_def)
  moreover have "\<forall>k. \<not> oom (heap ctrl0) k" "pthread_create_r os0 = 0" by (simp_all add: ctrl0_def mem0_def os0_def)
  ultimately show ?thesis
    using north_io_app_loaded [OF ctrl0_inv, of "\<lambda>x. if x = ''libjrtc_north_io.so'' then Some (2, [7, 8]) else None" "\<lambda>_. None" 2 "[7, 8]" os0] by auto
qed

end
