(* ===== verification/North_Io.thy ===== *)
theory North_Io
  imports Startup
begin

text \<open>
  The default application, \<open>src/controller/jrtc_north_io_app.c\<close>: it subscribes to every stream with the destination
  UDP and sends what it receives to a server.  The results of the socket calls are arguments, as is
  \<open>jbpf_mbuf_free\<close>, which belongs to jbpf.
\<close>

section \<open>State\<close>

definition AA_OUT_BUFS_BATCH_SIZE :: nat where "AA_OUT_BUFS_BATCH_SIZE = 100"
definition AA_NET_OUT_DEFAULT_PORT :: int where "AA_NET_OUT_DEFAULT_PORT = 20788"
definition AA_NET_IN_DEFAULT_PORT :: int where "AA_NET_IN_DEFAULT_PORT = 1924"
definition AA_NET_MAX_FQDN_SIZE :: nat where "AA_NET_MAX_FQDN_SIZE = 256"
definition AA_NET_OUT_DEFAULT_FQDN :: string where "AA_NET_OUT_DEFAULT_FQDN = ''127.0.0.1''"
definition AA_NET_HEADROOM :: u64 where "AA_NET_HEADROOM = 128"
definition AA_NET_ELEM_SIZE :: u64 where "AA_NET_ELEM_SIZE = 65535 - AA_NET_HEADROOM"
definition AA_NET_NUM_DATA_ELEM :: nat where "AA_NET_NUM_DATA_ELEM = 4095"

definition AF_INET :: int where "AF_INET = 2"

record sockaddr_in =
  sin_family :: int
  sin_port :: u16
  s_addr :: u32

text \<open>A pointer to a pool: null, a pool, or one that has been destroyed.\<close>

datatype 'pl mempool_ref = NullPool | Pool 'pl | DestroyedPool

record 'pl aa_net_info =
  in_sockfd :: int
  out_sockfd :: int
  net_mempool :: "'pl mempool_ref"
  collector_addr :: sockaddr_in
  control_input_addr :: sockaddr_in
  fqdn :: string

definition zero_addr :: sockaddr_in where
  "zero_addr = \<lparr>sin_family = 0, sin_port = 0, s_addr = 0\<rparr>"

definition net_info0 :: "'pl aa_net_info" where
  "net_info0 = \<lparr>in_sockfd = 0, out_sockfd = 0, net_mempool = NullPool, collector_addr = zero_addr,
     control_input_addr = zero_addr, fqdn = []\<rparr>"

text \<open>What the operating system answers; \<open>socks\<close> below are the sockets that are open.\<close>

record net_results =
  in_socket_r :: int
  out_socket_r :: int
  bind_r :: int
  connect_r :: int
  getaddrinfo_r :: "string \<Rightarrow> sockaddr_in option"

section \<open>Sockets\<close>

definition htons :: "u16 \<Rightarrow> u16" where
  "htons p = push_bit 8 p OR drop_bit 8 p"

definition equal_addr :: "sockaddr_in \<Rightarrow> sockaddr_in \<Rightarrow> bool" where
  "equal_addr sa1 sa2 \<longleftrightarrow> s_addr sa1 = s_addr sa2"

definition aa_net_update_fqdn :: "net_results \<Rightarrow> 'pl aa_net_info \<Rightarrow> int \<times> 'pl aa_net_info" where
  "aa_net_update_fqdn N ni =
     (case getaddrinfo_r N (fqdn ni) of
        None \<Rightarrow> (-1, ni)
      | Some tmp_addr \<Rightarrow>
          (0, if equal_addr (collector_addr ni) tmp_addr then ni
              else ni\<lparr>collector_addr := (collector_addr ni)\<lparr>s_addr := s_addr tmp_addr, sin_family := sin_family tmp_addr\<rparr>\<rparr>))"

definition aa_net_open_output_socket :: "net_results \<Rightarrow> 'pl aa_net_info \<Rightarrow> int list \<Rightarrow> int \<Rightarrow> int \<times> 'pl aa_net_info \<times> int list" where
  "aa_net_open_output_socket N ni socks out_port =
     (let ni = ni\<lparr>out_sockfd := out_socket_r N\<rparr> in
      if out_sockfd ni < 0 then (-1, ni, socks)
      else
        (let socks = out_sockfd ni # socks;
             ni = ni\<lparr>collector_addr := (collector_addr ni)\<lparr>sin_family := AF_INET, sin_port := htons (of_int out_port)\<rparr>\<rparr>;
             ni = snd (aa_net_update_fqdn N ni)
         in if connect_r N < 0 then (-1, ni, socks) else (0, ni, socks)))"

definition aa_net_open_input_socket :: "net_results \<Rightarrow> 'pl aa_net_info \<Rightarrow> int list \<Rightarrow> int \<Rightarrow> int \<times> 'pl aa_net_info \<times> int list" where
  "aa_net_open_input_socket N ni socks in_port =
     (let ni = ni\<lparr>in_sockfd := in_socket_r N\<rparr> in
      if in_sockfd ni < 0 then (-1, ni, socks)
      else
        (let socks = in_sockfd ni # socks;
             ni = ni\<lparr>control_input_addr := \<lparr>sin_family = AF_INET, sin_port = htons (of_int in_port), s_addr = 0\<rparr>\<rparr>
         in if bind_r N < 0 then (-1, ni, socks) else (0, ni, socks)))"

definition aa_net_init ::
    "('e, 'bm, 'it, 'ht, 'rg, 'pl) ext \<Rightarrow> net_results \<Rightarrow> 'e \<Rightarrow> 'pl aa_net_info \<Rightarrow> int list \<Rightarrow> int \<Rightarrow> string \<Rightarrow> int \<Rightarrow>
     int \<times> 'e \<times> 'pl aa_net_info \<times> int list" where
  "aa_net_init E N e ni socks in_port name out_port =
     (let ni = ni\<lparr>fqdn := str_in AA_NET_MAX_FQDN_SIZE name\<rparr> in
      case jbpf_init_mempool E e AA_NET_NUM_DATA_ELEM of
        (None, e) \<Rightarrow> (-1, e, ni\<lparr>net_mempool := NullPool\<rparr>, socks)
      | (Some p, e) \<Rightarrow>
          (let ni = ni\<lparr>net_mempool := Pool p\<rparr> in
           case aa_net_open_input_socket N ni socks in_port of
             (r1, ni, socks) \<Rightarrow>
               if r1 \<noteq> 0 then (-1, jbpf_destroy_mempool E e p, ni\<lparr>net_mempool := DestroyedPool\<rparr>, socks)
               else
                 (case aa_net_open_output_socket N ni socks out_port of
                    (r2, ni, socks) \<Rightarrow>
                      if r2 \<noteq> 0
                      then (-1, jbpf_destroy_mempool E e p, ni\<lparr>net_mempool := DestroyedPool\<rparr>, remove1 (in_sockfd ni) socks)
                      else (0, e, ni, socks))))"

definition aa_net_stop :: "'pl aa_net_info \<Rightarrow> int list \<Rightarrow> int list" where
  "aa_net_stop ni socks = remove1 (out_sockfd ni) (remove1 (in_sockfd ni) socks)"

section \<open>Sending\<close>

text \<open>The loop over the entries: a buffer for each, the serialised message in it, and the list of those that
  are to be sent.  The entry's data is released in every case.  The local arrays have room for one batch.\<close>

fun encode_entries ::
    "('e, 'bm, 'it, 'ht, 'rg, 'pl) ext \<Rightarrow> ('pl \<Rightarrow> addr \<Rightarrow> 'pl) \<Rightarrow> ('e, 'bm, 'ht, 'rg, 'pl) jrtc_router_ctx \<Rightarrow> 'pl \<Rightarrow>
     jrtc_router_data_entry list \<Rightarrow> (addr \<times> u8 list) list \<Rightarrow>
     ub + ((addr \<times> u8 list) list \<times> ('e, 'bm, 'ht, 'rg, 'pl) jrtc_router_ctx \<times> 'pl)" where
  "encode_entries E mfree st p [] sent = Inr (sent, st, p)"
| "encode_entries E mfree st p (x # xs) sent =
     (case jbpf_mbuf_alloc E p of
        (None, p) \<Rightarrow> encode_entries E mfree (jrtc_router_channel_release_buf E st (Some (de_data x))) p xs sent
      | (Some b, p) \<Rightarrow>
          (case jrtc_router_create_serialized_msg E st x AA_NET_ELEM_SIZE of
             (msg_size, bytes) \<Rightarrow>
               if 0 < msg_size then
                 (if AA_OUT_BUFS_BATCH_SIZE \<le> length sent then Inl OutOfBounds
                  else encode_entries E mfree (jrtc_router_channel_release_buf E st (Some (de_data x))) p xs
                         (sent @ [(b, take (nat msg_size) bytes)]))
               else
                 encode_entries E mfree (jrtc_router_channel_release_buf E st (Some (de_data x))) (mfree p b) xs sent))"

text \<open>\<open>sent_r\<close> is the number of messages that \<open>sendmmsg\<close> reports; a difference is only logged.  A pool that
  is null or destroyed may not be passed to the library.\<close>

definition aa_channel_encode_fwd_out_data ::
    "('e, 'bm, 'it, 'ht, 'rg, 'pl) ext \<Rightarrow> ('pl \<Rightarrow> addr \<Rightarrow> 'pl) \<Rightarrow> (nat \<Rightarrow> nat) \<Rightarrow> ('e, 'bm, 'ht, 'rg, 'pl) jrtc_router_ctx \<Rightarrow>
     'pl aa_net_info \<Rightarrow> jrtc_router_data_entry list \<Rightarrow>
     ub + (u8 list list \<times> ('e, 'bm, 'ht, 'rg, 'pl) jrtc_router_ctx \<times> 'pl aa_net_info)" where
  "aa_channel_encode_fwd_out_data E mfree sent_r st ni entries =
     (case net_mempool ni of
        NullPool \<Rightarrow> if entries = [] then Inr ([], st, ni) else Inl NullDeref
      | DestroyedPool \<Rightarrow> if entries = [] then Inr ([], st, ni) else Inl (UseAfterFree 0)
      | Pool p \<Rightarrow>
          bindS (encode_entries E mfree st p entries []) (\<lambda>(sent, st, p).
            Inr (take (sent_r (length sent)) (map snd sent), st,
                 ni\<lparr>net_mempool := Pool (foldl mfree p (map fst sent))\<rparr>)))"

section \<open>The application\<close>

text \<open>The first \<open>k\<close> iterations of the loop, after which the flag \<open>app_exit\<close> is seen.\<close>

primrec north_io_loop ::
    "nat \<Rightarrow> ('e, 'bm, 'it, 'ht, 'rg, 'pl) ext \<Rightarrow> ('pl \<Rightarrow> addr \<Rightarrow> 'pl) \<Rightarrow> (nat \<Rightarrow> nat) \<Rightarrow> ('e, 'bm, 'ht, 'rg, 'pl) jrtc_router_ctx \<Rightarrow> addr \<Rightarrow>
     'pl aa_net_info \<Rightarrow> u8 list list \<Rightarrow>
     ub + (u8 list list \<times> ('e, 'bm, 'ht, 'rg, 'pl) jrtc_router_ctx \<times> 'pl aa_net_info)" where
  "north_io_loop 0 E mfree sent_r st a ni out = Inr (out, st, ni)"
| "north_io_loop (Suc k) E mfree sent_r st a ni out =
     bindS (jrtc_router_receive E st a AA_OUT_BUFS_BATCH_SIZE) (\<lambda>(xs, st).
       if 0 < length xs then
         bindS (aa_channel_encode_fwd_out_data E mfree sent_r st ni xs) (\<lambda>(ms, st, ni).
           north_io_loop k E mfree sent_r st a ni (out @ ms))
       else north_io_loop k E mfree sent_r st a ni out)"

definition north_io_fqdn :: "(string \<Rightarrow> string option) \<Rightarrow> string" where
  "north_io_fqdn getenv = (case getenv ''AA_NET_OUT_FQDN'' of None \<Rightarrow> AA_NET_OUT_DEFAULT_FQDN | Some v \<Rightarrow> v)"

definition north_io_in_port :: "(string \<Rightarrow> string option) \<Rightarrow> int" where
  "north_io_in_port getenv = (case getenv ''AA_NET_IN_PORT'' of None \<Rightarrow> AA_NET_IN_DEFAULT_PORT | Some v \<Rightarrow> atoi v)"

definition north_io_out_port :: "(string \<Rightarrow> string option) \<Rightarrow> int" where
  "north_io_out_port getenv = (case getenv ''AA_NET_OUT_PORT'' of None \<Rightarrow> AA_NET_OUT_DEFAULT_PORT | Some v \<Rightarrow> atoi v)"

definition north_io_start_app ::
    "bool \<Rightarrow> nat \<Rightarrow> ('e, 'bm, 'it, 'ht, 'rg, 'pl) ext \<Rightarrow> ('pl \<Rightarrow> addr \<Rightarrow> 'pl) \<Rightarrow> (nat \<Rightarrow> nat) \<Rightarrow> net_results \<Rightarrow> (os_call \<Rightarrow> int) \<Rightarrow>
     (string \<Rightarrow> string option) \<Rightarrow> stream_id \<Rightarrow> ('e, 'bm, 'ht, 'rg, 'pl) controller \<Rightarrow> addr \<Rightarrow>
     ub + (u8 list list \<times> ('e, 'bm, 'ht, 'rg, 'pl) controller \<times> int list)" where
  "north_io_start_app sc k E mfree sent_r N os getenv junk st a =
     (case env_mem st a of
        None \<Rightarrow> Inl (UseAfterFree a)
      | Some ae \<Rightarrow>
          bindS (jrtc_router_generate_stream_id sc (heap st) (Some junk) JRTC_ROUTER_DEST_UDP JRTC_ROUTER_DEVICE_ID_ANY None None) (\<lambda>(_, sid, m).
          (case sid of
             None \<Rightarrow> Inl NullDeref
           | Some stream_id_req \<Rightarrow>
               (let st = st\<lparr>heap := m, os_calls := os_calls st @ snd (jrtc_thread_set_scheduler os (Some (env_sched_config ae)))\<rparr> in
                case aa_net_init E N (env (router st)) net_info0 [] (north_io_in_port getenv) (north_io_fqdn getenv) (north_io_out_port getenv) of
                  (_, e, ni, socks) \<Rightarrow>
                    bindS (jrtc_router_channel_register_stream_id_req E ((router st)\<lparr>env := e\<rparr>) (env_dapp_ctx ae) stream_id_req) (\<lambda>(res, rt).
                      (case env_dapp_ctx ae of
                         None \<Rightarrow> Inl (Exited 0)
                       | Some c \<Rightarrow>
                           if res \<noteq> 1 then Inl (Exited 0)
                           else
                             bindS (north_io_loop k E mfree sent_r rt c ni []) (\<lambda>(out, rt, ni).
                               Inr (out, st\<lparr>router := rt\<rparr>, aa_net_stop ni socks))))))))"

end
