(* ===== verification/North_Io_Props.thy ===== *)
theory North_Io_Props
  imports North_Io Startup_Props
begin

text \<open>
  Properties of the default application: what a batch of messages becomes, that its buffers and the messages are given
  back, and that its loop goes on for ever; and what happens when its sockets cannot be opened.
\<close>

section \<open>A batch of messages\<close>

text \<open>What the code relies on of \<open>jbpf_mbuf_free\<close>: a buffer in use is not in use afterwards.\<close>

definition mfree_law :: "('e, 'bm, 'it, 'ht, 'rg, 'pl) views \<Rightarrow> ('pl \<Rightarrow> addr \<Rightarrow> 'pl) \<Rightarrow> bool" where
  "mfree_law V mfree \<longleftrightarrow> (\<forall>p b. b \<in> v_used V p \<longrightarrow> v_used V (mfree p b) = v_used V p - {b} \<and> v_cap V (mfree p b) = v_cap V p)"

text \<open>The libraries' state after the messages are released, and the messages that can be serialised.\<close>

definition released :: "('e, 'bm, 'it, 'ht, 'rg, 'pl) ext \<Rightarrow> 'e \<Rightarrow> jrtc_router_data_entry list \<Rightarrow> 'e" where
  "released E = foldl (\<lambda>e x. jbpf_io_channel_release_buf E e (de_data x))"

primrec packed :: "('e, 'bm, 'it, 'ht, 'rg, 'pl) ext \<Rightarrow> addr option \<Rightarrow> 'e \<Rightarrow> jrtc_router_data_entry list \<Rightarrow> u8 list list" where
  "packed E io e [] = []"
| "packed E io e (x # xs) =
     (case jbpf_io_channel_pack_msg E e io (de_data x) AA_NET_ELEM_SIZE of
        (n, bytes) \<Rightarrow> if 0 < n then [take (nat n) bytes] else []) @
     packed E io (jbpf_io_channel_release_buf E e (de_data x)) xs"

lemma released_Cons [simp]: "released E e [] = e" "released E e (x # xs) = released E (jbpf_io_channel_release_buf E e (de_data x)) xs"
  by (simp_all add: released_def)

lemma released_refs:
  assumes "ext_laws E V"
  shows "v_refs V (released E e xs) b = v_refs V e b - int (count_list (map de_data xs) b)" and "v_live V (released E e xs) = v_live V e"
  by (induction xs arbitrary: e) (simp_all add: io_lawsD(2) [OF assms])

lemma release_step [simp]:
  "jrtc_router_channel_release_buf E st (Some d) = st\<lparr>env := jbpf_io_channel_release_buf E (env st) d\<rparr>"
  by (simp add: jrtc_router_channel_release_buf_def)

lemma card_insert_bound: "card (insert b A) \<le> Suc (card A)"
  by (cases "finite A") (simp_all add: card_insert_if)

definition encoded ::
    "('e, 'bm, 'it, 'ht, 'rg, 'pl) views \<Rightarrow> 'pl \<Rightarrow> (addr \<times> u8 list) list \<Rightarrow> 'pl \<Rightarrow> (addr \<times> u8 list) list \<Rightarrow> bool" where
  "encoded V p sent p' sent' \<longleftrightarrow>
     set (map fst sent') \<subseteq> v_used V p' \<and> distinct (map fst sent') \<and> v_cap V p' = v_cap V p \<and>
     v_used V p' - set (map fst sent') = v_used V p - set (map fst sent)"

lemma encode_entries_ok:
  assumes L: "ext_laws E V" and F: "mfree_law V mfree"
  shows "length sent + length xs \<le> AA_OUT_BUFS_BATCH_SIZE \<Longrightarrow> set (map fst sent) \<subseteq> v_used V p \<Longrightarrow> distinct (map fst sent) \<Longrightarrow>
    \<exists>sent' p'. encode_entries E mfree st p xs sent = Inr (sent', st\<lparr>env := released E (env st) xs\<rparr>, p') \<and> encoded V p sent p' sent' \<and>
      (card (v_used V p) + length xs \<le> v_cap V p \<longrightarrow> map snd sent' = map snd sent @ packed E (io_ctx st) (env st) xs)"
proof (induction xs arbitrary: st p sent)
  case Nil
  then show ?case by (simp add: encoded_def)
next
  case (Cons x xs)
  let ?st = "st\<lparr>env := jbpf_io_channel_release_buf E (env st) (de_data x)\<rparr>"
  obtain r p1 where al: "jbpf_mbuf_alloc E p = (r, p1)" by fastforce
  show ?case
  proof (cases r)
    case None
    then have 1: "v_cap V p \<le> card (v_used V p)" "v_used V p1 = v_used V p" "v_cap V p1 = v_cap V p" using pool_lawsD(4) [OF L, of p p1] al by auto
    from Cons.IH [of sent p1 ?st] Cons.prems 1(2) obtain sent' p' where
      "encode_entries E mfree ?st p1 xs sent = Inr (sent', ?st\<lparr>env := released E (env ?st) xs\<rparr>, p')" "encoded V p1 sent p' sent'"
      by auto
    then show ?thesis using al None 1 by (auto simp: encoded_def)
  next
    case (Some b)
    then have 1: "card (v_used V p) < v_cap V p" "b \<notin> v_used V p" "v_used V p1 = insert b (v_used V p)" "v_cap V p1 = v_cap V p"
      using pool_lawsD(5) [OF L, of p b p1] al by auto
    obtain n bytes where pk: "jbpf_io_channel_pack_msg E (env st) (io_ctx st) (de_data x) AA_NET_ELEM_SIZE = (n, bytes)" by fastforce
    show ?thesis
    proof (cases "0 < n")
      case True
      let ?sent = "sent @ [(b, take (nat n) bytes)]"
      have "length ?sent + length xs \<le> AA_OUT_BUFS_BATCH_SIZE" "set (map fst ?sent) \<subseteq> v_used V p1" "distinct (map fst ?sent)"
        using Cons.prems 1 by auto
      from Cons.IH [OF this, of ?st] obtain sent' p' where
        2: "encode_entries E mfree ?st p1 xs ?sent = Inr (sent', ?st\<lparr>env := released E (env ?st) xs\<rparr>, p')" "encoded V p1 ?sent p' sent'"
          "card (v_used V p1) + length xs \<le> v_cap V p1 \<longrightarrow> map snd sent' = map snd ?sent @ packed E (io_ctx ?st) (env ?st) xs" by auto
      have "encoded V p sent p' sent'" using 2(2) 1 Cons.prems(2) by (auto simp: encoded_def)
      moreover have "card (v_used V p) + length (x # xs) \<le> v_cap V p \<longrightarrow> map snd sent' = map snd sent @ packed E (io_ctx st) (env st) (x # xs)"
        using 2(3) 1(3,4) True pk card_insert_bound [of b "v_used V p"] by auto
      ultimately show ?thesis using al Some pk True 2(1) Cons.prems(1) by (auto simp: jrtc_router_create_serialized_msg_def)
    next
      case False
      have 3: "v_used V (mfree p1 b) = v_used V p" "v_cap V (mfree p1 b) = v_cap V p" using F 1 by (auto simp: mfree_law_def)
      from Cons.IH [of sent "mfree p1 b" ?st] Cons.prems 3(1) obtain sent' p' where
        "encode_entries E mfree ?st (mfree p1 b) xs sent = Inr (sent', ?st\<lparr>env := released E (env ?st) xs\<rparr>, p')" "encoded V (mfree p1 b) sent p' sent'"
        "card (v_used V (mfree p1 b)) + length xs \<le> v_cap V (mfree p1 b) \<longrightarrow> map snd sent' = map snd sent @ packed E (io_ctx ?st) (env ?st) xs"
        by auto
      then show ?thesis using al Some pk False 3 by (auto simp: jrtc_router_create_serialized_msg_def encoded_def)
    qed
  qed
qed

lemma free_all_ok:
  assumes F: "mfree_law V mfree"
  shows "set bs \<subseteq> v_used V p \<Longrightarrow> distinct bs \<Longrightarrow> v_used V (foldl mfree p bs) = v_used V p - set bs \<and> v_cap V (foldl mfree p bs) = v_cap V p"
proof (induction bs arbitrary: p)
  case (Cons b bs)
  have "v_used V (mfree p b) = v_used V p - {b}" "v_cap V (mfree p b) = v_cap V p" using F Cons.prems by (auto simp: mfree_law_def)
  then show ?case using Cons.IH [of "mfree p b"] Cons.prems by auto
qed simp

lemma encode_ok:
  assumes L: "ext_laws E V" and F: "mfree_law V mfree" and p: "net_mempool ni = Pool p" and n: "length xs \<le> AA_OUT_BUFS_BATCH_SIZE"
  shows "\<exists>ms p'. aa_channel_encode_fwd_out_data E mfree sent_r st ni xs = Inr (ms, st\<lparr>env := released E (env st) xs\<rparr>, ni\<lparr>net_mempool := Pool p'\<rparr>) \<and>
    v_used V p' = v_used V p \<and> v_cap V p' = v_cap V p \<and>
    (card (v_used V p) + length xs \<le> v_cap V p \<longrightarrow>
      ms = (let out = packed E (io_ctx st) (env st) xs in take (sent_r (length out)) out))"
proof -
  from encode_entries_ok [OF L F, of "[]" xs p st] n obtain sent p1 where
    1: "encode_entries E mfree st p xs [] = Inr (sent, st\<lparr>env := released E (env st) xs\<rparr>, p1)" "encoded V p [] p1 sent"
      "card (v_used V p) + length xs \<le> v_cap V p \<longrightarrow> map snd sent = packed E (io_ctx st) (env st) xs" by auto
  have "v_used V (foldl mfree p1 (map fst sent)) = v_used V p \<and> v_cap V (foldl mfree p1 (map fst sent)) = v_cap V p"
    using free_all_ok [OF F, of "map fst sent" p1] 1(2) by (auto simp: encoded_def)
  moreover have "length sent = length (packed E (io_ctx st) (env st) xs)" if "map snd sent = packed E (io_ctx st) (env st) xs"
    unfolding that [symmetric] by simp
  ultimately show ?thesis using 1(1,3) p
    by (intro exI [of _ "take (sent_r (length sent)) (map snd sent)"] exI [of _ "foldl mfree p1 (map fst sent)"])
      (simp add: aa_channel_encode_fwd_out_data_def Let_def)
qed

text \<open>C32: Of a batch of received messages every one is released exactly once, and every buffer that was taken from the
  pool for it is given back.  While the pool has enough buffers, what is handed to the socket are the serialised
  forms of the messages, in order, without those that cannot be serialised.\<close>

theorem north_io_forwards:
  assumes "ext_laws E V" and "mfree_law V mfree" and "net_mempool ni = Pool p" and "length xs \<le> AA_OUT_BUFS_BATCH_SIZE"
  shows "\<exists>ms st' p'. aa_channel_encode_fwd_out_data E mfree sent_r st ni xs = Inr (ms, st', ni\<lparr>net_mempool := Pool p'\<rparr>) \<and>
    (\<forall>b. v_refs V (env st') b = v_refs V (env st) b - int (count_list (map de_data xs) b)) \<and>
    v_used V p' = v_used V p \<and> v_cap V p' = v_cap V p \<and>
    (card (v_used V p) + length xs \<le> v_cap V p \<longrightarrow>
      ms = (let out = packed E (io_ctx st) (env st) xs in take (sent_r (length out)) out))"
  using encode_ok [OF assms, of sent_r st] released_refs(1) [OF assms(1)] by fastforce

definition sim_mfree :: "sim_pool \<Rightarrow> addr \<Rightarrow> sim_pool" where
  "sim_mfree p a = p\<lparr>p_used := removeAll a (p_used p)\<rparr>"

lemma sim_mfree_law: "mfree_law sim_views sim_mfree"
  by (auto simp: mfree_law_def sim_views_def sim_mfree_def)

definition sim_net :: "sim_pool aa_net_info" where
  "sim_net = net_info0\<lparr>net_mempool := Pool \<lparr>p_cap = 4, p_used = []\<rparr>\<rparr>"

lemma sim_net_pool: "net_mempool sim_net = Pool \<lparr>p_cap = 4, p_used = []\<rparr>"
  by (simp add: sim_net_def)

definition batch0 :: "jrtc_router_data_entry list" where
  "batch0 = [\<lparr>de_stream_id = sid_a, de_data = 5\<rparr>, \<lparr>de_stream_id = sid_a, de_data = 6\<rparr>]"

theorem north_io_forwards_witness:
  "\<exists>ms st' p'. aa_channel_encode_fwd_out_data sim sim_mfree (\<lambda>n. n) sim_st0 sim_net batch0 = Inr (ms, st', sim_net\<lparr>net_mempool := Pool p'\<rparr>) \<and>
     ms = [[1, 2, 5], [1, 2, 6]] \<and> v_used sim_views p' = {}"
proof -
  have "length batch0 \<le> AA_OUT_BUFS_BATCH_SIZE" by (simp add: batch0_def AA_OUT_BUFS_BATCH_SIZE_def)
  from north_io_forwards [OF sim_ext_laws sim_mfree_law sim_net_pool this, of "\<lambda>n. n" sim_st0]
  show ?thesis by (auto simp: sim_views_def batch0_def sim_def Let_def)
qed

section \<open>The loop\<close>

lemma north_io_loop_ok:
  assumes L: "ext_laws E V" and F: "mfree_law V mfree"
  shows "router_ok E V st \<Longrightarrow> dapps st a \<noteq> None \<Longrightarrow> net_mempool ni = Pool p \<Longrightarrow>
    \<exists>out' st' p'. north_io_loop k E mfree sent_r st a ni out = Inr (out', st', ni\<lparr>net_mempool := Pool p'\<rparr>) \<and> router_ok E V st' \<and>
      subs V st' = subs V st \<and> dapps st' a \<noteq> None \<and> v_used V p' = v_used V p"
proof (induction k arbitrary: st ni p out)
  case 0
  have "ni\<lparr>net_mempool := Pool p\<rparr> = ni" using 0(3) by simp
  then show ?case using 0 by (intro exI [of _ out] exI [of _ st] exI [of _ p]) simp
next
  case (Suc k)
  obtain d where d: "dapps st a = Some d" using Suc.prems(2) by auto
  have inv: "router_inv E V st" "all_rings_fit V st" using Suc.prems(1) by (simp_all add: router_ok_def)
  from receive_ok [OF L inv d, of AA_OUT_BUFS_BATCH_SIZE] obtain xs d' e where
    r: "jrtc_router_receive E st a AA_OUT_BUFS_BATCH_SIZE = Inr (xs, st\<lparr>dapps := (dapps st)(a \<mapsto> d'), env := e\<rparr>)" "length xs \<le> AA_OUT_BUFS_BATCH_SIZE"
      "router_inv E V (st\<lparr>dapps := (dapps st)(a \<mapsto> d'), env := e\<rparr>)" "all_rings_fit V (st\<lparr>dapps := (dapps st)(a \<mapsto> d'), env := e\<rparr>)" by blast
  define S where "S = st\<lparr>dapps := (dapps st)(a \<mapsto> d'), env := e\<rparr>"
  have S: "router_ok E V S" "subs V S = subs V st" "dapps S a \<noteq> None"
    using r(3,4) Suc.prems(1) by (auto simp: S_def router_ok_def intro: subs_cong)
  show ?case
  proof (cases "xs = []")
    case True
    then show ?thesis using Suc.IH [OF S(1,3) Suc.prems(3), of out] r(1) S(2) by (simp add: S_def [symmetric])
  next
    case False
    from encode_ok [OF L F Suc.prems(3) r(2), of sent_r S] obtain ms p1 where
      1: "aa_channel_encode_fwd_out_data E mfree sent_r S ni xs = Inr (ms, S\<lparr>env := released E (env S) xs\<rparr>, ni\<lparr>net_mempool := Pool p1\<rparr>)" "v_used V p1 = v_used V p"
      by blast
    define T where "T = S\<lparr>env := released E (env S) xs\<rparr>"
    have T: "router_ok E V T" by (rule router_ok_cong [OF S(1)]) (simp_all add: T_def same_apps_def released_refs(2) [OF L])
    have T': "subs V T = subs V S" "dapps T a \<noteq> None" using S(3) by (auto simp: T_def intro: subs_cong)
    from Suc.IH [OF T T'(2), of "ni\<lparr>net_mempool := Pool p1\<rparr>" p1 "out @ ms"] show ?thesis
      using r(1) 1 False S(2) T'(1) by (simp add: S_def [symmetric] T_def [symmetric])
  qed
qed



section \<open>Failures of the sockets\<close>

text \<open>The result of \<open>aa_net_init\<close> is ignored: when the input socket cannot be bound, the pool is destroyed, the socket stays
  open, and the first message makes the application use the destroyed pool.\<close>

lemma bind_failure_uses_destroyed_pool:
  assumes "0 \<le> in_socket_r N" and "bind_r N < 0" and "jbpf_init_mempool E e AA_NET_NUM_DATA_ELEM = (Some p, e')" and "xs \<noteq> []"
  shows "\<exists>ni. aa_net_init E N e net_info0 [] ip f op = (-1, jbpf_destroy_mempool E e' p, ni, [in_socket_r N]) \<and>
    aa_channel_encode_fwd_out_data E mfree sent_r st ni xs = Inl (UseAfterFree 0)"
  using assms by (simp add: aa_net_init_def aa_net_open_input_socket_def aa_channel_encode_fwd_out_data_def Let_def)

text \<open>When the connection fails, the input socket is closed and the output socket is not.\<close>

lemma connect_failure_leaks_socket:
  assumes "0 \<le> in_socket_r N" and "0 \<le> bind_r N" and "0 \<le> out_socket_r N" and "connect_r N < 0" and "in_socket_r N \<noteq> out_socket_r N"
    and "jbpf_init_mempool E e AA_NET_NUM_DATA_ELEM = (Some p, e')"
  shows "\<exists>ni e''. aa_net_init E N e net_info0 [] ip f op = (-1, e'', ni, [out_socket_r N]) \<and> net_mempool ni = DestroyedPool"
  using assms by (auto simp: aa_net_init_def aa_net_open_input_socket_def aa_net_open_output_socket_def aa_net_update_fqdn_def Let_def
      split: option.splits)

text \<open>When every call succeeds, both sockets are open and stopping closes them; the pool is never destroyed.\<close>

lemma net_init_ok:
  assumes "0 \<le> in_socket_r N" and "0 \<le> bind_r N" and "0 \<le> out_socket_r N" and "0 \<le> connect_r N"
    and "jbpf_init_mempool E e AA_NET_NUM_DATA_ELEM = (Some p, e')"
  shows "\<exists>ni socks. aa_net_init E N e net_info0 [] ip f op = (0, e', ni, socks) \<and> net_mempool ni = Pool p \<and> aa_net_stop ni socks = [] \<and>
    sin_port (control_input_addr ni) = htons (of_int ip) \<and> sin_port (collector_addr ni) = htons (of_int op)"
  using assms by (auto simp: aa_net_init_def aa_net_open_input_socket_def aa_net_open_output_socket_def aa_net_update_fqdn_def aa_net_stop_def Let_def
      split: option.splits)

end
