(* ===== verification/Agent.thy ===== *)
theory Agent
  imports Startup
begin

text \<open>
  The agent library that a process on the other side of the shared memory links: \<open>src/agent/jrtc_agent.c\<close>.
  \<open>jbpf_io_get_ctx\<close> belongs to jbpf and is an argument.
\<close>

section \<open>State and operations\<close>

record jrtc_agent_schema_definition =
  sd_decoder :: "u8 list option"
  sd_encoder :: "u8 list option"
  sd_name :: "string option"
  sd_elem_size :: int

record 'e agent =
  ag_env :: 'e
  ag_heap :: mem
  global_device_id :: int
  global_stream_path :: "cstr option"

definition agent_init ::
    "jbpf_consts \<Rightarrow> ('e, 'bm, 'it, 'ht, 'rg, 'pl) ext \<Rightarrow> 'e agent \<Rightarrow> string \<Rightarrow> int \<Rightarrow> int \<Rightarrow> string \<Rightarrow> int \<times> 'e agent" where
  "agent_init K E ag channel_name msize device spath =
     (if JBPF_IO_IPC_MAX_NAMELEN K < length channel_name + 1 then (-1, ag)
      else
        (let io_config = \<lparr>io_primary = False, memory_size = msize, jbpf_path = str_in (JBPF_RUN_PATH_LEN K) (JBPF_DEFAULT_RUN_PATH K),
               jbpf_namespace = str_in (JBPF_NAMESPACE_LEN K) (JBPF_DEFAULT_NAMESPACE K),
               jbpf_io_ipc_name = str_in (JBPF_IO_IPC_MAX_NAMELEN K) channel_name\<rparr>
         in case jbpf_io_init E (ag_env ag) io_config of
              (None, e) \<Rightarrow> (-2, ag\<lparr>ag_env := e\<rparr>)
            | (Some io, e) \<Rightarrow>
                (case strdup (ag_heap ag) spath of
                   (c, m) \<Rightarrow>
                     (let ag = ag\<lparr>ag_env := e, ag_heap := m, global_device_id := device, global_stream_path := c\<rparr>
                      in if c = None then (-3, ag) else (0, ag)))))"

definition agent_stop :: "('e, 'bm, 'it, 'ht, 'rg, 'pl) ext \<Rightarrow> 'e agent \<Rightarrow> ub + 'e agent" where
  "agent_stop E ag =
     (let ag = ag\<lparr>ag_env := jbpf_io_stop E (ag_env ag)\<rparr>
      in bindS (free_opt (ag_heap ag) (global_stream_path ag)) (\<lambda>m. Inr (ag\<lparr>ag_heap := m\<rparr>)))"

text \<open>The result of generating the id is ignored; \<open>junk\<close> is the uninitialised local.\<close>

definition generate_stream_id ::
    "bool \<Rightarrow> 'e agent \<Rightarrow> stream_id \<Rightarrow> int \<Rightarrow> int \<Rightarrow> string option \<Rightarrow> jrtc_agent_schema_definition \<Rightarrow> ub + (stream_id \<times> 'e agent)" where
  "generate_stream_id sc ag junk fd dev path sd =
     bindS (jrtc_router_generate_stream_id sc (ag_heap ag) (Some junk) (of_int fd) (of_int dev) path (sd_name sd)) (\<lambda>(_, sid, m).
       (case sid of None \<Rightarrow> Inl NullDeref | Some s \<Rightarrow> Inr (s, ag\<lparr>ag_heap := m\<rparr>)))"

definition agent_create_channel ::
    "bool \<Rightarrow> ('e, 'bm, 'it, 'ht, 'rg, 'pl) ext \<Rightarrow> ('e \<Rightarrow> addr option) \<Rightarrow> 'e agent \<Rightarrow> stream_id \<Rightarrow> bool \<Rightarrow> u8 list option \<Rightarrow> int \<Rightarrow> int \<Rightarrow>
     jrtc_agent_schema_definition \<Rightarrow> ub + (addr option \<times> 'e agent)" where
  "agent_create_channel sc E get_ctx ag junk out descriptor fd num_elems sd =
     (case get_ctx (ag_env ag) of
        None \<Rightarrow> Inr (None, ag)
      | Some io \<Rightarrow>
          bindS (generate_stream_id sc ag junk fd (global_device_id ag) (c_string (global_stream_path ag)) sd) (\<lambda>(sid, ag).
            (case jbpf_io_create_channel E (ag_env ag) (Some io) out num_elems (sd_elem_size sd) sid descriptor of
               (c, e) \<Rightarrow> Inr (c, ag\<lparr>ag_env := e\<rparr>))))"

definition agent_create_input_channel ::
    "bool \<Rightarrow> ('e, 'bm, 'it, 'ht, 'rg, 'pl) ext \<Rightarrow> ('e \<Rightarrow> addr option) \<Rightarrow> 'e agent \<Rightarrow> stream_id \<Rightarrow> int \<Rightarrow> int \<Rightarrow>
     jrtc_agent_schema_definition \<Rightarrow> ub + (addr option \<times> 'e agent)" where
  "agent_create_input_channel sc E get_ctx ag junk fd num_elems sd =
     agent_create_channel sc E get_ctx ag junk False (sd_decoder sd) fd num_elems sd"

definition agent_create_output_channel ::
    "bool \<Rightarrow> ('e, 'bm, 'it, 'ht, 'rg, 'pl) ext \<Rightarrow> ('e \<Rightarrow> addr option) \<Rightarrow> 'e agent \<Rightarrow> stream_id \<Rightarrow> int \<Rightarrow> int \<Rightarrow>
     jrtc_agent_schema_definition \<Rightarrow> ub + (addr option \<times> 'e agent)" where
  "agent_create_output_channel sc E get_ctx ag junk fd num_elems sd =
     agent_create_channel sc E get_ctx ag junk True (sd_encoder sd) fd num_elems sd"

definition agent_destroy_channel ::
    "('e, 'bm, 'it, 'ht, 'rg, 'pl) ext \<Rightarrow> ('e \<Rightarrow> addr option) \<Rightarrow> 'e agent \<Rightarrow> addr \<Rightarrow> 'e agent" where
  "agent_destroy_channel E get_ctx ag c =
     (case get_ctx (ag_env ag) of
        None \<Rightarrow> ag
      | Some io \<Rightarrow> ag\<lparr>ag_env := jbpf_io_destroy_channel E (ag_env ag) (Some io) c\<rparr>)"

section \<open>Facts\<close>

text \<open>The return value tells how far the start got; a channel name that fits is not cut.\<close>

lemma agent_init_result:
  assumes "agent_init K E ag nm sz dev path = (r, ag')"
  shows "r \<in> {0, -1, -2, -3}" and "r = -1 \<longleftrightarrow> JBPF_IO_IPC_MAX_NAMELEN K < length nm + 1"
    and "r = 0 \<Longrightarrow> c_string (global_stream_path ag') = Some path \<and> global_device_id ag' = dev \<and> str_in (JBPF_IO_IPC_MAX_NAMELEN K) nm = nm"
  using assms
  by (auto simp: agent_init_def Let_def strdup_def c_string_def str_in_def split: if_splits option.splits prod.splits)

text \<open>Starting and stopping gives back what was allocated; a second stop frees the path a second time.\<close>

lemma agent_start_stop:
  assumes "agent_init K E ag nm sz dev path = (0, ag1)" and "mem_wf (ag_heap ag)"
  shows "\<exists>ag2. agent_stop E ag1 = Inr ag2 \<and> live (ag_heap ag2) = live (ag_heap ag) \<and> (\<exists>a. agent_stop E ag2 = Inl (DoubleFree a))"
proof -
  obtain a m where s: "strdup (ag_heap ag) path = (Some (a, path), m)" "ag_heap ag1 = m" "global_stream_path ag1 = Some (a, path)"
    using assms(1) by (auto simp: agent_init_def Let_def strdup_def split: if_splits option.splits prod.splits)
  have g: "grows (ag_heap ag) m [a]" using strdup_grows [OF assms(2) s(1)] by simp
  have "a \<in> live m" "live m - {a} = live (ag_heap ag)" "a \<notin> live (ag_heap ag)" using g by (auto simp: grows_def)
  then show ?thesis using s by (simp add: agent_stop_def Let_def free_opt_def free_def)
qed

text \<open>When the path cannot be copied, the IO library stays initialised and later channels get an id with the wildcard path.\<close>

lemma agent_without_path:
  assumes "agent_init K E ag nm sz dev path = (-3, ag1)" and "get_ctx (ag_env ag1) = Some io"
  shows "agent_create_output_channel sc E get_ctx ag1 junk fd n sd =
    bindS (jrtc_router_generate_stream_id sc (ag_heap ag1) (Some junk) (of_int fd) (of_int dev) None (sd_name sd)) (\<lambda>(_, sid, m).
      (case sid of None \<Rightarrow> Inl NullDeref
       | Some s \<Rightarrow> (case jbpf_io_create_channel E (ag_env ag1) (Some io) True n (sd_elem_size sd) s (sd_encoder sd) of
           (c, e) \<Rightarrow> Inr (c, ag1\<lparr>ag_heap := m, ag_env := e\<rparr>))))"
proof -
  have p: "global_stream_path ag1 = None" "global_device_id ag1 = dev"
    using assms(1) by (auto simp: agent_init_def Let_def split: if_splits option.splits prod.splits)
  show ?thesis
    using assms(2) p
    by (cases "jrtc_router_generate_stream_id sc (ag_heap ag1) (Some junk) (of_int fd) (of_int dev) None (sd_name sd)")
      (auto simp: agent_create_output_channel_def agent_create_channel_def generate_stream_id_def c_string_def split: option.splits prod.splits)
qed

end
