(* ===== verification/Python_Loader.thy ===== *)
theory Python_Loader
  imports Startup
begin

text \<open>
  The loader that runs a Python application in an interpreter of its own: \<open>src/pythonapp_loader/jrtc_pythonapp_loader.c\<close>.
  The C API of Python is not part of this repository: its answers are an argument, and the model keeps the number of references
  that the loader holds to each object, the calls that change the interpreter's threads, and the heap.
\<close>

section \<open>Paths\<close>

text \<open>What is left of the path when it is cut at the last slash.\<close>

definition get_folder :: "mem \<Rightarrow> string option \<Rightarrow> ub + (cstr option \<times> mem)" where
  "get_folder m file_path =
     (case file_path of
        None \<Rightarrow> Inr (strdup m ''./'')
      | Some p \<Rightarrow>
          (case strdup m p of
             (None, m) \<Rightarrow> Inr (None, m)
           | (Some (a, folder), m) \<Rightarrow>
               (case strrchr folder (CHR ''/'') of
                  None \<Rightarrow> bindS (free m a) (\<lambda>m. Inr (strdup m ''./''))
                | Some last_slash \<Rightarrow>
                    if length last_slash = length folder then Inr (Some (a, take 1 folder), m)
                    else Inr (Some (a, take (length folder - length last_slash) folder), m))))"

definition base_name :: "string \<Rightarrow> string" where
  "base_name file_path =
     (let file_name = (case strrchr file_path (CHR ''/'') of None \<Rightarrow> file_path | Some r \<Rightarrow> drop 1 r)
      in case strrchr file_name (CHR ''.'') of
           None \<Rightarrow> file_name
         | Some last_dot \<Rightarrow> if last_dot = ''.py'' then take (length file_name - length last_dot) file_name else file_name)"

definition get_file_name_without_py :: "mem \<Rightarrow> string option \<Rightarrow> cstr option \<times> mem" where
  "get_file_name_without_py m file_path =
     (case file_path of None \<Rightarrow> (None, m) | Some p \<Rightarrow> strdup m (base_name p))"

section \<open>The state of the loader\<close>

datatype py_obj = PathStr | NameStr | Module | Func | Args | Capsule | AppCapsule | SysModule | CallResult

datatype py_call =
    PyLock | PyUnlock | PyInitialize | NewInterpreter | ReleaseThread | AcquireThread | EndInterpreter
  | SwapTo | SwapBack | CallEntry

record pyapi =
  sys_path_r :: bool
  decode_r :: "string \<Rightarrow> bool"
  append_r :: int
  import_r :: "string \<Rightarrow> bool"
  is_initialized_r :: bool
  new_interpreter_r :: bool
  thread_state_r :: bool
  get_attr_r :: bool
  callable_r :: bool
  capsule_r :: bool
  app_capsule_r :: bool
  tuple_r :: bool
  call_r :: bool
  import_sys_r :: bool
  modules_r :: bool
  set_item_r :: "string \<Rightarrow> int"

record pystate =
  py_heap :: mem
  py_refs :: "py_obj \<Rightarrow> int"
  py_calls :: "py_call list"
  py_sys_path :: "string list"
  py_modules :: "string list"
  py_shared_initialized :: bool

definition add_ref :: "py_obj \<Rightarrow> pystate \<Rightarrow> pystate" where
  "add_ref x s = s\<lparr>py_refs := (py_refs s)(x := py_refs s x + 1)\<rparr>"

definition Py_DECREF :: "py_obj \<Rightarrow> pystate \<Rightarrow> pystate" where
  "Py_DECREF x s = s\<lparr>py_refs := (py_refs s)(x := py_refs s x - 1)\<rparr>"

text \<open>\<open>Py_XDECREF\<close> of a pointer that may be null.\<close>

definition Py_XDECREF :: "bool \<Rightarrow> py_obj \<Rightarrow> pystate \<Rightarrow> pystate" where
  "Py_XDECREF present x s = (if present then Py_DECREF x s else s)"

definition py_call :: "py_call list \<Rightarrow> pystate \<Rightarrow> pystate" where
  "py_call cs s = s\<lparr>py_calls := py_calls s @ cs\<rparr>"

section \<open>Importing a module\<close>

text \<open>The label \<open>exit0\<close>; the result is whether there is a module.\<close>

definition import_exit0 :: "pystate \<Rightarrow> addr \<Rightarrow> addr \<Rightarrow> bool \<Rightarrow> ub + (bool \<times> pystate)" where
  "import_exit0 s na pa r =
     bindS (free (py_heap s) na) (\<lambda>m. bindS (free m pa) (\<lambda>m. Inr (r, s\<lparr>py_heap := m\<rparr>)))"

definition import_python_module :: "pyapi \<Rightarrow> pystate \<Rightarrow> string option \<Rightarrow> ub + (bool \<times> pystate)" where
  "import_python_module A s python_path =
     (case python_path of
        None \<Rightarrow> Inr (False, s)
      | Some p \<Rightarrow>
          if length p = 0 then Inr (False, s)
          else
            (case get_file_name_without_py (py_heap s) (Some p) of
               (None, m) \<Rightarrow> Inr (False, s\<lparr>py_heap := m\<rparr>)
             | (Some (na, module_name), m) \<Rightarrow>
                 bindS (get_folder m (Some p)) (\<lambda>(c, m).
                   (case c of
                      None \<Rightarrow> bindS (free m na) (\<lambda>m. Inr (False, s\<lparr>py_heap := m\<rparr>))
                    | Some (pa, path) \<Rightarrow>
                        (let s = s\<lparr>py_heap := m\<rparr>;
                             s = (if decode_r A path then add_ref PathStr s else s)
                         in if sys_path_r A \<and> decode_r A path then
                              (let s = (if append_r A < 0 then s else s\<lparr>py_sys_path := py_sys_path s @ [path]\<rparr>);
                                   s = Py_DECREF PathStr s
                               in if \<not> decode_r A module_name then import_exit0 s na pa False
                                  else
                                    (let s = add_ref NameStr s;
                                         s = (if import_r A module_name then add_ref Module s else s);
                                         s = Py_DECREF NameStr s
                                     in import_exit0 s na pa (import_r A module_name)))
                            else import_exit0 s na pa False)))))"

section \<open>Running the script\<close>

text \<open>The label \<open>cleanup\<close>: which of the pointers are set, and whether the thread state was swapped.\<close>

definition run_cleanup :: "pystate \<Rightarrow> bool \<Rightarrow> bool \<Rightarrow> bool \<Rightarrow> bool \<Rightarrow> bool \<Rightarrow> pystate" where
  "run_cleanup s swapped func modu args capsule =
     (let s = Py_XDECREF func Func s; s = Py_XDECREF modu Module s; s = Py_XDECREF args Args s; s = Py_XDECREF capsule Capsule s
      in if swapped then py_call [SwapBack] s else s)"

definition run_python_using_interpreter :: "pyapi \<Rightarrow> pystate \<Rightarrow> string option \<Rightarrow> bool \<Rightarrow> bool \<Rightarrow> ub + pystate" where
  "run_python_using_interpreter A s python_script interp has_args =
     (if \<not> has_args then Inr s
      else if interp \<and> \<not> thread_state_r A then Inr s
      else
        (let s = (if interp then py_call [SwapTo] s else s) in
         bindS (import_python_module A s python_script) (\<lambda>(modu, s).
           if \<not> modu then Inr (run_cleanup s interp False False False False)
           else
             (let s = (if get_attr_r A then add_ref Func s else s) in
              if \<not> get_attr_r A \<or> \<not> callable_r A then Inr (run_cleanup s interp (get_attr_r A) True False False)
              else if \<not> capsule_r A then Inr (run_cleanup s interp True True False False)
              else
                (let s = add_ref Capsule s in
                 if \<not> tuple_r A then Inr (run_cleanup (Py_XDECREF True Capsule s) interp True True False True)
                 else
                   (let s = add_ref Args s;
                        s = py_call [CallEntry] s;
                        s = (if call_r A then add_ref CallResult s else s)
                    in Inr (run_cleanup s interp True True True True)))))))"

definition run_subinterpreter :: "pyapi \<Rightarrow> pystate \<Rightarrow> string option \<Rightarrow> ub + pystate" where
  "run_subinterpreter A s full_path = run_python_using_interpreter A s full_path True True"

section \<open>The application\<close>

text \<open>The two loops over the modules up to the first null pointer.  The first result of the first one is whether all
  could be imported.\<close>

fun load_modules :: "pyapi \<Rightarrow> pystate \<Rightarrow> string option list \<Rightarrow> ub + (bool \<times> pystate)" where
  "load_modules A s [] = Inr (True, s)"
| "load_modules A s (x # xs) =
     (case x of
        None \<Rightarrow> Inr (True, s)
      | Some p \<Rightarrow>
          bindS (import_python_module A s (Some p)) (\<lambda>(ok, s).
            if \<not> ok then Inr (False, s) else load_modules A (Py_DECREF Module s) xs))"

fun inject_modules :: "pyapi \<Rightarrow> pystate \<Rightarrow> string option list \<Rightarrow> ub + pystate" where
  "inject_modules A s [] = Inr s"
| "inject_modules A s (x # xs) =
     (case x of
        None \<Rightarrow> Inr s
      | Some p \<Rightarrow>
          (case get_file_name_without_py (py_heap s) (Some p) of
             (nm, m) \<Rightarrow>
               bindS (import_python_module A (s\<lparr>py_heap := m\<rparr>) (Some p)) (\<lambda>(ok, s).
                 if \<not> ok then bindS (free_opt (py_heap s) nm) (\<lambda>m. inject_modules A (s\<lparr>py_heap := m\<rparr>) xs)
                 else
                   (case nm of
                      None \<Rightarrow> Inl NullDeref
                    | Some (a, module_name) \<Rightarrow>
                        (let s = (if set_item_r A module_name < 0 then s else s\<lparr>py_modules := py_modules s @ [module_name]\<rparr>);
                             s = Py_DECREF Module s
                         in bindS (free (py_heap s) a) (\<lambda>m. inject_modules A (s\<lparr>py_heap := m\<rparr>) xs))))))"

definition cleanup_thread :: "pystate \<Rightarrow> pystate" where
  "cleanup_thread s = py_call [ReleaseThread, PyLock, AcquireThread, EndInterpreter, PyUnlock] s"

definition cleanup_capsule :: "pystate \<Rightarrow> pystate" where
  "cleanup_capsule s = cleanup_thread (Py_XDECREF True AppCapsule s)"

text \<open>The part that runs with the new interpreter and the capsule.\<close>

definition python_app_body :: "pyapi \<Rightarrow> pystate \<Rightarrow> string option \<Rightarrow> string option list \<Rightarrow> ub + pystate" where
  "python_app_body A s full_path mods =
     bindS (load_modules A s mods) (\<lambda>(ok, s).
       if \<not> ok then Inr (cleanup_capsule s)
       else if \<not> import_sys_r A then Inr (cleanup_capsule s)
       else
         (let s = add_ref SysModule s in
          if \<not> modules_r A then Inr (cleanup_capsule (Py_DECREF SysModule s))
          else
            bindS (inject_modules A s mods) (\<lambda>s.
            bindS (run_subinterpreter A (Py_DECREF SysModule s) full_path) (\<lambda>s.
              Inr (cleanup_capsule s)))))"

definition python_start_app :: "pyapi \<Rightarrow> pystate \<Rightarrow> jrtc_app_env option \<Rightarrow> bool \<Rightarrow> ub + pystate" where
  "python_start_app A s args shared =
     (case args of
        None \<Rightarrow> Inr s
      | Some ae \<Rightarrow>
          if \<not> shared then Inr s
          else
            (let full_path = (case env_params ae of [] \<Rightarrow> None | (k, v) # _ \<Rightarrow> c_string v);
                 s = py_call [PyLock] s;
                 s = (if \<not> py_shared_initialized s
                      then (if \<not> is_initialized_r A then py_call [PyInitialize] s else s)\<lparr>py_shared_initialized := True\<rparr> else s)
             in if \<not> new_interpreter_r A then Inr (py_call [PyUnlock] s)
                else
                  (let s = py_call [NewInterpreter, ReleaseThread, PyUnlock, AcquireThread] s in
                   if \<not> app_capsule_r A then Inr (cleanup_thread s)
                   else python_app_body A (add_ref AppCapsule s) full_path (map c_string (env_app_modules ae)))))"

end
