(* ===== verification/Python_Loader_Props.thy ===== *)
theory Python_Loader_Props
  imports Python_Loader
begin

text \<open>
  Properties of the Python loader: what a path is split into, and that on every path through the loader the lock is released, the
  interpreter is ended, the heap is given back and the references are balanced.
\<close>

section \<open>Paths\<close>

text \<open>A path of a directory other than the root, a slash, a name without slash or dot, and the ending is split into the directory
  and the name.\<close>

lemma strrchr_last: "c \<notin> set b \<Longrightarrow> strrchr (d @ c # b) c = Some (c # b)"
proof (induction d)
  case Nil
  then show ?case using strrchr_None [of b c] by simp
qed simp

lemma split_path:
  assumes "CHR ''/'' \<notin> set name" and "CHR ''.'' \<notin> set name" and "dir \<noteq> []"
  shows "base_name (dir @ ''/'' @ name @ ''.py'') = name"
    and "get_folder m (Some (dir @ ''/'' @ name @ ''.py'')) =
      (case malloc m of (None, m) \<Rightarrow> Inr (None, m) | (Some a, m) \<Rightarrow> Inr (Some (a, dir), m))"
proof -
  have 1: "strrchr (dir @ CHR ''/'' # name @ ''.py'') (CHR ''/'') = Some (CHR ''/'' # name @ ''.py'')"
    using assms(1) by (intro strrchr_last) simp
  have 2: "strrchr (name @ CHR ''.'' # ''py'') (CHR ''.'') = Some (CHR ''.'' # ''py'')" by (intro strrchr_last) simp
  show "base_name (dir @ ''/'' @ name @ ''.py'') = name" using 1 2 by (simp add: base_name_def)
  show "get_folder m (Some (dir @ ''/'' @ name @ ''.py'')) =
      (case malloc m of (None, m) \<Rightarrow> Inr (None, m) | (Some a, m) \<Rightarrow> Inr (Some (a, dir), m))"
    using 1 assms(3) by (auto simp: get_folder_def strdup_def split: option.splits prod.splits)
qed

section \<open>Balance\<close>

text \<open>The heap is as before, and memory still suffices.\<close>

definition same_heap :: "pystate \<Rightarrow> pystate \<Rightarrow> bool" where
  "same_heap s s' \<longleftrightarrow> mem_wf (py_heap s') \<and> live (py_heap s') = live (py_heap s) \<and> oom (py_heap s') = oom (py_heap s)"

text \<open>The references to all objects but those in \<open>X\<close> are as before.\<close>

definition same_refs :: "py_obj set \<Rightarrow> pystate \<Rightarrow> pystate \<Rightarrow> bool" where
  "same_refs X s s' \<longleftrightarrow> (\<forall>x. x \<notin> X \<longrightarrow> py_refs s' x = py_refs s x)"

lemmas ref_defs = add_ref_def Py_DECREF_def Py_XDECREF_def py_call_def

lemma strdup_no_oom:
  assumes "\<forall>k. \<not> oom m k" and "mem_wf m"
  obtains a m' where "strdup m s = (Some (a, s), m')" "live m' = insert a (live m)" "a \<notin> live m" "mem_wf m'" "oom m' = oom m"
  using assms by (auto simp: strdup_def malloc_def mem_wf_def less_Suc_eq)

lemma get_folder_no_oom:
  assumes "\<forall>k. \<not> oom m k" and "mem_wf m"
  obtains a d m' where "get_folder m (Some p) = Inr (Some (a, d), m')" "live m' = insert a (live m)" "a \<notin> live m" "mem_wf m'" "oom m' = oom m"
proof -
  obtain a m1 where 1: "strdup m p = (Some (a, p), m1)" "live m1 = insert a (live m)" "a \<notin> live m" "mem_wf m1" "oom m1 = oom m"
    by (rule strdup_no_oom [OF assms])
  show thesis
  proof (cases "strrchr p (CHR ''/'')")
    case (Some r)
    show thesis
      by (rule that [of a "if length r = length p then take 1 p else take (length p - length r) p" m1]) (use Some 1 in \<open>simp_all add: get_folder_def\<close>)
  next
    case None
    let ?m = "m1\<lparr>live := live m1 - {a}\<rparr>"
    have f: "free m1 a = Inr ?m" using 1(2) by (simp add: free_live)
    have w: "\<forall>k. \<not> oom ?m k" "mem_wf ?m" using 1(4,5) assms(1) by (auto simp: mem_wf_def)
    obtain b m2 where 2: "strdup ?m ''./'' = (Some (b, ''./''), m2)" "live m2 = insert b (live ?m)" "b \<notin> live ?m" "mem_wf m2" "oom m2 = oom ?m"
      by (rule strdup_no_oom [OF w])
    have "live ?m = live m" using 1(2,3) by auto
    then show thesis using that [of b "''./''" m2] 1(1,5) 2 None f by (simp add: get_folder_def)
  qed
qed

text \<open>Importing a module leaves one reference, to the module, or none; without \<open>sys.path\<close> the reference to the path is lost.\<close>

lemma import_ok:
  assumes oom: "\<forall>k. \<not> oom (py_heap s) k" and wf: "mem_wf (py_heap s)"
  obtains r s' where "import_python_module A s (Some p) = Inr (r, s')" "same_heap s s'" "py_calls s' = py_calls s"
    "py_shared_initialized s' = py_shared_initialized s"
    "\<forall>x. x \<noteq> PathStr \<or> sys_path_r A \<longrightarrow> py_refs s' x = py_refs s x + (if x = Module \<and> r then 1 else 0)"
    "p \<noteq> [] \<and> sys_path_r A \<and> (\<forall>x. decode_r A x) \<and> (\<forall>x. import_r A x) \<longrightarrow> r"
proof (cases "p = []")
  case True
  show thesis by (rule that [of False s]) (use True wf in \<open>simp_all add: import_python_module_def same_heap_def\<close>)
next
  case False
  obtain na m1 where 1: "strdup (py_heap s) (base_name p) = (Some (na, base_name p), m1)" "live m1 = insert na (live (py_heap s))" "na \<notin> live (py_heap s)"
    "mem_wf m1" "oom m1 = oom (py_heap s)"
    by (rule strdup_no_oom [OF oom wf])
  have oom1: "\<forall>k. \<not> oom m1 k" using oom 1(5) by simp
  obtain pa d m2 where 2: "get_folder m1 (Some p) = Inr (Some (pa, d), m2)" "live m2 = insert pa (live m1)" "pa \<notin> live m1" "mem_wf m2" "oom m2 = oom m1"
    by (rule get_folder_no_oom [OF oom1 1(4)])
  define m4 where "m4 = m2\<lparr>live := live m2 - {na} - {pa}\<rparr>"
  have exit0: "import_exit0 t na pa r = Inr (r, t\<lparr>py_heap := m4\<rparr>)" if "py_heap t = m2" for t r
    using that 1(2,3) 2(2,3) by (auto simp: import_exit0_def free_def m4_def)
  have h: "mem_wf m4" "live m4 = live (py_heap s)" "oom m4 = oom (py_heap s)" using 1(2,3,5) 2(2-5) by (auto simp: m4_def mem_wf_def)
  show thesis
    by (rule that [of "sys_path_r A \<and> decode_r A d \<and> decode_r A (base_name p) \<and> import_r A (base_name p)"
          "snd (projr (import_python_module A s (Some p)))"];
        use False 1(1) 2(1) exit0 h in \<open>auto simp: import_python_module_def get_file_name_without_py_def Let_def ref_defs same_heap_def\<close>)
qed

text \<open>No call that changes the interpreter's threads, and the references balanced as far as \<open>sys.path\<close> allows.\<close>

definition quiet :: "pyapi \<Rightarrow> pystate \<Rightarrow> pystate \<Rightarrow> bool" where
  "quiet A s s' \<longleftrightarrow> same_heap s s' \<and> py_calls s' = py_calls s \<and> (\<forall>x. x \<noteq> PathStr \<or> sys_path_r A \<longrightarrow> py_refs s' x = py_refs s x)"

lemma quiet_trans: "quiet A s t \<Longrightarrow> quiet A t u \<Longrightarrow> quiet A s u"
  by (auto simp: quiet_def same_heap_def)

lemma quiet_ok: "quiet A s s' \<Longrightarrow> \<forall>k. \<not> oom (py_heap s) k \<Longrightarrow> (\<forall>k. \<not> oom (py_heap s') k) \<and> mem_wf (py_heap s')"
  by (simp add: quiet_def same_heap_def)

lemma import_quiet:
  assumes "\<forall>k. \<not> oom (py_heap s) k" and "mem_wf (py_heap s)"
  obtains r s' where "import_python_module A s (Some p) = Inr (r, s')" "quiet A s (if r then Py_DECREF Module s' else s')" "same_heap s s'"
    "py_calls s' = py_calls s" "\<forall>x. x \<noteq> PathStr \<or> sys_path_r A \<longrightarrow> py_refs s' x = py_refs s x + (if x = Module \<and> r then 1 else 0)"
proof -
  obtain r s' where 1: "import_python_module A s (Some p) = Inr (r, s')" "same_heap s s'" "py_calls s' = py_calls s"
    "py_shared_initialized s' = py_shared_initialized s"
    "\<forall>x. x \<noteq> PathStr \<or> sys_path_r A \<longrightarrow> py_refs s' x = py_refs s x + (if x = Module \<and> r then 1 else 0)"
    by (rule import_ok [OF assms, of A p])
  have "quiet A s (if r then Py_DECREF Module s' else s')" using 1 by (auto simp: quiet_def same_heap_def Py_DECREF_def)
  then show thesis by (rule that [OF 1(1) _ 1(2,3,5)])
qed

lemma load_modules_ok:
  "\<forall>k. \<not> oom (py_heap s) k \<Longrightarrow> mem_wf (py_heap s) \<Longrightarrow> \<exists>ok s'. load_modules A s xs = Inr (ok, s') \<and> quiet A s s'"
proof (induction xs arbitrary: s)
  case Nil
  then show ?case by (auto simp: quiet_def same_heap_def)
next
  case (Cons x xs)
  show ?case
  proof (cases x)
    case None
    then show ?thesis using Cons.prems by (auto simp: quiet_def same_heap_def)
  next
    case (Some p)
    obtain r s' where 1: "import_python_module A s (Some p) = Inr (r, s')" "quiet A s (if r then Py_DECREF Module s' else s')" "same_heap s s'"
      "py_calls s' = py_calls s" "\<forall>x. x \<noteq> PathStr \<or> sys_path_r A \<longrightarrow> py_refs s' x = py_refs s x + (if x = Module \<and> r then 1 else 0)"
      by (rule import_quiet [OF Cons.prems])
    show ?thesis
    proof (cases r)
      case True
      then have q: "quiet A s (Py_DECREF Module s')" using 1(2) by simp
      from Cons.IH [of "Py_DECREF Module s'"] quiet_ok [OF q Cons.prems(1)] obtain ok s'' where
        "load_modules A (Py_DECREF Module s') xs = Inr (ok, s'')" "quiet A (Py_DECREF Module s') s''" by blast
      then show ?thesis using Some 1(1) True quiet_trans [OF q] by auto
    next
      case False
      then show ?thesis using Some 1(1,2) by auto
    qed
  qed
qed

lemma inject_modules_ok:
  "\<forall>k. \<not> oom (py_heap s) k \<Longrightarrow> mem_wf (py_heap s) \<Longrightarrow> \<exists>s'. inject_modules A s xs = Inr s' \<and> quiet A s s'"
proof (induction xs arbitrary: s)
  case Nil
  then show ?case by (simp add: quiet_def same_heap_def)
next
  case (Cons x xs)
  show ?case
  proof (cases x)
    case None
    then show ?thesis using Cons.prems by (simp add: quiet_def same_heap_def)
  next
    case (Some p)
    obtain a m where n: "strdup (py_heap s) (base_name p) = (Some (a, base_name p), m)" "live m = insert a (live (py_heap s))" "a \<notin> live (py_heap s)"
      "mem_wf m" "oom m = oom (py_heap s)" by (rule strdup_no_oom [OF Cons.prems])
    have w: "\<forall>k. \<not> oom (py_heap (s\<lparr>py_heap := m\<rparr>)) k" "mem_wf (py_heap (s\<lparr>py_heap := m\<rparr>))" using n(4,5) Cons.prems(1) by simp_all
    obtain r s' where 1: "import_python_module A (s\<lparr>py_heap := m\<rparr>) (Some p) = Inr (r, s')" "quiet A (s\<lparr>py_heap := m\<rparr>) (if r then Py_DECREF Module s' else s')"
      "same_heap (s\<lparr>py_heap := m\<rparr>) s'" "py_calls s' = py_calls (s\<lparr>py_heap := m\<rparr>)"
      "\<forall>x. x \<noteq> PathStr \<or> sys_path_r A \<longrightarrow> py_refs s' x = py_refs (s\<lparr>py_heap := m\<rparr>) x + (if x = Module \<and> r then 1 else 0)"
      by (rule import_quiet [OF w])
    define t where "t = (if r then Py_DECREF Module (if set_item_r A (base_name p) < 0 then s' else s'\<lparr>py_modules := py_modules s' @ [base_name p]\<rparr>) else s')"
    let ?m = "(py_heap s')\<lparr>live := live (py_heap s') - {a}\<rparr>"
    have f: "free (py_heap s') a = Inr ?m" using 1(3) n(2) by (simp add: free_live same_heap_def)
    have ht: "py_heap t = py_heap s'" by (simp add: t_def Py_DECREF_def)
    have q: "quiet A s (t\<lparr>py_heap := ?m\<rparr>)"
      using 1(3-5) n by (auto simp: quiet_def same_heap_def t_def Py_DECREF_def mem_wf_def)
    from Cons.IH [of "t\<lparr>py_heap := ?m\<rparr>"] quiet_ok [OF q Cons.prems(1)] obtain s'' where
      "inject_modules A (t\<lparr>py_heap := ?m\<rparr>) xs = Inr s''" "quiet A (t\<lparr>py_heap := ?m\<rparr>) s''" by blast
    moreover have "inject_modules A s (x # xs) = inject_modules A (t\<lparr>py_heap := ?m\<rparr>) xs"
      using Some n(1) 1(1) f ht by (auto simp: get_file_name_without_py_def free_opt_def t_def Let_def Py_DECREF_def)
    ultimately show ?thesis using quiet_trans [OF q] by auto
  qed
qed

text \<open>Running the script: the thread state is swapped back on every path.  When the argument tuple cannot be made, the capsule is
  released twice.\<close>

lemma run_python_ok:
  assumes "\<forall>k. \<not> oom (py_heap s) k" and "mem_wf (py_heap s)"
  shows "\<exists>s' tr. run_subinterpreter A s path = Inr s' \<and> same_heap s s' \<and> py_calls s' = py_calls s @ tr \<and>
    tr \<in> {[], [SwapTo, SwapBack], [SwapTo, CallEntry, SwapBack]} \<and>
    (\<forall>x. x \<noteq> CallResult \<and> (x \<noteq> PathStr \<or> sys_path_r A) \<and> (x \<noteq> Capsule \<or> tuple_r A) \<longrightarrow> py_refs s' x = py_refs s x)"
proof (cases "thread_state_r A")
  case False
  then show ?thesis using assms by (simp add: run_subinterpreter_def run_python_using_interpreter_def same_heap_def)
next
  case True
  let ?s = "py_call [SwapTo] s"
  have w: "\<forall>k. \<not> oom (py_heap ?s) k" "mem_wf (py_heap ?s)" using assms by (simp_all add: py_call_def)
  obtain r s1 where 1: "import_python_module A ?s path = Inr (r, s1)" "same_heap ?s s1" "py_calls s1 = py_calls ?s"
    "\<forall>x. x \<noteq> PathStr \<or> sys_path_r A \<longrightarrow> py_refs s1 x = py_refs ?s x + (if x = Module \<and> r then 1 else 0)"
  proof (cases path)
    case None
    show thesis by (rule that [of False ?s]) (use None w in \<open>simp_all add: import_python_module_def same_heap_def\<close>)
  next
    case (Some p)
    show thesis by (rule import_quiet [OF w, of A p]) (use Some that in auto)
  qed
  show ?thesis
    using True 1
    by (auto simp: run_subinterpreter_def run_python_using_interpreter_def run_cleanup_def Let_def ref_defs same_heap_def)
qed

text \<open>The lock is taken only when it is free and released only when it is held, and is free at the end.\<close>

fun lock_discipline :: "bool \<Rightarrow> py_call list \<Rightarrow> bool" where
  "lock_discipline held [] \<longleftrightarrow> \<not> held"
| "lock_discipline held (c # cs) \<longleftrightarrow>
     (if c = PyLock then \<not> held \<and> lock_discipline True cs
      else if c = PyUnlock then held \<and> lock_discipline False cs
      else lock_discipline held cs)"

definition balanced :: "py_call list \<Rightarrow> bool" where
  "balanced tr \<longleftrightarrow> lock_discipline False tr \<and> count_list tr NewInterpreter = count_list tr EndInterpreter \<and>
     count_list tr AcquireThread = count_list tr ReleaseThread \<and> count_list tr SwapTo = count_list tr SwapBack"

lemma python_app_body_ok:
  assumes "\<forall>k. \<not> oom (py_heap s) k" and "mem_wf (py_heap s)"
  shows "\<exists>s' tr. python_app_body A s path mods = Inr s' \<and> same_heap s s' \<and>
    py_calls s' = py_calls s @ tr @ [ReleaseThread, PyLock, AcquireThread, EndInterpreter, PyUnlock] \<and>
    tr \<in> {[], [SwapTo, SwapBack], [SwapTo, CallEntry, SwapBack]} \<and>
    (sys_path_r A \<and> tuple_r A \<longrightarrow> (\<forall>x. x \<noteq> CallResult \<longrightarrow> py_refs s' x = py_refs s x - (if x = AppCapsule then 1 else 0)))"
proof -
  obtain ok s1 where 1: "load_modules A s mods = Inr (ok, s1)" "quiet A s s1" using load_modules_ok [OF assms] by blast
  have fin: ?thesis if "python_app_body A s path mods = Inr (cleanup_capsule t)" "quiet A s t" for t
    using that by (intro exI [of _ "cleanup_capsule t"] exI [of _ "[]"])
      (auto simp: cleanup_capsule_def cleanup_thread_def ref_defs quiet_def same_heap_def)
  show ?thesis
  proof (cases "ok \<and> import_sys_r A")
    case False
    then show ?thesis using fin [of s1] 1 by (auto simp: python_app_body_def)
  next
    case True
    show ?thesis
    proof (cases "modules_r A")
      case False
      have "quiet A s (Py_DECREF SysModule (add_ref SysModule s1))" using 1(2) by (auto simp: ref_defs quiet_def same_heap_def)
      then show ?thesis using fin True False 1(1) by (auto simp: python_app_body_def Let_def)
    next
      case mods: True
      let ?s = "add_ref SysModule s1"
      have w: "\<forall>k. \<not> oom (py_heap ?s) k" "mem_wf (py_heap ?s)" using quiet_ok [OF 1(2) assms(1)] by (simp_all add: add_ref_def)
      obtain s2 where 2: "inject_modules A ?s mods = Inr s2" "quiet A ?s s2" using inject_modules_ok [OF w] by blast
      let ?t = "Py_DECREF SysModule s2"
      have w2: "\<forall>k. \<not> oom (py_heap ?t) k" "mem_wf (py_heap ?t)" using quiet_ok [OF 2(2) w(1)] by (simp_all add: Py_DECREF_def)
      have q: "quiet A s ?t" using 1(2) 2(2) by (auto simp: ref_defs quiet_def same_heap_def)
      obtain s3 tr where 3: "run_subinterpreter A ?t path = Inr s3" "same_heap ?t s3" "py_calls s3 = py_calls ?t @ tr"
        "tr \<in> {[], [SwapTo, SwapBack], [SwapTo, CallEntry, SwapBack]}"
        "\<forall>x. x \<noteq> CallResult \<and> (x \<noteq> PathStr \<or> sys_path_r A) \<and> (x \<noteq> Capsule \<or> tuple_r A) \<longrightarrow> py_refs s3 x = py_refs ?t x"
        using run_python_ok [OF w2, of A path] by blast
      have "python_app_body A s path mods = Inr (cleanup_capsule s3)" using True mods 1(1) 2(1) 3(1) by (simp add: python_app_body_def Let_def)
      moreover have "same_heap s (cleanup_capsule s3)" using q 3(2) by (auto simp: cleanup_capsule_def cleanup_thread_def ref_defs quiet_def same_heap_def)
      moreover have "py_calls (cleanup_capsule s3) = py_calls s @ tr @ [ReleaseThread, PyLock, AcquireThread, EndInterpreter, PyUnlock]"
        using 3(3) q by (simp add: cleanup_capsule_def cleanup_thread_def ref_defs quiet_def)
      moreover have "py_refs (cleanup_capsule s3) x = py_refs s x - (if x = AppCapsule then 1 else 0)" if "sys_path_r A \<and> tuple_r A" "x \<noteq> CallResult" for x
        using that q 3(5) by (simp add: cleanup_capsule_def cleanup_thread_def ref_defs quiet_def)
      ultimately show ?thesis using 3(4) by (intro exI [of _ "cleanup_capsule s3"] exI [of _ tr]) simp
    qed
  qed
qed


definition py0 :: pystate where
  "py0 = \<lparr>py_heap = \<lparr>live = {}, next_addr = 1, oom = (\<lambda>_. False)\<rparr>, py_refs = (\<lambda>_. 0), py_calls = [], py_sys_path = [], py_modules = [],
     py_shared_initialized = False\<rparr>"

definition api0 :: pyapi where
  "api0 = \<lparr>sys_path_r = True, decode_r = (\<lambda>_. True), append_r = 0, import_r = (\<lambda>_. True), is_initialized_r = False, new_interpreter_r = True,
     thread_state_r = True, get_attr_r = True, callable_r = True, capsule_r = True, app_capsule_r = True, tuple_r = True, call_r = True,
     import_sys_r = True, modules_r = True, set_item_r = (\<lambda>_. 0)\<rparr>"

definition py_env0 :: jrtc_app_env where
  "py_env0 = zero_env\<lparr>env_params := [(Some (1, ''python''), Some (2, ''/apps/a.py''))], env_app_modules := [Some (3, ''/apps/m.py''), None]\<rparr>"


text \<open>When the tuple cannot be made, the loader gives back one reference to the capsule more than it has.\<close>

lemma tuple_failure_over_releases:
  assumes "\<forall>k. \<not> oom (py_heap s) k" and "mem_wf (py_heap s)" and "p \<noteq> []" and "sys_path_r A" and "\<forall>x. decode_r A x" and "\<forall>x. import_r A x"
    and "thread_state_r A" and "get_attr_r A" and "callable_r A" and "capsule_r A" and "\<not> tuple_r A"
  shows "\<exists>s'. run_subinterpreter A s (Some p) = Inr s' \<and> py_refs s' Capsule = py_refs s Capsule - 1"
proof -
  let ?s = "py_call [SwapTo] s"
  have w: "\<forall>k. \<not> oom (py_heap ?s) k" "mem_wf (py_heap ?s)" using assms by (simp_all add: py_call_def)
  obtain r s1 where 1: "import_python_module A ?s (Some p) = Inr (r, s1)" "same_heap ?s s1" "py_calls s1 = py_calls ?s"
    "py_shared_initialized s1 = py_shared_initialized ?s"
    "\<forall>x. x \<noteq> PathStr \<or> sys_path_r A \<longrightarrow> py_refs s1 x = py_refs ?s x + (if x = Module \<and> r then 1 else 0)"
    "p \<noteq> [] \<and> sys_path_r A \<and> (\<forall>x. decode_r A x) \<and> (\<forall>x. import_r A x) \<longrightarrow> r"
    by (rule import_ok [OF w])
  have r: r using 1(6) assms(3-6) by simp
  show ?thesis using 1(1,5) r assms(7-11) by (simp add: run_subinterpreter_def run_python_using_interpreter_def run_cleanup_def Let_def ref_defs)
qed

end
