(* ===== verification/Jrtc_App.thy ===== *)
theory Jrtc_App
  imports Controller Complex_Main
begin

text \<open>
  The wrapper that most C and C++ applications are written with: \<open>src/wrapper_apis/c/jrtc_app.cpp\<close>, \<open>jrtc_app.hpp\<close> and
  \<open>jrtc_app.h\<close>.  An application gives a list of streams and a handler; the wrapper creates the channels, registers the
  requests, waits for the channels it sends to, and calls the handler for what it receives.  The handler is code of the
  application and an argument here.  What the clock shows and what the rest of the process does to the router in the
  meantime are arguments as well.
\<close>

section \<open>Configuration\<close>

record JrtcStreamIdCfg =
  cfg_destination :: int
  cfg_device_id :: int
  cfg_stream_source :: "string option"
  cfg_io_map :: "string option"

record JrtcAppChannelCfg =
  chan_is_output :: bool
  chan_num_elems :: int
  chan_elem_size :: int

record JrtcStreamCfg =
  str_sid :: JrtcStreamIdCfg
  is_rx :: bool
  appChannel :: "JrtcAppChannelCfg option"

text \<open>The array of streams has \<open>num_streams\<close> elements.  The times are seconds, taken as exact numbers.\<close>

record JrtcAppCfg =
  q_size :: int
  streams :: "JrtcStreamCfg list"
  initialization_timeout_secs :: rat
  sleep_timeout_secs :: rat
  inactivity_timeout_secs :: rat

record StreamItem =
  item_sid :: stream_id
  item_registered :: bool
  item_chan_ctx :: "addr option"

section \<open>State\<close>

text \<open>The object, with the router, the heap, and the numbers of readings of the clock and of waits of 100 ms so far.\<close>

record ('e, 'bm, 'ht, 'rg, 'pl, 's) JrtcApp =
  ja_router :: "('e, 'bm, 'ht, 'rg, 'pl) jrtc_router_ctx"
  ja_heap :: mem
  ja_reads :: nat
  ja_waits :: nat
  stream_items :: "StreamItem list"
  last_received_time :: int
  app_state :: 's

text \<open>The clock, in nanoseconds, by those two numbers; what other threads do to the router meanwhile; the
  uninitialised variable \<open>sid\<close>; and for the calls that create and destroy channels what the stack holds.\<close>

record ('e, 'bm, 'ht, 'rg, 'pl) host =
  clock :: "nat \<Rightarrow> nat \<Rightarrow> int"
  others :: "nat \<Rightarrow> nat \<Rightarrow> ('e, 'bm, 'ht, 'rg, 'pl) jrtc_router_ctx \<Rightarrow> ('e, 'bm, 'ht, 'rg, 'pl) jrtc_router_ctx"
  junk_sid :: stream_id
  create_stack :: "nat \<Rightarrow> key_mem"
  param_addr :: "nat \<Rightarrow> addr"
  destroy_stack :: "addr \<Rightarrow> key_mem"

text \<open>The handler is given a pointer to the application's state, in which applications keep a pointer to the object; here it
  is given the object.  It may change its own state and, through the interface, the router.\<close>

type_synonym ('e, 'bm, 'ht, 'rg, 'pl, 's) JrtcAppHandler =
  "bool \<Rightarrow> int \<Rightarrow> jrtc_router_data_entry option \<Rightarrow> ('e, 'bm, 'ht, 'rg, 'pl, 's) JrtcApp \<Rightarrow>
   ub + ('e, 'bm, 'ht, 'rg, 'pl, 's) JrtcApp"

definition steady_now ::
    "('e, 'bm, 'ht, 'rg, 'pl) host \<Rightarrow> ('e, 'bm, 'ht, 'rg, 'pl, 's) JrtcApp \<Rightarrow> int \<times> ('e, 'bm, 'ht, 'rg, 'pl, 's) JrtcApp" where
  "steady_now H s = (clock H (ja_reads s) (ja_waits s), s\<lparr>ja_reads := Suc (ja_reads s)\<rparr>)"

definition NSEC :: int where
  "NSEC = 1000000000"

section \<open>Initialisation\<close>

text \<open>Whole seconds are compared with the time-out.\<close>

definition init_timed_out ::
    "('e, 'bm, 'ht, 'rg, 'pl) host \<Rightarrow> JrtcAppCfg \<Rightarrow> int \<Rightarrow> ('e, 'bm, 'ht, 'rg, 'pl, 's) JrtcApp \<Rightarrow>
     bool \<times> ('e, 'bm, 'ht, 'rg, 'pl, 's) JrtcApp" where
  "init_timed_out H cfg start_time s =
     (if initialization_timeout_secs cfg > 0 then
        (case steady_now H s of
           (t, s) \<Rightarrow> (rat_of_int ((t - start_time) div NSEC) > initialization_timeout_secs cfg, s))
      else (False, s))"

definition init_channel ::
    "('e, 'bm, 'it, 'ht, 'rg, 'pl) ext \<Rightarrow> ('e, 'bm, 'ht, 'rg, 'pl) host \<Rightarrow> addr option \<Rightarrow> nat \<Rightarrow> JrtcStreamCfg \<Rightarrow> stream_id \<Rightarrow>
     ('e, 'bm, 'ht, 'rg, 'pl, 's) JrtcApp \<Rightarrow> ub + (bool \<times> addr option \<times> ('e, 'bm, 'ht, 'rg, 'pl, 's) JrtcApp)" where
  "init_channel E H dapp i c sid s =
     (case appChannel c of
        None \<Rightarrow> Inr (True, None, s)
      | Some ac \<Rightarrow>
          bindS (jrtc_router_channel_create E (ja_router s) (create_stack H i) (param_addr H i) dapp
                   (chan_is_output ac) (chan_num_elems ac) (chan_elem_size ac) sid None)
            (\<lambda>(chan, rt). Inr (chan \<noteq> None, chan, s\<lparr>ja_router := rt\<rparr>)))"

definition init_register ::
    "('e, 'bm, 'it, 'ht, 'rg, 'pl) ext \<Rightarrow> addr option \<Rightarrow> JrtcStreamCfg \<Rightarrow> stream_id \<Rightarrow>
     ('e, 'bm, 'ht, 'rg, 'pl, 's) JrtcApp \<Rightarrow> ub + (bool \<times> ('e, 'bm, 'ht, 'rg, 'pl, 's) JrtcApp)" where
  "init_register E dapp c sid s =
     (if is_rx c then
        bindS (jrtc_router_channel_register_stream_id_req E (ja_router s) dapp sid)
          (\<lambda>(res, rt). Inr (res = 1, s\<lparr>ja_router := rt\<rparr>))
      else Inr (True, s))"

text \<open>The first loop, from stream \<open>i\<close> on.\<close>

fun init_streams ::
    "bool \<Rightarrow> ('e, 'bm, 'it, 'ht, 'rg, 'pl) ext \<Rightarrow> ('e, 'bm, 'ht, 'rg, 'pl) host \<Rightarrow> addr option \<Rightarrow> JrtcAppCfg \<Rightarrow> int \<Rightarrow> nat \<Rightarrow>
     JrtcStreamCfg list \<Rightarrow> ('e, 'bm, 'ht, 'rg, 'pl, 's) JrtcApp \<Rightarrow> ub + (int \<times> ('e, 'bm, 'ht, 'rg, 'pl, 's) JrtcApp)" where
  "init_streams sc E H dapp cfg start_time i [] s = Inr (0, s)"
| "init_streams sc E H dapp cfg start_time i (c # cs) s =
     bindS (jrtc_router_generate_stream_id sc (ja_heap s) (Some (junk_sid H)) (word_of_int (cfg_destination (str_sid c)))
              (word_of_int (cfg_device_id (str_sid c))) (cfg_stream_source (str_sid c)) (cfg_io_map (str_sid c)))
       (\<lambda>(res, sid, m).
         (let s = s\<lparr>ja_heap := m\<rparr>
          in case sid of
               None \<Rightarrow> Inl NullDeref
             | Some sid \<Rightarrow>
                 if res \<noteq> 1 then Inr (-1, s)
                 else
                   bindS (init_channel E H dapp i c sid s) (\<lambda>(ok, chan, s).
                   if \<not> ok then Inr (-1, s)
                   else
                     bindS (init_register E dapp c sid s) (\<lambda>(ok, s).
                     if \<not> ok then Inr (-1, s)
                     else
                       (let s = s\<lparr>stream_items := stream_items s @ [\<lparr>item_sid = sid, item_registered = is_rx c, item_chan_ctx = chan\<rparr>]\<rparr>
                        in case init_timed_out H cfg start_time s of
                             (late, s) \<Rightarrow>
                               if late then Inr (-1, s) else init_streams sc E H dapp cfg start_time (Suc i) cs s)))))"

text \<open>The second loop waits for the input channels of other applications; \<open>None\<close> after \<open>n\<close> waits.\<close>

fun wait_channels ::
    "nat \<Rightarrow> ('e, 'bm, 'it, 'ht, 'rg, 'pl) ext \<Rightarrow> ('e, 'bm, 'ht, 'rg, 'pl) host \<Rightarrow> JrtcAppCfg \<Rightarrow> int \<Rightarrow> nat \<Rightarrow> JrtcStreamCfg list \<Rightarrow>
     ('e, 'bm, 'ht, 'rg, 'pl, 's) JrtcApp \<Rightarrow> (ub + (int \<times> ('e, 'bm, 'ht, 'rg, 'pl, 's) JrtcApp)) option" where
  "wait_channels n E H cfg start_time i [] s = Some (Inr (0, s))"
| "wait_channels n E H cfg start_time i (c # cs) s =
     (if length (stream_items s) \<le> i then Some (Inl OutOfBounds)
      else if \<not> is_rx c \<and> item_chan_ctx (stream_items s ! i) = None \<and>
              jrtc_router_input_channel_exists E (ja_router s) (item_sid (stream_items s ! i)) = 0
      then
        (if n = 0 then None
         else
           (let s = s\<lparr>ja_router := others H (ja_reads s) (ja_waits s) (ja_router s), ja_waits := Suc (ja_waits s)\<rparr>
            in case init_timed_out H cfg start_time s of
                 (late, s) \<Rightarrow>
                   if late then Some (Inr (-1, s)) else wait_channels (n - 1) E H cfg start_time i (c # cs) s))
      else wait_channels n E H cfg start_time (Suc i) cs s)"

definition Init ::
    "nat \<Rightarrow> bool \<Rightarrow> ('e, 'bm, 'it, 'ht, 'rg, 'pl) ext \<Rightarrow> ('e, 'bm, 'ht, 'rg, 'pl) host \<Rightarrow> addr option \<Rightarrow> JrtcAppCfg \<Rightarrow>
     ('e, 'bm, 'ht, 'rg, 'pl, 's) JrtcApp \<Rightarrow> (ub + (int \<times> ('e, 'bm, 'ht, 'rg, 'pl, 's) JrtcApp)) option" where
  "Init n sc E H dapp cfg s =
     (case steady_now H s of
        (start_time, s) \<Rightarrow>
          (case init_streams sc E H dapp cfg start_time 0 (streams cfg) (s\<lparr>last_received_time := start_time\<rparr>) of
             Inl e \<Rightarrow> Some (Inl e)
           | Inr (r, s) \<Rightarrow>
               if r \<noteq> 0 then Some (Inr (r, s)) else wait_channels n E H cfg start_time 0 (streams cfg) s))"

section \<open>Clean-up\<close>

fun cleanup_items ::
    "('e, 'bm, 'it, 'ht, 'rg, 'pl) ext \<Rightarrow> ('e, 'bm, 'ht, 'rg, 'pl) host \<Rightarrow> addr option \<Rightarrow> StreamItem list \<Rightarrow>
     ('e, 'bm, 'ht, 'rg, 'pl) jrtc_router_ctx \<Rightarrow> ub + ('e, 'bm, 'ht, 'rg, 'pl) jrtc_router_ctx" where
  "cleanup_items E H dapp [] rt = Inr rt"
| "cleanup_items E H dapp (si # sis) rt =
     bindS (if item_registered si then jrtc_router_channel_deregister_stream_id_req E rt dapp (item_sid si) else Inr rt) (\<lambda>rt.
     bindS (case item_chan_ctx si of
              None \<Rightarrow> Inr rt
            | Some c \<Rightarrow> jrtc_router_channel_destroy E rt (destroy_stack H c) (Some c)) (\<lambda>rt.
       cleanup_items E H dapp sis rt))"

definition CleanUp ::
    "('e, 'bm, 'it, 'ht, 'rg, 'pl) ext \<Rightarrow> ('e, 'bm, 'ht, 'rg, 'pl) host \<Rightarrow> addr option \<Rightarrow>
     ('e, 'bm, 'ht, 'rg, 'pl, 's) JrtcApp \<Rightarrow> ub + ('e, 'bm, 'ht, 'rg, 'pl, 's) JrtcApp" where
  "CleanUp E H dapp s = bindS (cleanup_items E H dapp (stream_items s) (ja_router s)) (\<lambda>rt. Inr (s\<lparr>ja_router := rt\<rparr>))"

section \<open>The loop\<close>

text \<open>The search for the stream of a message, from index \<open>i\<close> on.\<close>

fun find_stream :: "JrtcStreamCfg list \<Rightarrow> StreamItem list \<Rightarrow> nat \<Rightarrow> stream_id \<Rightarrow> ub + nat option" where
  "find_stream [] items i sid = Inr None"
| "find_stream (c # cs) items i sid =
     (if length items \<le> i then Inl OutOfBounds
      else if is_rx c \<and> jrtc_router_stream_id_matches_req sid (item_sid (items ! i)) then Inr (Some i)
      else find_stream cs items (Suc i) sid)"

definition call_handler ::
    "('e, 'bm, 'ht, 'rg, 'pl, 's) JrtcAppHandler \<Rightarrow> bool \<Rightarrow> int \<Rightarrow> jrtc_router_data_entry option \<Rightarrow>
     ('e, 'bm, 'ht, 'rg, 'pl, 's) JrtcApp \<Rightarrow> ub + ('e, 'bm, 'ht, 'rg, 'pl, 's) JrtcApp" where
  "call_handler h timeout idx x s =
     bindS (h timeout idx x s) (\<lambda>s'. Inr (s\<lparr>app_state := app_state s', ja_router := ja_router s'\<rparr>))"

fun dispatch ::
    "('e, 'bm, 'it, 'ht, 'rg, 'pl) ext \<Rightarrow> ('e, 'bm, 'ht, 'rg, 'pl) host \<Rightarrow> ('e, 'bm, 'ht, 'rg, 'pl, 's) JrtcAppHandler \<Rightarrow> JrtcAppCfg \<Rightarrow>
     jrtc_router_data_entry list \<Rightarrow> ('e, 'bm, 'ht, 'rg, 'pl, 's) JrtcApp \<Rightarrow> ub + ('e, 'bm, 'ht, 'rg, 'pl, 's) JrtcApp" where
  "dispatch E H h cfg [] s = Inr s"
| "dispatch E H h cfg (x # xs) s =
     bindS (find_stream (streams cfg) (stream_items s) 0 (de_stream_id x)) (\<lambda>r.
     bindS (case r of None \<Rightarrow> Inr s | Some sidx \<Rightarrow> call_handler h False (int sidx) (Some x) s) (\<lambda>s.
       (case steady_now H (s\<lparr>ja_router := jrtc_router_channel_release_buf E (ja_router s) (Some (de_data x))\<rparr>) of
          (t, s) \<Rightarrow> dispatch E H h cfg xs (s\<lparr>last_received_time := t\<rparr>))))"

text \<open>One iteration.  The rest of the process goes on at its end, where the loop may sleep.\<close>

definition run_step ::
    "('e, 'bm, 'it, 'ht, 'rg, 'pl) ext \<Rightarrow> ('e, 'bm, 'ht, 'rg, 'pl) host \<Rightarrow> ('e, 'bm, 'ht, 'rg, 'pl, 's) JrtcAppHandler \<Rightarrow> addr option \<Rightarrow>
     JrtcAppCfg \<Rightarrow> ('e, 'bm, 'ht, 'rg, 'pl, 's) JrtcApp \<Rightarrow> ub + ('e, 'bm, 'ht, 'rg, 'pl, 's) JrtcApp" where
  "run_step E H h dapp cfg s =
     (case steady_now H s of
        (t, s) \<Rightarrow>
          bindS (if inactivity_timeout_secs cfg > 0 \<and>
                    rat_of_int (t - last_received_time s) / rat_of_int NSEC > inactivity_timeout_secs cfg
                 then bindS (call_handler h True (-1) None s) (\<lambda>s. Inr (s\<lparr>last_received_time := t\<rparr>))
                 else Inr s) (\<lambda>s.
          (case dapp of
             None \<Rightarrow> Inl NullDeref
           | Some a \<Rightarrow>
               bindS (jrtc_router_receive E (ja_router s) a (nat (q_size cfg))) (\<lambda>(xs, rt).
               bindS (dispatch E H h cfg xs (s\<lparr>ja_router := rt\<rparr>)) (\<lambda>s.
                 Inr (s\<lparr>ja_router := others H (ja_reads s) (ja_waits s) (ja_router s)\<rparr>))))))"

text \<open>The first \<open>k\<close> iterations, after which \<open>app_exit\<close> is seen.\<close>

primrec run_loop ::
    "nat \<Rightarrow> ('e, 'bm, 'it, 'ht, 'rg, 'pl) ext \<Rightarrow> ('e, 'bm, 'ht, 'rg, 'pl) host \<Rightarrow> ('e, 'bm, 'ht, 'rg, 'pl, 's) JrtcAppHandler \<Rightarrow>
     addr option \<Rightarrow> JrtcAppCfg \<Rightarrow> ('e, 'bm, 'ht, 'rg, 'pl, 's) JrtcApp \<Rightarrow> ub + ('e, 'bm, 'ht, 'rg, 'pl, 's) JrtcApp" where
  "run_loop 0 E H h dapp cfg s = Inr s"
| "run_loop (Suc k) E H h dapp cfg s = bindS (run_step E H h dapp cfg s) (\<lambda>s. run_loop k E H h dapp cfg s)"

text \<open>A vector of negative size throws, and nothing catches it.\<close>

definition run ::
    "nat \<Rightarrow> nat \<Rightarrow> bool \<Rightarrow> ('e, 'bm, 'it, 'ht, 'rg, 'pl) ext \<Rightarrow> ('e, 'bm, 'ht, 'rg, 'pl) host \<Rightarrow>
     ('e, 'bm, 'ht, 'rg, 'pl, 's) JrtcAppHandler \<Rightarrow> addr option \<Rightarrow> JrtcAppCfg \<Rightarrow> ('e, 'bm, 'ht, 'rg, 'pl, 's) JrtcApp \<Rightarrow>
     (ub + ('e, 'bm, 'ht, 'rg, 'pl, 's) JrtcApp) option" where
  "run n k sc E H h dapp cfg s =
     (case Init n sc E H dapp cfg s of
        None \<Rightarrow> None
      | Some r \<Rightarrow>
          Some (bindS r (\<lambda>(res, s).
                bindS (if res = 0
                       then (if q_size cfg < 0 then Inl Aborted else run_loop k E H h dapp cfg s)
                       else Inr s)
                  (CleanUp E H dapp))))"

section \<open>The interface\<close>

text \<open>The index is converted to the unsigned 64-bit type of sizes.\<close>

definition get_stream :: "('e, 'bm, 'ht, 'rg, 'pl, 's) JrtcApp \<Rightarrow> int \<Rightarrow> stream_id option" where
  "get_stream s idx =
     (let j = unat (word_of_int idx :: u64)
      in if j < length (stream_items s) then Some (item_sid (stream_items s ! j)) else None)"

definition get_chan_ctx :: "('e, 'bm, 'ht, 'rg, 'pl, 's) JrtcApp \<Rightarrow> int \<Rightarrow> addr option" where
  "get_chan_ctx s idx =
     (let j = unat (word_of_int idx :: u64)
      in if j < length (stream_items s) then item_chan_ctx (stream_items s ! j) else None)"

definition jrtc_app_create ::
    "('e, 'bm, 'ht, 'rg, 'pl) host \<Rightarrow> ('e, 'bm, 'ht, 'rg, 'pl) jrtc_router_ctx \<Rightarrow> mem \<Rightarrow> nat \<Rightarrow> nat \<Rightarrow> 's \<Rightarrow>
     ub + (addr \<times> ('e, 'bm, 'ht, 'rg, 'pl, 's) JrtcApp)" where
  "jrtc_app_create H rt m reads waits st =
     (case malloc m of
        (None, _) \<Rightarrow> Inl Aborted
      | (Some a, m) \<Rightarrow>
          Inr (a, \<lparr>ja_router = rt, ja_heap = m, ja_reads = Suc reads, ja_waits = waits, stream_items = [],
                   last_received_time = clock H reads waits, app_state = st\<rparr>))"

definition jrtc_app_run ::
    "nat \<Rightarrow> nat \<Rightarrow> bool \<Rightarrow> ('e, 'bm, 'it, 'ht, 'rg, 'pl) ext \<Rightarrow> ('e, 'bm, 'ht, 'rg, 'pl) host \<Rightarrow>
     ('e, 'bm, 'ht, 'rg, 'pl, 's) JrtcAppHandler \<Rightarrow> addr option \<Rightarrow> JrtcAppCfg \<Rightarrow> ('e, 'bm, 'ht, 'rg, 'pl, 's) JrtcApp option \<Rightarrow>
     (ub + ('e, 'bm, 'ht, 'rg, 'pl, 's) JrtcApp option) option" where
  "jrtc_app_run n k sc E H h dapp cfg app =
     (case app of
        None \<Rightarrow> Some (Inr None)
      | Some s \<Rightarrow> map_option (\<lambda>r. bindS r (\<lambda>s. Inr (Some s))) (run n k sc E H h dapp cfg s))"

text \<open>Destroying the object gives back its memory and nothing else.\<close>

definition jrtc_app_destroy :: "mem \<Rightarrow> addr option \<Rightarrow> ub + mem" where
  "jrtc_app_destroy m app = (case app of None \<Rightarrow> Inr m | Some a \<Rightarrow> free m a)"

definition jrtc_app_router_channel_reserve_buf ::
    "('e, 'bm, 'it, 'ht, 'rg, 'pl) ext \<Rightarrow> ('e, 'bm, 'ht, 'rg, 'pl, 's) JrtcApp \<Rightarrow> int \<Rightarrow>
     ub + (addr option \<times> ('e, 'bm, 'ht, 'rg, 'pl, 's) JrtcApp)" where
  "jrtc_app_router_channel_reserve_buf E s idx =
     (case get_chan_ctx s idx of
        None \<Rightarrow> Inr (None, s)
      | Some c \<Rightarrow> bindS (jrtc_router_channel_reserve_buf E (ja_router s) (Some c)) (\<lambda>(r, rt). Inr (r, s\<lparr>ja_router := rt\<rparr>)))"

definition jrtc_app_router_channel_send_output ::
    "('e, 'bm, 'it, 'ht, 'rg, 'pl) ext \<Rightarrow> ('e, 'bm, 'ht, 'rg, 'pl, 's) JrtcApp \<Rightarrow> int \<Rightarrow>
     ub + (int \<times> ('e, 'bm, 'ht, 'rg, 'pl, 's) JrtcApp)" where
  "jrtc_app_router_channel_send_output E s idx =
     (case get_chan_ctx s idx of
        None \<Rightarrow> Inr (-1, s)
      | Some c \<Rightarrow> bindS (jrtc_router_channel_send_output E (ja_router s) (Some c)) (\<lambda>(r, rt). Inr (r, s\<lparr>ja_router := rt\<rparr>)))"

definition jrtc_app_router_channel_send_output_msg ::
    "('e, 'bm, 'it, 'ht, 'rg, 'pl) ext \<Rightarrow> (addr \<Rightarrow> nat) \<Rightarrow> ('e, 'bm, 'ht, 'rg, 'pl, 's) JrtcApp \<Rightarrow> int \<Rightarrow> u8 list option \<Rightarrow>
     ub + (int \<times> (addr \<times> u8 list) option \<times> ('e, 'bm, 'ht, 'rg, 'pl, 's) JrtcApp)" where
  "jrtc_app_router_channel_send_output_msg E cap s idx dat =
     (case get_chan_ctx s idx of
        None \<Rightarrow> Inr (-1, None, s)
      | Some c \<Rightarrow>
          bindS (jrtc_router_channel_send_output_msg E cap (ja_router s) (Some c) dat)
            (\<lambda>(r, w, rt). Inr (r, w, s\<lparr>ja_router := rt\<rparr>)))"

text \<open>Here the index is unsigned, and is converted to the signed type of \<open>get_stream\<close>.\<close>

definition jrtc_app_router_channel_send_input_msg ::
    "('e, 'bm, 'it, 'ht, 'rg, 'pl) ext \<Rightarrow> ('e, 'bm, 'ht, 'rg, 'pl, 's) JrtcApp \<Rightarrow> u32 \<Rightarrow> u8 list option \<Rightarrow> u64 \<Rightarrow>
     int \<times> ('e, 'bm, 'ht, 'rg, 'pl, 's) JrtcApp" where
  "jrtc_app_router_channel_send_input_msg E s idx dat data_len =
     (case get_stream s (sint idx) of
        None \<Rightarrow> (-1, s)
      | Some sid \<Rightarrow>
          (case jrtc_router_channel_send_input_msg E (ja_router s) sid dat data_len of
             (r, rt) \<Rightarrow> (r, s\<lparr>ja_router := rt\<rparr>)))"

end
