(* ===== verification/Jrtc_App_Props.thy ===== *)
theory Jrtc_App_Props
  imports Jrtc_App North_Io_Props
begin

text \<open>
  Properties of the application wrapper: which stream a message is given to, that initialisation ends, that running an
  application leaves no subscription behind, and what goes wrong when it is run twice or a registration fails.
\<close>

section \<open>Messages\<close>

text \<open>The stream of a message is the first receiving stream whose request the message's id matches.\<close>

definition stream_of :: "JrtcAppCfg \<Rightarrow> StreamItem list \<Rightarrow> stream_id \<Rightarrow> nat option" where
  "stream_of cfg items sid =
     find (\<lambda>j. is_rx (streams cfg ! j) \<and> jrtc_router_stream_id_matches_req sid (item_sid (items ! j))) [0..<length (streams cfg)]"

lemma find_stream_from:
  "i + length cs \<le> length items \<Longrightarrow>
   find_stream cs items i sid =
     Inr (find (\<lambda>j. is_rx (cs ! (j - i)) \<and> jrtc_router_stream_id_matches_req sid (item_sid (items ! j))) [i..<i + length cs])"
proof (induction cs arbitrary: i)
  case (Cons c cs)
  have up: "[i..<i + length (c # cs)] = i # [Suc i..<Suc i + length cs]" by (simp add: upt_rec)
  have "find (\<lambda>j. is_rx ((c # cs) ! (j - i)) \<and> P j) [Suc i..<Suc i + length cs] = find (\<lambda>j. is_rx (cs ! (j - Suc i)) \<and> P j) [Suc i..<Suc i + length cs]" for P
    by (rule find_cong) (auto simp: nth_Cons')
  then show ?case using Cons unfolding up by simp
qed simp

lemma find_stream_ok: "length (streams cfg) \<le> length items \<Longrightarrow> find_stream (streams cfg) items 0 sid = Inr (stream_of cfg items sid)"
  using find_stream_from [of 0 "streams cfg" items sid] by (simp add: stream_of_def)

text \<open>A handler that writes down what it is called with.\<close>

definition record_calls :: "('e, 'bm, 'ht, 'rg, 'pl, (bool \<times> int \<times> jrtc_router_data_entry option) list) JrtcAppHandler" where
  "record_calls timeout idx x s = Inr (s\<lparr>app_state := app_state s @ [(timeout, idx, x)]\<rparr>)"

definition expected_calls ::
    "JrtcAppCfg \<Rightarrow> StreamItem list \<Rightarrow> jrtc_router_data_entry list \<Rightarrow> (bool \<times> int \<times> jrtc_router_data_entry option) list" where
  "expected_calls cfg items xs =
     List.map_filter (\<lambda>x. map_option (\<lambda>j. (False, int j, Some x)) (stream_of cfg items (de_stream_id x))) xs"

lemma dispatch_calls:
  "length (streams cfg) \<le> length (stream_items s) \<Longrightarrow>
   \<exists>s'. dispatch E H record_calls cfg xs s = Inr s' \<and> app_state s' = app_state s @ expected_calls cfg (stream_items s) xs \<and>
     ja_router s' = (ja_router s)\<lparr>env := released E (env (ja_router s)) xs\<rparr> \<and> stream_items s' = stream_items s \<and> ja_waits s' = ja_waits s \<and>
     ja_reads s' = ja_reads s + length xs \<and>
     last_received_time s' = (if xs = [] then last_received_time s else clock H (ja_reads s + length xs - 1) (ja_waits s))"
proof (induction xs arbitrary: s)
  case (Cons x xs)
  define r where "r = stream_of cfg (stream_items s) (de_stream_id x)"
  define s1 where "s1 = s\<lparr>app_state := app_state s @ expected_calls cfg (stream_items s) [x],
    ja_router := (ja_router s)\<lparr>env := jbpf_io_channel_release_buf E (env (ja_router s)) (de_data x)\<rparr>, ja_reads := Suc (ja_reads s),
    last_received_time := clock H (ja_reads s) (ja_waits s)\<rparr>"
  have "dispatch E H record_calls cfg (x # xs) s = dispatch E H record_calls cfg xs s1"
    using find_stream_ok [OF Cons.prems, of "de_stream_id x"]
    by (cases r) (simp_all add: r_def s1_def expected_calls_def List.map_filter_def call_handler_def record_calls_def steady_now_def)
  moreover have "expected_calls cfg (stream_items s) (x # xs) = expected_calls cfg (stream_items s) [x] @ expected_calls cfg (stream_items s) xs"
    by (cases r) (simp_all add: r_def expected_calls_def List.map_filter_def)
  ultimately show ?case using Cons.IH [of s1] Cons.prems by (auto simp: s1_def)
qed (simp add: expected_calls_def List.map_filter_def)

text \<open>C29: Of a batch of received messages the handler gets, in order and once each, those that match a receiving stream, with the
  index of the first such stream; the others are dropped; and every message, handled or not, is released exactly once.\<close>

theorem app_dispatch_once:
  assumes "ext_laws E V" and "length (streams cfg) \<le> length (stream_items s)"
  shows "\<exists>s'. dispatch E H record_calls cfg xs s = Inr s' \<and> app_state s' = app_state s @ expected_calls cfg (stream_items s) xs \<and>
    (\<forall>b. v_refs V (env (ja_router s')) b = v_refs V (env (ja_router s)) b - int (count_list (map de_data xs) b)) \<and>
    (\<forall>x sidx. (False, int sidx, Some x) \<in> set (expected_calls cfg (stream_items s) xs) \<longrightarrow>
       x \<in> set xs \<and> is_rx (streams cfg ! sidx) \<and>
       jrtc_router_stream_id_matches_req (de_stream_id x) (item_sid (stream_items s ! sidx)) \<and>
       (\<forall>j < sidx. \<not> (is_rx (streams cfg ! j) \<and> jrtc_router_stream_id_matches_req (de_stream_id x) (item_sid (stream_items s ! j)))))"
proof -
  have first: "x \<in> set xs \<and> is_rx (streams cfg ! sidx) \<and>
      jrtc_router_stream_id_matches_req (de_stream_id x) (item_sid (stream_items s ! sidx)) \<and>
      (\<forall>j < sidx. \<not> (is_rx (streams cfg ! j) \<and> jrtc_router_stream_id_matches_req (de_stream_id x) (item_sid (stream_items s ! j))))"
    if "(False, int sidx, Some x) \<in> set (expected_calls cfg (stream_items s) xs)" for x sidx
  proof -
    have "x \<in> set xs" "stream_of cfg (stream_items s) (de_stream_id x) = Some sidx"
      using that by (auto simp: expected_calls_def List.map_filter_def)
    then show ?thesis unfolding stream_of_def find_Some_iff by auto
  qed
  show ?thesis using dispatch_calls [OF assms(2), of E H xs] released_refs(1) [OF assms(1)] first by fastforce
qed

definition sim_host :: "(lib_env, bool list, sim_ht, sim_ring, sim_pool) host" where
  "sim_host = \<lparr>clock = (\<lambda>n m. 100000000 * int m), others = (\<lambda>n m rt. rt), junk_sid = replicate 16 0, create_stack = (\<lambda>_. Map.empty),
     param_addr = (\<lambda>_. 99), destroy_stack = (\<lambda>_. Map.empty)\<rparr>"

definition sim_cfg :: JrtcAppCfg where
  "sim_cfg = \<lparr>q_size = 2, streams = [\<lparr>str_sid = \<lparr>cfg_destination = 1, cfg_device_id = 2, cfg_stream_source = None, cfg_io_map = None\<rparr>,
       is_rx = True, appChannel = None\<rparr>],
     initialization_timeout_secs = 1, sleep_timeout_secs = 0, inactivity_timeout_secs = 0\<rparr>"

definition sim_app :: "StreamItem list \<Rightarrow> 's \<Rightarrow> (lib_env, bool list, sim_ht, sim_ring, sim_pool, 's) JrtcApp" where
  "sim_app items z = \<lparr>ja_router = sim_one, ja_heap = \<lparr>live = {}, next_addr = 1, oom = (\<lambda>_. False)\<rparr>, ja_reads = 0, ja_waits = 0,
     stream_items = items, last_received_time = 0, app_state = z\<rparr>"

theorem app_dispatch_once_witness:
  "\<exists>s'. dispatch sim sim_host record_calls sim_cfg [\<lparr>de_stream_id = sid_a, de_data = 7\<rparr>]
       (sim_app [\<lparr>item_sid = sid_a, item_registered = True, item_chan_ctx = None\<rparr>] []) = Inr s' \<and>
     app_state s' = [(False, 0, Some \<lparr>de_stream_id = sid_a, de_data = 7\<rparr>)] \<and>
     v_refs sim_views (env (ja_router s')) 7 = v_refs sim_views (env sim_one) 7 - 1"
proof -
  let ?items = "[\<lparr>item_sid = sid_a, item_registered = True, item_chan_ctx = None\<rparr>]" and ?x = "\<lparr>de_stream_id = sid_a, de_data = 7\<rparr>"
  have len: "length (streams sim_cfg) \<le> length (stream_items (sim_app ?items [] :: (lib_env, bool list, sim_ht, sim_ring, sim_pool, 's list) JrtcApp))"
    by (simp add: sim_cfg_def sim_app_def)
  have calls: "expected_calls sim_cfg ?items [?x] = [(False, 0, Some ?x)]" by code_simp
  show ?thesis using app_dispatch_once [OF sim_ext_laws len, of sim_host "[?x]"] calls by (auto simp: sim_app_def)
qed

section \<open>Subscriptions\<close>

text \<open>The application at \<open>a\<close> is registered with id \<open>i\<close> at a consistent router; and the ids that it is subscribed to.\<close>

definition at_home ::
    "('e, 'bm, 'it, 'ht, 'rg, 'pl) ext \<Rightarrow> ('e, 'bm, 'it, 'ht, 'rg, 'pl) views \<Rightarrow> addr \<Rightarrow> nat \<Rightarrow> ('e, 'bm, 'ht, 'rg, 'pl) jrtc_router_ctx \<Rightarrow> bool" where
  "at_home E V a i rt \<longleftrightarrow> router_ok E V rt \<and> (\<exists>d. dapps rt a = Some d \<and> app_id d = int i)"

definition mine :: "('e, 'bm, 'it, 'ht, 'rg, 'pl) views \<Rightarrow> nat \<Rightarrow> ('e, 'bm, 'ht, 'rg, 'pl) jrtc_router_ctx \<Rightarrow> stream_id set" where
  "mine V i rt = {k. i \<in> subs V rt k}"

text \<open>What others may do meanwhile: anything that leaves the application registered and subscribes it to nothing.\<close>

definition keeps ::
    "('e, 'bm, 'it, 'ht, 'rg, 'pl) ext \<Rightarrow> ('e, 'bm, 'it, 'ht, 'rg, 'pl) views \<Rightarrow> addr \<Rightarrow> nat \<Rightarrow> ('e, 'bm, 'ht, 'rg, 'pl) jrtc_router_ctx \<Rightarrow>
     ('e, 'bm, 'ht, 'rg, 'pl) jrtc_router_ctx \<Rightarrow> bool" where
  "keeps E V a i rt rt' \<longleftrightarrow> at_home E V a i rt' \<and> mine V i rt' \<subseteq> mine V i rt"

definition polite_host ::
    "('e, 'bm, 'it, 'ht, 'rg, 'pl) ext \<Rightarrow> ('e, 'bm, 'it, 'ht, 'rg, 'pl) views \<Rightarrow> addr \<Rightarrow> nat \<Rightarrow> ('e, 'bm, 'ht, 'rg, 'pl) host \<Rightarrow> bool" where
  "polite_host E V a i H \<longleftrightarrow> (\<forall>n m rt. at_home E V a i rt \<longrightarrow> keeps E V a i rt (others H n m rt))"

definition polite_handler ::
    "('e, 'bm, 'it, 'ht, 'rg, 'pl) ext \<Rightarrow> ('e, 'bm, 'it, 'ht, 'rg, 'pl) views \<Rightarrow> addr \<Rightarrow> nat \<Rightarrow> JrtcAppCfg \<Rightarrow>
     ('e, 'bm, 'ht, 'rg, 'pl, 's) JrtcAppHandler \<Rightarrow> bool" where
  "polite_handler E V a i cfg h \<longleftrightarrow>
     (\<forall>t idx x s. at_home E V a i (ja_router s) \<longrightarrow> length (streams cfg) \<le> length (stream_items s) \<longrightarrow> (t \<or> x \<noteq> None) \<longrightarrow>
        (\<exists>s'. h t idx x s = Inr s' \<and> keeps E V a i (ja_router s) (ja_router s')))"

lemma keeps_refl: "at_home E V a i rt \<Longrightarrow> keeps E V a i rt rt"
  by (simp add: keeps_def)

lemma keeps_trans: "keeps E V a i rt rt' \<Longrightarrow> keeps E V a i rt' rt'' \<Longrightarrow> keeps E V a i rt rt''"
  by (auto simp: keeps_def)

lemma keeps_env:
  assumes "at_home E V a i rt" and "v_live V e = v_live V (env rt)"
  shows "keeps E V a i rt (rt\<lparr>env := e\<rparr>)"
proof -
  have "router_ok E V (rt\<lparr>env := e\<rparr>)"
    by (rule router_ok_cong [of E V rt]) (use assms in \<open>simp_all add: at_home_def same_apps_def\<close>)
  then show ?thesis using assms(1) by (simp add: keeps_def at_home_def mine_def)
qed

lemma register_home:
  assumes "ext_laws E V" and "at_home E V a i rt"
  shows "\<exists>res rt'. jrtc_router_channel_register_stream_id_req E rt (Some a) sid = Inr (res, rt') \<and> at_home E V a i rt' \<and>
    mine V i rt' = (if res = 1 then insert sid (mine V i rt) else mine V i rt) \<and> dapps rt' = dapps rt"
proof -
  obtain d where d: "dapps rt a = Some d" "app_id d = int i" and ok: "router_ok E V rt" using assms(2) by (auto simp: at_home_def)
  have A: "app_inv E V rt" and R: "req_inv E V rt" using ok by (simp_all add: router_ok_def router_inv_def)
  from register_cases [OF assms(1) R d(1) app_inv_dapp(1) [OF A d(1)], of sid] obtain res rt' where
    r: "jrtc_router_channel_register_stream_id_req E rt (Some a) sid = Inr (res, rt')" "req_inv E V rt'" "same_apps rt rt'"
      "(res = 1 \<and> subs V rt' = (subs V rt)(sid := insert (nat (app_id d)) (subs V rt sid))) \<or> (res = -1 \<and> subs V rt' = subs V rt)" by blast
  have "router_ok E V rt'" using ok r(2,3) app_inv_cong [OF A r(3)] register_req_lookup [OF r(1)]
    by (simp add: router_ok_def router_inv_def all_rings_fit_def same_apps_def)
  then have "at_home E V a i rt'" using d r(3) by (simp add: at_home_def same_apps_def)
  moreover have "mine V i rt' = (if res = 1 then insert sid (mine V i rt) else mine V i rt)" using r(4) d(2) by (auto simp: mine_def)
  moreover have "dapps rt' = dapps rt" using r(3) by (simp add: same_apps_def)
  ultimately show ?thesis using r(1) by blast
qed

lemma deregister_home:
  assumes "ext_laws E V" and "at_home E V a i rt"
  shows "\<exists>rt'. jrtc_router_channel_deregister_stream_id_req E rt (Some a) sid = Inr rt' \<and> at_home E V a i rt' \<and> mine V i rt' = mine V i rt - {sid}"
proof -
  obtain d where d: "dapps rt a = Some d" "app_id d = int i" and ok: "router_ok E V rt" using assms(2) by (auto simp: at_home_def)
  have A: "app_inv E V rt" and R: "req_inv E V rt" using ok by (simp_all add: router_ok_def router_inv_def)
  from deregister_cases [OF assms(1) R d(1) app_inv_dapp(1) [OF A d(1)], of sid] obtain rt' where
    r: "jrtc_router_channel_deregister_stream_id_req E rt (Some a) sid = Inr rt'" "req_inv E V rt'" "same_apps rt rt'"
      "subs V rt' = (subs V rt)(sid := subs V rt sid - {nat (app_id d)})" by blast
  have "router_ok E V rt'" using ok r(2,3) app_inv_cong [OF A r(3)] deregister_req_lookup [OF r(1)]
    by (simp add: router_ok_def router_inv_def all_rings_fit_def same_apps_def)
  then have "at_home E V a i rt'" using d r(3) by (simp add: at_home_def same_apps_def)
  moreover have "mine V i rt' = mine V i rt - {sid}" using r(4) d(2) by (auto simp: mine_def)
  ultimately show ?thesis using r(1) by blast
qed

lemma receive_home:
  assumes "ext_laws E V" and "at_home E V a i rt"
  shows "\<exists>xs rt'. jrtc_router_receive E rt a n = Inr (xs, rt') \<and> keeps E V a i rt rt' \<and> mine V i rt' = mine V i rt"
proof -
  obtain d where d: "dapps rt a = Some d" "app_id d = int i" and ok: "router_ok E V rt" using assms(2) by (auto simp: at_home_def)
  have I: "router_inv E V rt" "all_rings_fit V rt" using ok by (simp_all add: router_ok_def)
  from receive_ok [OF assms(1) I d(1), of n] obtain xs d' e where
    r: "jrtc_router_receive E rt a n = Inr (xs, rt\<lparr>dapps := (dapps rt)(a \<mapsto> d'), env := e\<rparr>)"
      "router_inv E V (rt\<lparr>dapps := (dapps rt)(a \<mapsto> d'), env := e\<rparr>)" "all_rings_fit V (rt\<lparr>dapps := (dapps rt)(a \<mapsto> d'), env := e\<rparr>)" by blast
  define rt' where "rt' = rt\<lparr>dapps := (dapps rt)(a \<mapsto> d'), env := e\<rparr>"
  have ok': "router_ok E V rt'" using r(2,3) ok by (simp add: router_ok_def rt'_def)
  have A: "app_inv E V rt" "app_inv E V rt'" using ok ok' by (simp_all add: router_ok_def router_inv_def)
  have "nat (app_id d') = nat (app_id d)" "app_id d' \<ge> 0"
    using app_inv_dapp(4) [OF A(1) d(1)] app_inv_dapp(1,4) [OF A(2), of a d'] app_inv_slot [OF A(1), of "nat (app_id d')" a] d(1)
    by (auto simp: rt'_def bad_app_id_def)
  then have "app_id d' = int i" using d(2) by simp
  moreover have "subs V rt' = subs V rt" by (rule subs_cong) (simp_all add: rt'_def)
  ultimately have "keeps E V a i rt rt'" "mine V i rt' = mine V i rt" using ok' by (simp_all add: keeps_def at_home_def mine_def rt'_def)
  then show ?thesis using r(1) by (auto simp: rt'_def)
qed

section \<open>Initialisation\<close>

text \<open>What initialisation adds to the list of streams: no channels, and registered items for what it subscribed to.\<close>

definition added ::
    "('e, 'bm, 'it, 'ht, 'rg, 'pl) ext \<Rightarrow> ('e, 'bm, 'it, 'ht, 'rg, 'pl) views \<Rightarrow> addr \<Rightarrow> nat \<Rightarrow> ('e, 'bm, 'ht, 'rg, 'pl, 's) JrtcApp \<Rightarrow>
     StreamItem list \<Rightarrow> ('e, 'bm, 'ht, 'rg, 'pl, 's) JrtcApp \<Rightarrow> bool" where
  "added E V a i s new s' \<longleftrightarrow>
     at_home E V a i (ja_router s') \<and> mem_wf (ja_heap s') \<and> live (ja_heap s') = live (ja_heap s) \<and> ja_waits s' = ja_waits s \<and>
     ja_reads s \<le> ja_reads s' \<and> stream_items s' = stream_items s @ new \<and> (\<forall>si \<in> set new. item_chan_ctx si = None) \<and>
     mine V i (ja_router s') \<subseteq> mine V i (ja_router s) \<union> item_sid ` {si \<in> set new. item_registered si}"

lemma timed_out_frame:
  "init_timed_out H cfg t s = (late, s') \<Longrightarrow>
   ja_router s' = ja_router s \<and> ja_heap s' = ja_heap s \<and> ja_reads s \<le> ja_reads s' \<and> ja_waits s' = ja_waits s \<and> stream_items s' = stream_items s \<and>
   last_received_time s' = last_received_time s \<and> app_state s' = app_state s"
  by (auto simp: init_timed_out_def steady_now_def split: if_splits)

lemma added_trans:
  assumes "added E V a i s n1 s1" and "added E V a i s1 n2 s2"
  shows "added E V a i s (n1 @ n2) s2"
proof -
  have "item_sid ` {si \<in> set (n1 @ n2). item_registered si} = item_sid ` {si \<in> set n1. item_registered si} \<union> item_sid ` {si \<in> set n2. item_registered si}" by auto
  then have "mine V i (ja_router s2) \<subseteq> mine V i (ja_router s) \<union> item_sid ` {si \<in> set (n1 @ n2). item_registered si}"
    using assms unfolding added_def by blast
  then show ?thesis using assms by (auto simp: added_def)
qed

lemma init_streams_ok:
  assumes L: "ext_laws E V" and junk: "length (junk_sid H) = 16"
  shows "at_home E V a i (ja_router s) \<Longrightarrow> mem_wf (ja_heap s) \<Longrightarrow> \<forall>c \<in> set cs. appChannel c = None \<Longrightarrow>
    \<exists>r s' new. init_streams sc E H (Some a) cfg t j cs s = Inr (r, s') \<and> added E V a i s new s' \<and> (r = 0 \<longrightarrow> length new = length cs) \<and> (r = 0 \<or> r = -1)"
proof (induction cs arbitrary: j s)
  case Nil
  then show ?case by (auto simp: added_def)
next
  case (Cons c cs)
  let ?sid = "str_sid c"
  from generate_cases [OF Cons.prems(2) junk, of sc "word_of_int (cfg_destination ?sid)" "word_of_int (cfg_device_id ?sid)" "cfg_stream_source ?sid" "cfg_io_map ?sid"]
  obtain res sid m where g: "jrtc_router_generate_stream_id sc (ja_heap s) (Some (junk_sid H)) (word_of_int (cfg_destination ?sid))
      (word_of_int (cfg_device_id ?sid)) (cfg_stream_source ?sid) (cfg_io_map ?sid) = Inr (res, Some sid, m)"
    "live m = live (ja_heap s)" "mem_wf m" by blast
  define s1 where "s1 = s\<lparr>ja_heap := m\<rparr>"
  have chan: "init_channel E H (Some a) j c sid s1 = Inr (True, None, s1)" using Cons.prems(3) by (simp add: init_channel_def)
  from register_home [OF L Cons.prems(1), of sid] obtain rr rt where
    reg: "jrtc_router_channel_register_stream_id_req E (ja_router s) (Some a) sid = Inr (rr, rt)" "at_home E V a i rt"
      "mine V i rt = (if rr = 1 then insert sid (mine V i (ja_router s)) else mine V i (ja_router s))" by blast
  define s2 where "s2 = (if is_rx c then s1\<lparr>ja_router := rt\<rparr> else s1)"
  have r2: "init_register E (Some a) c sid s1 = Inr (is_rx c \<longrightarrow> rr = 1, s2)" using reg(1) by (simp add: init_register_def s1_def s2_def)
  have s2: "at_home E V a i (ja_router s2)" "mem_wf (ja_heap s2)" "live (ja_heap s2) = live (ja_heap s)" "ja_waits s2 = ja_waits s" "ja_reads s2 = ja_reads s"
    "stream_items s2 = stream_items s" "mine V i (ja_router s2) \<subseteq> mine V i (ja_router s) \<union> (if is_rx c \<and> rr = 1 then {sid} else {})"
    using reg(2,3) g(2,3) Cons.prems(1) by (auto simp: s2_def s1_def)
  show ?case
  proof (cases "res = 1 \<and> (is_rx c \<longrightarrow> rr = 1)")
    case False
    have "added E V a i s [] (if res = 1 then s2 else s1)" using s2 False g(2,3) Cons.prems(1) by (auto simp: added_def s1_def)
    moreover have "init_streams sc E H (Some a) cfg t j (c # cs) s = Inr (-1, if res = 1 then s2 else s1)"
      using False g(1) chan r2 by (simp add: s1_def [symmetric])
    ultimately show ?thesis by (intro exI [of _ "-1"] exI [of _ "if res = 1 then s2 else s1"] exI [of _ "[]"]) simp
  next
    case True
    let ?si = "\<lparr>item_sid = sid, item_registered = is_rx c, item_chan_ctx = None\<rparr>"
    define s3 where "s3 = s2\<lparr>stream_items := stream_items s2 @ [?si]\<rparr>"
    obtain late s4 where t: "init_timed_out H cfg t s3 = (late, s4)" by fastforce
    note fr = timed_out_frame [OF t]
    have s4: "added E V a i s [?si] s4" using s2 fr by (auto simp: added_def s3_def split: if_splits)
    have eq: "init_streams sc E H (Some a) cfg t j (c # cs) s = (if late then Inr (-1, s4) else init_streams sc E H (Some a) cfg t (Suc j) cs s4)"
      using True g(1) chan r2 t by (simp add: s1_def [symmetric] s3_def [symmetric])
    show ?thesis
    proof (cases late)
      case True
      then show ?thesis using eq s4 by (intro exI [of _ "-1"] exI [of _ s4] exI [of _ "[?si]"]) simp
    next
      case False
      have p: "at_home E V a i (ja_router s4)" "mem_wf (ja_heap s4)" "\<forall>c \<in> set cs. appChannel c = None" using s4 Cons.prems(3) by (simp_all add: added_def)
      from Cons.IH [OF p, of "Suc j"] obtain r s' new where
        n: "init_streams sc E H (Some a) cfg t (Suc j) cs s4 = Inr (r, s')" "added E V a i s4 new s'" "r = 0 \<longrightarrow> length new = length cs" "r = 0 \<or> r = -1" by blast
      have "added E V a i s (?si # new) s'" using added_trans [OF s4 n(2)] by simp
      then show ?thesis using eq False n by (intro exI [of _ r] exI [of _ s'] exI [of _ "?si # new"]) simp
    qed
  qed
qed

text \<open>What the code relies on of the clock and of sleeping: time does not go back, and a sleep of 100 ms takes 100 ms.\<close>

definition clock_law :: "('e, 'bm, 'ht, 'rg, 'pl) host \<Rightarrow> bool" where
  "clock_law H \<longleftrightarrow> (\<forall>n m n' m'. n \<le> n' \<longrightarrow> m \<le> m' \<longrightarrow> clock H n m + 100000000 * int (m' - m) \<le> clock H n' m')"

text \<open>The number of waits after which the time is up.\<close>

definition max_waits :: "JrtcAppCfg \<Rightarrow> nat" where
  "max_waits cfg = 10 * nat (\<lfloor>initialization_timeout_secs cfg\<rfloor> + 1)"

lemma late_after:
  assumes "clock_law H" and "initialization_timeout_secs cfg > 0" and "n0 \<le> ja_reads s" and "m0 + max_waits cfg \<le> ja_waits s"
    and "init_timed_out H cfg (clock H n0 m0) s = (late, s')"
  shows late
proof -
  let ?T = "initialization_timeout_secs cfg" and ?t = "clock H (ja_reads s) (ja_waits s)"
  have "clock H n0 m0 + 100000000 * int (ja_waits s - m0) \<le> ?t" using assms(1,3,4) unfolding clock_law_def by auto
  moreover have "int (max_waits cfg) \<le> int (ja_waits s - m0)" using assms(4) by simp
  moreover have "int (max_waits cfg) = 10 * (\<lfloor>?T\<rfloor> + 1)" using assms(2) by (simp add: max_waits_def)
  ultimately have "(\<lfloor>?T\<rfloor> + 1) * NSEC \<le> ?t - clock H n0 m0" by (simp add: NSEC_def)
  then have "\<lfloor>?T\<rfloor> + 1 \<le> (?t - clock H n0 m0) div NSEC" by (simp add: zdiv_mono1 [of "(\<lfloor>?T\<rfloor> + 1) * NSEC" _ NSEC, simplified] NSEC_def)
  then have "?T < rat_of_int ((?t - clock H n0 m0) div NSEC)" by linarith
  then show ?thesis using assms(2,5) by (simp add: init_timed_out_def steady_now_def)
qed

lemma wait_channels_ok:
  assumes P: "polite_host E V a i H" and C: "clock_law H" and T: "initialization_timeout_secs cfg > 0"
  shows "at_home E V a i (ja_router s) \<Longrightarrow> j + length cs \<le> length (stream_items s) \<Longrightarrow> n0 \<le> ja_reads s \<Longrightarrow> m0 \<le> ja_waits s \<Longrightarrow>
    ja_waits s < m0 + max_waits cfg \<Longrightarrow> m0 + max_waits cfg \<le> n + ja_waits s \<Longrightarrow>
    \<exists>r s'. wait_channels n E H cfg (clock H n0 m0) j cs s = Some (Inr (r, s')) \<and> keeps E V a i (ja_router s) (ja_router s') \<and>
      stream_items s' = stream_items s \<and> ja_heap s' = ja_heap s \<and> (r = 0 \<or> r = -1)"
proof (induction "n + length cs" arbitrary: n j cs s rule: less_induct)
  case less
  show ?case
  proof (cases cs)
    case Nil
    then show ?thesis using less.prems(1) by (simp add: keeps_refl)
  next
    case (Cons c cs')
    let ?need = "\<not> is_rx c \<and> item_chan_ctx (stream_items s ! j) = None \<and>
      jrtc_router_input_channel_exists E (ja_router s) (item_sid (stream_items s ! j)) = 0"
    have len: "\<not> length (stream_items s) \<le> j" using less.prems(2) Cons by simp
    show ?thesis
    proof (cases ?need)
      case False
      then have "wait_channels n E H cfg (clock H n0 m0) j cs s = wait_channels n E H cfg (clock H n0 m0) (Suc j) cs' s" using Cons len by auto
      moreover have "n + length cs' < n + length cs" "Suc j + length cs' \<le> length (stream_items s)" using Cons less.prems(2) by simp_all
      ultimately show ?thesis using less.hyps [OF _ less.prems(1) _ less.prems(3-6), of cs' "Suc j"] by simp
    next
      case True
      define s1 where "s1 = s\<lparr>ja_router := others H (ja_reads s) (ja_waits s) (ja_router s), ja_waits := Suc (ja_waits s)\<rparr>"
      obtain late s2 where t: "init_timed_out H cfg (clock H n0 m0) s1 = (late, s2)" by fastforce
      note fr = timed_out_frame [OF t]
      have n: "n \<noteq> 0" using less.prems(5,6) by auto
      have k: "keeps E V a i (ja_router s) (ja_router s2)" using P less.prems(1) fr by (simp add: polite_host_def s1_def)
      have eq: "wait_channels n E H cfg (clock H n0 m0) j cs s =
          (if late then Some (Inr (-1, s2)) else wait_channels (n - 1) E H cfg (clock H n0 m0) j cs s2)"
        using Cons len True n t by (simp add: s1_def [symmetric])
      show ?thesis
      proof (cases late)
        case True
        then show ?thesis using eq k fr by (intro exI [of _ "-1"] exI [of _ s2]) (simp add: s1_def)
      next
        case False
        have "ja_waits s1 < m0 + max_waits cfg" using late_after [OF C T _ _ t] less.prems(3) False by (force simp: s1_def)
        then have "ja_waits s2 < m0 + max_waits cfg" "m0 + max_waits cfg \<le> n - 1 + ja_waits s2" "n0 \<le> ja_reads s2" "m0 \<le> ja_waits s2"
          "j + length cs \<le> length (stream_items s2)" "at_home E V a i (ja_router s2)" "n - 1 + length cs < n + length cs"
          using fr less.prems n k by (auto simp: s1_def keeps_def)
        from less.hyps [OF this(7,6,5,3,4,1,2)] obtain r s' where "wait_channels (n - 1) E H cfg (clock H n0 m0) j cs s2 = Some (Inr (r, s'))"
          "keeps E V a i (ja_router s2) (ja_router s')" "stream_items s' = stream_items s2" "ja_heap s' = ja_heap s2" "r = 0 \<or> r = -1" by blast
        then show ?thesis using eq False keeps_trans [OF k] fr by (intro exI [of _ r] exI [of _ s']) (simp add: s1_def)
      qed
    qed
  qed
qed

text \<open>Initialisation ends, whatever the others do, and takes no more than one wait for each tenth of a second of the time-out.\<close>

lemma Init_ok:
  assumes L: "ext_laws E V" and junk: "length (junk_sid H) = 16" and P: "polite_host E V a i H" and C: "clock_law H"
    and T: "initialization_timeout_secs cfg > 0" and n: "max_waits cfg \<le> n"
    and s: "at_home E V a i (ja_router s)" "mem_wf (ja_heap s)" "stream_items s = []" and ch: "\<forall>c \<in> set (streams cfg). appChannel c = None"
  shows "\<exists>r s'. Init n sc E H (Some a) cfg s = Some (Inr (r, s')) \<and> at_home E V a i (ja_router s') \<and>
    (\<forall>si \<in> set (stream_items s'). item_chan_ctx si = None) \<and> (r = 0 \<longrightarrow> length (stream_items s') = length (streams cfg)) \<and>
    mine V i (ja_router s') \<subseteq> mine V i (ja_router s) \<union> item_sid ` {si \<in> set (stream_items s'). item_registered si} \<and>
    mem_wf (ja_heap s') \<and> live (ja_heap s') = live (ja_heap s)"
proof -
  define t where "t = clock H (ja_reads s) (ja_waits s)"
  define s0 where "s0 = s\<lparr>ja_reads := Suc (ja_reads s), last_received_time := t\<rparr>"
  have "at_home E V a i (ja_router s0)" "mem_wf (ja_heap s0)" using s by (simp_all add: s0_def)
  from init_streams_ok [OF L junk this ch, of sc cfg t 0] obtain r s1 new where
    1: "init_streams sc E H (Some a) cfg t 0 (streams cfg) s0 = Inr (r, s1)" "added E V a i s0 new s1" "r = 0 \<longrightarrow> length new = length (streams cfg)" by blast
  have eq: "Init n sc E H (Some a) cfg s = (if r \<noteq> 0 then Some (Inr (r, s1)) else wait_channels n E H cfg t 0 (streams cfg) s1)"
    using 1(1) by (simp add: Init_def steady_now_def t_def [symmetric] s0_def [symmetric])
  have new: "stream_items s1 = new" using 1(2) s(3) by (simp add: added_def s0_def)
  show ?thesis
  proof (cases "r = 0")
    case False
    then show ?thesis using eq 1(2) new by (intro exI [of _ r] exI [of _ s1]) (simp add: added_def s0_def)
  next
    case True
    have "0 < max_waits cfg" using T by (simp add: max_waits_def)
    then have "at_home E V a i (ja_router s1)" "0 + length (streams cfg) \<le> length (stream_items s1)" "ja_reads s \<le> ja_reads s1" "ja_waits s \<le> ja_waits s1"
      "ja_waits s1 < ja_waits s + max_waits cfg" "ja_waits s + max_waits cfg \<le> n + ja_waits s1"
      using 1(2,3) True new n by (auto simp: added_def s0_def)
    from wait_channels_ok [OF P C T this] obtain r' s' where
      2: "wait_channels n E H cfg t 0 (streams cfg) s1 = Some (Inr (r', s'))" "keeps E V a i (ja_router s1) (ja_router s')"
        "stream_items s' = stream_items s1" "ja_heap s' = ja_heap s1" by (auto simp: t_def)
    then show ?thesis using eq True 1(2,3) new by (intro exI [of _ r'] exI [of _ s']) (auto simp: added_def s0_def keeps_def)
  qed
qed

section \<open>The whole run\<close>

lemma call_handler_ok:
  assumes "polite_handler E V a i cfg h" and "at_home E V a i (ja_router s)" and "length (streams cfg) \<le> length (stream_items s)" and "t \<or> x \<noteq> None"
  shows "\<exists>s'. call_handler h t idx x s = Inr s' \<and> keeps E V a i (ja_router s) (ja_router s') \<and> stream_items s' = stream_items s \<and> ja_heap s' = ja_heap s"
proof -
  obtain s' where "h t idx x s = Inr s'" "keeps E V a i (ja_router s) (ja_router s')" using assms unfolding polite_handler_def by blast
  then show ?thesis by (simp add: call_handler_def)
qed

lemma dispatch_ok:
  assumes L: "ext_laws E V" and P: "polite_handler E V a i cfg h"
  shows "at_home E V a i (ja_router s) \<Longrightarrow> length (streams cfg) \<le> length (stream_items s) \<Longrightarrow>
    \<exists>s'. dispatch E H h cfg xs s = Inr s' \<and> keeps E V a i (ja_router s) (ja_router s') \<and> stream_items s' = stream_items s \<and> ja_heap s' = ja_heap s"
proof (induction xs arbitrary: s)
  case Nil
  then show ?case by (simp add: keeps_refl)
next
  case (Cons x xs)
  define r where "r = stream_of cfg (stream_items s) (de_stream_id x)"
  obtain s1 where 1: "(case r of None \<Rightarrow> Inr s | Some sidx \<Rightarrow> call_handler h False (int sidx) (Some x) s) = Inr s1"
    "keeps E V a i (ja_router s) (ja_router s1)" "stream_items s1 = stream_items s" "ja_heap s1 = ja_heap s"
    using call_handler_ok [OF P Cons.prems, of False "Some x"] keeps_refl [OF Cons.prems(1)] by (cases r) force+
  define s2 where "s2 = s1\<lparr>ja_router := (ja_router s1)\<lparr>env := jbpf_io_channel_release_buf E (env (ja_router s1)) (de_data x)\<rparr>,
    ja_reads := Suc (ja_reads s1), last_received_time := clock H (ja_reads s1) (ja_waits s1)\<rparr>"
  have eq: "dispatch E H h cfg (x # xs) s = dispatch E H h cfg xs s2"
    using find_stream_ok [OF Cons.prems(2), of "de_stream_id x"] 1(1) by (simp add: r_def s2_def steady_now_def)
  have h1: "at_home E V a i (ja_router s1)" using 1(2) by (simp add: keeps_def)
  have k: "keeps E V a i (ja_router s) (ja_router s2)"
    using keeps_trans [OF 1(2) keeps_env [OF h1]] io_lawsD(2) [OF L] by (simp add: s2_def)
  then have "at_home E V a i (ja_router s2)" "length (streams cfg) \<le> length (stream_items s2)"
    using Cons.prems(2) 1(3) by (simp_all add: keeps_def s2_def)
  from Cons.IH [OF this] show ?case using eq keeps_trans [OF k] 1(3,4) by (auto simp: s2_def)
qed

lemma run_step_ok:
  assumes L: "ext_laws E V" and PH: "polite_host E V a i H" and P: "polite_handler E V a i cfg h"
    and s: "at_home E V a i (ja_router s)" "length (streams cfg) \<le> length (stream_items s)"
  shows "\<exists>s'. run_step E H h (Some a) cfg s = Inr s' \<and> keeps E V a i (ja_router s) (ja_router s') \<and> stream_items s' = stream_items s \<and> ja_heap s' = ja_heap s"
proof -
  define s0 where "s0 = s\<lparr>ja_reads := Suc (ja_reads s)\<rparr>"
  define t where "t = clock H (ja_reads s) (ja_waits s)"
  define idle where "idle \<longleftrightarrow> inactivity_timeout_secs cfg > 0 \<and> rat_of_int (t - last_received_time s0) / rat_of_int NSEC > inactivity_timeout_secs cfg"
  have now: "steady_now H s = (t, s0)" by (simp add: steady_now_def s0_def t_def)
  obtain s1 where 1: "(if idle then bindS (call_handler h True (-1) None s0) (\<lambda>s. Inr (s\<lparr>last_received_time := t\<rparr>)) else Inr s0) = Inr s1"
    "keeps E V a i (ja_router s) (ja_router s1)" "stream_items s1 = stream_items s" "ja_heap s1 = ja_heap s"
    using call_handler_ok [OF P, of s0 True None "-1"] keeps_refl [OF s(1)] s by (cases idle) (auto simp: s0_def)
  have "at_home E V a i (ja_router s1)" using 1(2) by (simp add: keeps_def)
  from receive_home [OF L this] obtain xs rt where 2: "jrtc_router_receive E (ja_router s1) a (nat (q_size cfg)) = Inr (xs, rt)" "keeps E V a i (ja_router s1) rt" by blast
  have "at_home E V a i (ja_router (s1\<lparr>ja_router := rt\<rparr>))" "length (streams cfg) \<le> length (stream_items (s1\<lparr>ja_router := rt\<rparr>))"
    using 2(2) 1(3) s(2) by (simp_all add: keeps_def)
  from dispatch_ok [OF L P this, of H xs] obtain s2 where 3: "dispatch E H h cfg xs (s1\<lparr>ja_router := rt\<rparr>) = Inr s2"
    "keeps E V a i rt (ja_router s2)" "stream_items s2 = stream_items s1" "ja_heap s2 = ja_heap s1" by auto
  have "keeps E V a i (ja_router s2) (others H (ja_reads s2) (ja_waits s2) (ja_router s2))" using PH 3(2) by (simp add: polite_host_def keeps_def)
  then have "keeps E V a i (ja_router s) (others H (ja_reads s2) (ja_waits s2) (ja_router s2))"
    using keeps_trans [OF 1(2) keeps_trans [OF 2(2) 3(2)]] keeps_trans by blast
  moreover have "run_step E H h (Some a) cfg s = Inr (s2\<lparr>ja_router := others H (ja_reads s2) (ja_waits s2) (ja_router s2)\<rparr>)"
    unfolding run_step_def now prod.case idle_def [symmetric] 1(1) by (simp add: 2(1) 3(1))
  ultimately show ?thesis using 1(3,4) 3(3,4) by auto
qed

lemma run_loop_ok:
  assumes L: "ext_laws E V" and PH: "polite_host E V a i H" and P: "polite_handler E V a i cfg h"
  shows "at_home E V a i (ja_router s) \<Longrightarrow> length (streams cfg) \<le> length (stream_items s) \<Longrightarrow>
    \<exists>s'. run_loop k E H h (Some a) cfg s = Inr s' \<and> keeps E V a i (ja_router s) (ja_router s') \<and> stream_items s' = stream_items s \<and> ja_heap s' = ja_heap s"
proof (induction k arbitrary: s)
  case 0
  then show ?case by (simp add: keeps_refl)
next
  case (Suc k)
  from run_step_ok [OF L PH P Suc.prems] obtain s1 where 1: "run_step E H h (Some a) cfg s = Inr s1"
    "keeps E V a i (ja_router s) (ja_router s1)" "stream_items s1 = stream_items s" "ja_heap s1 = ja_heap s" by blast
  have "at_home E V a i (ja_router s1)" "length (streams cfg) \<le> length (stream_items s1)" using 1 Suc.prems(2) by (simp_all add: keeps_def)
  from Suc.IH [OF this] show ?case using 1 keeps_trans [OF 1(2)] by auto
qed

lemma cleanup_ok:
  assumes L: "ext_laws E V"
  shows "at_home E V a i rt \<Longrightarrow> \<forall>si \<in> set sis. item_chan_ctx si = None \<Longrightarrow>
    \<exists>rt'. cleanup_items E H (Some a) sis rt = Inr rt' \<and> at_home E V a i rt' \<and>
      mine V i rt' = mine V i rt - item_sid ` {si \<in> set sis. item_registered si}"
proof (induction sis arbitrary: rt)
  case (Cons si sis)
  obtain rt1 where 1: "(if item_registered si then jrtc_router_channel_deregister_stream_id_req E rt (Some a) (item_sid si) else Inr rt) = Inr rt1"
    "at_home E V a i rt1" "mine V i rt1 = mine V i rt - (if item_registered si then {item_sid si} else {})"
    using deregister_home [OF L Cons.prems(1), of "item_sid si"] Cons.prems(1) by (cases "item_registered si") auto
  from Cons.IH [OF 1(2)] Cons.prems(2) obtain rt' where "cleanup_items E H (Some a) sis rt1 = Inr rt'" "at_home E V a i rt'"
    "mine V i rt' = mine V i rt1 - item_sid ` {si \<in> set sis. item_registered si}" by auto
  then show ?case using 1 Cons.prems(2) by (auto split: if_splits)
qed simp

lemma run_ok:
  assumes "ext_laws E V" and "length (junk_sid H) = 16" and "polite_host E V a i H" and "clock_law H" and "polite_handler E V a i cfg h"
    and "initialization_timeout_secs cfg > 0" and "max_waits cfg \<le> n" and "\<forall>c \<in> set (streams cfg). appChannel c = None" and "0 \<le> q_size cfg"
    and "at_home E V a i (ja_router s)" and "mem_wf (ja_heap s)" and "stream_items s = []"
  shows "\<exists>s'. run n k sc E H h (Some a) cfg s = Some (Inr s') \<and> at_home E V a i (ja_router s') \<and>
    mine V i (ja_router s') \<subseteq> mine V i (ja_router s) \<and>
    (\<forall>si \<in> set (stream_items s'). item_registered si \<longrightarrow> item_sid si \<notin> mine V i (ja_router s')) \<and>
    live (ja_heap s') = live (ja_heap s)"
proof -
  from Init_ok [OF assms(1-4,6,7,10-12,8), of sc] obtain r s1 where
    1: "Init n sc E H (Some a) cfg s = Some (Inr (r, s1))" "at_home E V a i (ja_router s1)" "\<forall>si \<in> set (stream_items s1). item_chan_ctx si = None"
      "r = 0 \<longrightarrow> length (stream_items s1) = length (streams cfg)"
      "mine V i (ja_router s1) \<subseteq> mine V i (ja_router s) \<union> item_sid ` {si \<in> set (stream_items s1). item_registered si}" "live (ja_heap s1) = live (ja_heap s)" by blast
  obtain s2 where 2: "(if r = 0 then (if q_size cfg < 0 then Inl Aborted else run_loop k E H h (Some a) cfg s1) else Inr s1) = Inr s2"
    "keeps E V a i (ja_router s1) (ja_router s2)" "stream_items s2 = stream_items s1" "ja_heap s2 = ja_heap s1"
    using run_loop_ok [OF assms(1,3,5) 1(2), of k] 1(4) assms(9) keeps_refl [OF 1(2)] by (cases "r = 0") auto
  have "at_home E V a i (ja_router s2)" "\<forall>si \<in> set (stream_items s2). item_chan_ctx si = None" using 2(2,3) 1(3) by (simp_all add: keeps_def)
  from cleanup_ok [OF assms(1) this] obtain rt where
    3: "cleanup_items E H (Some a) (stream_items s2) (ja_router s2) = Inr rt" "at_home E V a i rt"
      "mine V i rt = mine V i (ja_router s2) - item_sid ` {si \<in> set (stream_items s2). item_registered si}" by blast
  have "run n k sc E H h (Some a) cfg s = Some (Inr (s2\<lparr>ja_router := rt\<rparr>))" using 1(1) 2(1) 3(1) by (simp add: run_def CleanUp_def)
  moreover have "mine V i rt \<subseteq> mine V i (ja_router s)" using 3(3) 2(2,3) 1(5) unfolding keeps_def by auto
  ultimately show ?thesis using 3(2,3) 2(4) 1(6) by auto
qed

text \<open>C13: An application that creates no channels of its own and has a time-out runs to its end, whatever the rest of the process does
  to the router short of removing the application, and leaves no subscription behind: when it ends, after any number of iterations
  or because it could not be initialised, it is subscribed to nothing that it was not subscribed to before, and the router is
  consistent.\<close>

theorem app_run_unsubscribes:
  assumes "ext_laws E V" and "length (junk_sid H) = 16" and "polite_host E V a i H" and "clock_law H" and "polite_handler E V a i cfg h"
    and "initialization_timeout_secs cfg > 0" and "max_waits cfg \<le> n" and "\<forall>c \<in> set (streams cfg). appChannel c = None" and "0 \<le> q_size cfg"
    and "at_home E V a i (ja_router s)" and "mem_wf (ja_heap s)" and "stream_items s = []"
  shows "\<exists>s'. run n k sc E H h (Some a) cfg s = Some (Inr s') \<and> at_home E V a i (ja_router s') \<and>
    mine V i (ja_router s') \<subseteq> mine V i (ja_router s) \<and>
    (\<forall>si \<in> set (stream_items s'). item_registered si \<longrightarrow> item_sid si \<notin> mine V i (ja_router s')) \<and>
    live (ja_heap s') = live (ja_heap s)"
  by (rule run_ok [OF assms])

definition quiet_handler :: "('e, 'bm, 'ht, 'rg, 'pl, 's) JrtcAppHandler" where
  "quiet_handler t idx x s = Inr s"

theorem app_run_unsubscribes_witness:
  "\<exists>s'. run 20 3 True sim sim_host quiet_handler (Some 1) sim_cfg (sim_app [] ()) = Some (Inr s') \<and>
     mine sim_views 0 (ja_router s') \<subseteq> mine sim_views 0 sim_one"
proof -
  have home: "at_home sim sim_views 1 0 (ja_router (sim_app [] ()))" using sim_one_ok sim_one_app by (auto simp: at_home_def sim_app_def)
  have host: "polite_host sim sim_views 1 0 sim_host" by (auto simp: polite_host_def sim_host_def keeps_refl)
  have h: "polite_handler sim sim_views 1 0 sim_cfg quiet_handler" by (auto simp: polite_handler_def quiet_handler_def keeps_refl)
  have c: "clock_law sim_host" by (auto simp: clock_law_def sim_host_def)
  have rest: "length (junk_sid sim_host) = 16" "initialization_timeout_secs sim_cfg > 0" "max_waits sim_cfg \<le> 20"
    "\<forall>c \<in> set (streams sim_cfg). appChannel c = None" "0 \<le> q_size sim_cfg" "mem_wf (ja_heap (sim_app [] ()))" "stream_items (sim_app [] ()) = []"
    by (auto simp: sim_host_def sim_cfg_def sim_app_def max_waits_def mem_wf_def)
  from app_run_unsubscribes [OF sim_ext_laws rest(1) host c h rest(2,3,4,5) home rest(6,7), of 3 True] show ?thesis
    by (auto simp: sim_app_def)
qed

section \<open>What goes wrong\<close>

text \<open>The list of streams is not cleared: when an application is run a second time its clean-up destroys a channel again.\<close>

lemma cleanup_twice:
  assumes "\<not> item_registered si" and "item_chan_ctx si = Some c" and "channels rt c = None"
  shows "cleanup_items E H dapp (si # sis) rt = Inl (UseAfterFree c)"
  using assms by (simp add: jrtc_router_channel_destroy_def)

text \<open>When a request cannot be registered, the channel that was just created is not in the list and is not destroyed.\<close>

lemma failed_registration_keeps_channel:
  assumes "jrtc_router_generate_stream_id sc (ja_heap s) (Some (junk_sid H)) (word_of_int (cfg_destination (str_sid c)))
      (word_of_int (cfg_device_id (str_sid c))) (cfg_stream_source (str_sid c)) (cfg_io_map (str_sid c)) = Inr (1, Some sid, m)"
    and "init_channel E H dapp j c sid (s\<lparr>ja_heap := m\<rparr>) = Inr (True, Some x, s1)" and "is_rx c"
    and "jrtc_router_channel_register_stream_id_req E (ja_router s1) dapp sid = Inr (-1, rt)" and "stream_items s1 = []"
  shows "\<exists>s'. init_streams sc E H dapp cfg t j (c # cs) s = Inr (-1, s') \<and> CleanUp E H dapp s' = Inr s' \<and> channels (ja_router s') = channels rt"
  using assms by (simp add: init_register_def CleanUp_def)

end
