(* ===== verification/Jrtc_App_Py.thy ===== *)
theory Jrtc_App_Py
  imports Jrtc_App
begin

text \<open>
  The wrapper for applications in Python: \<open>src/wrapper_apis/python/jrtc_app.py\<close>, which is a second implementation of
  \<open>jrtc_app.cpp\<close> on the same router, with the ids generated by \<open>JrtcRouterStreamId.generate_id\<close> of
  \<open>jrtc_router_stream_id.py\<close>.  An exception is a value; times are in nanoseconds and compared as exact numbers.
\<close>

section \<open>State\<close>

datatype 'a outcome = Returned 'a | Raised string

text \<open>The object has an attribute \<open>last_received_time\<close> and one of the same name in its attribute \<open>data\<close>.\<close>

record ('e, 'bm, 'ht, 'rg, 'pl, 's) JrtcAppPy =
  py_self :: "('e, 'bm, 'ht, 'rg, 'pl, 's) JrtcApp"
  data_last_received_time :: int

section \<open>Initialisation\<close>

definition generate_id ::
    "bool \<Rightarrow> mem \<Rightarrow> int \<Rightarrow> int \<Rightarrow> string option \<Rightarrow> string option \<Rightarrow> ub + ((int \<times> stream_id) outcome \<times> mem)" where
  "generate_id sc m fd dev path name =
     bindS (jrtc_router_generate_stream_id sc m (Some (replicate 16 0)) (word_of_int fd) (word_of_int dev) path name)
       (\<lambda>(res, sid, m).
         (case sid of
            None \<Rightarrow> Inl NullDeref
          | Some sid \<Rightarrow>
              if res \<noteq> 1 then Inr (Raised ''RuntimeError'', m) else Inr (Returned (res, sid), m)))"

definition py_timed_out ::
    "('e, 'bm, 'ht, 'rg, 'pl) host \<Rightarrow> JrtcAppCfg \<Rightarrow> int \<Rightarrow> ('e, 'bm, 'ht, 'rg, 'pl, 's) JrtcApp \<Rightarrow>
     bool \<times> ('e, 'bm, 'ht, 'rg, 'pl, 's) JrtcApp" where
  "py_timed_out H cfg start_time s =
     (if initialization_timeout_secs cfg > 0 then
        (case steady_now H s of
           (t, s) \<Rightarrow> (rat_of_int (t - start_time) / rat_of_int NSEC > initialization_timeout_secs cfg, s))
      else (False, s))"

text \<open>The result of registering is only tested for being zero.\<close>

definition py_register ::
    "('e, 'bm, 'it, 'ht, 'rg, 'pl) ext \<Rightarrow> addr option \<Rightarrow> JrtcStreamCfg \<Rightarrow> stream_id \<Rightarrow>
     ('e, 'bm, 'ht, 'rg, 'pl, 's) JrtcApp \<Rightarrow> ub + (bool \<times> ('e, 'bm, 'ht, 'rg, 'pl, 's) JrtcApp)" where
  "py_register E dapp c sid s =
     (if is_rx c then
        bindS (jrtc_router_channel_register_stream_id_req E (ja_router s) dapp sid)
          (\<lambda>(res, rt). Inr (res \<noteq> 0, s\<lparr>ja_router := rt\<rparr>))
      else Inr (True, s))"

fun py_init_streams ::
    "bool \<Rightarrow> ('e, 'bm, 'it, 'ht, 'rg, 'pl) ext \<Rightarrow> ('e, 'bm, 'ht, 'rg, 'pl) host \<Rightarrow> addr option \<Rightarrow> JrtcAppCfg \<Rightarrow> int \<Rightarrow> nat \<Rightarrow>
     JrtcStreamCfg list \<Rightarrow> ('e, 'bm, 'ht, 'rg, 'pl, 's) JrtcApp \<Rightarrow>
     ub + (int outcome \<times> ('e, 'bm, 'ht, 'rg, 'pl, 's) JrtcApp)" where
  "py_init_streams sc E H dapp cfg start_time i [] s = Inr (Returned 0, s)"
| "py_init_streams sc E H dapp cfg start_time i (c # cs) s =
     bindS (generate_id sc (ja_heap s) (cfg_destination (str_sid c)) (cfg_device_id (str_sid c))
              (cfg_stream_source (str_sid c)) (cfg_io_map (str_sid c)))
       (\<lambda>(r, m).
         (let s = s\<lparr>ja_heap := m\<rparr>
          in case r of
               Raised e \<Rightarrow> Inr (Raised e, s)
             | Returned (res, sid) \<Rightarrow>
                 bindS (init_channel E H dapp i c sid s) (\<lambda>(ok, chan, s).
                 if \<not> ok then Inr (Returned (-1), s)
                 else
                   bindS (py_register E dapp c sid s) (\<lambda>(ok, s).
                   if \<not> ok then Inr (Returned (-1), s)
                   else
                     (let s = s\<lparr>stream_items := stream_items s @ [\<lparr>item_sid = sid, item_registered = is_rx c, item_chan_ctx = chan\<rparr>]\<rparr>
                      in case py_timed_out H cfg start_time s of
                           (late, s) \<Rightarrow>
                             if late then Inr (Returned (-1), s)
                             else py_init_streams sc E H dapp cfg start_time (Suc i) cs s)))))"

fun py_wait_channels ::
    "nat \<Rightarrow> ('e, 'bm, 'it, 'ht, 'rg, 'pl) ext \<Rightarrow> ('e, 'bm, 'ht, 'rg, 'pl) host \<Rightarrow> JrtcAppCfg \<Rightarrow> int \<Rightarrow> nat \<Rightarrow> JrtcStreamCfg list \<Rightarrow>
     ('e, 'bm, 'ht, 'rg, 'pl, 's) JrtcApp \<Rightarrow> (int outcome \<times> ('e, 'bm, 'ht, 'rg, 'pl, 's) JrtcApp) option" where
  "py_wait_channels n E H cfg start_time i [] s = Some (Returned 0, s)"
| "py_wait_channels n E H cfg start_time i (c # cs) s =
     (if length (stream_items s) \<le> i then Some (Raised ''IndexError'', s)
      else if \<not> is_rx c \<and> item_chan_ctx (stream_items s ! i) = None \<and>
              jrtc_router_input_channel_exists E (ja_router s) (item_sid (stream_items s ! i)) = 0
      then
        (if n = 0 then None
         else
           (let s = s\<lparr>ja_router := others H (ja_reads s) (ja_waits s) (ja_router s), ja_waits := Suc (ja_waits s)\<rparr>
            in case py_timed_out H cfg start_time s of
                 (late, s) \<Rightarrow>
                   if late then Some (Returned (-1), s) else py_wait_channels (n - 1) E H cfg start_time i (c # cs) s))
      else py_wait_channels n E H cfg start_time (Suc i) cs s)"

text \<open>Only the attribute of the object itself is set to the time of the start.\<close>

definition py_init ::
    "nat \<Rightarrow> bool \<Rightarrow> ('e, 'bm, 'it, 'ht, 'rg, 'pl) ext \<Rightarrow> ('e, 'bm, 'ht, 'rg, 'pl) host \<Rightarrow> addr option \<Rightarrow> JrtcAppCfg \<Rightarrow>
     ('e, 'bm, 'ht, 'rg, 'pl, 's) JrtcApp \<Rightarrow> (ub + (int outcome \<times> ('e, 'bm, 'ht, 'rg, 'pl, 's) JrtcApp)) option" where
  "py_init n sc E H dapp cfg s =
     (case steady_now H s of
        (start_time, s) \<Rightarrow>
          (case py_init_streams sc E H dapp cfg start_time 0 (streams cfg) (s\<lparr>last_received_time := start_time\<rparr>) of
             Inl e \<Rightarrow> Some (Inl e)
           | Inr (r, s) \<Rightarrow>
               if r \<noteq> Returned 0 then Some (Inr (r, s))
               else map_option Inr (py_wait_channels n E H cfg start_time 0 (streams cfg) s)))"

section \<open>The loop\<close>

definition py_cleanup ::
    "('e, 'bm, 'it, 'ht, 'rg, 'pl) ext \<Rightarrow> ('e, 'bm, 'ht, 'rg, 'pl) host \<Rightarrow> addr option \<Rightarrow>
     ('e, 'bm, 'ht, 'rg, 'pl, 's) JrtcAppPy \<Rightarrow> ub + ('e, 'bm, 'ht, 'rg, 'pl, 's) JrtcAppPy" where
  "py_cleanup E H dapp p =
     bindS (cleanup_items E H dapp (stream_items (py_self p)) (ja_router (py_self p)))
       (\<lambda>rt. Inr (p\<lparr>py_self := (py_self p)\<lparr>ja_router := rt\<rparr>\<rparr>))"

fun py_find_stream :: "JrtcStreamCfg list \<Rightarrow> StreamItem list \<Rightarrow> nat \<Rightarrow> stream_id \<Rightarrow> nat option outcome" where
  "py_find_stream [] items i sid = Returned None"
| "py_find_stream (c # cs) items i sid =
     (if length items \<le> i then Raised ''IndexError''
      else if is_rx c \<and> jrtc_router_stream_id_matches_req sid (item_sid (items ! i)) then Returned (Some i)
      else py_find_stream cs items (Suc i) sid)"

fun py_dispatch ::
    "('e, 'bm, 'it, 'ht, 'rg, 'pl) ext \<Rightarrow> ('e, 'bm, 'ht, 'rg, 'pl) host \<Rightarrow> ('e, 'bm, 'ht, 'rg, 'pl, 's) JrtcAppHandler \<Rightarrow> JrtcAppCfg \<Rightarrow>
     jrtc_router_data_entry list \<Rightarrow> ('e, 'bm, 'ht, 'rg, 'pl, 's) JrtcAppPy \<Rightarrow>
     ub + (unit outcome \<times> ('e, 'bm, 'ht, 'rg, 'pl, 's) JrtcAppPy)" where
  "py_dispatch E H h cfg [] p = Inr (Returned (), p)"
| "py_dispatch E H h cfg (x # xs) p =
     (case py_find_stream (streams cfg) (stream_items (py_self p)) 0 (de_stream_id x) of
        Raised e \<Rightarrow> Inr (Raised e, p)
      | Returned r \<Rightarrow>
          bindS (case r of None \<Rightarrow> Inr (py_self p) | Some sidx \<Rightarrow> call_handler h False (int sidx) (Some x) (py_self p)) (\<lambda>s.
            (case steady_now H (s\<lparr>ja_router := jrtc_router_channel_release_buf E (ja_router s) (Some (de_data x))\<rparr>) of
               (t, s) \<Rightarrow> py_dispatch E H h cfg xs (p\<lparr>py_self := s, data_last_received_time := t\<rparr>))))"

text \<open>After the handler was called for inactivity, the other attribute is set.\<close>

definition py_run_step ::
    "('e, 'bm, 'it, 'ht, 'rg, 'pl) ext \<Rightarrow> ('e, 'bm, 'ht, 'rg, 'pl) host \<Rightarrow> ('e, 'bm, 'ht, 'rg, 'pl, 's) JrtcAppHandler \<Rightarrow> addr option \<Rightarrow>
     JrtcAppCfg \<Rightarrow> ('e, 'bm, 'ht, 'rg, 'pl, 's) JrtcAppPy \<Rightarrow> ub + (unit outcome \<times> ('e, 'bm, 'ht, 'rg, 'pl, 's) JrtcAppPy)" where
  "py_run_step E H h dapp cfg p =
     (case steady_now H (py_self p) of
        (t, s) \<Rightarrow>
          bindS (if inactivity_timeout_secs cfg > 0 \<and>
                    rat_of_int (t - data_last_received_time p) / rat_of_int NSEC > inactivity_timeout_secs cfg
                 then bindS (call_handler h True (-1) None s) (\<lambda>s. Inr (s\<lparr>last_received_time := t\<rparr>))
                 else Inr s) (\<lambda>s.
          (case dapp of
             None \<Rightarrow> Inl NullDeref
           | Some a \<Rightarrow>
               bindS (jrtc_router_receive E (ja_router s) a (nat (q_size cfg))) (\<lambda>(xs, rt).
               bindS (py_dispatch E H h cfg xs (p\<lparr>py_self := s\<lparr>ja_router := rt\<rparr>\<rparr>)) (\<lambda>(r, p).
                 Inr (r, p\<lparr>py_self := (py_self p)\<lparr>ja_router :=
                   others H (ja_reads (py_self p)) (ja_waits (py_self p)) (ja_router (py_self p))\<rparr>\<rparr>))))))"

primrec py_run_loop ::
    "nat \<Rightarrow> ('e, 'bm, 'it, 'ht, 'rg, 'pl) ext \<Rightarrow> ('e, 'bm, 'ht, 'rg, 'pl) host \<Rightarrow> ('e, 'bm, 'ht, 'rg, 'pl, 's) JrtcAppHandler \<Rightarrow>
     addr option \<Rightarrow> JrtcAppCfg \<Rightarrow> ('e, 'bm, 'ht, 'rg, 'pl, 's) JrtcAppPy \<Rightarrow> ub + (unit outcome \<times> ('e, 'bm, 'ht, 'rg, 'pl, 's) JrtcAppPy)" where
  "py_run_loop 0 E H h dapp cfg p = Inr (Returned (), p)"
| "py_run_loop (Suc k) E H h dapp cfg p =
     bindS (py_run_step E H h dapp cfg p) (\<lambda>(r, p).
       case r of Raised e \<Rightarrow> Inr (Raised e, p) | Returned _ \<Rightarrow> py_run_loop k E H h dapp cfg p)"

text \<open>An array of negative length cannot be made.\<close>

definition py_run ::
    "nat \<Rightarrow> nat \<Rightarrow> bool \<Rightarrow> ('e, 'bm, 'it, 'ht, 'rg, 'pl) ext \<Rightarrow> ('e, 'bm, 'ht, 'rg, 'pl) host \<Rightarrow>
     ('e, 'bm, 'ht, 'rg, 'pl, 's) JrtcAppHandler \<Rightarrow> addr option \<Rightarrow> JrtcAppCfg \<Rightarrow> ('e, 'bm, 'ht, 'rg, 'pl, 's) JrtcAppPy \<Rightarrow>
     (ub + (unit outcome \<times> ('e, 'bm, 'ht, 'rg, 'pl, 's) JrtcAppPy)) option" where
  "py_run n k sc E H h dapp cfg p =
     (case py_init n sc E H dapp cfg (py_self p) of
        None \<Rightarrow> None
      | Some r \<Rightarrow>
          Some (bindS r (\<lambda>(res, s).
            (case res of
               Raised e \<Rightarrow> Inr (Raised e, p\<lparr>py_self := s\<rparr>)
             | Returned v \<Rightarrow>
                 if v \<noteq> 0 then Inr (Returned (), p\<lparr>py_self := s\<rparr>)
                 else if q_size cfg < 0 then Inr (Raised ''ValueError'', p\<lparr>py_self := s\<rparr>)
                 else py_run_loop k E H h dapp cfg (p\<lparr>py_self := s\<rparr>)))))"

section \<open>The interface\<close>

definition py_get_stream :: "('e, 'bm, 'ht, 'rg, 'pl, 's) JrtcAppPy \<Rightarrow> int \<Rightarrow> stream_id option" where
  "py_get_stream p idx =
     (if idx < 0 \<or> int (length (stream_items (py_self p))) \<le> idx then None
      else Some (item_sid (stream_items (py_self p) ! nat idx)))"

definition py_get_chan_ctx :: "('e, 'bm, 'ht, 'rg, 'pl, 's) JrtcAppPy \<Rightarrow> int \<Rightarrow> addr option" where
  "py_get_chan_ctx p idx =
     (if idx < 0 \<or> int (length (stream_items (py_self p))) \<le> idx then None
      else item_chan_ctx (stream_items (py_self p) ! nat idx))"

text \<open>The object's own attribute is not there before \<open>init\<close>; nothing reads it.\<close>

definition py_jrtc_app_create ::
    "('e, 'bm, 'ht, 'rg, 'pl) host \<Rightarrow> ('e, 'bm, 'ht, 'rg, 'pl) jrtc_router_ctx \<Rightarrow> mem \<Rightarrow> nat \<Rightarrow> nat \<Rightarrow> 's \<Rightarrow>
     ('e, 'bm, 'ht, 'rg, 'pl, 's) JrtcAppPy" where
  "py_jrtc_app_create H rt m reads waits st =
     \<lparr>py_self = \<lparr>ja_router = rt, ja_heap = m, ja_reads = Suc reads, ja_waits = waits, stream_items = [], last_received_time = 0,
        app_state = st\<rparr>,
      data_last_received_time = clock H reads waits\<rparr>"

definition py_jrtc_app_destroy ::
    "('e, 'bm, 'it, 'ht, 'rg, 'pl) ext \<Rightarrow> ('e, 'bm, 'ht, 'rg, 'pl) host \<Rightarrow> addr option \<Rightarrow>
     ('e, 'bm, 'ht, 'rg, 'pl, 's) JrtcAppPy \<Rightarrow> ub + ('e, 'bm, 'ht, 'rg, 'pl, 's) JrtcAppPy" where
  "py_jrtc_app_destroy E H dapp p = py_cleanup E H dapp p"

definition py_send_input_msg ::
    "('e, 'bm, 'it, 'ht, 'rg, 'pl) ext \<Rightarrow> ('e, 'bm, 'ht, 'rg, 'pl, 's) JrtcAppPy \<Rightarrow> int \<Rightarrow> u8 list option \<Rightarrow> u64 \<Rightarrow>
     int \<times> ('e, 'bm, 'ht, 'rg, 'pl, 's) JrtcAppPy" where
  "py_send_input_msg E p idx dat data_len =
     (case py_get_stream p idx of
        None \<Rightarrow> (-1, p)
      | Some sid \<Rightarrow>
          (case jrtc_router_channel_send_input_msg E (ja_router (py_self p)) sid dat data_len of
             (r, rt) \<Rightarrow> (r, p\<lparr>py_self := (py_self p)\<lparr>ja_router := rt\<rparr>\<rparr>)))"

definition py_send_output_msg ::
    "('e, 'bm, 'it, 'ht, 'rg, 'pl) ext \<Rightarrow> (addr \<Rightarrow> nat) \<Rightarrow> ('e, 'bm, 'ht, 'rg, 'pl, 's) JrtcAppPy \<Rightarrow> int \<Rightarrow> u8 list option \<Rightarrow>
     ub + (int \<times> (addr \<times> u8 list) option \<times> ('e, 'bm, 'ht, 'rg, 'pl, 's) JrtcAppPy)" where
  "py_send_output_msg E cap p idx dat =
     (case py_get_chan_ctx p idx of
        None \<Rightarrow> Inr (-1, None, p)
      | Some c \<Rightarrow>
          bindS (jrtc_router_channel_send_output_msg E cap (ja_router (py_self p)) (Some c) dat)
            (\<lambda>(r, w, rt). Inr (r, w, p\<lparr>py_self := (py_self p)\<lparr>ja_router := rt\<rparr>\<rparr>)))"

end
