(* ===== verification/Jrtc_App_Py_Props.thy ===== *)
theory Jrtc_App_Py_Props
  imports Jrtc_App_Py Jrtc_App_Props
begin

text \<open>
  The two wrappers compared: where they agree, and three ways in which the one in Python behaves differently.
\<close>

section \<open>Agreement\<close>

lemma generate_any_junk:
  "length s = length t \<Longrightarrow> jrtc_router_generate_stream_id sc m (Some s) fd dev path name = jrtc_router_generate_stream_id sc m (Some t) fd dev path name"
  by (simp add: jrtc_router_generate_stream_id_def Let_def)

lemma no_timeout:
  "initialization_timeout_secs cfg \<le> 0 \<Longrightarrow> init_timed_out H cfg t s = (False, s)" "initialization_timeout_secs cfg \<le> 0 \<Longrightarrow> py_timed_out H cfg t s = (False, s)"
  by (simp_all add: init_timed_out_def py_timed_out_def)

lemma register_agrees: "init_register E dapp c sid s = Inr (True, s') \<Longrightarrow> py_register E dapp c sid s = Inr (True, s')"
  by (auto simp: init_register_def py_register_def elim!: bindS_InrE split: if_splits)

lemma init_streams_agree:
  assumes junk: "length (junk_sid H) = 16" and T: "initialization_timeout_secs cfg \<le> 0"
  shows "init_streams sc E H dapp cfg t j cs s = Inr (0, s') \<Longrightarrow> py_init_streams sc E H dapp cfg t j cs s = Inr (Returned 0, s')"
proof (induction cs arbitrary: j s)
  case (Cons c cs)
  define cfg_id where "cfg_id = str_sid c"
  define gen where "gen = jrtc_router_generate_stream_id sc (ja_heap s) (Some (junk_sid H)) (word_of_int (cfg_destination cfg_id))
    (word_of_int (cfg_device_id cfg_id)) (cfg_stream_source cfg_id) (cfg_io_map cfg_id)"
  have gen': "gen = jrtc_router_generate_stream_id sc (ja_heap s) (Some (replicate 16 0)) (word_of_int (cfg_destination cfg_id))
    (word_of_int (cfg_device_id cfg_id)) (cfg_stream_source cfg_id) (cfg_io_map cfg_id)"
    unfolding gen_def by (rule generate_any_junk) (simp add: junk)
  note fold = gen_def [symmetric] cfg_id_def [symmetric]
  obtain res so m where g: "gen = Inr (res, so, m)" using Cons.prems by (cases gen) (auto simp: fold)
  have "so \<noteq> None \<and> res = 1" using Cons.prems g by (cases so; cases "res = 1") (simp_all add: fold)
  then obtain sid where 1: "gen = Inr (1, Some sid, m)" using g by auto
  let ?s1 = "s\<lparr>ja_heap := m\<rparr>"
  obtain ok chan s2 where c: "init_channel E H dapp j c sid ?s1 = Inr (ok, chan, s2)"
    using Cons.prems 1 by (cases "init_channel E H dapp j c sid ?s1") (auto simp: fold)
  then have 2: "init_channel E H dapp j c sid ?s1 = Inr (True, chan, s2)" using Cons.prems 1 by (cases ok) (simp_all add: fold)
  obtain ok' s3 where r: "init_register E dapp c sid s2 = Inr (ok', s3)"
    using Cons.prems 1 2 by (cases "init_register E dapp c sid s2") (auto simp: fold)
  then have 3: "init_register E dapp c sid s2 = Inr (True, s3)" using Cons.prems 1 2 by (cases ok') (simp_all add: fold)
  let ?s4 = "s3\<lparr>stream_items := stream_items s3 @ [\<lparr>item_sid = sid, item_registered = is_rx c, item_chan_ctx = chan\<rparr>]\<rparr>"
  have "init_streams sc E H dapp cfg t (Suc j) cs ?s4 = Inr (0, s')"
    using Cons.prems 1 2 3 by (simp add: gen_def [symmetric] cfg_id_def [symmetric] no_timeout [OF T])
  from Cons.IH [OF this] show ?case
    using 1 2 register_agrees [OF 3] by (simp add: generate_id_def cfg_id_def [symmetric] gen' [symmetric] no_timeout [OF T])
qed simp

lemma wait_channels_agree:
  assumes T: "initialization_timeout_secs cfg \<le> 0"
  shows "wait_channels n E H cfg t j cs s = Some (Inr r) \<Longrightarrow> py_wait_channels n E H cfg t j cs s = Some (Returned (fst r), snd r)"
proof (induction "n + length cs" arbitrary: n j cs s rule: less_induct)
  case less
  show ?case
  proof (cases cs)
    case Nil
    then show ?thesis using less.prems by auto
  next
    case (Cons c cs')
    let ?need = "\<not> is_rx c \<and> item_chan_ctx (stream_items s ! j) = None \<and>
      jrtc_router_input_channel_exists E (ja_router s) (item_sid (stream_items s ! j)) = 0"
    have len: "\<not> length (stream_items s) \<le> j" using less.prems Cons by auto
    show ?thesis
    proof (cases ?need)
      case False
      then have "wait_channels n E H cfg t (Suc j) cs' s = Some (Inr r)" "py_wait_channels n E H cfg t j cs s = py_wait_channels n E H cfg t (Suc j) cs' s"
        using less.prems Cons len by auto
      then show ?thesis using less.hyps [of n cs' "Suc j" s] Cons by simp
    next
      case True
      define s1 where "s1 = s\<lparr>ja_router := others H (ja_reads s) (ja_waits s) (ja_router s), ja_waits := Suc (ja_waits s)\<rparr>"
      have n: "n \<noteq> 0" using less.prems Cons len True by (cases "n = 0") auto
      have "wait_channels n E H cfg t j cs s = wait_channels (n - 1) E H cfg t j cs s1"
        unfolding Cons wait_channels.simps(2) [of n _ _ _ _ _ _ _ s] using len True n by (simp only: s1_def [symmetric] no_timeout [OF T] Let_def) simp
      moreover have "py_wait_channels n E H cfg t j cs s = py_wait_channels (n - 1) E H cfg t j cs s1"
        unfolding Cons py_wait_channels.simps(2) [of n _ _ _ _ _ _ _ s] using len True n by (simp only: s1_def [symmetric] no_timeout [OF T] Let_def) simp
      ultimately show ?thesis using less.prems less.hyps [of "n - 1" cs j s1] n by simp
    qed
  qed
qed

text \<open>C31: Whenever the initialisation of the C++ wrapper succeeds without a time-out, the one of the Python wrapper, from the same
  state, succeeds and leaves exactly the same streams, subscriptions, channels and heap.\<close>

theorem init_wrappers_agree:
  assumes "length (junk_sid H) = 16" and "initialization_timeout_secs cfg \<le> 0" and "Init n sc E H dapp cfg s = Some (Inr (0, s'))"
  shows "py_init n sc E H dapp cfg s = Some (Inr (Returned 0, s'))"
proof -
  define t where "t = clock H (ja_reads s) (ja_waits s)"
  define s0 where "s0 = s\<lparr>ja_reads := Suc (ja_reads s), last_received_time := t\<rparr>"
  have now: "steady_now H s = (t, s\<lparr>ja_reads := Suc (ja_reads s)\<rparr>)" by (simp add: steady_now_def t_def)
  obtain s1 where 1: "init_streams sc E H dapp cfg t 0 (streams cfg) s0 = Inr (0, s1)" "wait_channels n E H cfg t 0 (streams cfg) s1 = Some (Inr (0, s'))"
    using assms(3) by (auto simp: Init_def now s0_def split: sum.splits if_splits)
  show ?thesis using init_streams_agree [OF assms(1,2) 1(1)] wait_channels_agree [OF assms(2) 1(2)] by (simp add: py_init_def now s0_def)
qed

definition sim_cfg0 :: JrtcAppCfg where
  "sim_cfg0 = sim_cfg\<lparr>initialization_timeout_secs := 0\<rparr>"

lemma sim_init: "(case Init 0 True sim sim_host (Some 1) sim_cfg0 (sim_app [] ()) of Some (Inr (r, s)) \<Rightarrow> r = 0 \<and> length (stream_items s) = 1 | _ \<Rightarrow> False)"
  by code_simp

theorem init_wrappers_agree_witness:
  "\<exists>s'. Init 0 True sim sim_host (Some 1) sim_cfg0 (sim_app [] ()) = Some (Inr (0, s')) \<and>
     py_init 0 True sim sim_host (Some 1) sim_cfg0 (sim_app [] ()) = Some (Inr (Returned 0, s')) \<and> length (stream_items s') = 1"
proof -
  obtain s' where s': "Init 0 True sim sim_host (Some 1) sim_cfg0 (sim_app [] ()) = Some (Inr (0, s'))" "length (stream_items s') = 1"
    using sim_init by (auto split: option.splits sum.splits)
  have "length (junk_sid sim_host) = 16" "initialization_timeout_secs sim_cfg0 \<le> 0" by (simp_all add: sim_host_def sim_cfg0_def)
  from init_wrappers_agree [OF this s'(1)] show ?thesis using s' by auto
qed

text \<open>The index functions agree on every index of 32 bits.\<close>

lemma get_stream_agrees:
  assumes "- (2 ^ 31) \<le> idx" and "idx < 2 ^ 31" and "length (stream_items (py_self p)) < 2 ^ 31"
  shows "get_stream (py_self p) idx = py_get_stream p idx" and "get_chan_ctx (py_self p) idx = py_get_chan_ctx p idx"
proof -
  have u: "int (unat (word_of_int idx :: u64)) = idx mod 2 ^ 64" by (simp add: unsigned_of_int take_bit_eq_mod)
  have "unat (word_of_int idx :: u64) = nat idx" if "0 \<le> idx" using u that assms(2) by (simp add: nat_eq_iff2)
  moreover have "2 ^ 63 \<le> unat (word_of_int idx :: u64)" if "idx < 0"
  proof -
    have "(idx + 2 ^ 64) mod 2 ^ 64 = idx + 2 ^ 64" using that assms(1) by (intro mod_pos_pos_trivial) auto
    then have "idx mod 2 ^ 64 = idx + 2 ^ 64" by simp
    then have "int (2 ^ 63) \<le> int (unat (word_of_int idx :: u64))" using u assms(1) by simp
    then show ?thesis by (rule of_nat_le_iff [THEN iffD1])
  qed
  ultimately show "get_stream (py_self p) idx = py_get_stream p idx" and "get_chan_ctx (py_self p) idx = py_get_chan_ctx p idx"
    using assms(3) by (cases "idx < 0"; auto simp: get_stream_def py_get_stream_def get_chan_ctx_def py_get_chan_ctx_def Let_def)+
qed

section \<open>Differences\<close>

text \<open>A registration that fails counts as done.\<close>

lemma py_failed_registration_ignored:
  assumes "jrtc_router_channel_register_stream_id_req E (ja_router s) dapp sid = Inr (-1, rt)" and "is_rx c"
  shows "py_register E dapp c sid s = Inr (True, s\<lparr>ja_router := rt\<rparr>)" and "init_register E dapp c sid s = Inr (False, s\<lparr>ja_router := rt\<rparr>)"
  using assms by (simp_all add: py_register_def init_register_def)

text \<open>When the initialisation fails, nothing is cleaned up.\<close>

lemma py_failed_init_keeps_router:
  assumes "py_init n sc E H dapp cfg (py_self p) = Some (Inr (Returned (-1), s))"
  shows "py_run n k sc E H h dapp cfg p = Some (Inr (Returned (), p\<lparr>py_self := s\<rparr>))"
  using assms by (simp add: py_run_def)

text \<open>When nothing is received, the inactivity handler, once due, is called in every iteration; the time-out is only started
  again by the next message.\<close>

lemma py_inactivity_repeats:
  assumes T: "inactivity_timeout_secs cfg > 0" and idle: "\<forall>n m. others H n m rt = rt"
    and empty: "jrtc_router_receive E rt a (nat (q_size cfg)) = Inr ([], rt)"
  shows "ja_router (py_self p) = rt \<Longrightarrow>
    \<forall>n \<ge> ja_reads (py_self p). inactivity_timeout_secs cfg < rat_of_int (clock H n (ja_waits (py_self p)) - data_last_received_time p) / rat_of_int NSEC \<Longrightarrow>
    \<exists>p'. py_run_loop k E H record_calls (Some a) cfg p = Inr (Returned (), p') \<and>
      app_state (py_self p') = app_state (py_self p) @ replicate k (True, -1, None)"
proof (induction k arbitrary: p)
  case (Suc k)
  let ?s = "py_self p"
  define t where "t = clock H (ja_reads ?s) (ja_waits ?s)"
  define p1 where "p1 = p\<lparr>py_self := ?s\<lparr>ja_reads := Suc (ja_reads ?s), app_state := app_state ?s @ [(True, -1, None)], last_received_time := t\<rparr>\<rparr>"
  have due: "inactivity_timeout_secs cfg < rat_of_int (t - data_last_received_time p) / rat_of_int NSEC" using Suc.prems(2) by (simp add: t_def)
  have "py_run_step E H record_calls (Some a) cfg p = Inr (Returned (), p1)"
    unfolding py_run_step_def steady_now_def prod.case t_def [symmetric] using due T Suc.prems(1) empty idle
    by (simp del: of_int_diff add: call_handler_def record_calls_def p1_def)
  moreover have "\<forall>n \<ge> ja_reads (py_self p1). inactivity_timeout_secs cfg < rat_of_int (clock H n (ja_waits (py_self p1)) - data_last_received_time p1) / rat_of_int NSEC"
    using Suc.prems(2) by (simp add: p1_def)
  ultimately show ?case using Suc.IH [of p1] Suc.prems(1) by (auto simp: p1_def)
qed simp

end
