(* ===== verification/Rest_Server.thy ===== *)
theory Rest_Server
  imports Startup
begin

text \<open>
  The REST server that loads and unloads applications: \<open>src/rest_api_lib/src/lib.rs\<close>.  The handlers are functions of the
  server's list of applications and of the state \<open>'c\<close> that the two callbacks work on.  The guard of the list is never held
  across a point where the single thread of the server may switch, so a handler is one step.
\<close>

section \<open>Data\<close>

text \<open>The maps of a request are listed in the order in which they are iterated.\<close>

record JrtcAppLoadRequest =
  jl_app :: "u8 list"
  jl_app_name :: string
  jl_runtime_us :: u32
  jl_deadline_us :: u32
  jl_period_us :: u32
  jl_ioq_size :: u32
  jl_app_path :: string
  jl_app_type :: string
  jl_app_params :: "(string \<times> string) list"
  jl_device_mapping :: "(string \<times> string) list"
  jl_app_modules :: "string list"

record JrtcAppState =
  as_id :: int
  as_request :: JrtcAppLoadRequest
  as_start_time :: string

datatype body = NoBody | Details string | AppBody JrtcAppState | AppsBody "JrtcAppState list"

datatype response = Reply nat body | Panicked

text \<open>The list, and the strings that were given to C with \<open>into_raw\<close> and not taken back.\<close>

record ServerState =
  store :: "JrtcAppState list"
  raw_strings :: "string list"

type_synonym 'c load_callback = "(load_app_request \<Rightarrow> 'c \<Rightarrow> ub + (int \<times> 'c)) option"
type_synonym 'c unload_callback = "(int \<Rightarrow> 'c \<Rightarrow> ub + (int \<times> 'c)) option"

section \<open>Reading the list\<close>

definition show_digit :: "nat \<Rightarrow> char" where
  "show_digit d = char_of (d + 48)"

fun show_nat :: "nat \<Rightarrow> string" where
  "show_nat n = (if n < 10 then [show_digit n] else show_nat (n div 10) @ [show_digit (n mod 10)])"

definition show_i32 :: "int \<Rightarrow> string" where
  "show_i32 i = (if i < 0 then ''-'' @ show_nat (nat (- i)) else show_nat (nat i))"

definition get_app :: "int \<Rightarrow> ServerState \<Rightarrow> response" where
  "get_app i sv =
     (case find (\<lambda>app. as_id app = i) (store sv) of
        Some x \<Rightarrow> Reply 200 (AppBody x)
      | None \<Rightarrow> Reply 404 (Details (''id = '' @ show_i32 i)))"

definition get_apps :: "ServerState \<Rightarrow> response" where
  "get_apps sv = Reply 200 (AppsBody (store sv))"

section \<open>Loading\<close>

text \<open>A C string cannot contain the byte zero.\<close>

definition CString_new :: "string \<Rightarrow> string option" where
  "CString_new s = (if CHR 0x00 \<in> set s then None else Some s)"

text \<open>The loops that fill the fixed arrays; the first result is whether every string could be converted, the last one
  lists the strings that were given away.\<close>

fun c_pairs :: "nat \<Rightarrow> (string \<times> string) list \<Rightarrow> bool \<times> (string \<times> string) list \<times> string list" where
  "c_pairs i [] = (True, [], [])"
| "c_pairs i ((key, value) # ps) =
     (if 255 \<le> i then (True, [], [])
      else
        (case CString_new key of
           None \<Rightarrow> (False, [], [])
         | Some k \<Rightarrow>
             (case CString_new value of
                None \<Rightarrow> (False, [], [k])
              | Some v \<Rightarrow> (case c_pairs (Suc i) ps of (ok, qs, raw) \<Rightarrow> (ok, (k, v) # qs, k # v # raw)))))"

fun c_modules :: "nat \<Rightarrow> string list \<Rightarrow> bool \<times> string list" where
  "c_modules i [] = (True, [])"
| "c_modules i (m # ms) =
     (if 255 \<le> i then (True, [])
      else
        (case CString_new m of
           None \<Rightarrow> (False, [])
         | Some c \<Rightarrow> (case c_modules (Suc i) ms of (ok, cs) \<Rightarrow> (ok, c # cs))))"

definition c_array :: "'a \<Rightarrow> 'a list \<Rightarrow> 'a list" where
  "c_array zero xs = xs @ replicate (255 - length xs) zero"

definition app_req ::
    "JrtcAppLoadRequest \<Rightarrow> string \<Rightarrow> string \<Rightarrow> string \<Rightarrow> (string \<times> string) list \<Rightarrow> (string \<times> string) list \<Rightarrow> string list \<Rightarrow> load_app_request" where
  "app_req p name path typ params mapping mods =
     \<lparr>lr_app = Some (jl_app p), lr_app_size = length (jl_app p), lr_app_name = Some name, lr_runtime_us = jl_runtime_us p,
      lr_deadline_us = jl_deadline_us p, lr_period_us = jl_period_us p, lr_ioq_size = jl_ioq_size p, lr_app_path = Some path,
      lr_app_type = Some typ, lr_params = c_array (None, None) (map (\<lambda>(k, v). (Some k, Some v)) params),
      lr_device_mapping = c_array (None, None) (map (\<lambda>(k, v). (Some k, Some v)) mapping),
      lr_app_modules = c_array None (map Some mods)\<rparr>"

definition bad_string :: "string \<Rightarrow> string \<Rightarrow> response" where
  "bad_string field v = Reply 400 (Details (field @ '' cannot be converted into c string = '' @ v))"

definition give_away :: "string list \<Rightarrow> ServerState \<Rightarrow> ServerState" where
  "give_away raw sv = sv\<lparr>raw_strings := raw_strings sv @ raw\<rparr>"

text \<open>The reply to the callback's result, and the new entry of the list.\<close>

definition load_reply :: "string \<Rightarrow> JrtcAppLoadRequest \<Rightarrow> int \<Rightarrow> ServerState \<Rightarrow> response \<times> ServerState" where
  "load_reply now p response sv =
     (if response = -1 then (Reply 400 (Details ''Bad request''), sv)
      else if response \<le> -2 then (Reply 500 (Details ''Internal server error''), sv)
      else
        (let app = \<lparr>as_id = response, as_request = p, as_start_time = now\<rparr>
         in (Reply 200 (AppBody app), sv\<lparr>store := store sv @ [app]\<rparr>)))"

definition rest_load_app ::
    "'c load_callback \<Rightarrow> string \<Rightarrow> JrtcAppLoadRequest \<Rightarrow> ServerState \<Rightarrow> 'c \<Rightarrow> ub + (response \<times> ServerState \<times> 'c)" where
  "rest_load_app cb now p sv c =
     (case CString_new (jl_app_name p) of
        None \<Rightarrow> Inr (bad_string ''app_name'' (jl_app_name p), sv, c)
      | Some name \<Rightarrow>
     (case CString_new (jl_app_path p) of
        None \<Rightarrow> Inr (bad_string ''app_path'' (jl_app_path p), sv, c)
      | Some path \<Rightarrow>
     (case CString_new (jl_app_type p) of
        None \<Rightarrow> Inr (bad_string ''app_type'' (jl_app_type p), sv, c)
      | Some typ \<Rightarrow>
     (case c_pairs 0 (jl_app_params p) of
        (ok, params, raw) \<Rightarrow>
          (let sv = give_away raw sv in
           if \<not> ok then Inr (Panicked, sv, c)
           else
     (case c_pairs 0 (jl_device_mapping p) of
        (ok, mapping, raw) \<Rightarrow>
          (let sv = give_away raw sv in
           if \<not> ok then Inr (Panicked, sv, c)
           else
     (case c_modules 0 (jl_app_modules p) of
        (ok, mods) \<Rightarrow>
          (let sv = give_away mods sv in
           if \<not> ok then Inr (Panicked, sv, c)
           else
             (case cb of
                None \<Rightarrow> Inr (Reply 500 (Details ''load_app callback is not set''), give_away [name, path, typ] sv, c)
              | Some f \<Rightarrow>
                  bindS (f (app_req p name path typ params mapping mods) c) (\<lambda>(response, c).
                    (case load_reply now p response sv of (r, sv) \<Rightarrow> Inr (r, sv, c)))))))))))))"

section \<open>Unloading\<close>

fun remove_first :: "('a \<Rightarrow> bool) \<Rightarrow> 'a list \<Rightarrow> 'a list" where
  "remove_first P [] = []"
| "remove_first P (x # xs) = (if P x then xs else x # remove_first P xs)"

definition rest_unload_app ::
    "'c unload_callback \<Rightarrow> int \<Rightarrow> ServerState \<Rightarrow> 'c \<Rightarrow> ub + (response \<times> ServerState \<times> 'c)" where
  "rest_unload_app cb i sv c =
     (case cb of
        None \<Rightarrow> Inr (Reply 500 NoBody, sv, c)
      | Some f \<Rightarrow>
          bindS (f i c) (\<lambda>(response, c).
            if response = -1 then Inr (Reply 204 NoBody, sv, c)
            else if response \<le> -2 then Inr (Reply 500 (Details ''Internal server error''), sv, c)
            else if list_ex (\<lambda>x. as_id x = i) (store sv)
            then Inr (Reply 204 NoBody, sv\<lparr>store := remove_first (\<lambda>x. as_id x = i) (store sv)\<rparr>, c)
            else Inr (Reply 404 (Details ''App not found''), sv, c)))"

section \<open>The server\<close>

text \<open>The routes.  A request to load carries the time of its arrival, and both requests that call back what the operating
  system answers to the callback.\<close>

datatype request =
    GET_app int
  | GET_apps
  | POST_app JrtcAppLoadRequest string os_results
  | DELETE_app int os_results

definition route ::
    "('e, 'bm, 'it, 'ht, 'rg, 'pl) ext \<Rightarrow> request \<Rightarrow> ServerState \<Rightarrow> ('e, 'bm, 'ht, 'rg, 'pl) controller \<Rightarrow>
     ub + (response \<times> ServerState \<times> ('e, 'bm, 'ht, 'rg, 'pl) controller)" where
  "route E req sv st =
     (case req of
        GET_app i \<Rightarrow> Inr (get_app i sv, sv, st)
      | GET_apps \<Rightarrow> Inr (get_apps sv, sv, st)
      | POST_app p now os \<Rightarrow> rest_load_app (Some (\<lambda>r st. load_app os st r)) now p sv st
      | DELETE_app i os \<Rightarrow> rest_unload_app (Some (\<lambda>i st. unload_app E os st i)) i sv st)"

end
