(* ===== verification/Rest_Server_Props.thy ===== *)
theory Rest_Server_Props
  imports Rest_Server Startup_Props
begin

text \<open>
  Properties of the REST server: what a load request becomes for the controller, the round trip of loading, reading and
  deleting, and that the server's list and the controller's table stay in step.
\<close>

section \<open>Strings\<close>

definition c_ok :: "string \<Rightarrow> bool" where
  "c_ok s \<longleftrightarrow> CHR 0x00 \<notin> set s"

text \<open>No string of a request contains the byte zero.\<close>

definition clean :: "JrtcAppLoadRequest \<Rightarrow> bool" where
  "clean p \<longleftrightarrow> c_ok (jl_app_name p) \<and> c_ok (jl_app_path p) \<and> c_ok (jl_app_type p) \<and>
     (\<forall>(k, v) \<in> set (jl_app_params p). c_ok k \<and> c_ok v) \<and> (\<forall>(k, v) \<in> set (jl_device_mapping p). c_ok k \<and> c_ok v) \<and>
     (\<forall>m \<in> set (jl_app_modules p). c_ok m)"

lemma CString_new_ok: "c_ok s \<Longrightarrow> CString_new s = Some s"
  by (simp add: CString_new_def c_ok_def)

definition flat_pairs :: "(string \<times> string) list \<Rightarrow> string list" where
  "flat_pairs ps = concat (map (\<lambda>(k, v). [k, v]) ps)"

lemma c_pairs_ok: "\<forall>(k, v) \<in> set ps. c_ok k \<and> c_ok v \<Longrightarrow> c_pairs i ps = (True, take (255 - i) ps, flat_pairs (take (255 - i) ps))"
proof (induction i ps rule: c_pairs.induct)
  case (2 i key val ps)
  show ?case
  proof (cases "255 \<le> i")
    case False
    then have "255 - i = Suc (255 - Suc i)" by arith
    then show ?thesis using 2 False by (simp add: CString_new_ok flat_pairs_def del: diff_Suc_numeral)
  qed (simp add: flat_pairs_def)
qed (simp add: flat_pairs_def)

lemma c_modules_ok: "\<forall>m \<in> set ms. c_ok m \<Longrightarrow> c_modules i ms = (True, take (255 - i) ms)"
proof (induction i ms rule: c_modules.induct)
  case (2 i m ms)
  show ?case
  proof (cases "255 \<le> i")
    case False
    then have "255 - i = Suc (255 - Suc i)" by arith
    then show ?thesis using 2 False by (simp add: CString_new_ok del: diff_Suc_numeral)
  qed simp
qed simp

text \<open>The request that the controller gets, and the strings that are never freed.\<close>

definition c_request :: "JrtcAppLoadRequest \<Rightarrow> load_app_request" where
  "c_request p = app_req p (jl_app_name p) (jl_app_path p) (jl_app_type p) (take 255 (jl_app_params p)) (take 255 (jl_device_mapping p))
     (take 255 (jl_app_modules p))"

definition leaked_strings :: "JrtcAppLoadRequest \<Rightarrow> string list" where
  "leaked_strings p = flat_pairs (take 255 (jl_app_params p)) @ flat_pairs (take 255 (jl_device_mapping p)) @ take 255 (jl_app_modules p)"

lemma load_clean:
  assumes "clean p"
  shows "rest_load_app (Some f) now p sv c = bindS (f (c_request p) c) (\<lambda>(response, c).
    case load_reply now p response (give_away (leaked_strings p) sv) of (r, sv) \<Rightarrow> Inr (r, sv, c))"
  using assms
  by (simp add: clean_def rest_load_app_def CString_new_ok c_pairs_ok c_modules_ok c_request_def leaked_strings_def give_away_def Let_def case_prod_beta)

section \<open>Round trip\<close>

lemma find_absent: "i \<notin> f ` set xs \<Longrightarrow> find (\<lambda>x. f x = i) (xs @ ys) = find (\<lambda>x. f x = i) ys"
  by (induction xs) auto

lemma remove_first_absent: "i \<notin> f ` set xs \<Longrightarrow> remove_first (\<lambda>x. f x = i) (xs @ ys) = xs @ remove_first (\<lambda>x. f x = i) ys"
  by (induction xs) auto

text \<open>C30: A request without zero bytes is given to the controller with its names, at most 255 parameters, mappings and modules, and
  empty entries after them; when the controller returns a new id the reply has the application, reading that id returns it,
  and deleting it brings the list back to what it was.  Every key, value and module name that was passed is leaked.\<close>

theorem rest_load_get_delete:
  assumes "clean p" and "f (c_request p) c = Inr (i, c')" and "0 \<le> i" and "i \<notin> as_id ` set (store sv)" and "g i c' = Inr (0, c'')"
  shows "\<exists>sv' sv''. rest_load_app (Some f) now p sv c = Inr (Reply 200 (AppBody \<lparr>as_id = i, as_request = p, as_start_time = now\<rparr>), sv', c') \<and>
    get_app i sv' = Reply 200 (AppBody \<lparr>as_id = i, as_request = p, as_start_time = now\<rparr>) \<and>
    raw_strings sv' = raw_strings sv @ leaked_strings p \<and>
    rest_unload_app (Some g) i sv' c' = Inr (Reply 204 NoBody, sv'', c'') \<and> store sv'' = store sv \<and>
    get_app i sv'' = Reply 404 (Details (''id = '' @ show_i32 i)) \<and>
    length (lr_params (c_request p)) = 255 \<and> length (lr_device_mapping (c_request p)) = 255 \<and> length (lr_app_modules (c_request p)) = 255"
proof -
  let ?x = "\<lparr>as_id = i, as_request = p, as_start_time = now\<rparr>"
  define sv' where "sv' = (give_away (leaked_strings p) sv)\<lparr>store := store sv @ [?x]\<rparr>"
  define sv'' where "sv'' = sv'\<lparr>store := store sv\<rparr>"
  have "rest_load_app (Some f) now p sv c = Inr (Reply 200 (AppBody ?x), sv', c')"
    using load_clean [OF assms(1), of f now sv c] assms(2,3) by (simp add: load_reply_def sv'_def give_away_def Let_def)
  moreover have "get_app i sv' = Reply 200 (AppBody ?x)"
    using find_absent [OF assms(4), of "[?x]"] by (simp add: get_app_def sv'_def)
  moreover have "rest_unload_app (Some g) i sv' c' = Inr (Reply 204 NoBody, sv'', c'')"
    using assms(5) remove_first_absent [OF assms(4), of "[?x]"] by (simp add: rest_unload_app_def sv''_def sv'_def)
  moreover have "get_app i sv'' = Reply 404 (Details (''id = '' @ show_i32 i))"
    using find_absent [OF assms(4), of "[]"] by (simp add: get_app_def sv''_def)
  moreover have "length (lr_params (c_request p)) = 255" "length (lr_device_mapping (c_request p)) = 255" "length (lr_app_modules (c_request p)) = 255"
    by (simp_all add: c_request_def app_req_def c_array_def)
  ultimately show ?thesis by (intro exI [of _ sv'] exI [of _ sv'']) (simp add: sv''_def sv'_def give_away_def)
qed

definition payload0 :: JrtcAppLoadRequest where
  "payload0 = \<lparr>jl_app = [1, 2], jl_app_name = ''a'', jl_runtime_us = 0, jl_deadline_us = 0, jl_period_us = 0, jl_ioq_size = 3,
     jl_app_path = ''/a.so'', jl_app_type = ''c'', jl_app_params = [(''k'', ''v'')], jl_device_mapping = [], jl_app_modules = [''m'']\<rparr>"

definition server0 :: ServerState where
  "server0 = \<lparr>store = [], raw_strings = []\<rparr>"

lemma payload0_clean: "clean payload0"
  by (simp add: clean_def payload0_def c_ok_def)

theorem rest_load_get_delete_witness:
  "\<exists>sv'. rest_load_app (Some (\<lambda>r c. Inr (4, c))) ''now'' payload0 server0 () =
      Inr (Reply 200 (AppBody \<lparr>as_id = 4, as_request = payload0, as_start_time = ''now''\<rparr>), sv', ()) \<and>
     raw_strings sv' = [''k'', ''v'', ''m'']"
proof -
  have "(\<lambda>r c. Inr (4, c)) (c_request payload0) () = (Inr (4, ()) :: ub + int \<times> unit)" "0 \<le> (4::int)" "4 \<notin> as_id ` set (store server0)"
    "(\<lambda>i c. Inr (0, c)) (4::int) () = (Inr (0, ()) :: ub + int \<times> unit)" by (simp_all add: server0_def)
  moreover have "leaked_strings payload0 = [''k'', ''v'', ''m'']" by (simp add: leaked_strings_def payload0_def flat_pairs_def)
  ultimately show ?thesis using rest_load_get_delete [OF payload0_clean, of "\<lambda>r c. Inr (4, c)" "()" 4 "()" server0 "\<lambda>i c. Inr (0, c)" "()" "''now''"]
    by (auto simp: server0_def)
qed

text \<open>A zero byte in a parameter, a mapping or a module panics the handler.\<close>

lemma zero_byte_panics:
  assumes "c_ok (jl_app_name p)" and "c_ok (jl_app_path p)" and "c_ok (jl_app_type p)" and "jl_app_params p = (k, v) # ps" and "\<not> c_ok k"
  shows "\<exists>sv'. rest_load_app cb now p sv c = Inr (Panicked, sv', c)"
  using assms by (simp add: rest_load_app_def CString_new_ok Let_def) (simp add: CString_new_def c_ok_def)

section \<open>The list and the table\<close>

text \<open>Every listed id is that of a loaded application, no id is listed twice, and what is loaded is listed or was
  loaded before the server started.\<close>

definition in_step :: "nat set \<Rightarrow> ServerState \<Rightarrow> ('e, 'bm, 'ht, 'rg, 'pl) controller \<Rightarrow> bool" where
  "in_step pre sv st \<longleftrightarrow> distinct (map as_id (store sv)) \<and>
     (\<forall>x \<in> set (store sv). \<exists>n < MAX_NUM_JRTC_APPS. as_id x = int n \<and> app_envs st ! n \<noteq> None) \<and>
     (\<forall>n < MAX_NUM_JRTC_APPS. app_envs st ! n \<noteq> None \<longrightarrow> n \<in> pre \<or> int n \<in> as_id ` set (store sv))"

text \<open>What is asked of the operating system and of the requests: the libraries open with a new handle, threads start and can be
  joined, and only ids of the table are deleted.\<close>

definition good_request :: "('e, 'bm, 'ht, 'rg, 'pl) controller \<Rightarrow> request \<Rightarrow> bool" where
  "good_request st req \<longleftrightarrow>
     (case req of
        GET_app i \<Rightarrow> True
      | GET_apps \<Rightarrow> True
      | POST_app p now os \<Rightarrow> clean p \<and> good_event st (LoadRequest (c_request p) os)
      | DELETE_app i os \<Rightarrow> good_event st (UnloadRequest i os))"

definition keeps_table :: "(('e, 'bm, 'ht, 'rg, 'pl) controller \<Rightarrow> addr \<Rightarrow> ub + ('e, 'bm, 'ht, 'rg, 'pl) controller) \<Rightarrow> bool" where
  "keeps_table app \<longleftrightarrow> (\<forall>st a st'. app st a = Inr st' \<longrightarrow> app_envs st' = app_envs st)"

text \<open>Requests, threads of applications and signals in any order.\<close>

inductive rest_runs ::
    "('e, 'bm, 'it, 'ht, 'rg, 'pl) ext \<Rightarrow>
     (('e, 'bm, 'ht, 'rg, 'pl) controller \<Rightarrow> addr \<Rightarrow> ub + ('e, 'bm, 'ht, 'rg, 'pl) controller) \<Rightarrow>
     ServerState \<times> ('e, 'bm, 'ht, 'rg, 'pl) controller \<Rightarrow> ServerState \<times> ('e, 'bm, 'ht, 'rg, 'pl) controller \<Rightarrow> bool"
  for E app q where
  start: "rest_runs E app q q"
| request: "rest_runs E app q (sv, st) \<Longrightarrow> good_request st req \<Longrightarrow> route E req sv st = Inr (r, sv', st') \<Longrightarrow> rest_runs E app q (sv', st')"
| thread: "rest_runs E app q (sv, st) \<Longrightarrow> dlsym_r os \<Longrightarrow> handle_event E app (AppThread i os) (st, sg) = Inr (st', sg') \<Longrightarrow>
    rest_runs E app q (sv, st')"

lemma load_table:
  assumes P: "proc_inv E V st" and g: "good_event st (LoadRequest req os)"
  obtains r st' where "load_app os st req = Inr (r, st')" "proc_inv E V st'"
    "(r = -1 \<and> app_envs st' = app_envs st) \<or>
     (\<exists>n a. n < MAX_NUM_JRTC_APPS \<and> r = int n \<and> app_envs st ! n = None \<and> app_envs st' = (app_envs st)[n := Some a])"
proof -
  obtain h where h: "fst (jrtc_load_app_from_memory os st (lr_app_size req)) = Some h" "h \<notin> set (dl_open st)" "pthread_create_r os = 0"
    using g by (auto simp: good_event_def split: option.splits)
  obtain r st' where l: "load_app os st req = Inr (r, st')" "proc_inv E V st'" using load_keeps [OF P h] by blast
  have "(r = -1 \<and> app_envs st' = app_envs st) \<or>
     (\<exists>n a. n < MAX_NUM_JRTC_APPS \<and> r = int n \<and> app_envs st ! n = None \<and> app_envs st' = (app_envs st)[n := Some a])"
    by (rule load_app_cases [OF proc_invD(1) [OF P], of os req]) (use l(1) h in \<open>auto simp: loaded_def\<close>)
  then show thesis by (rule that [OF l])
qed

lemma unload_table:
  assumes L: "ext_laws E V" and P: "proc_inv E V st" and g: "good_event st (UnloadRequest (int n) os)"
  obtains r st' where "unload_app E os st (int n) = Inr (r, st')" "proc_inv E V st'" "n < MAX_NUM_JRTC_APPS"
    "(r = -1 \<and> app_envs st' = app_envs st \<and> app_envs st ! n = None) \<or> (r = 0 \<and> app_envs st' = (app_envs st)[n := None])"
proof -
  have n: "n < MAX_NUM_JRTC_APPS" "pthread_join_r os = 0" using g by (simp_all add: good_event_def)
  obtain r st' where u: "unload_app E os st (int n) = Inr (r, st')" "proc_inv E V st'" using unload_keeps [OF L P _ _ n(2), of "int n"] n(1) by auto
  show thesis
  proof (cases "app_envs st ! n")
    case None
    then have "r = -1 \<and> st' = st" using u(1) n(1) by (simp add: unload_app_def)
    then show ?thesis using that [OF u n(1)] None by simp
  next
    case (Some a)
    show ?thesis by (rule unload_slot [OF L proc_invD(1-3) [OF P] n(1) Some n(2)]) (use that [OF u n(1)] u(1) in auto)
  qed
qed

lemma thread_table:
  assumes "keeps_table app" and "handle_event E app (AppThread i os) (st, sg) = Inr (st', sg')"
  shows "app_envs st' = app_envs st"
  using assms
  by (auto simp: handle_event_def run_app_def keeps_table_def dlclose_def Let_def split: if_splits option.splits elim!: bindS_InrE)

lemma in_step_load:
  assumes "in_step pre sv st" and "n < MAX_NUM_JRTC_APPS" and "length (app_envs st) = MAX_NUM_JRTC_APPS" and "app_envs st ! n = None"
    and "app_envs st' = (app_envs st)[n := Some a]" and "store sv' = store sv @ [x]" and "as_id x = int n"
  shows "in_step pre sv' st'"
proof -
  have "int n \<notin> as_id ` set (store sv)" using assms(1,4) unfolding in_step_def by force
  then show ?thesis using assms by (force simp: in_step_def nth_list_update)
qed

lemma remove_first_ids:
  "distinct (map f xs) \<Longrightarrow> distinct (map f (remove_first (\<lambda>x. f x = i) xs)) \<and> set (remove_first (\<lambda>x. f x = i) xs) = {x \<in> set xs. f x \<noteq> i}"
  by (induction xs) (auto simp: image_iff)

lemma in_step_unload:
  assumes "in_step pre sv st" and "n < MAX_NUM_JRTC_APPS" and "length (app_envs st) = MAX_NUM_JRTC_APPS"
    and "app_envs st' = (app_envs st)[n := None]" and "store sv' = remove_first (\<lambda>x. as_id x = int n) (store sv)"
  shows "in_step pre sv' st'"
proof -
  have d: "distinct (map as_id (store sv))" using assms(1) by (simp add: in_step_def)
  note r = remove_first_ids [OF d, of "int n"]
  have "\<exists>m < MAX_NUM_JRTC_APPS. as_id x = int m \<and> app_envs st' ! m \<noteq> None" if x: "x \<in> set (store sv')" for x
  proof -
    have "x \<in> set (store sv)" "as_id x \<noteq> int n" using x r assms(5) by auto
    then obtain m where "m < MAX_NUM_JRTC_APPS" "as_id x = int m" "app_envs st ! m \<noteq> None" "m \<noteq> n" using assms(1) by (auto simp: in_step_def)
    then show ?thesis using assms(4) by auto
  qed
  moreover have "m \<in> pre \<or> int m \<in> as_id ` set (store sv')" if m: "m < MAX_NUM_JRTC_APPS" "app_envs st' ! m \<noteq> None" for m
  proof -
    have "m \<noteq> n" "app_envs st ! m \<noteq> None" using m assms(2-4) by (auto simp: nth_list_update split: if_splits)
    then show ?thesis using assms(1,5) m(1) r by (force simp: in_step_def)
  qed
  ultimately show ?thesis using r assms(5) by (simp add: in_step_def)
qed

lemma in_step_same: "in_step pre sv st \<Longrightarrow> app_envs st' = app_envs st \<Longrightarrow> store sv' = store sv \<Longrightarrow> in_step pre sv' st'"
  by (simp add: in_step_def)

lemma remove_first_none: "\<not> list_ex P xs \<Longrightarrow> remove_first P xs = xs"
  by (induction xs) auto

lemma request_keeps:
  assumes L: "ext_laws E V" and P: "proc_inv E V st" and S: "in_step pre sv st" and g: "good_request st req"
  shows "\<exists>r sv' st'. route E req sv st = Inr (r, sv', st') \<and> r \<noteq> Panicked \<and> proc_inv E V st' \<and> in_step pre sv' st'"
proof (cases req)
  case (POST_app p now os)
  then have c: "clean p" "good_event st (LoadRequest (c_request p) os)" using g by (simp_all add: good_request_def)
  have len: "length (app_envs st) = MAX_NUM_JRTC_APPS" using proc_invD(1) [OF P] by (simp add: ctrl_inv_def slots_wf_def)
  obtain r st' where l: "load_app os st (c_request p) = Inr (r, st')" "proc_inv E V st'"
    "(r = -1 \<and> app_envs st' = app_envs st) \<or>
     (\<exists>n a. n < MAX_NUM_JRTC_APPS \<and> r = int n \<and> app_envs st ! n = None \<and> app_envs st' = (app_envs st)[n := Some a])"
    by (rule load_table [OF P c(2)])
  obtain rp sv' where lr: "load_reply now p r (give_away (leaked_strings p) sv) = (rp, sv')" by fastforce
  have eq: "route E req sv st = Inr (rp, sv', st')" using POST_app l(1) lr by (simp add: route_def load_clean [OF c(1)])
  show ?thesis using l(3)
  proof (elim disjE exE conjE)
    assume r: "r = -1" "app_envs st' = app_envs st"
    then have "rp \<noteq> Panicked" "store sv' = store sv" using lr by (auto simp: load_reply_def give_away_def)
    then show ?thesis using eq l(2) in_step_same [OF S r(2)] by blast
  next
    fix n a assume r: "n < MAX_NUM_JRTC_APPS" "r = int n" "app_envs st ! n = None" "app_envs st' = (app_envs st)[n := Some a]"
    then have "rp \<noteq> Panicked" "store sv' = store sv @ [\<lparr>as_id = int n, as_request = p, as_start_time = now\<rparr>]"
      using lr by (auto simp: load_reply_def give_away_def Let_def)
    then show ?thesis using eq l(2) in_step_load [OF S r(1) len r(3,4)] by auto
  qed
next
  case (DELETE_app i os)
  then have ge: "good_event st (UnloadRequest i os)" using g by (simp add: good_request_def)
  then obtain n where n: "i = int n" by (auto simp: good_event_def elim: nonneg_int_cases)
  have len: "length (app_envs st) = MAX_NUM_JRTC_APPS" using proc_invD(1) [OF P] by (simp add: ctrl_inv_def slots_wf_def)
  obtain r st' where u: "unload_app E os st (int n) = Inr (r, st')" "proc_inv E V st'" "n < MAX_NUM_JRTC_APPS"
    "(r = -1 \<and> app_envs st' = app_envs st \<and> app_envs st ! n = None) \<or> (r = 0 \<and> app_envs st' = (app_envs st)[n := None])"
    by (rule unload_table [OF L P ge [unfolded n]])
  show ?thesis using u(4)
  proof (elim disjE conjE)
    assume "r = -1" "app_envs st' = app_envs st"
    then show ?thesis using DELETE_app n u(1,2) in_step_same [OF S, of st' sv] by (simp add: route_def rest_unload_app_def)
  next
    assume r: "r = 0" "app_envs st' = (app_envs st)[n := None]"
    define sv' where "sv' = sv\<lparr>store := remove_first (\<lambda>x. as_id x = int n) (store sv)\<rparr>"
    have "in_step pre sv' st'" by (rule in_step_unload [OF S u(3) len r(2)]) (simp add: sv'_def)
    moreover have "sv' = sv" if "\<not> list_ex (\<lambda>x. as_id x = int n) (store sv)" using remove_first_none [OF that] by (simp add: sv'_def)
    ultimately show ?thesis using DELETE_app n u(1,2) r(1) by (auto simp: route_def rest_unload_app_def sv'_def)
  qed
qed (use S P in \<open>auto simp: route_def get_app_def get_apps_def split: option.splits\<close>)

lemma rest_runs_keep:
  assumes L: "ext_laws E V" and A: "app_ok E V app" and T: "keeps_table app" and "rest_runs E app q q'" and "proc_inv E V (snd q)" and "in_step pre (fst q) (snd q)"
  shows "proc_inv E V (snd q') \<and> in_step pre (fst q') (snd q')"
  using assms(4-6)
proof induction
  case (request sv st req r sv' st')
  then show ?case using request_keeps [OF L _ _ request.hyps(2), of pre sv] by auto
next
  case (thread sv st os i sg st' sg')
  have "good_event st (AppThread i os)" using thread.hyps(2) by (simp add: good_event_def)
  then have "proc_inv E V st'" using event_keeps [OF L A _ _, of st "AppThread i os" sg] thread by auto
  then show ?case using in_step_same [of pre sv st st' sv] thread thread_table [OF T thread.hyps(3)] by auto
qed simp


lemma post0_good: "good_request ctrl0 (POST_app payload0 ''now'' os0)"
proof -
  have "fst (jrtc_load_app_from_memory os0 ctrl0 (lr_app_size (c_request payload0))) = Some 9" by code_simp
  then show ?thesis by (simp add: good_request_def good_event_def payload0_clean ctrl0_def os0_def)
qed


text \<open>Deleting an id outside the table reads and writes beyond it, and an application that was loaded before the server started is
  unloaded but answered with \<open>404\<close>.\<close>

lemma delete_out_of_range:
  "\<not> (0 \<le> i \<and> i < int MAX_NUM_JRTC_APPS) \<Longrightarrow> route E (DELETE_app i os) sv st = Inl OutOfBounds"
  by (simp add: route_def rest_unload_app_def unload_app_def)

lemma delete_preloaded:
  assumes "unload_app E os st i = Inr (0, st')" and "i \<notin> as_id ` set (store sv)"
  shows "route E (DELETE_app i os) sv st = Inr (Reply 404 (Details ''App not found''), sv, st')"
  using assms by (auto simp: route_def rest_unload_app_def list_ex_iff)

end
