(* ===== verification/Samples.thy ===== *)
theory Samples
  imports Jrtc_App
begin

text \<open>
  The sample applications in C under \<open>sample_apps\<close>: the first example and the two halves of the advanced example, each
  written once with the wrapper of \<open>Jrtc_App\<close> (\<open>first_example_c\<close>, \<open>advanced_example_c\<close>) and once directly against the router
  (\<open>first_example\<close>, \<open>advanced_example\<close>).  They add up the counters that a codelet sends and pass the sum on.  Sums are
  32-bit words and wrap.  An \<open>assert\<close> that does not hold aborts the process.
\<close>

section \<open>Messages\<close>

text \<open>
  What the buffers of received messages hold, and the structures that \<open>nanopb\<close> generates from the schemas: the counter of an
  \<open>example_msg_pb\<close>, the value of a \<open>simple_input_pb\<close>, and the bytes of a \<open>simple_input_pb\<close> with a given value.  The plain
  structures \<open>example_msg\<close> and \<open>simple_input\<close> are one \<open>int\<close>.
\<close>

record payloads =
  buf :: "addr \<Rightarrow> u8 list"
  pb_cnt :: "u8 list \<Rightarrow> u32"
  pb_value :: "u8 list \<Rightarrow> u32"
  pb_bytes :: "u32 \<Rightarrow> u8 list"

definition le32_bytes :: "u32 \<Rightarrow> u8 list" where
  "le32_bytes w = [ucast w, ucast (drop_bit 8 w), ucast (drop_bit 16 w), ucast (drop_bit 24 w)]"

definition example_msg_cnt :: "payloads \<Rightarrow> addr \<Rightarrow> u32" where
  "example_msg_cnt P d = le32 (buf P d)"

definition simple_input_bytes :: "u32 \<Rightarrow> u8 list" where
  "simple_input_bytes v = le32_bytes v"

text \<open>Reading \<open>sizeof(simple_input_pb)\<close> bytes from the address of a 32-bit variable.\<close>

definition bytes_at_agg_cnt :: "payloads \<Rightarrow> u32 \<Rightarrow> ub + u8 list" where
  "bytes_at_agg_cnt P agg =
     (let n = length (pb_bytes P 0) in if 4 < n then Inl OutOfBounds else Inr (take n (le32_bytes agg)))"

text \<open>What an application does that others can see: messages sent to an input channel, writes to a reserved buffer of an
  output channel that is then sent, and what it prints (the format and the numbers).\<close>

datatype effect =
    SentInput "u8 list"
  | SentOutput addr "u8 list"
  | Printed string "int list"

record AppStateVars =
  agg_cnt :: u32
  received_counter :: u32
  outputs :: "effect list"

definition AppStateVars_0 :: AppStateVars where
  "AppStateVars_0 = \<lparr>agg_cnt = 0, received_counter = 0, outputs = []\<rparr>"

definition add_cnt :: "u32 \<Rightarrow> AppStateVars \<Rightarrow> AppStateVars" where
  "add_cnt c v = v\<lparr>agg_cnt := agg_cnt v + c\<rparr>"

definition count_message :: "AppStateVars \<Rightarrow> AppStateVars" where
  "count_message v = v\<lparr>received_counter := received_counter v + 1\<rparr>"

definition emit :: "effect list \<Rightarrow> AppStateVars \<Rightarrow> AppStateVars" where
  "emit os v = v\<lparr>outputs := outputs v @ os\<rparr>"

definition every_fifth :: "AppStateVars \<Rightarrow> bool" where
  "every_fifth v \<longleftrightarrow> sint (received_counter v) mod 5 = 0 \<and> 0 < sint (received_counter v)"

definition assert_that :: "bool \<Rightarrow> ub + unit" where
  "assert_that b = (if b then Inr () else Inl Aborted)"

text \<open>The ids as the structures of the wrapper have them, and a stream with no channel.\<close>

definition sid_cfg :: "u32 \<Rightarrow> u32 \<Rightarrow> string \<Rightarrow> string \<Rightarrow> JrtcStreamIdCfg" where
  "sid_cfg dst dev source io =
     \<lparr>cfg_destination = sint dst, cfg_device_id = sint dev, cfg_stream_source = Some source, cfg_io_map = Some io\<rparr>"

definition sample_cfg :: "JrtcStreamCfg list \<Rightarrow> JrtcAppCfg" where
  "sample_cfg ss = \<lparr>q_size = 100, streams = ss, initialization_timeout_secs = 10, sleep_timeout_secs = 1 / 10, inactivity_timeout_secs = 1\<rparr>"

definition on_vars ::
    "(AppStateVars \<Rightarrow> AppStateVars) \<Rightarrow> ('e, 'bm, 'ht, 'rg, 'pl, AppStateVars) JrtcApp \<Rightarrow> ('e, 'bm, 'ht, 'rg, 'pl, AppStateVars) JrtcApp" where
  "on_vars f s = s\<lparr>app_state := f (app_state s)\<rparr>"

text \<open>Sending to an input channel through the wrapper, with the assertion that follows each such call.\<close>

definition send_input ::
    "('e, 'bm, 'it, 'ht, 'rg, 'pl) ext \<Rightarrow> u32 \<Rightarrow> u8 list \<Rightarrow> ('e, 'bm, 'ht, 'rg, 'pl, AppStateVars) JrtcApp \<Rightarrow>
     ub + ('e, 'bm, 'ht, 'rg, 'pl, AppStateVars) JrtcApp" where
  "send_input E idx bs s =
     (case jrtc_app_router_channel_send_input_msg E s idx (Some bs) (of_nat (length bs)) of
        (res, s) \<Rightarrow> bindS (assert_that (res = 0)) (\<lambda>_. Inr (on_vars (emit [SentInput bs]) s)))"

text \<open>The body of \<open>jrtc_start_app\<close> of the applications that use the wrapper.\<close>

definition start_with_wrapper ::
    "nat \<Rightarrow> nat \<Rightarrow> bool \<Rightarrow> ('e, 'bm, 'it, 'ht, 'rg, 'pl) ext \<Rightarrow> ('e, 'bm, 'ht, 'rg, 'pl) host \<Rightarrow>
     ('e, 'bm, 'ht, 'rg, 'pl, AppStateVars) JrtcAppHandler \<Rightarrow> JrtcAppCfg \<Rightarrow> addr option \<Rightarrow>
     ('e, 'bm, 'ht, 'rg, 'pl) jrtc_router_ctx \<Rightarrow> mem \<Rightarrow> (ub + ('e, 'bm, 'ht, 'rg, 'pl, AppStateVars) JrtcApp) option" where
  "start_with_wrapper n k sc E H h cfg dapp rt m =
     (case jrtc_app_create H rt m 0 0 AppStateVars_0 of
        Inl e \<Rightarrow> Some (Inl e)
      | Inr (app, s) \<Rightarrow>
          map_option (\<lambda>r. bindS r (\<lambda>s'. case s' of
              None \<Rightarrow> Inl NullDeref
            | Some s \<Rightarrow> bindS (jrtc_app_destroy (ja_heap s) (Some app)) (\<lambda>m. Inr (s\<lparr>ja_heap := m\<rparr>))))
            (jrtc_app_run n k sc E H h dapp cfg (Some s)))"

section \<open>First example, with the wrapper\<close>

definition first_c_cfg :: JrtcAppCfg where
  "first_c_cfg = sample_cfg
     [\<lparr>str_sid = sid_cfg JRTC_ROUTER_DEST_ANY JRTC_ROUTER_DEVICE_ID_ANY ''FirstExample://jbpf_agent/data_generator_codeletset/codelet'' ''ringbuf'',
       is_rx = True, appChannel = None\<rparr>,
      \<lparr>str_sid = sid_cfg JRTC_ROUTER_DEST_NONE 1 ''FirstExample://jbpf_agent/simple_input_codeletset/codelet'' ''input_map'',
       is_rx = False, appChannel = None\<rparr>]"

definition first_c_app_handler ::
    "('e, 'bm, 'it, 'ht, 'rg, 'pl) ext \<Rightarrow> payloads \<Rightarrow> ('e, 'bm, 'ht, 'rg, 'pl, AppStateVars) JrtcAppHandler" where
  "first_c_app_handler E P timeout stream_idx x s =
     (if timeout then Inr s
      else
        bindS (if stream_idx = 0
               then (case x of
                       None \<Rightarrow> Inl NullDeref
                     | Some d \<Rightarrow> Inr (on_vars (add_cnt (example_msg_cnt P (de_data d)) \<circ> count_message) s))
               else Inr s) (\<lambda>s.
        if every_fifth (app_state s)
        then
          bindS (send_input E 1 (simple_input_bytes (agg_cnt (app_state s))) s) (\<lambda>s.
            Inr (on_vars (emit [Printed ''FirstExample: Aggregate counter so far is: %u'' [uint (agg_cnt (app_state s))]]) s))
        else Inr s))"

definition first_c_start_app ::
    "nat \<Rightarrow> nat \<Rightarrow> bool \<Rightarrow> ('e, 'bm, 'it, 'ht, 'rg, 'pl) ext \<Rightarrow> payloads \<Rightarrow> ('e, 'bm, 'ht, 'rg, 'pl) host \<Rightarrow> addr option \<Rightarrow>
     ('e, 'bm, 'ht, 'rg, 'pl) jrtc_router_ctx \<Rightarrow> mem \<Rightarrow> (ub + ('e, 'bm, 'ht, 'rg, 'pl, AppStateVars) JrtcApp) option" where
  "first_c_start_app n k sc E P H = start_with_wrapper n k sc E H (first_c_app_handler E P) first_c_cfg"

section \<open>Advanced example, with the wrapper\<close>

definition advanced1_c_cfg :: "payloads \<Rightarrow> JrtcAppCfg" where
  "advanced1_c_cfg P = sample_cfg
     [\<lparr>str_sid = sid_cfg JRTC_ROUTER_DEST_ANY JRTC_ROUTER_DEVICE_ID_ANY ''AdvancedExample1://jbpf_agent/data_generator_codeletset/codelet'' ''ringbuf'',
       is_rx = True, appChannel = None\<rparr>,
      \<lparr>str_sid = sid_cfg JRTC_ROUTER_DEST_ANY 0 ''AdvancedExample2://intraapp'' ''buffer'', is_rx = True, appChannel = None\<rparr>,
      \<lparr>str_sid = sid_cfg JRTC_ROUTER_DEST_NONE 1 ''AdvancedExample1://jbpf_agent/simple_input_pb_codeletset/codelet'' ''input_map'',
       is_rx = False, appChannel = None\<rparr>,
      \<lparr>str_sid = sid_cfg JRTC_ROUTER_DEST_NONE 0 ''AdvancedExample1://intraapp'' ''buffer_input'', is_rx = True,
       appChannel = Some \<lparr>chan_is_output = False, chan_num_elems = 100, chan_elem_size = int (length (pb_bytes P 0))\<rparr>\<rparr>]"

definition advanced1_c_app_handler ::
    "('e, 'bm, 'it, 'ht, 'rg, 'pl) ext \<Rightarrow> payloads \<Rightarrow> ('e, 'bm, 'ht, 'rg, 'pl, AppStateVars) JrtcAppHandler" where
  "advanced1_c_app_handler E P timeout stream_idx x s =
     (if timeout then Inr s
      else if stream_idx = 0 then
        (case x of
           None \<Rightarrow> Inl NullDeref
         | Some d \<Rightarrow>
             (let s = on_vars (add_cnt (example_msg_cnt P (de_data d))) s;
                  s = on_vars (emit [Printed ''App1: Aggregate counter from codelet is %d'' [sint (agg_cnt (app_state s))]]) s
              in bindS (bytes_at_agg_cnt P (agg_cnt (app_state s))) (\<lambda>bs. send_input E 2 bs s)))
      else if stream_idx = 1 then
        (case x of
           None \<Rightarrow> Inl NullDeref
         | Some d \<Rightarrow>
             Inr (on_vars (emit [Printed ''App1: Received aggregate counter %d from output channel of App2'' [sint (pb_value P (buf P (de_data d)))]]) s))
      else if stream_idx = 3 then
        (case x of
           None \<Rightarrow> Inl NullDeref
         | Some d \<Rightarrow>
             Inr (on_vars (emit [Printed ''App1: Received aggregate counter %d from input channel of App1'' [sint (pb_value P (buf P (de_data d)))]]) s))
      else Inl Aborted)"

definition advanced1_c_start_app ::
    "nat \<Rightarrow> nat \<Rightarrow> bool \<Rightarrow> ('e, 'bm, 'it, 'ht, 'rg, 'pl) ext \<Rightarrow> payloads \<Rightarrow> ('e, 'bm, 'ht, 'rg, 'pl) host \<Rightarrow> addr option \<Rightarrow>
     ('e, 'bm, 'ht, 'rg, 'pl) jrtc_router_ctx \<Rightarrow> mem \<Rightarrow> (ub + ('e, 'bm, 'ht, 'rg, 'pl, AppStateVars) JrtcApp) option" where
  "advanced1_c_start_app n k sc E P H = start_with_wrapper n k sc E H (advanced1_c_app_handler E P) (advanced1_c_cfg P)"

definition advanced2_c_cfg :: "payloads \<Rightarrow> JrtcAppCfg" where
  "advanced2_c_cfg P = sample_cfg
     [\<lparr>str_sid = sid_cfg JRTC_ROUTER_DEST_ANY JRTC_ROUTER_DEVICE_ID_ANY ''AdvancedExample2://jbpf_agent/data_generator_pb_codeletset/codelet'' ''ringbuf'',
       is_rx = True, appChannel = None\<rparr>,
      \<lparr>str_sid = sid_cfg JRTC_ROUTER_DEST_NONE 0 ''AdvancedExample2://intraapp'' ''buffer'', is_rx = False,
       appChannel = Some \<lparr>chan_is_output = True, chan_num_elems = 100, chan_elem_size = int (length (pb_bytes P 0))\<rparr>\<rparr>,
      \<lparr>str_sid = sid_cfg JRTC_ROUTER_DEST_NONE 0 ''AdvancedExample1://intraapp'' ''buffer_input'', is_rx = False, appChannel = None\<rparr>]"

text \<open>Sending the sum on the output channel of the second application: a buffer is reserved, written and sent.\<close>

definition send_output ::
    "('e, 'bm, 'it, 'ht, 'rg, 'pl) ext \<Rightarrow> payloads \<Rightarrow> ('e, 'bm, 'ht, 'rg, 'pl, AppStateVars) JrtcApp \<Rightarrow>
     ub + ('e, 'bm, 'ht, 'rg, 'pl, AppStateVars) JrtcApp" where
  "send_output E P s =
     bindS (jrtc_app_router_channel_reserve_buf E s 1) (\<lambda>(counter, s).
       (case counter of
          None \<Rightarrow> Inl Aborted
        | Some b \<Rightarrow>
            bindS (jrtc_app_router_channel_send_output E s 1) (\<lambda>(res, s).
            bindS (assert_that (res = 0)) (\<lambda>_.
              Inr (on_vars (emit [SentOutput b (pb_bytes P (agg_cnt (app_state s)))]) s)))))"

definition advanced2_c_app_handler ::
    "('e, 'bm, 'it, 'ht, 'rg, 'pl) ext \<Rightarrow> payloads \<Rightarrow> ('e, 'bm, 'ht, 'rg, 'pl, AppStateVars) JrtcAppHandler" where
  "advanced2_c_app_handler E P timeout stream_idx x s =
     (if timeout then Inr s
      else
        bindS (if stream_idx = 0
               then (case x of
                       None \<Rightarrow> Inl NullDeref
                     | Some d \<Rightarrow>
                         (let s = on_vars (add_cnt (pb_cnt P (buf P (de_data d))) \<circ> count_message) s;
                              s = on_vars (emit [Printed ''App2: Aggregate counter from codelet is %d'' [sint (agg_cnt (app_state s))]]) s
                          in bindS (send_output E P s) (\<lambda>s. send_input E 2 (pb_bytes P (agg_cnt (app_state s))) s)))
               else Inr (on_vars (emit [Printed ''App1: Got some unexpected message (stream_index=%d)'' [stream_idx]]) s)) (\<lambda>s.
        Inr (if every_fifth (app_state s)
             then on_vars (emit [Printed ''App2: Aggregate counter so far is %u'' [uint (agg_cnt (app_state s))]]) s
             else s)))"

definition advanced2_c_start_app ::
    "nat \<Rightarrow> nat \<Rightarrow> bool \<Rightarrow> ('e, 'bm, 'it, 'ht, 'rg, 'pl) ext \<Rightarrow> payloads \<Rightarrow> ('e, 'bm, 'ht, 'rg, 'pl) host \<Rightarrow> addr option \<Rightarrow>
     ('e, 'bm, 'ht, 'rg, 'pl) jrtc_router_ctx \<Rightarrow> mem \<Rightarrow> (ub + ('e, 'bm, 'ht, 'rg, 'pl, AppStateVars) JrtcApp) option" where
  "advanced2_c_start_app n k sc E P H = start_with_wrapper n k sc E H (advanced2_c_app_handler E P) (advanced2_c_cfg P)"

end
