(* ===== verification/Samples_Direct.thy ===== *)
theory Samples_Direct
  imports Samples
begin

text \<open>
  The sample applications that call the router directly: \<open>first_example/first_example.c\<close> and
  \<open>advanced_example/advanced_example1.c\<close> and \<open>advanced_example2.c\<close>.  Each is one function: it generates ids, registers
  requests, waits for the input channel it sends to, receives until \<open>app_exit\<close> is set, and deregisters a request.
\<close>

section \<open>State\<close>

text \<open>The router and the heap, the number of sleeps so far, the local variables that change, and the pointer \<open>data\<close>, which has
  no initial value in the source.\<close>

record ('e, 'bm, 'ht, 'rg, 'pl) direct_app =
  dr_router :: "('e, 'bm, 'ht, 'rg, 'pl) jrtc_router_ctx"
  dr_heap :: mem
  dr_sleeps :: nat
  dr_data :: "addr option"
  dr_sent_counter :: u32
  dr_vars :: AppStateVars

definition direct_vars ::
    "(AppStateVars \<Rightarrow> AppStateVars) \<Rightarrow> ('e, 'bm, 'ht, 'rg, 'pl) direct_app \<Rightarrow> ('e, 'bm, 'ht, 'rg, 'pl) direct_app" where
  "direct_vars f s = s\<lparr>dr_vars := f (dr_vars s)\<rparr>"

definition direct_start ::
    "('e, 'bm, 'ht, 'rg, 'pl) jrtc_router_ctx \<Rightarrow> mem \<Rightarrow> addr option \<Rightarrow> ('e, 'bm, 'ht, 'rg, 'pl) direct_app" where
  "direct_start rt m junk =
     \<lparr>dr_router = rt, dr_heap = m, dr_sleeps = 0, dr_data = junk, dr_sent_counter = 0, dr_vars = AppStateVars_0\<rparr>"

text \<open>The rest of the process goes on while the application sleeps.\<close>

definition direct_sleep ::
    "('e, 'bm, 'ht, 'rg, 'pl) host \<Rightarrow> ('e, 'bm, 'ht, 'rg, 'pl) direct_app \<Rightarrow> ('e, 'bm, 'ht, 'rg, 'pl) direct_app" where
  "direct_sleep H s = s\<lparr>dr_router := others H 0 (dr_sleeps s) (dr_router s), dr_sleeps := Suc (dr_sleeps s)\<rparr>"

section \<open>Calls of the router\<close>

definition direct_generate ::
    "bool \<Rightarrow> ('e, 'bm, 'ht, 'rg, 'pl) host \<Rightarrow> u32 \<Rightarrow> u32 \<Rightarrow> string \<Rightarrow> string \<Rightarrow> ('e, 'bm, 'ht, 'rg, 'pl) direct_app \<Rightarrow>
     ub + (int \<times> stream_id \<times> ('e, 'bm, 'ht, 'rg, 'pl) direct_app)" where
  "direct_generate sc H dst dev path name s =
     bindS (jrtc_router_generate_stream_id sc (dr_heap s) (Some (junk_sid H)) dst dev (Some path) (Some name))
       (\<lambda>(res, sid, m). case sid of None \<Rightarrow> Inl NullDeref | Some sid \<Rightarrow> Inr (res, sid, s\<lparr>dr_heap := m\<rparr>))"

definition direct_register ::
    "('e, 'bm, 'it, 'ht, 'rg, 'pl) ext \<Rightarrow> addr option \<Rightarrow> stream_id \<Rightarrow> ('e, 'bm, 'ht, 'rg, 'pl) direct_app \<Rightarrow>
     ub + (int \<times> ('e, 'bm, 'ht, 'rg, 'pl) direct_app)" where
  "direct_register E dapp sid s =
     bindS (jrtc_router_channel_register_stream_id_req E (dr_router s) dapp sid) (\<lambda>(res, rt). Inr (res, s\<lparr>dr_router := rt\<rparr>))"

definition direct_channel ::
    "('e, 'bm, 'it, 'ht, 'rg, 'pl) ext \<Rightarrow> ('e, 'bm, 'ht, 'rg, 'pl) host \<Rightarrow> addr option \<Rightarrow> bool \<Rightarrow> int \<Rightarrow> stream_id \<Rightarrow>
     ('e, 'bm, 'ht, 'rg, 'pl) direct_app \<Rightarrow> ub + (addr option \<times> ('e, 'bm, 'ht, 'rg, 'pl) direct_app)" where
  "direct_channel E H dapp out elem_size sid s =
     bindS (jrtc_router_channel_create E (dr_router s) (create_stack H 0) (param_addr H 0) dapp out 100 elem_size sid None)
       (\<lambda>(c, rt). Inr (c, s\<lparr>dr_router := rt\<rparr>))"

definition direct_send_input ::
    "('e, 'bm, 'it, 'ht, 'rg, 'pl) ext \<Rightarrow> stream_id \<Rightarrow> u8 list \<Rightarrow> ('e, 'bm, 'ht, 'rg, 'pl) direct_app \<Rightarrow>
     int \<times> ('e, 'bm, 'ht, 'rg, 'pl) direct_app" where
  "direct_send_input E sid bs s =
     (case jrtc_router_channel_send_input_msg E (dr_router s) sid (Some bs) (of_nat (length bs)) of
        (res, rt) \<Rightarrow> (res, direct_vars (emit [SentInput bs]) (s\<lparr>dr_router := rt\<rparr>)))"

definition direct_release ::
    "('e, 'bm, 'it, 'ht, 'rg, 'pl) ext \<Rightarrow> ('e, 'bm, 'ht, 'rg, 'pl) direct_app \<Rightarrow> ('e, 'bm, 'ht, 'rg, 'pl) direct_app" where
  "direct_release E s = s\<lparr>dr_router := jrtc_router_channel_release_buf E (dr_router s) (dr_data s)\<rparr>"

definition direct_deregister ::
    "('e, 'bm, 'it, 'ht, 'rg, 'pl) ext \<Rightarrow> addr option \<Rightarrow> stream_id \<Rightarrow> ('e, 'bm, 'ht, 'rg, 'pl) direct_app \<Rightarrow>
     ub + ('e, 'bm, 'ht, 'rg, 'pl) direct_app" where
  "direct_deregister E dapp sid s =
     bindS (jrtc_router_channel_deregister_stream_id_req E (dr_router s) dapp sid) (\<lambda>rt. Inr (s\<lparr>dr_router := rt\<rparr>))"

section \<open>Loops\<close>

text \<open>Waiting for an input channel; \<open>None\<close> after \<open>n\<close> sleeps.\<close>

primrec direct_wait ::
    "nat \<Rightarrow> ('e, 'bm, 'it, 'ht, 'rg, 'pl) ext \<Rightarrow> ('e, 'bm, 'ht, 'rg, 'pl) host \<Rightarrow> stream_id \<Rightarrow> ('e, 'bm, 'ht, 'rg, 'pl) direct_app \<Rightarrow>
     ('e, 'bm, 'ht, 'rg, 'pl) direct_app option" where
  "direct_wait 0 E H sid s = (if jrtc_router_input_channel_exists E (dr_router s) sid \<noteq> 0 then Some s else None)"
| "direct_wait (Suc n) E H sid s =
     (if jrtc_router_input_channel_exists E (dr_router s) sid \<noteq> 0 then Some s else direct_wait n E H sid (direct_sleep H s))"

text \<open>The first \<open>k\<close> iterations of the main loop, after which \<open>app_exit\<close> is seen.\<close>

primrec direct_loop ::
    "nat \<Rightarrow> ('e, 'bm, 'it, 'ht, 'rg, 'pl) ext \<Rightarrow> ('e, 'bm, 'ht, 'rg, 'pl) host \<Rightarrow>
     (jrtc_router_data_entry list \<Rightarrow> ('e, 'bm, 'ht, 'rg, 'pl) direct_app \<Rightarrow> ub + ('e, 'bm, 'ht, 'rg, 'pl) direct_app) \<Rightarrow> addr option \<Rightarrow>
     ('e, 'bm, 'ht, 'rg, 'pl) direct_app \<Rightarrow> ub + ('e, 'bm, 'ht, 'rg, 'pl) direct_app" where
  "direct_loop 0 E H batch dapp s = Inr s"
| "direct_loop (Suc k) E H batch dapp s =
     (case dapp of
        None \<Rightarrow> Inl NullDeref
      | Some a \<Rightarrow>
          bindS (jrtc_router_receive E (dr_router s) a 100) (\<lambda>(xs, rt).
          bindS (if xs = [] then Inr (s\<lparr>dr_router := rt\<rparr>) else batch xs (s\<lparr>dr_router := rt\<rparr>)) (\<lambda>s.
            direct_loop k E H batch dapp (direct_sleep H s))))"

text \<open>The entries of one batch, in order.\<close>

primrec direct_entries ::
    "(jrtc_router_data_entry \<Rightarrow> ('e, 'bm, 'ht, 'rg, 'pl) direct_app \<Rightarrow> ub + ('e, 'bm, 'ht, 'rg, 'pl) direct_app) \<Rightarrow>
     jrtc_router_data_entry list \<Rightarrow> ('e, 'bm, 'ht, 'rg, 'pl) direct_app \<Rightarrow> ub + ('e, 'bm, 'ht, 'rg, 'pl) direct_app" where
  "direct_entries entry [] s = Inr s"
| "direct_entries entry (x # xs) s = bindS (entry x s) (direct_entries entry xs)"

section \<open>First example\<close>

definition first_setup ::
    "bool \<Rightarrow> ('e, 'bm, 'it, 'ht, 'rg, 'pl) ext \<Rightarrow> ('e, 'bm, 'ht, 'rg, 'pl) host \<Rightarrow> addr option \<Rightarrow> ('e, 'bm, 'ht, 'rg, 'pl) direct_app \<Rightarrow>
     ub + (stream_id \<times> stream_id \<times> ('e, 'bm, 'ht, 'rg, 'pl) direct_app)" where
  "first_setup sc E H dapp s =
     bindS (direct_generate sc H JRTC_ROUTER_DEST_ANY JRTC_ROUTER_DEVICE_ID_ANY
              ''FirstExample://jbpf_agent/data_generator_codeletset/codelet'' ''ringbuf'' s) (\<lambda>(res, codelet_sid, s).
     bindS (assert_that (res = 1)) (\<lambda>_.
     bindS (direct_register E dapp codelet_sid s) (\<lambda>(res, s).
     bindS (assert_that (res = 1)) (\<lambda>_.
     bindS (direct_generate sc H JRTC_ROUTER_DEST_NONE 1
              ''FirstExample://jbpf_agent/simple_input_codeletset/codelet'' ''input_map'' s) (\<lambda>(_, control_input_sid, s).
       Inr (codelet_sid, control_input_sid, s))))))"

definition first_entry ::
    "('e, 'bm, 'it, 'ht, 'rg, 'pl) ext \<Rightarrow> payloads \<Rightarrow> stream_id \<Rightarrow> jrtc_router_data_entry \<Rightarrow> ('e, 'bm, 'ht, 'rg, 'pl) direct_app \<Rightarrow>
     ub + ('e, 'bm, 'ht, 'rg, 'pl) direct_app" where
  "first_entry E P codelet_sid x s =
     Inr (direct_release E
       (if jrtc_router_stream_id_matches_req (de_stream_id x) codelet_sid
        then direct_vars (add_cnt (example_msg_cnt P (de_data x)) \<circ> count_message) (s\<lparr>dr_data := Some (de_data x)\<rparr>)
        else s))"

definition first_batch ::
    "('e, 'bm, 'it, 'ht, 'rg, 'pl) ext \<Rightarrow> payloads \<Rightarrow> stream_id \<Rightarrow> stream_id \<Rightarrow> jrtc_router_data_entry list \<Rightarrow>
     ('e, 'bm, 'ht, 'rg, 'pl) direct_app \<Rightarrow> ub + ('e, 'bm, 'ht, 'rg, 'pl) direct_app" where
  "first_batch E P codelet_sid control_input_sid xs s =
     bindS (direct_entries (first_entry E P codelet_sid) xs s) (\<lambda>s.
       Inr (if every_fifth (dr_vars s)
            then direct_vars (emit [Printed ''FirstExample: Aggregate counter so far is %u'' [uint (agg_cnt (dr_vars s))]])
                   (snd (direct_send_input E control_input_sid (simple_input_bytes (agg_cnt (dr_vars s))) s))
            else s))"

definition first_start_app ::
    "nat \<Rightarrow> nat \<Rightarrow> bool \<Rightarrow> ('e, 'bm, 'it, 'ht, 'rg, 'pl) ext \<Rightarrow> payloads \<Rightarrow> ('e, 'bm, 'ht, 'rg, 'pl) host \<Rightarrow> addr option \<Rightarrow>
     ('e, 'bm, 'ht, 'rg, 'pl) direct_app \<Rightarrow> (ub + ('e, 'bm, 'ht, 'rg, 'pl) direct_app) option" where
  "first_start_app n k sc E P H dapp s =
     (case first_setup sc E H dapp s of
        Inl e \<Rightarrow> Some (Inl e)
      | Inr (codelet_sid, control_input_sid, s) \<Rightarrow>
          map_option (\<lambda>s. bindS (direct_loop k E H (first_batch E P codelet_sid control_input_sid) dapp s)
                            (direct_deregister E dapp codelet_sid))
            (direct_wait n E H control_input_sid s))"

section \<open>Advanced example, first application\<close>

definition advanced1_setup ::
    "bool \<Rightarrow> ('e, 'bm, 'it, 'ht, 'rg, 'pl) ext \<Rightarrow> payloads \<Rightarrow> ('e, 'bm, 'ht, 'rg, 'pl) host \<Rightarrow> addr option \<Rightarrow> ('e, 'bm, 'ht, 'rg, 'pl) direct_app \<Rightarrow>
     ub + (stream_id \<times> stream_id \<times> stream_id \<times> stream_id \<times> ('e, 'bm, 'ht, 'rg, 'pl) direct_app)" where
  "advanced1_setup sc E P H dapp s =
     bindS (direct_generate sc H JRTC_ROUTER_DEST_ANY JRTC_ROUTER_DEVICE_ID_ANY
              ''AdvancedExample1://jbpf_agent/data_generator_codeletset/codelet'' ''ringbuf'' s) (\<lambda>(res, data_generator_codelet_sid, s).
     bindS (assert_that (res = 1)) (\<lambda>_.
     bindS (direct_register E dapp data_generator_codelet_sid s) (\<lambda>(res, s).
     bindS (assert_that (res = 1)) (\<lambda>_.
     bindS (direct_generate sc H JRTC_ROUTER_DEST_ANY 0 ''AdvancedExample2://intraapp'' ''buffer'' s) (\<lambda>(res, app2_output_sid, s).
     bindS (assert_that (res = 1)) (\<lambda>_.
     bindS (direct_register E dapp app2_output_sid s) (\<lambda>(res, s).
     bindS (assert_that (res = 1)) (\<lambda>_.
     bindS (direct_generate sc H JRTC_ROUTER_DEST_NONE 1
              ''AdvancedExample1://jbpf_agent/simple_input_pb_codeletset/codelet'' ''input_map'' s) (\<lambda>(res, input_codelet_sid, s).
     bindS (assert_that (res = 1)) (\<lambda>_.
     bindS (direct_generate sc H JRTC_ROUTER_DEST_NONE 0 ''AdvancedExample1://intraapp'' ''buffer_input'' s) (\<lambda>(res, stream_id_app_input, s).
     bindS (assert_that (res = 1)) (\<lambda>_.
     bindS (direct_channel E H dapp False (int (length (pb_bytes P 0))) stream_id_app_input s) (\<lambda>(ctx_input, s).
     bindS (assert_that (ctx_input \<noteq> None)) (\<lambda>_.
       Inr (data_generator_codelet_sid, app2_output_sid, input_codelet_sid, stream_id_app_input, s)))))))))))))))"

text \<open>Each of the branches is followed by the release of \<open>data\<close>, which only the first one sets.\<close>

definition advanced1_entry ::
    "('e, 'bm, 'it, 'ht, 'rg, 'pl) ext \<Rightarrow> payloads \<Rightarrow> stream_id \<Rightarrow> stream_id \<Rightarrow> stream_id \<Rightarrow> stream_id \<Rightarrow> jrtc_router_data_entry \<Rightarrow>
     ('e, 'bm, 'ht, 'rg, 'pl) direct_app \<Rightarrow> ub + ('e, 'bm, 'ht, 'rg, 'pl) direct_app" where
  "advanced1_entry E P data_generator_codelet_sid app2_output_sid input_codelet_sid stream_id_app_input x s =
     bindS
       (if jrtc_router_stream_id_matches_req (de_stream_id x) data_generator_codelet_sid then
          (let s = direct_vars (add_cnt (example_msg_cnt P (de_data x))) (s\<lparr>dr_data := Some (de_data x)\<rparr>);
               s = direct_vars (emit [Printed ''App1: Aggregate counter from codelet is %d'' [sint (agg_cnt (dr_vars s))]]) s
           in bindS (bytes_at_agg_cnt P (agg_cnt (dr_vars s))) (\<lambda>bs.
                (case direct_send_input E input_codelet_sid bs s of
                   (res, s) \<Rightarrow> bindS (assert_that (res = 0)) (\<lambda>_. Inr s))))
        else if jrtc_router_stream_id_matches_req (de_stream_id x) app2_output_sid then
          Inr (direct_vars (emit [Printed ''App1: Received aggregate counter %d from output channel of App2'' [sint (pb_value P (buf P (de_data x)))]]) s)
        else if jrtc_router_stream_id_matches_req (de_stream_id x) stream_id_app_input then
          Inr (direct_vars (emit [Printed ''App1: Received aggregate counter %d from input channel of App1'' [sint (pb_value P (buf P (de_data x)))]]) s)
        else Inl Aborted)
       (\<lambda>s. Inr (direct_release E s))"

definition advanced1_start_app ::
    "nat \<Rightarrow> nat \<Rightarrow> bool \<Rightarrow> ('e, 'bm, 'it, 'ht, 'rg, 'pl) ext \<Rightarrow> payloads \<Rightarrow> ('e, 'bm, 'ht, 'rg, 'pl) host \<Rightarrow> addr option \<Rightarrow>
     ('e, 'bm, 'ht, 'rg, 'pl) direct_app \<Rightarrow> (ub + ('e, 'bm, 'ht, 'rg, 'pl) direct_app) option" where
  "advanced1_start_app n k sc E P H dapp s =
     (case advanced1_setup sc E P H dapp s of
        Inl e \<Rightarrow> Some (Inl e)
      | Inr (data_generator_codelet_sid, app2_output_sid, input_codelet_sid, stream_id_app_input, s) \<Rightarrow>
          map_option (\<lambda>s. bindS (direct_loop k E H
                                   (direct_entries (advanced1_entry E P data_generator_codelet_sid app2_output_sid input_codelet_sid stream_id_app_input))
                                   dapp s)
                            (direct_deregister E dapp data_generator_codelet_sid))
            (direct_wait n E H input_codelet_sid s))"

section \<open>Advanced example, second application\<close>

definition advanced2_setup ::
    "bool \<Rightarrow> ('e, 'bm, 'it, 'ht, 'rg, 'pl) ext \<Rightarrow> payloads \<Rightarrow> ('e, 'bm, 'ht, 'rg, 'pl) host \<Rightarrow> addr option \<Rightarrow> ('e, 'bm, 'ht, 'rg, 'pl) direct_app \<Rightarrow>
     ub + (stream_id \<times> addr option \<times> stream_id \<times> ('e, 'bm, 'ht, 'rg, 'pl) direct_app)" where
  "advanced2_setup sc E P H dapp s =
     bindS (direct_generate sc H JRTC_ROUTER_DEST_ANY JRTC_ROUTER_DEVICE_ID_ANY
              ''AdvancedExample2://jbpf_agent/data_generator_pb_codeletset/codelet'' ''ringbuf'' s) (\<lambda>(res, codelet_stream_id, s).
     bindS (assert_that (res = 1)) (\<lambda>_.
     bindS (direct_register E dapp codelet_stream_id s) (\<lambda>(res, s).
     bindS (assert_that (res = 1)) (\<lambda>_.
     bindS (direct_generate sc H JRTC_ROUTER_DEST_NONE 0 ''AdvancedExample2://intraapp'' ''buffer'' s) (\<lambda>(res, stream_id_app_output, s).
     bindS (assert_that (res = 1)) (\<lambda>_.
     bindS (direct_channel E H dapp True (int (length (pb_bytes P 0))) stream_id_app_output s) (\<lambda>(output_channel_ctx, s).
     bindS (assert_that (output_channel_ctx \<noteq> None)) (\<lambda>_.
     bindS (direct_generate sc H JRTC_ROUTER_DEST_NONE 0 ''AdvancedExample1://intraapp'' ''buffer_input'' s) (\<lambda>(res, stream_id_app_input, s).
     bindS (assert_that (res \<noteq> 0)) (\<lambda>_.
       Inr (codelet_stream_id, output_channel_ctx, stream_id_app_input, s)))))))))))"

definition advanced2_entry ::
    "('e, 'bm, 'it, 'ht, 'rg, 'pl) ext \<Rightarrow> payloads \<Rightarrow> stream_id \<Rightarrow> addr option \<Rightarrow> stream_id \<Rightarrow> jrtc_router_data_entry \<Rightarrow>
     ('e, 'bm, 'ht, 'rg, 'pl) direct_app \<Rightarrow> ub + ('e, 'bm, 'ht, 'rg, 'pl) direct_app" where
  "advanced2_entry E P codelet_stream_id output_channel_ctx stream_id_app_input x s =
     bindS
       (if jrtc_router_stream_id_matches_req (de_stream_id x) codelet_stream_id then
          (let s = direct_vars (add_cnt (pb_cnt P (buf P (de_data x))) \<circ> count_message) (s\<lparr>dr_data := Some (de_data x)\<rparr>);
               s = direct_vars (emit [Printed ''App2: Aggregate counter from codelet is %d'' [sint (agg_cnt (dr_vars s))]]) s;
               bs = pb_bytes P (agg_cnt (dr_vars s))
           in bindS (jrtc_router_channel_reserve_buf E (dr_router s) output_channel_ctx) (\<lambda>(counter, rt).
              (case counter of
                 None \<Rightarrow> Inl Aborted
               | Some b \<Rightarrow>
                   bindS (jrtc_router_channel_send_output E rt output_channel_ctx) (\<lambda>(res, rt).
                   bindS (assert_that (res = 0)) (\<lambda>_.
                     (case direct_send_input E stream_id_app_input bs (direct_vars (emit [SentOutput b bs]) (s\<lparr>dr_router := rt\<rparr>)) of
                        (_, s) \<Rightarrow> Inr (s\<lparr>dr_sent_counter := dr_sent_counter s + 1\<rparr>)))))))
        else Inr (direct_vars (emit [Printed ''App2: Got some unexpected message'' []]) s))
       (\<lambda>s. Inr (direct_release E s))"

definition advanced2_batch ::
    "('e, 'bm, 'it, 'ht, 'rg, 'pl) ext \<Rightarrow> payloads \<Rightarrow> stream_id \<Rightarrow> addr option \<Rightarrow> stream_id \<Rightarrow> jrtc_router_data_entry list \<Rightarrow>
     ('e, 'bm, 'ht, 'rg, 'pl) direct_app \<Rightarrow> ub + ('e, 'bm, 'ht, 'rg, 'pl) direct_app" where
  "advanced2_batch E P codelet_stream_id output_channel_ctx stream_id_app_input xs s =
     bindS (direct_entries (advanced2_entry E P codelet_stream_id output_channel_ctx stream_id_app_input) xs s) (\<lambda>s.
       Inr (if every_fifth (dr_vars s)
            then direct_vars (emit [Printed ''App2: Aggregate counter so far is %u'' [uint (agg_cnt (dr_vars s))]]) s
            else s))"

definition advanced2_start_app ::
    "nat \<Rightarrow> nat \<Rightarrow> bool \<Rightarrow> ('e, 'bm, 'it, 'ht, 'rg, 'pl) ext \<Rightarrow> payloads \<Rightarrow> ('e, 'bm, 'ht, 'rg, 'pl) host \<Rightarrow> addr option \<Rightarrow>
     ('e, 'bm, 'ht, 'rg, 'pl) direct_app \<Rightarrow> (ub + ('e, 'bm, 'ht, 'rg, 'pl) direct_app) option" where
  "advanced2_start_app n k sc E P H dapp s =
     (case advanced2_setup sc E P H dapp s of
        Inl e \<Rightarrow> Some (Inl e)
      | Inr (codelet_stream_id, output_channel_ctx, stream_id_app_input, s) \<Rightarrow>
          map_option (\<lambda>s. bindS (direct_loop k E H (advanced2_batch E P codelet_stream_id output_channel_ctx stream_id_app_input) dapp s)
                            (direct_deregister E dapp codelet_stream_id))
            (direct_wait n E H stream_id_app_input s))"

end
