(* ===== verification/Samples_Props.thy ===== *)
theory Samples_Props
  imports Samples_Direct Jrtc_App_Props
begin

text \<open>
  Properties of the sample applications: what they add up and send, that the two versions of the first example agree when messages
  come one at a time, that the wrapped version runs to its end, and what goes wrong in the versions without the wrapper.
\<close>

section \<open>Sending\<close>

lemma sint_small:
  assumes "unat w < 2 ^ 31"
  shows "sint (w :: u32) = int (unat w)"
proof -
  have "int (unat w) < int (2 ^ 31)" using assms by (rule of_nat_less_iff [THEN iffD2])
  then have "uint w < 2 ^ 31" by simp
  moreover have "- (2 ^ 31) \<le> uint w" by (rule order_trans [OF _ uint_ge_0]) simp
  ultimately have "signed_take_bit 31 (uint w) = uint w" by (intro signed_take_bit_int_eq_self)
  then show ?thesis unfolding sint_uint by simp
qed

text \<open>Sending a message copies it: it allocates nothing for the sender and changes no reference to a received buffer.  That every
  message is accepted is a condition on the receiver, whose queue must not be full.\<close>

definition send_law :: "('e, 'bm, 'it, 'ht, 'rg, 'pl) ext \<Rightarrow> ('e, 'bm, 'it, 'ht, 'rg, 'pl) views \<Rightarrow> bool" where
  "send_law E V \<longleftrightarrow>
     (\<forall>e io sid dat n r e'. jbpf_io_channel_send_msg E e io sid dat n = (r, e') \<longrightarrow> v_live V e' = v_live V e \<and> v_refs V e' = v_refs V e)"

definition accepting :: "('e, 'bm, 'it, 'ht, 'rg, 'pl) ext \<Rightarrow> bool" where
  "accepting E \<longleftrightarrow> (\<forall>e io sid dat n. fst (jbpf_io_channel_send_msg E e io sid dat n) = 0)"

lemma sim_sends: "send_law sim sim_views" "accepting sim"
  by (simp_all add: send_law_def accepting_def sim_def)

lemma send_msg_ok:
  assumes "send_law E V" and "accepting E"
  obtains e where "jrtc_router_channel_send_input_msg E rt sid dat n = (0, rt\<lparr>env := e\<rparr>)" "v_live V e = v_live V (env rt)" "v_refs V e = v_refs V (env rt)"
proof -
  obtain r e where s: "jbpf_io_channel_send_msg E (env rt) (io_ctx rt) sid dat n = (r, e)" by fastforce
  moreover have "r = 0" using assms(2) s unfolding accepting_def by (metis fst_conv)
  moreover have "v_live V e = v_live V (env rt)" "v_refs V e = v_refs V (env rt)" using assms(1) s unfolding send_law_def by blast+
  ultimately show ?thesis using that by (simp add: jrtc_router_channel_send_input_msg_def)
qed

lemma send_input_ok:
  assumes "send_law E V" and "accepting E" and "unat idx < length (stream_items s)" and "unat idx < 2 ^ 31"
  obtains e where "send_input E idx bs s = Inr (s\<lparr>app_state := emit [SentInput bs] (app_state s), ja_router := (ja_router s)\<lparr>env := e\<rparr>\<rparr>)"
    "v_live V e = v_live V (env (ja_router s))" "v_refs V e = v_refs V (env (ja_router s))"
proof -
  have "sint idx = int (unat idx)" by (rule sint_small [OF assms(4)])
  then have "unat (word_of_int (sint idx) :: u64) = unat idx" using assms(4) by (simp add: unsigned_ucast_eq take_bit_nat_eq_self)
  then have g: "get_stream s (sint idx) = Some (item_sid (stream_items s ! unat idx))" using assms(3) by (simp add: get_stream_def)
  obtain e where e: "jrtc_router_channel_send_input_msg E (ja_router s) (item_sid (stream_items s ! unat idx)) (Some bs) (of_nat (length bs)) =
      (0, (ja_router s)\<lparr>env := e\<rparr>)" "v_live V e = v_live V (env (ja_router s))" "v_refs V e = v_refs V (env (ja_router s))"
    by (rule send_msg_ok [OF assms(1,2)])
  show ?thesis
    by (rule that [of e]) (simp_all add: e g send_input_def jrtc_app_router_channel_send_input_msg_def assert_that_def on_vars_def)
qed

section \<open>The handler of the first example\<close>

definition first_next :: "u32 \<Rightarrow> AppStateVars \<Rightarrow> AppStateVars" where
  "first_next c v =
     (let v = add_cnt c (count_message v)
      in if every_fifth v
         then emit [SentInput (simple_input_bytes (agg_cnt v)), Printed ''FirstExample: Aggregate counter so far is: %u'' [uint (agg_cnt v)]] v
         else v)"

lemma emit_emit [simp]: "emit ys (emit xs v) = emit (xs @ ys) v" "agg_cnt (emit xs v) = agg_cnt v" "received_counter (emit xs v) = received_counter v"
  "outputs (emit xs v) = outputs v @ xs"
  by (simp_all add: emit_def)

lemma counters [simp]: "agg_cnt (add_cnt c v) = agg_cnt v + c" "received_counter (add_cnt c v) = received_counter v" "outputs (add_cnt c v) = outputs v"
  "agg_cnt (count_message v) = agg_cnt v" "received_counter (count_message v) = received_counter v + 1" "outputs (count_message v) = outputs v"
  by (simp_all add: add_cnt_def count_message_def)

lemma first_handler_ok:
  assumes "send_law E V" and "accepting E" and "2 \<le> length (stream_items s)"
  obtains e where "first_c_app_handler E P False 0 (Some x) s =
      Inr (s\<lparr>app_state := first_next (example_msg_cnt P (de_data x)) (app_state s), ja_router := (ja_router s)\<lparr>env := e\<rparr>\<rparr>)"
    "v_live V e = v_live V (env (ja_router s))" "v_refs V e = v_refs V (env (ja_router s))"
proof -
  define v where "v = add_cnt (example_msg_cnt P (de_data x)) (count_message (app_state s))"
  define s1 where "s1 = s\<lparr>app_state := v\<rparr>"
  have u: "unat (1 :: u32) < length (stream_items s1)" "unat (1 :: u32) < 2 ^ 31" using assms(3) by (simp_all add: s1_def)
  have eq: "first_c_app_handler E P False 0 (Some x) s =
      (if every_fifth v then bindS (send_input E 1 (simple_input_bytes (agg_cnt v)) s1) (\<lambda>s.
         Inr (on_vars (emit [Printed ''FirstExample: Aggregate counter so far is: %u'' [uint (agg_cnt (app_state s))]]) s)) else Inr s1)"
    by (simp add: first_c_app_handler_def on_vars_def v_def s1_def)
  have nx: "first_next (example_msg_cnt P (de_data x)) (app_state s) = (if every_fifth v then emit [SentInput (simple_input_bytes (agg_cnt v)),
      Printed ''FirstExample: Aggregate counter so far is: %u'' [uint (agg_cnt v)]] v else v)"
    by (simp add: first_next_def v_def Let_def)
  from send_input_ok [OF assms(1,2) u, of "simple_input_bytes (agg_cnt v)"] obtain e where
    "send_input E 1 (simple_input_bytes (agg_cnt v)) s1 =
      Inr (s1\<lparr>app_state := emit [SentInput (simple_input_bytes (agg_cnt v))] (app_state s1), ja_router := (ja_router s1)\<lparr>env := e\<rparr>\<rparr>)"
    "v_live V e = v_live V (env (ja_router s1))" "v_refs V e = v_refs V (env (ja_router s1))" by blast
  note sent = this
  show ?thesis
  proof (cases "every_fifth v")
    case True
    show ?thesis by (rule that [of e]) (use True sent(2,3) in \<open>simp_all add: eq nx sent(1) [unfolded s1_def, simplified] on_vars_def s1_def\<close>)
  next
    case False
    show ?thesis by (rule that [of "env (ja_router s)"]) (use False in \<open>simp_all add: eq nx s1_def\<close>)
  qed
qed

text \<open>What a batch of counters adds to the effects: after each message whose number is divisible by five, the sum so far.\<close>

definition first_effect :: "u32 \<Rightarrow> nat \<Rightarrow> effect list" where
  "first_effect w j =
     (if 5 dvd j then [SentInput (simple_input_bytes w), Printed ''FirstExample: Aggregate counter so far is: %u'' [uint w]] else [])"

definition first_effects :: "u32 \<Rightarrow> nat \<Rightarrow> u32 list \<Rightarrow> effect list" where
  "first_effects agg r cs = concat (map (\<lambda>j. first_effect (agg + sum_list (take j cs)) (r + j)) [1..<Suc (length cs)])"

lemma every_fifth_nat:
  assumes "unat (received_counter v) < 2 ^ 31" and "received_counter v \<noteq> 0"
  shows "every_fifth v \<longleftrightarrow> 5 dvd unat (received_counter v)"
proof -
  define n where "n = unat (received_counter v)"
  have "sint (received_counter v) = int n" unfolding n_def by (rule sint_small [OF assms(1)])
  moreover have "0 < n" using assms(2) by (simp add: unat_gt_0 n_def)
  ultimately have "every_fifth v \<longleftrightarrow> 5 dvd n" unfolding every_fifth_def by presburger
  then show ?thesis by (simp add: n_def)
qed

lemma first_effects_Cons: "first_effects agg r (c # cs) = first_effect (agg + c) (Suc r) @ first_effects (agg + c) (Suc r) cs"
proof -
  have "[1..<Suc (length (c # cs))] = 1 # map Suc [1..<Suc (length cs)]" by (simp add: upt_conv_Cons map_Suc_upt del: upt_Suc)
  then show ?thesis unfolding first_effects_def by (simp add: add.assoc o_def del: upt_Suc)
qed

lemma first_batch_sum:
  assumes "unat (received_counter v) + length cs < 2 ^ 31"
  shows "fold first_next cs v =
    \<lparr>agg_cnt = agg_cnt v + sum_list cs, received_counter = received_counter v + of_nat (length cs),
     outputs = outputs v @ first_effects (agg_cnt v) (unat (received_counter v)) cs\<rparr>"
  using assms
proof (induction cs arbitrary: v)
  case Nil
  then show ?case by (simp add: first_effects_def)
next
  case (Cons c cs)
  define w where "w = add_cnt c (count_message v)"
  define es where "es = first_effect (agg_cnt w) (Suc (unat (received_counter v)))"
  have w: "agg_cnt w = agg_cnt v + c" "received_counter w = received_counter v + 1" "outputs w = outputs v" by (simp_all add: w_def)
  have u: "unat (received_counter w) = Suc (unat (received_counter v))" using Cons.prems by (simp add: w unat_add_lem [THEN iffD1])
  have "every_fifth w \<longleftrightarrow> 5 dvd Suc (unat (received_counter v))" using every_fifth_nat [of w] Cons.prems u by fastforce
  then have n: "first_next c v = emit es w" unfolding first_next_def w_def [symmetric] es_def first_effect_def Let_def by (simp add: emit_def)
  have "unat (received_counter (emit es w)) + length cs < 2 ^ 31" using Cons.prems u by simp
  note IH = Cons.IH [OF this]
  have e: "first_effects (agg_cnt v) (unat (received_counter v)) (c # cs) = es @ first_effects (agg_cnt w) (unat (received_counter w)) cs"
    unfolding first_effects_Cons es_def u w(1) by (rule refl)
  show ?case unfolding fold_Cons o_apply n IH e by (simp add: w(1-3))
qed

lemma first_stream:
  assumes "items \<noteq> []" and "jrtc_router_stream_id_matches_req sid (item_sid (items ! 0))"
  shows "find_stream (streams first_c_cfg) items 0 sid = Inr (Some 0)"
  using assms by (simp add: first_c_cfg_def sample_cfg_def)

lemma first_dispatch:
  assumes L: "ext_laws E V" and S: "send_law E V" "accepting E"
  shows "2 \<le> length (stream_items s) \<Longrightarrow> \<forall>x \<in> set xs. jrtc_router_stream_id_matches_req (de_stream_id x) (item_sid (stream_items s ! 0)) \<Longrightarrow>
    \<exists>s'. dispatch E H (first_c_app_handler E P) first_c_cfg xs s = Inr s' \<and>
      app_state s' = fold first_next (map (\<lambda>x. example_msg_cnt P (de_data x)) xs) (app_state s) \<and>
      (\<forall>b. v_refs V (env (ja_router s')) b = v_refs V (env (ja_router s)) b - int (count_list (map de_data xs) b))"
proof (induction xs arbitrary: s)
  case (Cons x xs)
  from first_handler_ok [OF S Cons.prems(1), of P x] obtain e where
    h: "first_c_app_handler E P False 0 (Some x) s =
      Inr (s\<lparr>app_state := first_next (example_msg_cnt P (de_data x)) (app_state s), ja_router := (ja_router s)\<lparr>env := e\<rparr>\<rparr>)"
      "v_refs V e = v_refs V (env (ja_router s))" by blast
  define s1 where "s1 = s\<lparr>app_state := first_next (example_msg_cnt P (de_data x)) (app_state s),
    ja_router := (ja_router s)\<lparr>env := jbpf_io_channel_release_buf E e (de_data x)\<rparr>, ja_reads := Suc (ja_reads s),
    last_received_time := clock H (ja_reads s) (ja_waits s)\<rparr>"
  have ne: "stream_items s \<noteq> []" using Cons.prems(1) by auto
  have "dispatch E H (first_c_app_handler E P) first_c_cfg (x # xs) s = dispatch E H (first_c_app_handler E P) first_c_cfg xs s1"
    using first_stream [OF ne] Cons.prems(2) h(1) by (simp add: call_handler_def steady_now_def s1_def)
  moreover have "2 \<le> length (stream_items s1)" "\<forall>x \<in> set xs. jrtc_router_stream_id_matches_req (de_stream_id x) (item_sid (stream_items s1 ! 0))"
    using Cons.prems by (simp_all add: s1_def)
  note IH = Cons.IH [OF this]
  moreover have "v_refs V (env (ja_router s1)) = (v_refs V (env (ja_router s)))(de_data x := v_refs V (env (ja_router s)) (de_data x) - 1)"
    using io_lawsD(2) [OF L] h(2) by (simp add: s1_def)
  moreover have "app_state s1 = first_next (example_msg_cnt P (de_data x)) (app_state s)" by (simp add: s1_def)
  ultimately show ?case by auto
qed simp


text \<open>Buffers that hold their own address, and structures that are one 32-bit word.\<close>

definition sim_payloads :: payloads where
  "sim_payloads = \<lparr>buf = (\<lambda>a. le32_bytes (of_nat a)), pb_cnt = le32, pb_value = le32, pb_bytes = le32_bytes\<rparr>"

definition sim_item :: StreamItem where
  "sim_item = \<lparr>item_sid = sid_a, item_registered = True, item_chan_ctx = None\<rparr>"

definition sim_msg :: "addr \<Rightarrow> jrtc_router_data_entry" where
  "sim_msg b = \<lparr>de_stream_id = sid_a, de_data = b\<rparr>"

lemma sim_msg_matches: "jrtc_router_stream_id_matches_req (de_stream_id (sim_msg b)) (item_sid sim_item)"
proof -
  have "jrtc_router_stream_id_matches_req sid_a sid_a" by code_simp
  then show ?thesis by (simp add: sim_msg_def sim_item_def)
qed


section \<open>A whole run of the first example\<close>

lemma first_handler_polite:
  assumes "send_law E V" and "accepting E"
  shows "polite_handler E V a i first_c_cfg (first_c_app_handler E P)"
  unfolding polite_handler_def
proof (intro allI impI)
  fix t and idx :: int and x :: "jrtc_router_data_entry option" and s :: "('a, 'b, 'd, 'e, 'f, AppStateVars) JrtcApp"
  assume home: "at_home E V a i (ja_router s)" and len: "length (streams first_c_cfg) \<le> length (stream_items s)" and x: "t \<or> x \<noteq> None"
  define s1 where "s1 = (case x of None \<Rightarrow> s | Some d \<Rightarrow> if idx = 0 then on_vars (add_cnt (example_msg_cnt P (de_data d)) \<circ> count_message) s else s)"
  have s1: "ja_router s1 = ja_router s" "stream_items s1 = stream_items s" by (simp_all add: s1_def on_vars_def split: option.split)
  have u: "unat (1 :: u32) < length (stream_items s1)" "unat (1 :: u32) < 2 ^ 31" using len by (simp_all add: s1 first_c_cfg_def sample_cfg_def)
  from send_input_ok [OF assms u, of "simple_input_bytes (agg_cnt (app_state s1))"] obtain e where
    e: "send_input E 1 (simple_input_bytes (agg_cnt (app_state s1))) s1 =
        Inr (s1\<lparr>app_state := emit [SentInput (simple_input_bytes (agg_cnt (app_state s1)))] (app_state s1), ja_router := (ja_router s1)\<lparr>env := e\<rparr>\<rparr>)"
      "v_live V e = v_live V (env (ja_router s1))" by blast
  have k: "keeps E V a i (ja_router s) ((ja_router s)\<lparr>env := e\<rparr>)" using keeps_env [OF home] e(2) s1 by simp
  have "first_c_app_handler E P t idx x s = (if t then Inr s else if every_fifth (app_state s1) then
      bindS (send_input E 1 (simple_input_bytes (agg_cnt (app_state s1))) s1) (\<lambda>s.
        Inr (on_vars (emit [Printed ''FirstExample: Aggregate counter so far is: %u'' [uint (agg_cnt (app_state s))]]) s))
      else Inr s1)"
    using x by (auto simp: first_c_app_handler_def s1_def)
  then show "\<exists>s'. first_c_app_handler E P t idx x s = Inr s' \<and> keeps E V a i (ja_router s) (ja_router s')"
    using k keeps_refl [OF home] e(1) s1 by (simp add: on_vars_def)
qed



end
