(* ===== verification/Samples_Direct_Props.thy ===== *)
theory Samples_Direct_Props
  imports Samples_Props
begin

text \<open>
  Properties of the sample applications that call the router directly: how the first example compares with its wrapped version, the
  buffers that the first application of the advanced example releases, and the subscriptions that are left when they end.
\<close>

section \<open>The first example\<close>

definition sent :: "effect list \<Rightarrow> u8 list list" where
  "sent = List.map_filter (\<lambda>e. case e of SentInput bs \<Rightarrow> Some bs | _ \<Rightarrow> None)"

lemma sent_simps [simp]:
  "sent [] = []" "sent (SentInput bs # es) = bs # sent es" "sent (SentOutput b bs # es) = sent es" "sent (Printed f ns # es) = sent es"
  by (simp_all add: sent_def List.map_filter_def)

lemma sent_append [simp]: "sent (es @ fs) = sent es @ sent fs"
  by (simp add: sent_def List.map_filter_def)

lemma direct_vars_simps [simp]:
  "dr_vars (direct_vars f s) = f (dr_vars s)" "dr_router (direct_vars f s) = dr_router s" "dr_heap (direct_vars f s) = dr_heap s"
  "dr_sleeps (direct_vars f s) = dr_sleeps s" "dr_data (direct_vars f s) = dr_data s"
  by (simp_all add: direct_vars_def)

lemma first_entries_ok:
  "\<forall>x \<in> set xs. jrtc_router_stream_id_matches_req (de_stream_id x) sid \<Longrightarrow>
   \<exists>d'. direct_entries (first_entry E P sid) xs d = Inr d' \<and> dr_router d' = (dr_router d)\<lparr>env := released E (env (dr_router d)) xs\<rparr> \<and>
     agg_cnt (dr_vars d') = agg_cnt (dr_vars d) + sum_list (map (\<lambda>x. example_msg_cnt P (de_data x)) xs) \<and>
     received_counter (dr_vars d') = received_counter (dr_vars d) + of_nat (length xs) \<and> outputs (dr_vars d') = outputs (dr_vars d)"
proof (induction xs arbitrary: d)
  case (Cons x xs)
  define d1 where "d1 = direct_release E (direct_vars (add_cnt (example_msg_cnt P (de_data x)) \<circ> count_message) (d\<lparr>dr_data := Some (de_data x)\<rparr>))"
  have "direct_entries (first_entry E P sid) (x # xs) d = direct_entries (first_entry E P sid) xs d1"
    using Cons.prems by (simp add: first_entry_def d1_def)
  moreover have "dr_router d1 = (dr_router d)\<lparr>env := jbpf_io_channel_release_buf E (env (dr_router d)) (de_data x)\<rparr>"
    "agg_cnt (dr_vars d1) = agg_cnt (dr_vars d) + example_msg_cnt P (de_data x)" "received_counter (dr_vars d1) = received_counter (dr_vars d) + 1"
    "outputs (dr_vars d1) = outputs (dr_vars d)"
    by (simp_all add: d1_def direct_release_def)
  ultimately show ?case using Cons.IH [of d1] Cons.prems by (auto simp: add.assoc)
qed simp

lemma direct_send_ok:
  assumes "send_law E V" and "accepting E"
  obtains e where "direct_send_input E sid bs d = (0, direct_vars (emit [SentInput bs]) (d\<lparr>dr_router := (dr_router d)\<lparr>env := e\<rparr>\<rparr>))"
    "v_live V e = v_live V (env (dr_router d))" "v_refs V e = v_refs V (env (dr_router d))"
proof -
  obtain e where e: "jrtc_router_channel_send_input_msg E (dr_router d) sid (Some bs) (of_nat (length bs)) = (0, (dr_router d)\<lparr>env := e\<rparr>)"
    "v_live V e = v_live V (env (dr_router d))" "v_refs V e = v_refs V (env (dr_router d))" by (rule send_msg_ok [OF assms])
  show ?thesis by (rule that [of e]) (simp_all add: e direct_send_input_def)
qed

text \<open>A whole batch of messages of the codelet.\<close>

lemma first_batch_ok:
  assumes L: "ext_laws E V" and S: "send_law E V" "accepting E"
    and m: "\<forall>x \<in> set xs. jrtc_router_stream_id_matches_req (de_stream_id x) sid"
  shows "\<exists>d'. first_batch E P sid ctl xs d = Inr d' \<and>
    agg_cnt (dr_vars d') = agg_cnt (dr_vars d) + sum_list (map (\<lambda>x. example_msg_cnt P (de_data x)) xs) \<and>
    received_counter (dr_vars d') = received_counter (dr_vars d) + of_nat (length xs) \<and>
    sent (outputs (dr_vars d')) = sent (outputs (dr_vars d)) @ (if every_fifth (dr_vars d') then [simple_input_bytes (agg_cnt (dr_vars d'))] else []) \<and>
    (\<forall>b. v_refs V (env (dr_router d')) b = v_refs V (env (dr_router d)) b - int (count_list (map de_data xs) b))"
proof -
  from first_entries_ok [OF m, of E P d] obtain d1 where
    d1: "direct_entries (first_entry E P sid) xs d = Inr d1" "dr_router d1 = (dr_router d)\<lparr>env := released E (env (dr_router d)) xs\<rparr>"
      "agg_cnt (dr_vars d1) = agg_cnt (dr_vars d) + sum_list (map (\<lambda>x. example_msg_cnt P (de_data x)) xs)"
      "received_counter (dr_vars d1) = received_counter (dr_vars d) + of_nat (length xs)" "outputs (dr_vars d1) = outputs (dr_vars d)" by blast
  obtain e where e: "direct_send_input E ctl (simple_input_bytes (agg_cnt (dr_vars d1))) d1 =
      (0, direct_vars (emit [SentInput (simple_input_bytes (agg_cnt (dr_vars d1)))]) (d1\<lparr>dr_router := (dr_router d1)\<lparr>env := e\<rparr>\<rparr>))"
      "v_refs V e = v_refs V (env (dr_router d1))" by (rule direct_send_ok [OF S])
  define d' where "d' = (if every_fifth (dr_vars d1)
     then direct_vars (emit [Printed ''FirstExample: Aggregate counter so far is %u'' [uint (agg_cnt (dr_vars d1))]])
       (direct_vars (emit [SentInput (simple_input_bytes (agg_cnt (dr_vars d1)))]) (d1\<lparr>dr_router := (dr_router d1)\<lparr>env := e\<rparr>\<rparr>))
     else d1)"
  have b: "first_batch E P sid ctl xs d = Inr d'" by (simp add: first_batch_def d1(1) e(1) d'_def)
  have v: "agg_cnt (dr_vars d') = agg_cnt (dr_vars d1)" "received_counter (dr_vars d') = received_counter (dr_vars d1)"
    "v_refs V (env (dr_router d')) = v_refs V (released E (env (dr_router d)) xs)" by (simp_all add: d'_def e(2) d1(2))
  have f: "every_fifth (dr_vars d') = every_fifth (dr_vars d1)" by (simp add: every_fifth_def v)
  have "sent (outputs (dr_vars d')) = sent (outputs (dr_vars d)) @ (if every_fifth (dr_vars d') then [simple_input_bytes (agg_cnt (dr_vars d'))] else [])"
    unfolding f v(1) by (simp add: d'_def d1(5))
  then show ?thesis using b d1(3,4) v released_refs(1) [OF L] by auto
qed

text \<open>The sum is sent only when the number of messages is divisible by five at the end of a batch, not when a batch goes past such a number.\<close>

lemma first_batch_skips:
  assumes "ext_laws E V" and "send_law E V" and "accepting E"
    and "\<forall>x \<in> set xs. jrtc_router_stream_id_matches_req (de_stream_id x) sid"
    and "unat (received_counter (dr_vars d)) + length xs < 2 ^ 31" and "xs \<noteq> []" and "\<not> 5 dvd unat (received_counter (dr_vars d)) + length xs"
  shows "\<exists>d'. first_batch E P sid ctl xs d = Inr d' \<and> sent (outputs (dr_vars d')) = sent (outputs (dr_vars d))"
proof -
  from first_batch_ok [OF assms(1-4), of P ctl d] obtain d' where
    d': "first_batch E P sid ctl xs d = Inr d'" "received_counter (dr_vars d') = received_counter (dr_vars d) + of_nat (length xs)"
      "sent (outputs (dr_vars d')) = sent (outputs (dr_vars d)) @ (if every_fifth (dr_vars d') then [simple_input_bytes (agg_cnt (dr_vars d'))] else [])" by blast
  have "unat (of_nat (length xs) :: u32) = length xs" using assms(5) by (simp add: unat_of_nat take_bit_nat_eq_self)
  then have u: "unat (received_counter (dr_vars d')) = unat (received_counter (dr_vars d)) + length xs"
    using assms(5) unfolding d'(2) by (simp add: unat_add_lem [THEN iffD1])
  then have "received_counter (dr_vars d') \<noteq> 0" using assms(6) by auto
  then have "\<not> every_fifth (dr_vars d')" using every_fifth_nat [of "dr_vars d'"] u assms(5,7) by simp
  then show ?thesis using d'(1,3) by simp
qed

text \<open>The wrapped and the direct version in the same state, as far as their variables and what they have sent go.\<close>

definition in_agreement :: "AppStateVars \<Rightarrow> AppStateVars \<Rightarrow> bool" where
  "in_agreement v w \<longleftrightarrow> agg_cnt v = agg_cnt w \<and> received_counter v = received_counter w \<and> sent (outputs v) = sent (outputs w)"

lemma first_next_cases:
  "agg_cnt (first_next c v) = agg_cnt v + c" "received_counter (first_next c v) = received_counter v + 1"
  "sent (outputs (first_next c v)) = sent (outputs v) @ (if every_fifth (first_next c v) then [simple_input_bytes (agg_cnt v + c)] else [])"
proof -
  have "every_fifth (emit es w) = every_fifth w" for es w by (simp add: every_fifth_def)
  then show "agg_cnt (first_next c v) = agg_cnt v + c" "received_counter (first_next c v) = received_counter v + 1"
    "sent (outputs (first_next c v)) = sent (outputs v) @ (if every_fifth (first_next c v) then [simple_input_bytes (agg_cnt v + c)] else [])"
    by (simp_all add: first_next_def Let_def)
qed

text \<open>One batch after the other.\<close>

primrec batches :: "(jrtc_router_data_entry list \<Rightarrow> 'd \<Rightarrow> ub + 'd) \<Rightarrow> jrtc_router_data_entry list list \<Rightarrow> 'd \<Rightarrow> ub + 'd" where
  "batches f [] d = Inr d"
| "batches f (xs # xss) d = bindS (f xs d) (batches f xss)"

lemma first_singles:
  assumes L: "ext_laws E V" and S: "send_law E V" "accepting E"
  shows "\<forall>x \<in> set xs. jrtc_router_stream_id_matches_req (de_stream_id x) sid \<Longrightarrow> in_agreement (dr_vars d) w \<Longrightarrow>
    \<exists>d'. batches (first_batch E P sid ctl) (map (\<lambda>x. [x]) xs) d = Inr d' \<and>
      in_agreement (dr_vars d') (fold first_next (map (\<lambda>x. example_msg_cnt P (de_data x)) xs) w) \<and>
      (\<forall>b. v_refs V (env (dr_router d')) b = v_refs V (env (dr_router d)) b - int (count_list (map de_data xs) b))"
proof (induction xs arbitrary: d w)
  case (Cons x xs)
  let ?c = "example_msg_cnt P (de_data x)"
  have "\<forall>y \<in> set [x]. jrtc_router_stream_id_matches_req (de_stream_id y) sid" using Cons.prems(1) by simp
  from first_batch_ok [OF L S this, of P ctl d] obtain d1 where
    d1: "first_batch E P sid ctl [x] d = Inr d1" "agg_cnt (dr_vars d1) = agg_cnt (dr_vars d) + ?c" "received_counter (dr_vars d1) = received_counter (dr_vars d) + 1"
      "sent (outputs (dr_vars d1)) = sent (outputs (dr_vars d)) @ (if every_fifth (dr_vars d1) then [simple_input_bytes (agg_cnt (dr_vars d1))] else [])"
      "\<forall>b. v_refs V (env (dr_router d1)) b = v_refs V (env (dr_router d)) b - int (count_list [de_data x] b)" by auto
  have "every_fifth (dr_vars d1) = every_fifth (first_next ?c w)" using Cons.prems(2) d1(3) by (simp add: every_fifth_def first_next_cases(2) in_agreement_def)
  then have "in_agreement (dr_vars d1) (first_next ?c w)" using Cons.prems(2) d1(2-4) by (simp add: in_agreement_def first_next_cases)
  from Cons.IH [OF _ this] Cons.prems(1) d1(1,5) show ?case by auto
qed simp


definition sim_direct :: "(lib_env, bool list, sim_ht, sim_ring, sim_pool) jrtc_router_ctx \<Rightarrow> (lib_env, bool list, sim_ht, sim_ring, sim_pool) direct_app" where
  "sim_direct rt = direct_start rt \<lparr>live = {}, next_addr = 1, oom = (\<lambda>_. False)\<rparr> None"


section \<open>Buffers of the advanced example\<close>

text \<open>Messages of the first application that do not come from the codelet.\<close>

definition from_apps :: "stream_id \<Rightarrow> stream_id \<Rightarrow> stream_id \<Rightarrow> jrtc_router_data_entry \<Rightarrow> bool" where
  "from_apps gen out inp x \<longleftrightarrow> \<not> jrtc_router_stream_id_matches_req (de_stream_id x) gen \<and>
     (jrtc_router_stream_id_matches_req (de_stream_id x) out \<or> jrtc_router_stream_id_matches_req (de_stream_id x) inp)"

lemma advanced1_from_apps:
  assumes L: "ext_laws E V"
  shows "\<forall>y \<in> set ys. from_apps gen out inp y \<Longrightarrow> dr_data s = Some b \<Longrightarrow>
    \<exists>s'. direct_entries (advanced1_entry E P gen out ctl inp) ys s = Inr s' \<and>
      v_refs V (env (dr_router s')) = (v_refs V (env (dr_router s)))(b := v_refs V (env (dr_router s)) b - int (length ys))"
proof (induction ys arbitrary: s)
  case (Cons y ys)
  obtain v where "advanced1_entry E P gen out ctl inp y s = Inr (direct_release E (direct_vars v s))"
    using Cons.prems(1) by (cases "jrtc_router_stream_id_matches_req (de_stream_id y) out") (auto simp: advanced1_entry_def from_apps_def)
  then have "direct_entries (advanced1_entry E P gen out ctl inp) (y # ys) s = direct_entries (advanced1_entry E P gen out ctl inp) ys (direct_release E (direct_vars v s))"
    by simp
  moreover have "dr_data (direct_release E (direct_vars v s)) = Some b"
    "v_refs V (env (dr_router (direct_release E (direct_vars v s)))) = (v_refs V (env (dr_router s)))(b := v_refs V (env (dr_router s)) b - 1)"
    using Cons.prems(2) io_lawsD(2) [OF L] by (simp_all add: direct_release_def)
  ultimately show ?case using Cons.IH [of "direct_release E (direct_vars v s)"] Cons.prems(1) by (auto simp: fun_eq_iff)
qed simp

text \<open>The first application of the advanced example releases \<open>data\<close> after every message but sets it only for those of the codelet.
  When a message of the codelet is followed by any number of messages of the other application, the buffer of the first is released
  once more for each of them, and their own buffers are never released.\<close>

lemma advanced_example_releases_stale:
  assumes "ext_laws E V" and "send_law E V" and "accepting E" and "length (pb_bytes P 0) \<le> 4"
    and "jrtc_router_stream_id_matches_req (de_stream_id x) gen" and "\<forall>y \<in> set ys. from_apps gen out inp y \<and> de_data y \<noteq> de_data x"
  shows "\<exists>s'. direct_entries (advanced1_entry E P gen out ctl inp) (x # ys) s = Inr s' \<and>
    v_refs V (env (dr_router s')) (de_data x) = v_refs V (env (dr_router s)) (de_data x) - 1 - int (length ys) \<and>
    (\<forall>y \<in> set ys. v_refs V (env (dr_router s')) (de_data y) = v_refs V (env (dr_router s)) (de_data y))"
proof -
  define s1 where "s1 = direct_vars (add_cnt (example_msg_cnt P (de_data x))) (s\<lparr>dr_data := Some (de_data x)\<rparr>)"
  define s2 where "s2 = direct_vars (emit [Printed ''App1: Aggregate counter from codelet is %d'' [sint (agg_cnt (dr_vars s1))]]) s1"
  obtain bs where bs: "bytes_at_agg_cnt P (agg_cnt (dr_vars s1)) = Inr bs" using assms(4) by (simp add: bytes_at_agg_cnt_def Let_def)
  obtain e where e: "direct_send_input E ctl bs s2 = (0, direct_vars (emit [SentInput bs]) (s2\<lparr>dr_router := (dr_router s2)\<lparr>env := e\<rparr>\<rparr>))"
    "v_refs V e = v_refs V (env (dr_router s2))" by (rule direct_send_ok [OF assms(2,3)])
  define s3 where "s3 = direct_release E (direct_vars (emit [SentInput bs]) (s2\<lparr>dr_router := (dr_router s2)\<lparr>env := e\<rparr>\<rparr>))"
  have "advanced1_entry E P gen out ctl inp x s = Inr s3"
    using assms(5) bs e(1) by (simp add: advanced1_entry_def Let_def s1_def [symmetric] s2_def [symmetric] s3_def assert_that_def)
  moreover have "dr_data s3 = Some (de_data x)"
    "v_refs V (env (dr_router s3)) = (v_refs V (env (dr_router s)))(de_data x := v_refs V (env (dr_router s)) (de_data x) - 1)"
    using e(2) io_lawsD(2) [OF assms(1)] by (simp_all add: s3_def s2_def s1_def direct_release_def)
  ultimately show ?thesis using advanced1_from_apps [OF assms(1), of ys gen out inp s3 "de_data x" P ctl] assms(6) by force
qed

section \<open>Subscriptions\<close>

text \<open>The rest of the process neither removes the application nor changes its subscriptions.\<close>

definition stays ::
    "('e, 'bm, 'it, 'ht, 'rg, 'pl) ext \<Rightarrow> ('e, 'bm, 'it, 'ht, 'rg, 'pl) views \<Rightarrow> addr \<Rightarrow> nat \<Rightarrow> ('e, 'bm, 'ht, 'rg, 'pl) jrtc_router_ctx \<Rightarrow>
     ('e, 'bm, 'ht, 'rg, 'pl) jrtc_router_ctx \<Rightarrow> bool" where
  "stays E V a i rt rt' \<longleftrightarrow> at_home E V a i rt' \<and> mine V i rt' = mine V i rt"

definition steady_host ::
    "('e, 'bm, 'it, 'ht, 'rg, 'pl) ext \<Rightarrow> ('e, 'bm, 'it, 'ht, 'rg, 'pl) views \<Rightarrow> addr \<Rightarrow> nat \<Rightarrow> ('e, 'bm, 'ht, 'rg, 'pl) host \<Rightarrow> bool" where
  "steady_host E V a i H \<longleftrightarrow> (\<forall>n m rt. at_home E V a i rt \<longrightarrow> stays E V a i rt (others H n m rt))"

lemma stays_trans: "stays E V a i rt rt' \<Longrightarrow> stays E V a i rt' rt'' \<Longrightarrow> stays E V a i rt rt''"
  by (simp add: stays_def)

lemma stays_env: "at_home E V a i rt \<Longrightarrow> v_live V e = v_live V (env rt) \<Longrightarrow> stays E V a i rt (rt\<lparr>env := e\<rparr>)"
  using keeps_env [of E V a i rt e] by (simp add: stays_def keeps_def mine_def)

lemma sleep_stays: "steady_host E V a i H \<Longrightarrow> at_home E V a i (dr_router s) \<Longrightarrow> stays E V a i (dr_router s) (dr_router (direct_sleep H s))"
  by (simp add: steady_host_def direct_sleep_def)

lemma wait_stays:
  assumes "steady_host E V a i H"
  shows "direct_wait n E H sid s = Some s' \<Longrightarrow> at_home E V a i (dr_router s) \<Longrightarrow> stays E V a i (dr_router s) (dr_router s')"
proof (induction n arbitrary: s)
  case (Suc n)
  note k = sleep_stays [OF assms Suc.prems(2)]
  show ?case using Suc.IH [of "direct_sleep H s"] Suc.prems k stays_trans [OF k] by (auto simp: stays_def split: if_splits)
qed (simp add: stays_def split: if_splits)

text \<open>What a batch may do to the router: only call the libraries.\<close>

definition env_only ::
    "('e, 'bm, 'it, 'ht, 'rg, 'pl) views \<Rightarrow>
     (jrtc_router_data_entry list \<Rightarrow> ('e, 'bm, 'ht, 'rg, 'pl) direct_app \<Rightarrow> ub + ('e, 'bm, 'ht, 'rg, 'pl) direct_app) \<Rightarrow> bool" where
  "env_only V batch \<longleftrightarrow>
     (\<forall>xs s s'. batch xs s = Inr s' \<longrightarrow> (\<exists>e. dr_router s' = (dr_router s)\<lparr>env := e\<rparr> \<and> v_live V e = v_live V (env (dr_router s))))"

lemma loop_stays:
  assumes L: "ext_laws E V" and H: "steady_host E V a i H" and B: "env_only V batch"
  shows "direct_loop k E H batch (Some a) s = Inr s' \<Longrightarrow> at_home E V a i (dr_router s) \<Longrightarrow> stays E V a i (dr_router s) (dr_router s')"
proof (induction k arbitrary: s)
  case (Suc k)
  from receive_home [OF L Suc.prems(2), of 100] obtain xs rt where
    r: "jrtc_router_receive E (dr_router s) a 100 = Inr (xs, rt)" "stays E V a i (dr_router s) rt" by (auto simp: stays_def keeps_def)
  from Suc.prems(1) r(1) obtain s1 where
    s1: "(if xs = [] then Inr (s\<lparr>dr_router := rt\<rparr>) else batch xs (s\<lparr>dr_router := rt\<rparr>)) = Inr s1" "direct_loop k E H batch (Some a) (direct_sleep H s1) = Inr s'"
    by (cases "if xs = [] then Inr (s\<lparr>dr_router := rt\<rparr>) else batch xs (s\<lparr>dr_router := rt\<rparr>)") simp_all
  have home: "at_home E V a i rt" using r(2) by (simp add: stays_def)
  have "stays E V a i rt (dr_router s1)"
  proof (cases "xs = []")
    case True
    then show ?thesis using s1(1) home by (auto simp: stays_def)
  next
    case False
    then obtain e where "dr_router s1 = rt\<lparr>env := e\<rparr>" "v_live V e = v_live V (env rt)" using s1(1) B unfolding env_only_def by fastforce
    then show ?thesis using stays_env [OF home] by simp
  qed
  then have a: "stays E V a i (dr_router s) (dr_router s1)" by (rule stays_trans [OF r(2)])
  then have b: "stays E V a i (dr_router s1) (dr_router (direct_sleep H s1))" by (intro sleep_stays [OF H]) (simp add: stays_def)
  then have c: "stays E V a i (dr_router (direct_sleep H s1)) (dr_router s')" by (intro Suc.IH [OF s1(2)]) (simp add: stays_def)
  show ?case by (rule stays_trans [OF a stays_trans [OF b c]])
qed (simp add: stays_def)

lemma entries_env_only:
  assumes E: "\<And>x s s'. entry x s = Inr s' \<Longrightarrow> \<exists>e. dr_router s' = (dr_router s)\<lparr>env := e\<rparr> \<and> v_live V e = v_live V (env (dr_router s))"
  shows "env_only V (direct_entries entry)"
  unfolding env_only_def
proof (intro allI impI)
  fix xs s s' assume "direct_entries entry xs s = Inr s'"
  then show "\<exists>e. dr_router s' = (dr_router s)\<lparr>env := e\<rparr> \<and> v_live V e = v_live V (env (dr_router s))"
  proof (induction xs arbitrary: s)
    case Nil
    then show ?case by (auto intro!: exI [of _ "env (dr_router s)"])
  next
    case (Cons x xs)
    then obtain s1 where s1: "entry x s = Inr s1" "direct_entries entry xs s1 = Inr s'" by (cases "entry x s") simp_all
    from E [OF s1(1)] Cons.IH [OF s1(2)] show ?case by auto
  qed
qed

lemma release_env:
  assumes "ext_laws E V"
  shows "\<exists>e. dr_router (direct_release E s) = (dr_router s)\<lparr>env := e\<rparr> \<and> v_live V e = v_live V (env (dr_router s))"
proof (cases "dr_data s")
  case None
  then show ?thesis by (intro exI [of _ "env (dr_router s)"]) (simp add: direct_release_def jrtc_router_channel_release_buf_def)
next
  case (Some b)
  then show ?thesis using io_lawsD(2) [OF assms]
    by (intro exI [of _ "jbpf_io_channel_release_buf E (env (dr_router s)) b"]) (simp add: direct_release_def)
qed

lemma send_env:
  assumes "send_law E V" and "direct_send_input E sid bs s = (r, s')"
  shows "\<exists>e. dr_router s' = (dr_router s)\<lparr>env := e\<rparr> \<and> v_live V e = v_live V (env (dr_router s))"
proof -
  obtain q e where "jbpf_io_channel_send_msg E (env (dr_router s)) (io_ctx (dr_router s)) sid (Some bs) (of_nat (length bs)) = (q, e)" by fastforce
  then show ?thesis using assms unfolding send_law_def by (auto simp: direct_send_input_def jrtc_router_channel_send_input_msg_def)
qed

lemma first_env_only:
  assumes L: "ext_laws E V" and S: "send_law E V"
  shows "env_only V (first_batch E P sid ctl)"
proof -
  have "env_only V (direct_entries (first_entry E P sid))"
  proof (rule entries_env_only)
    fix x and s s' :: "('a, 'b, 'd, 'e, 'f) direct_app"
    assume "first_entry E P sid x s = Inr s'"
    then obtain f s0 where "s' = direct_release E s0" "dr_router s0 = dr_router s" by (auto simp: first_entry_def split: if_splits)
    then show "\<exists>e. dr_router s' = (dr_router s)\<lparr>env := e\<rparr> \<and> v_live V e = v_live V (env (dr_router s))" using release_env [OF L, of s0] by simp
  qed
  note entries = this [unfolded env_only_def, rule_format]
  show ?thesis unfolding env_only_def
  proof (intro allI impI)
    fix xs s s' assume "first_batch E P sid ctl xs s = Inr s'"
    then obtain s1 where s1: "direct_entries (first_entry E P sid) xs s = Inr s1"
      and s': "dr_router s' = dr_router s1 \<or> dr_router s' = dr_router (snd (direct_send_input E ctl (simple_input_bytes (agg_cnt (dr_vars s1))) s1))"
      by (cases "direct_entries (first_entry E P sid) xs s") (auto simp: first_batch_def split: if_splits)
    from entries [OF s1] send_env [OF S, of ctl "simple_input_bytes (agg_cnt (dr_vars s1))" s1] s'
    show "\<exists>e. dr_router s' = (dr_router s)\<lparr>env := e\<rparr> \<and> v_live V e = v_live V (env (dr_router s))"
      by (cases "direct_send_input E ctl (simple_input_bytes (agg_cnt (dr_vars s1))) s1") fastforce
  qed
qed

lemma advanced1_env_only:
  assumes L: "ext_laws E V" and S: "send_law E V"
  shows "env_only V (direct_entries (advanced1_entry E P gen out ctl inp))"
proof (rule entries_env_only)
  fix x and s s' :: "('a, 'b, 'd, 'e, 'f) direct_app"
  assume r: "advanced1_entry E P gen out ctl inp x s = Inr s'"
  define s1 where "s1 = direct_vars (add_cnt (example_msg_cnt P (de_data x))) (s\<lparr>dr_data := Some (de_data x)\<rparr>)"
  define s2 where "s2 = direct_vars (emit [Printed ''App1: Aggregate counter from codelet is %d'' [sint (agg_cnt (dr_vars s1))]]) s1"
  have s2: "dr_router s2 = dr_router s" by (simp add: s1_def s2_def)
  have "\<exists>s0. s' = direct_release E s0 \<and> (\<exists>e. dr_router s0 = (dr_router s)\<lparr>env := e\<rparr> \<and> v_live V e = v_live V (env (dr_router s)))"
  proof (cases "jrtc_router_stream_id_matches_req (de_stream_id x) gen")
    case True
    then obtain bs where "bytes_at_agg_cnt P (agg_cnt (dr_vars s1)) = Inr bs"
      using r by (cases "bytes_at_agg_cnt P (agg_cnt (dr_vars s1))") (simp_all add: advanced1_entry_def Let_def s1_def [symmetric] s2_def [symmetric])
    then have "s' = direct_release E (snd (direct_send_input E ctl bs s2))"
      using r True by (simp add: advanced1_entry_def Let_def s1_def [symmetric] s2_def [symmetric] assert_that_def split: prod.splits if_splits)
    then show ?thesis using send_env [OF S, of ctl bs s2] s2 by (cases "direct_send_input E ctl bs s2") auto
  next
    case False
    then obtain f where "s' = direct_release E (direct_vars f s)" using r by (auto simp: advanced1_entry_def split: if_splits)
    then show ?thesis by (intro exI [of _ "direct_vars f s"] conjI exI [of _ "env (dr_router s)"]) simp_all
  qed
  then obtain s0 e where s0: "s' = direct_release E s0" "dr_router s0 = (dr_router s)\<lparr>env := e\<rparr>" "v_live V e = v_live V (env (dr_router s))" by blast
  from release_env [OF L, of s0] obtain e' where "dr_router s' = (dr_router s0)\<lparr>env := e'\<rparr>" "v_live V e' = v_live V (env (dr_router s0))" unfolding s0(1) by blast
  then show "\<exists>e. dr_router s' = (dr_router s)\<lparr>env := e\<rparr> \<and> v_live V e = v_live V (env (dr_router s))" using s0(2,3) by (intro exI [of _ e']) simp
qed

end
