(* ===== verification/Samples_Subs.thy ===== *)
theory Samples_Subs
  imports Samples_Direct_Props
begin

text \<open>
  The subscriptions of the sample applications that call the router directly, from the start of \<open>jrtc_start_app\<close> to its return.
\<close>

section \<open>Steps\<close>

lemma assert_Inr [simp]: "assert_that b = Inr u \<longleftrightarrow> b"
  by (simp add: assert_that_def)

definition no_channels :: "('e, 'bm, 'it, 'ht, 'rg, 'pl) views \<Rightarrow> addr \<Rightarrow> ('e, 'bm, 'ht, 'rg, 'pl) jrtc_router_ctx \<Rightarrow> bool" where
  "no_channels V a rt \<longleftrightarrow> (\<forall>d out. dapps rt a = Some d \<longrightarrow> v_ht V (chan_table d out) = Map.empty)"

lemma generate_step:
  assumes "direct_generate sc H dst dev path name s = Inr (res, sid, s')" and "length (junk_sid H) = 16" and "mem_wf (dr_heap s)"
  shows "dr_router s' = dr_router s" and "mem_wf (dr_heap s')" and "res = 1 \<Longrightarrow> id_for dst dev (Some path) (Some name) sid"
proof -
  obtain rc sid' m where "jrtc_router_generate_stream_id sc (dr_heap s) (Some (junk_sid H)) dst dev (Some path) (Some name) = Inr (rc, Some sid', m)"
    "mem_wf m" "rc = 1 \<and> id_for dst dev (Some path) (Some name) sid' \<or> rc = -1"
    using generate_cases [OF assms(3,2), of sc dst dev "Some path" "Some name"] by blast
  then show "dr_router s' = dr_router s" "mem_wf (dr_heap s')" "res = 1 \<Longrightarrow> id_for dst dev (Some path) (Some name) sid"
    using assms(1) by (auto simp: direct_generate_def)
qed

lemma register_step:
  assumes "direct_register E (Some a) sid s = Inr (1, s')" and "ext_laws E V" and "at_home E V a i (dr_router s)"
  shows "at_home E V a i (dr_router s')" and "mine V i (dr_router s') = insert sid (mine V i (dr_router s))"
    and "no_channels V a (dr_router s) \<Longrightarrow> no_channels V a (dr_router s')" and "dr_heap s' = dr_heap s"
proof -
  from register_home [OF assms(2,3), of sid] obtain res rt where
    r: "jrtc_router_channel_register_stream_id_req E (dr_router s) (Some a) sid = Inr (res, rt)" "at_home E V a i rt"
      "mine V i rt = (if res = 1 then insert sid (mine V i (dr_router s)) else mine V i (dr_router s))" "dapps rt = dapps (dr_router s)" by blast
  then have "res = 1" "s' = s\<lparr>dr_router := rt\<rparr>" using assms(1) by (auto simp: direct_register_def)
  then show "at_home E V a i (dr_router s')" "mine V i (dr_router s') = insert sid (mine V i (dr_router s))"
    "no_channels V a (dr_router s) \<Longrightarrow> no_channels V a (dr_router s')" "dr_heap s' = dr_heap s"
    using r(2-4) by (simp_all add: no_channels_def)
qed

lemma channel_step:
  assumes "direct_channel E H (Some a) out sz sid s = Inr (Some c, s')" and "ext_laws E V" and "at_home E V a i (dr_router s)" and "no_channels V a (dr_router s)"
  shows "stays E V a i (dr_router s) (dr_router s')" and "dr_heap s' = dr_heap s"
proof -
  obtain d where d: "dapps (dr_router s) a = Some d" "app_id d = int i" and ok: "router_ok E V (dr_router s)" using assms(3) by (auto simp: at_home_def)
  have new: "v_ht V (chan_table d out) sid = None" "no_match E V ((create_stack H 0)(param_addr H 0 \<mapsto> sid)) (chan_table d out) sid"
    using assms(4) d(1) by (simp_all add: no_channels_def no_match_def)
  obtain rt where rt: "s' = s\<lparr>dr_router := rt\<rparr>" "jrtc_router_channel_create E (dr_router s) (create_stack H 0) (param_addr H 0) (Some a) out 100 sz sid None = Inr (Some c, rt)"
    using assms(1) unfolding direct_channel_def by (auto elim!: bindS_InrE)
  have "router_ok E V rt \<and> subs V rt = subs V (dr_router s) \<and> (\<exists>d'. dapps rt a = Some d' \<and> app_id d' = int i)"
    using channel_create_cases [OF assms(2) ok d(1) new, of 100 sz None] d unfolding rt(2) by (auto simp: created_def)
  then show "stays E V a i (dr_router s) (dr_router s')" "dr_heap s' = dr_heap s" by (auto simp: rt(1) stays_def at_home_def mine_def)
qed

lemma advanced1_setup_ok:
  assumes "advanced1_setup sc E P H (Some a) s = Inr (gen, out, ctl, inp, s')" and "ext_laws E V" and "length (junk_sid H) = 16"
    and "at_home E V a i (dr_router s)" and "mem_wf (dr_heap s)" and "no_channels V a (dr_router s)"
  shows "at_home E V a i (dr_router s')" and "mine V i (dr_router s') = insert out (insert gen (mine V i (dr_router s)))"
    and "id_for JRTC_ROUTER_DEST_ANY JRTC_ROUTER_DEVICE_ID_ANY
      (Some ''AdvancedExample1://jbpf_agent/data_generator_codeletset/codelet'') (Some ''ringbuf'') gen"
    and "id_for JRTC_ROUTER_DEST_ANY 0 (Some ''AdvancedExample2://intraapp'') (Some ''buffer'') out"
proof -
  from assms(1) obtain s1 s2 s3 s4 s5 s6 c where
    1: "direct_generate sc H JRTC_ROUTER_DEST_ANY JRTC_ROUTER_DEVICE_ID_ANY
      ''AdvancedExample1://jbpf_agent/data_generator_codeletset/codelet'' ''ringbuf'' s = Inr (1, gen, s1)"
    and 2: "direct_register E (Some a) gen s1 = Inr (1, s2)"
    and 3: "direct_generate sc H JRTC_ROUTER_DEST_ANY 0 ''AdvancedExample2://intraapp'' ''buffer'' s2 = Inr (1, out, s3)"
    and 4: "direct_register E (Some a) out s3 = Inr (1, s4)"
    and 5: "direct_generate sc H JRTC_ROUTER_DEST_NONE 1 ''AdvancedExample1://jbpf_agent/simple_input_pb_codeletset/codelet'' ''input_map'' s4 = Inr (1, ctl, s5)"
    and 6: "direct_generate sc H JRTC_ROUTER_DEST_NONE 0 ''AdvancedExample1://intraapp'' ''buffer_input'' s5 = Inr (1, inp, s6)"
    and 7: "direct_channel E H (Some a) False (int (length (pb_bytes P 0))) inp s6 = Inr (Some c, s')"
    unfolding advanced1_setup_def by (elim bindS_InrE) (auto elim!: bindS_InrE)
  note g1 = generate_step [OF 1 assms(3,5)]
  have h1: "at_home E V a i (dr_router s1)" and n1: "no_channels V a (dr_router s1)" using g1(1) assms(4,6) by simp_all
  note r2 = register_step [OF 2 assms(2) h1]
  have m2: "mem_wf (dr_heap s2)" using r2(4) g1(2) by simp
  note g3 = generate_step [OF 3 assms(3) m2]
  have h3: "at_home E V a i (dr_router s3)" and n3: "no_channels V a (dr_router s3)" using g3(1) r2(1) r2(3) [OF n1] by simp_all
  note r4 = register_step [OF 4 assms(2) h3]
  have m4: "mem_wf (dr_heap s4)" using r4(4) g3(2) by simp
  note g5 = generate_step [OF 5 assms(3) m4]
  note g6 = generate_step [OF 6 assms(3) g5(2)]
  have h6: "at_home E V a i (dr_router s6)" and n6: "no_channels V a (dr_router s6)" using g5(1) g6(1) r4(1) r4(3) [OF n3] by simp_all
  note c7 = channel_step [OF 7 assms(2) h6 n6]
  show "at_home E V a i (dr_router s')" using c7(1) by (simp add: stays_def)
  show "mine V i (dr_router s') = insert out (insert gen (mine V i (dr_router s)))"
    using c7(1) g1(1) g3(1) g5(1) g6(1) r2(2) r4(2) by (simp add: stays_def)
  show "id_for JRTC_ROUTER_DEST_ANY JRTC_ROUTER_DEVICE_ID_ANY
      (Some ''AdvancedExample1://jbpf_agent/data_generator_codeletset/codelet'') (Some ''ringbuf'') gen" by (rule g1(3)) (rule refl)
  show "id_for JRTC_ROUTER_DEST_ANY 0 (Some ''AdvancedExample2://intraapp'') (Some ''buffer'') out" by (rule g3(3)) (rule refl)
qed

lemma devices_differ:
  assumes "id_for fd dev p n s" and "id_for fd' dev' p' n' s'" and "bit dev 0 \<noteq> bit dev' 0"
  shows "s \<noteq> s'"
proof -
  have "sid_bit s 108 = bit dev 0" "sid_bit s' 108 = bit dev' 0" using assms(1,2) by (simp_all add: id_for_def)
  then show ?thesis using assms(3) by auto
qed

text \<open>Waiting, the loop and the deregistration of one request.\<close>

lemma run_and_deregister:
  assumes "ext_laws E V" and "steady_host E V a i H" and "env_only V batch"
    and "direct_wait n E H ctl s1 = Some s2" and "bindS (direct_loop k E H batch (Some a) s2) (direct_deregister E (Some a) gen) = Inr s'"
    and "at_home E V a i (dr_router s1)"
  shows "at_home E V a i (dr_router s') \<and> mine V i (dr_router s') = mine V i (dr_router s1) - {gen}"
proof -
  obtain s3 where 3: "direct_loop k E H batch (Some a) s2 = Inr s3" "direct_deregister E (Some a) gen s3 = Inr s'" using assms(5) by (auto elim: bindS_InrE)
  note w = wait_stays [OF assms(2,4,6)]
  then have h2: "at_home E V a i (dr_router s2)" by (simp add: stays_def)
  note l = loop_stays [OF assms(1,2,3) 3(1) h2]
  then have h3: "at_home E V a i (dr_router s3)" by (simp add: stays_def)
  from deregister_home [OF assms(1) h3, of gen] obtain rt where
    r: "jrtc_router_channel_deregister_stream_id_req E (dr_router s3) (Some a) gen = Inr rt" "at_home E V a i rt" "mine V i rt = mine V i (dr_router s3) - {gen}" by blast
  have "s' = s3\<lparr>dr_router := rt\<rparr>" using 3(2) unfolding direct_deregister_def r(1) by simp
  then show ?thesis using r(2,3) l w by (simp add: stays_def)
qed

text \<open>The first example has one request and deregisters it.\<close>

lemma first_example_unsubscribes:
  assumes "ext_laws E V" and "send_law E V" and "length (junk_sid H) = 16" and "steady_host E V a i H"
    and "at_home E V a i (dr_router s)" and "mem_wf (dr_heap s)" and "first_start_app n k sc E P H (Some a) s = Some (Inr s')"
  shows "\<exists>sid. id_for JRTC_ROUTER_DEST_ANY JRTC_ROUTER_DEVICE_ID_ANY
      (Some ''FirstExample://jbpf_agent/data_generator_codeletset/codelet'') (Some ''ringbuf'') sid \<and>
    at_home E V a i (dr_router s') \<and> mine V i (dr_router s') = mine V i (dr_router s) - {sid}"
proof -
  from assms(7) obtain sid ctl s1 where 1: "first_setup sc E H (Some a) s = Inr (sid, ctl, s1)"
    by (cases "first_setup sc E H (Some a) s") (auto simp: first_start_app_def)
  then obtain s0 s00 rr where g: "direct_generate sc H JRTC_ROUTER_DEST_ANY JRTC_ROUTER_DEVICE_ID_ANY
      ''FirstExample://jbpf_agent/data_generator_codeletset/codelet'' ''ringbuf'' s = Inr (1, sid, s00)"
    and r: "direct_register E (Some a) sid s00 = Inr (1, s0)"
    and g': "direct_generate sc H JRTC_ROUTER_DEST_NONE 1 ''FirstExample://jbpf_agent/simple_input_codeletset/codelet'' ''input_map'' s0 = Inr (rr, ctl, s1)"
    unfolding first_setup_def by (elim bindS_InrE) (auto elim!: bindS_InrE)
  note g1 = generate_step [OF g assms(3,6)]
  have h: "at_home E V a i (dr_router s00)" using g1(1) assms(5) by simp
  note r1 = register_step [OF r assms(1) h]
  have m: "mem_wf (dr_heap s0)" using r1(4) g1(2) by simp
  have h1: "at_home E V a i (dr_router s1)" "mine V i (dr_router s1) = insert sid (mine V i (dr_router s))"
    using generate_step(1) [OF g' assms(3) m] r1(1,2) g1(1) by simp_all
  obtain s2 where 2: "direct_wait n E H ctl s1 = Some s2" "bindS (direct_loop k E H (first_batch E P sid ctl) (Some a) s2) (direct_deregister E (Some a) sid) = Inr s'"
    using assms(7) 1 by (auto simp: first_start_app_def)
  from run_and_deregister [OF assms(1,4) first_env_only [OF assms(1,2)] 2 h1(1)] have
    "at_home E V a i (dr_router s')" "mine V i (dr_router s') = mine V i (dr_router s1) - {sid}" by simp_all
  then show ?thesis using g1(3) h1(2) by blast
qed

section \<open>A process in which the advanced example runs\<close>

lemma sim_register:
  assumes "at_home sim sim_views a i rt" and "e_budget (env rt) = Suc (Suc n)"
  obtains rt' where "jrtc_router_channel_register_stream_id_req sim rt (Some a) sid = Inr (1, rt')" "io_ctx rt' = io_ctx rt" "n \<le> e_budget (env rt')"
proof -
  obtain d where d: "dapps rt a = Some d" and ok: "router_ok sim sim_views rt" using assms(1) by (auto simp: at_home_def)
  have bad: "\<not> bad_app_id (app_id d)" using ok app_inv_dapp(1) [OF _ d] unfolding router_ok_def router_inv_def by blast
  from register_home [OF sim_ext_laws assms(1), of sid] obtain res rt1 where
    r: "jrtc_router_channel_register_stream_id_req sim rt (Some a) sid = Inr (res, rt1)" by blast
  have lib: "jbpf_malloc sim = sim_malloc" "ck_ht_set_spmc sim = sim_set" by (simp_all add: sim_def)
  have keys: "req_keys (rt\<lparr>calls := cs\<rparr>) = req_keys rt" for cs by (rule ext) (simp add: req_keys_def)
  show ?thesis
  proof (cases "ck_ht_get_spmc sim (req_keys rt) (reqs rt) (ck_ht_hash sim (reqs rt) sid) sid")
    case None
    then have "res = 1 \<and> io_ctx rt1 = io_ctx rt \<and> e_budget (env rt1) = n" using r d bad assms(2)
      by (auto simp: jrtc_router_channel_register_stream_id_req_def app_of_def called_def keys add_req_entry_def lib sim_malloc_def sim_set_def Let_def)
    then show ?thesis using that r by auto
  next
    case (Some en)
    then have "res = 1 \<and> io_ctx rt1 = io_ctx rt \<and> e_budget (env rt1) = Suc (Suc n)" using r d bad assms(2)
      by (auto simp: jrtc_router_channel_register_stream_id_req_def app_of_def called_def keys update_req_entry_def Let_def split: option.splits)
    then show ?thesis using that r by auto
  qed
qed

lemma sim_one_facts: "io_ctx sim_one = Some 0" "6 \<le> e_budget (env sim_one)"
  "map_option (\<lambda>d. (app_out_channel_list d, app_in_channel_list d)) (dapps sim_one 1) = Some ([], [])"
  by code_simp+


text \<open>A process in which the input channel of the codelet appears while the application sleeps.\<close>

definition sim_codelet_host :: "stream_id \<Rightarrow> (lib_env, bool list, sim_ht, sim_ring, sim_pool) host" where
  "sim_codelet_host ctl = sim_host\<lparr>others := (\<lambda>n m rt. rt\<lparr>env := (env rt)\<lparr>e_chans := (1000, ctl, False, []) # e_chans (env rt)\<rparr>\<rparr>)\<rparr>"

lemma sim_codelet_host_steady: "steady_host sim sim_views a i (sim_codelet_host ctl)" "junk_sid (sim_codelet_host ctl) = replicate 16 0"
  by (auto simp: steady_host_def sim_codelet_host_def sim_host_def sim_views_def intro: stays_env)

lemma sim_generate:
  assumes "mem_wf (dr_heap s)" and "\<forall>k. \<not> oom (dr_heap s) k" and "junk_sid H = replicate 16 0"
  obtains sid m where "direct_generate sc H dst dev path name s = Inr (1, sid, s\<lparr>dr_heap := m\<rparr>)" "mem_wf m" "\<forall>k. \<not> oom m k"
    "id_for dst dev (Some path) (Some name) sid"
  using generate_cases [OF assms(1), of "replicate 16 0" sc dst dev "Some path" "Some name"] assms(2,3)
  by (auto simp: direct_generate_def intro: that)


lemma sim_subscribe:
  assumes "junk_sid H = replicate 16 0" and "at_home sim sim_views a 0 (dr_router s)" and "mem_wf (dr_heap s)" and "\<forall>k. \<not> oom (dr_heap s) k"
    and "n + 2 \<le> e_budget (env (dr_router s))"
  obtains sid s1 s2 where "direct_generate True H dst dev path name s = Inr (1, sid, s1)" "direct_register sim (Some a) sid s1 = Inr (1, s2)"
    "at_home sim sim_views a 0 (dr_router s2)" "mem_wf (dr_heap s2)" "\<forall>k. \<not> oom (dr_heap s2) k" "n \<le> e_budget (env (dr_router s2))"
    "io_ctx (dr_router s2) = io_ctx (dr_router s)"
proof -
  obtain sid m where g: "direct_generate True H dst dev path name s = Inr (1, sid, s\<lparr>dr_heap := m\<rparr>)" "mem_wf m" "\<forall>k. \<not> oom m k"
    by (rule sim_generate [OF assms(3,4,1)])
  obtain q where "e_budget (env (dr_router s)) = n + 2 + q" using assms(5) unfolding le_iff_add by blast
  then have "e_budget (env (dr_router s)) = Suc (Suc (n + q))" by simp
  from sim_register [OF assms(2) this, of sid] obtain rt where
    r: "jrtc_router_channel_register_stream_id_req sim (dr_router s) (Some a) sid = Inr (1, rt)" "io_ctx rt = io_ctx (dr_router s)" "n + q \<le> e_budget (env rt)" by blast
  define s2 where "s2 = s\<lparr>dr_heap := m, dr_router := rt\<rparr>"
  have reg: "direct_register sim (Some a) sid (s\<lparr>dr_heap := m\<rparr>) = Inr (1, s2)" by (simp add: direct_register_def r(1) s2_def)
  have "at_home sim sim_views a 0 (dr_router (s\<lparr>dr_heap := m\<rparr>))" using assms(2) by simp
  from register_step(1) [OF reg sim_ext_laws this] show ?thesis by (intro that [OF g(1) reg]) (use g(2,3) r(2,3) in \<open>simp_all add: s2_def\<close>)
qed

lemma sim_setup:
  assumes H: "junk_sid H = replicate 16 0" and home: "at_home sim sim_views a 0 sim_one"
  obtains gen out ctl inp s' where "advanced1_setup True sim sim_payloads H (Some a) (sim_direct sim_one) = Inr (gen, out, ctl, inp, s')"
    "io_ctx (dr_router s') = Some 0" "id_for JRTC_ROUTER_DEST_NONE 1 (Some ''AdvancedExample1://jbpf_agent/simple_input_pb_codeletset/codelet'') (Some ''input_map'') ctl"
proof -
  define s where "s = sim_direct sim_one"
  have s: "at_home sim sim_views a 0 (dr_router s)" "mem_wf (dr_heap s)" "\<forall>k. \<not> oom (dr_heap s) k" "4 + 2 \<le> e_budget (env (dr_router s))" "io_ctx (dr_router s) = Some 0"
    using home sim_one_facts by (simp_all add: s_def sim_direct_def direct_start_def mem_wf_def)
  obtain gen s1 s2 where 1: "direct_generate True H JRTC_ROUTER_DEST_ANY JRTC_ROUTER_DEVICE_ID_ANY
      ''AdvancedExample1://jbpf_agent/data_generator_codeletset/codelet'' ''ringbuf'' s = Inr (1, gen, s1)" "direct_register sim (Some a) gen s1 = Inr (1, s2)"
    "at_home sim sim_views a 0 (dr_router s2)" "mem_wf (dr_heap s2)" "\<forall>k. \<not> oom (dr_heap s2) k" "4 \<le> e_budget (env (dr_router s2))" "io_ctx (dr_router s2) = Some 0"
    by (rule sim_subscribe [OF H s(1-4)]) (simp add: s(5))
  have b: "2 + 2 \<le> e_budget (env (dr_router s2))" using 1(6) by simp
  obtain out s3 s4 where 2: "direct_generate True H JRTC_ROUTER_DEST_ANY 0 ''AdvancedExample2://intraapp'' ''buffer'' s2 = Inr (1, out, s3)"
    "direct_register sim (Some a) out s3 = Inr (1, s4)" "at_home sim sim_views a 0 (dr_router s4)" "mem_wf (dr_heap s4)" "\<forall>k. \<not> oom (dr_heap s4) k"
    "2 \<le> e_budget (env (dr_router s4))" "io_ctx (dr_router s4) = Some 0"
    by (rule sim_subscribe [OF H 1(3-5) b]) (simp add: 1(7))
  obtain ctl m5 where 5: "direct_generate True H JRTC_ROUTER_DEST_NONE 1 ''AdvancedExample1://jbpf_agent/simple_input_pb_codeletset/codelet'' ''input_map'' s4 =
      Inr (1, ctl, s4\<lparr>dr_heap := m5\<rparr>)" "mem_wf m5" "\<forall>k. \<not> oom m5 k"
    "id_for JRTC_ROUTER_DEST_NONE 1 (Some ''AdvancedExample1://jbpf_agent/simple_input_pb_codeletset/codelet'') (Some ''input_map'') ctl"
    by (rule sim_generate [OF 2(4,5) H])
  have m5: "mem_wf (dr_heap (s4\<lparr>dr_heap := m5\<rparr>))" "\<forall>k. \<not> oom (dr_heap (s4\<lparr>dr_heap := m5\<rparr>)) k" using 5(2,3) by simp_all
  obtain inp m6 where 6: "direct_generate True H JRTC_ROUTER_DEST_NONE 0 ''AdvancedExample1://intraapp'' ''buffer_input'' (s4\<lparr>dr_heap := m5\<rparr>) =
      Inr (1, inp, s4\<lparr>dr_heap := m6\<rparr>)" by (rule sim_generate [OF m5 H]) simp
  obtain d where "dapps (dr_router s4) a = Some d" using 2(3) by (auto simp: at_home_def)
  then have "\<exists>c s7. direct_channel sim H (Some a) False 4 inp (s4\<lparr>dr_heap := m6\<rparr>) = Inr (Some c, s7) \<and> io_ctx (dr_router s7) = Some 0"
    using 2(6,7) by (auto simp: direct_channel_def jrtc_router_channel_create_def sim_def sim_malloc_def sim_set_def sim_create_channel_def app_of_def Let_def split: nat.splits)
  then obtain c s7 where 7: "direct_channel sim H (Some a) False 4 inp (s4\<lparr>dr_heap := m6\<rparr>) = Inr (Some c, s7)" "io_ctx (dr_router s7) = Some 0" by blast
  have "int (length (pb_bytes sim_payloads 0)) = 4" by (simp add: sim_payloads_def le32_bytes_def)
  then have "advanced1_setup True sim sim_payloads H (Some a) (sim_direct sim_one) = Inr (gen, out, ctl, inp, s7)"
    unfolding advanced1_setup_def s_def [symmetric] by (simp add: 1(1,2) 2(1,2) 5(1) 6 7(1) assert_that_def)
  then show ?thesis using that 7(2) 5(4) by simp
qed

section \<open>The subscription that is left\<close>

text \<open>C39: The first application of the advanced example, written directly against the router, registers two requests and deregisters
  one.  Whenever \<open>jrtc_start_app\<close> returns, after any number of iterations, the application is no longer subscribed to the
  codelet but still to the output of the second application, and otherwise subscribed to what it was before.\<close>

theorem advanced_example_leaves_subscription:
  assumes "ext_laws E V" and "send_law E V" and "length (junk_sid H) = 16" and "steady_host E V a i H"
    and "at_home E V a i (dr_router s)" and "mem_wf (dr_heap s)" and "no_channels V a (dr_router s)"
    and "advanced1_start_app n k sc E P H (Some a) s = Some (Inr s')"
  shows "\<exists>gen out. id_for JRTC_ROUTER_DEST_ANY JRTC_ROUTER_DEVICE_ID_ANY
      (Some ''AdvancedExample1://jbpf_agent/data_generator_codeletset/codelet'') (Some ''ringbuf'') gen \<and>
    id_for JRTC_ROUTER_DEST_ANY 0 (Some ''AdvancedExample2://intraapp'') (Some ''buffer'') out \<and>
    at_home E V a i (dr_router s') \<and> mine V i (dr_router s') = insert out (mine V i (dr_router s) - {gen})"
proof -
  from assms(8) obtain gen out ctl inp s1 where 1: "advanced1_setup sc E P H (Some a) s = Inr (gen, out, ctl, inp, s1)"
    by (cases "advanced1_setup sc E P H (Some a) s") (auto simp: advanced1_start_app_def)
  note su = advanced1_setup_ok [OF 1 assms(1,3,5,6,7)]
  let ?batch = "direct_entries (advanced1_entry E P gen out ctl inp)"
  obtain s2 where 2: "direct_wait n E H ctl s1 = Some s2" "bindS (direct_loop k E H ?batch (Some a) s2) (direct_deregister E (Some a) gen) = Inr s'"
    using assms(8) 1 by (auto simp: advanced1_start_app_def)
  from run_and_deregister [OF assms(1,4) advanced1_env_only [OF assms(1,2)] 2 su(1)] have
    d: "at_home E V a i (dr_router s')" "mine V i (dr_router s') = mine V i (dr_router s1) - {gen}" by simp_all
  have ne: "gen \<noteq> out" by (rule devices_differ [OF su(3,4)]) (simp add: JRTC_ROUTER_DEVICE_ID_ANY_def)
  have "mine V i (dr_router s') = insert out (mine V i (dr_router s) - {gen})" using d(2) su(2) ne by auto
  then show ?thesis using su(3,4) d(1) by blast
qed

theorem advanced_example_leaves_subscription_witness:
  "\<exists>ctl s' gen out. advanced1_start_app 1 0 True sim sim_payloads (sim_codelet_host ctl) (Some 1) (sim_direct sim_one) = Some (Inr s') \<and>
     mine sim_views 0 (dr_router s') = insert out (mine sim_views 0 sim_one - {gen})"
proof -
  let ?id = "id_for JRTC_ROUTER_DEST_NONE 1 (Some ''AdvancedExample1://jbpf_agent/simple_input_pb_codeletset/codelet'') (Some ''input_map'')"
  have home: "at_home sim sim_views 1 0 (dr_router (sim_direct sim_one))" "at_home sim sim_views 1 0 sim_one"
    using sim_one_ok sim_one_app by (auto simp: at_home_def sim_direct_def direct_start_def)
  have none: "no_channels sim_views 1 (dr_router (sim_direct sim_one))"
    using sim_one_facts(3) by (auto simp: no_channels_def sim_direct_def direct_start_def chan_table_def sim_views_def)
  have m: "mem_wf (dr_heap (sim_direct sim_one))" by (simp add: sim_direct_def direct_start_def mem_wf_def)
  obtain ctl where ctl: "?id ctl" by (rule sim_setup [OF sim_codelet_host_steady(2) home(2)])
  define H where "H = sim_codelet_host ctl"
  have H: "steady_host sim sim_views 1 0 H" "junk_sid H = replicate 16 0" "length (junk_sid H) = 16" by (simp_all add: H_def sim_codelet_host_steady)
  obtain gen out ctl' inp s1 where s1: "advanced1_setup True sim sim_payloads H (Some 1) (sim_direct sim_one) = Inr (gen, out, ctl', inp, s1)"
    "io_ctx (dr_router s1) = Some 0" "?id ctl'" by (rule sim_setup [OF H(2) home(2)])
  have "ctl' = ctl" by (rule id_for_unique [OF s1(3) ctl])
  then have "\<exists>s2. direct_wait 1 sim H ctl' s1 = Some s2"
    using s1(2) by (simp add: direct_sleep_def H_def sim_codelet_host_def jrtc_router_input_channel_exists_def sim_def)
  then obtain s2 where s2: "direct_wait 1 sim H ctl' s1 = Some s2" by blast
  have "at_home sim sim_views 1 0 (dr_router s2)"
    using wait_stays [OF H(1) s2] advanced1_setup_ok(1) [OF s1(1) sim_ext_laws H(3) home(1) m none] by (simp add: stays_def)
  from deregister_home [OF sim_ext_laws this, of gen] obtain rt where "jrtc_router_channel_deregister_stream_id_req sim (dr_router s2) (Some 1) gen = Inr rt" by blast
  then have "\<exists>s'. advanced1_start_app 1 0 True sim sim_payloads H (Some 1) (sim_direct sim_one) = Some (Inr s')"
    unfolding advanced1_start_app_def s1(1) sum.case prod.case s2 direct_loop.simps direct_deregister_def option.map bindS_simps by simp
  then obtain s' where s': "advanced1_start_app 1 0 True sim sim_payloads H (Some 1) (sim_direct sim_one) = Some (Inr s')" by blast
  from advanced_example_leaves_subscription [OF sim_ext_laws sim_sends(1) H(3,1) home(1) m none s'] s' show ?thesis
    unfolding H_def by (auto simp: sim_direct_def direct_start_def)
qed

end
