(* ===== verification/Codelets.thy ===== *)
theory Codelets
  imports Samples_Props
begin

text \<open>
  The codelets of the samples under \<open>sample_apps/jbpf_codelets\<close>, which an agent runs at a hook: the data generators send a counter
  that goes around at 1024, the input codelets print what the applications send.  The maps, the ring buffer and the input queue
  are those of jbpf: whether a lookup finds its element, whether a message is taken and what is received are arguments.
\<close>

section \<open>Data generators\<close>

record helper_results =
  counter_found :: bool
  msg_found :: bool
  output_taken :: bool

text \<open>The elements of the two maps, and the messages in the ring buffer.\<close>

record generator =
  counter_elem :: u32
  ringbuf_msg_elem :: u32
  ringbuf :: "u8 list list"

text \<open>The argument \<open>enc\<close> gives the bytes of the message with a given counter.\<close>

definition generator_main :: "(u32 \<Rightarrow> u8 list) \<Rightarrow> helper_results \<Rightarrow> generator \<Rightarrow> u64 \<times> generator" where
  "generator_main enc r s =
     (if \<not> counter_found r then (0, s)
      else
        (let cnt = (counter_elem s + 1) mod 1024;
             s = s\<lparr>counter_elem := cnt\<rparr>
         in if \<not> msg_found r then (0, s)
            else
              (let s = s\<lparr>ringbuf_msg_elem := cnt\<rparr>
               in (0, if output_taken r then s\<lparr>ringbuf := ringbuf s @ [enc (ringbuf_msg_elem s)]\<rparr> else s))))"

definition data_generator_main :: "helper_results \<Rightarrow> generator \<Rightarrow> u64 \<times> generator" where
  "data_generator_main = generator_main le32_bytes"

text \<open>The bytes of an \<open>example_msg_pb\<close> are those of the generated structure.\<close>

definition data_generator_pb_main :: "(u32 \<Rightarrow> u8 list) \<Rightarrow> helper_results \<Rightarrow> generator \<Rightarrow> u64 \<times> generator" where
  "data_generator_pb_main enc = generator_main enc"

primrec generator_runs :: "(u32 \<Rightarrow> u8 list) \<Rightarrow> helper_results list \<Rightarrow> generator \<Rightarrow> generator" where
  "generator_runs enc [] s = s"
| "generator_runs enc (r # rs) s = generator_runs enc rs (snd (generator_main enc r s))"

section \<open>Input codelets\<close>

text \<open>The results of the successive calls of \<open>jbpf_control_input_receive\<close> with the value each call leaves in \<open>in\<close>; \<open>None\<close> if none of
  them ends the loop.\<close>

primrec simple_input_main :: "(int \<times> u32) list \<Rightarrow> u32 list option" where
  "simple_input_main [] = None"
| "simple_input_main (r # rs) = (if 0 < fst r then map_option ((#) (snd r)) (simple_input_main rs) else Some [])"

definition simple_input_pb_main :: "(u8 list \<Rightarrow> u32) \<Rightarrow> (int \<times> u8 list) list \<Rightarrow> u32 list option" where
  "simple_input_pb_main dec rs = simple_input_main (map (\<lambda>(n, bs). (n, dec bs)) rs)"

section \<open>The counter\<close>

definition all_found :: helper_results where
  "all_found = \<lparr>counter_found = True, msg_found = True, output_taken = True\<rparr>"

lemma counter_step: "unat ((c + 1) mod 1024 :: u32) = (unat c + 1) mod 1024"
proof -
  have "unat (c + 1) = (unat c + 1) mod 2 ^ 32" by (simp add: unat_word_ariths)
  moreover have "(1024 :: nat) dvd 2 ^ 32" by (simp add: dvd_def)
  ultimately show ?thesis by (simp add: unat_mod mod_mod_cancel)
qed

lemma le32_bytes_inverse: "le32 (le32_bytes w) = w"
proof (rule bit_word_eqI)
  fix n assume n: "n < LENGTH(32)"
  then consider "n < 8" | "8 \<le> n" "n < 16" | "16 \<le> n" "n < 24" | "24 \<le> n" "n < 32" by fastforce
  then show "bit (le32 (le32_bytes w)) n = bit w n"
    by cases (auto simp: le32_def le32_bytes_def bit_simps)
qed

text \<open>A run in which a lookup fails sends nothing; and whatever fails, the counter stays below 1024.\<close>

lemma generator_failures:
  "\<not> counter_found r \<or> \<not> msg_found r \<or> \<not> output_taken r \<Longrightarrow> ringbuf (snd (generator_main enc r s)) = ringbuf s"
  "unat (counter_elem s) < 1024 \<Longrightarrow> unat (counter_elem (snd (generator_main enc r s))) < 1024"
  by (auto simp: generator_main_def Let_def counter_step)

lemma generator_sequence:
  "generator_runs enc (replicate n all_found) s =
     (if n = 0 then s
      else \<lparr>counter_elem = of_nat ((unat (counter_elem s) + n) mod 1024), ringbuf_msg_elem = of_nat ((unat (counter_elem s) + n) mod 1024),
            ringbuf = ringbuf s @ map (\<lambda>k. enc (of_nat ((unat (counter_elem s) + k) mod 1024))) [1..<Suc n]\<rparr>)"
proof (induction n arbitrary: s)
  case (Suc n)
  note IH = Suc.IH
  define w where "w = (counter_elem s + 1) mod 1024"
  have u: "unat w = (unat (counter_elem s) + 1) mod 1024" unfolding w_def by (rule counter_step)
  have w: "w = of_nat ((unat (counter_elem s) + 1) mod 1024)" unfolding u [symmetric] by simp
  have k: "(unat w + k) mod 1024 = (unat (counter_elem s) + Suc k) mod 1024" for k unfolding u by (simp add: mod_add_left_eq)
  have step: "snd (generator_main enc all_found s) = \<lparr>counter_elem = w, ringbuf_msg_elem = w, ringbuf = ringbuf s @ [enc w]\<rparr>"
    by (simp add: generator_main_def all_found_def w_def Let_def)
  have up: "[1..<Suc (Suc n)] = 1 # map Suc [1..<Suc n]" by (simp add: upt_conv_Cons map_Suc_upt del: upt_Suc)
  show ?case
  proof (cases n)
    case 0
    then show ?thesis by (simp add: step w)
  next
    case (Suc m)
    then have ne: "n \<noteq> 0" by simp
    have "generator_runs enc (replicate (Suc n) all_found) s = generator_runs enc (replicate n all_found) \<lparr>counter_elem = w, ringbuf_msg_elem = w, ringbuf = ringbuf s @ [enc w]\<rparr>"
      by (simp add: step)
    also have "\<dots> = \<lparr>counter_elem = of_nat ((unat (counter_elem s) + Suc n) mod 1024), ringbuf_msg_elem = of_nat ((unat (counter_elem s) + Suc n) mod 1024),
        ringbuf = (ringbuf s @ [enc w]) @ map (\<lambda>k. enc (of_nat ((unat (counter_elem s) + Suc k) mod 1024))) [1..<Suc n]\<rparr>"
      by (simp only: IH ne if_False generator.select_convs k)
    finally show ?thesis unfolding up by (simp add: w o_def del: upt_Suc)
  qed
qed simp



text \<open>The input codelet prints what it receives up to the first call that returns nothing.\<close>

lemma simple_input_prints:
  "\<forall>r \<in> set rs. 0 < fst r \<Longrightarrow> n \<le> 0 \<Longrightarrow> simple_input_main (rs @ (n, w) # later) = Some (map snd rs)"
  by (induction rs) auto

end
