(* ===== verification/Simple_Agent.thy ===== *)
theory Simple_Agent
  imports Prelude "HOL-Library.Sublist"
begin

text \<open>
  The program \<open>simple_agent_ipc\<close> of the samples, a process that loads codelets and calls their hook once a second.  It runs until a
  signal ends it.  Signals can arrive between any two of its steps, also while the signal handler itself is running, so the
  program is a machine that makes one step of its own or receives one signal at a time.
\<close>

section \<open>State\<close>

text \<open>The constants of jbpf, and the results of the calls of the operating system and of \<open>jbpf_init\<close>.\<close>

record agent_consts =
  JBPF_HUGEPAGE_SIZE_1GB :: nat
  JBPF_IO_IPC_MAX_NAMELEN :: nat
  JBPF_LCM_NAMELEN :: nat
  JBPF_DEFAULT_LCM_SOCKET :: string

record agent_results =
  sigint_result :: bool
  sigterm_result :: bool
  jbpf_init_result :: int

record jbpf_config =
  ipc_mem_size :: nat
  ipc_name :: string
  has_lcm_ipc_thread :: bool
  lcm_ipc_name :: string

text \<open>\<open>strncpy\<close> with the size of the array copies that many characters at most; \<open>snprintf\<close> is given one less than the size and keeps
  one of those for the end of the string.\<close>

definition agent_config :: "agent_consts \<Rightarrow> jbpf_config" where
  "agent_config K =
     \<lparr>ipc_mem_size = JBPF_HUGEPAGE_SIZE_1GB K, ipc_name = take (JBPF_IO_IPC_MAX_NAMELEN K) ''jrt_controller'',
      has_lcm_ipc_thread = True, lcm_ipc_name = take (JBPF_LCM_NAMELEN K - 2) (JBPF_DEFAULT_LCM_SOCKET K)\<rparr>"

record packet =
  counter_a :: int
  counter_b :: int

datatype lib_call =
    JbpfInit jbpf_config
  | RegisterThread
  | HookTest1 packet int
  | CleanupThread
  | JbpfStop

text \<open>Where the program is: before each of the two calls of \<open>signal\<close>, before \<open>jbpf_init\<close>, before the thread is registered, in the
  loop; in the signal handler, before each of its calls; ended with a status, or by a signal that has no handler yet.\<close>

datatype pc = AtSigint | AtSigterm | AtInit | AtRegister | InLoop | InHandler1 | InHandler2 | InHandler3 | Ended int | Killed

record agent_proc =
  pc :: pc
  sig_handler_called :: bool
  lib_calls :: "lib_call list"

definition agent_start :: agent_proc where
  "agent_start = \<lparr>pc = AtSigint, sig_handler_called = False, lib_calls = []\<rparr>"

definition called_lib :: "lib_call \<Rightarrow> agent_proc \<Rightarrow> agent_proc" where
  "called_lib c s = s\<lparr>lib_calls := lib_calls s @ [c]\<rparr>"

section \<open>Steps\<close>

text \<open>Entering the handler: it returns at once when it was called before.\<close>

definition sig_handler :: "agent_proc \<Rightarrow> agent_proc" where
  "sig_handler s = (if sig_handler_called s then s else s\<lparr>sig_handler_called := True, pc := InHandler1\<rparr>)"

datatype signo = SIGINT | SIGTERM

text \<open>A signal is handled once its handler is installed, and otherwise ends the process.\<close>

definition deliver :: "signo \<Rightarrow> agent_proc \<Rightarrow> agent_proc" where
  "deliver n s =
     (case pc s of
        Ended _ \<Rightarrow> s
      | Killed \<Rightarrow> s
      | AtSigint \<Rightarrow> s\<lparr>pc := Killed\<rparr>
      | AtSigterm \<Rightarrow> if n = SIGINT then sig_handler s else s\<lparr>pc := Killed\<rparr>
      | _ \<Rightarrow> sig_handler s)"

definition handle_signal :: "agent_results \<Rightarrow> agent_proc \<Rightarrow> agent_proc" where
  "handle_signal r s =
     (if pc s = AtSigint then s\<lparr>pc := if sigint_result r then AtSigterm else Ended 1\<rparr>
      else s\<lparr>pc := if sigterm_result r then AtInit else Ended 1\<rparr>)"

definition agent_main_step :: "agent_consts \<Rightarrow> agent_results \<Rightarrow> agent_proc \<Rightarrow> agent_proc" where
  "agent_main_step K r s =
     (case pc s of
        AtSigint \<Rightarrow> handle_signal r s
      | AtSigterm \<Rightarrow> handle_signal r s
      | AtInit \<Rightarrow> (called_lib (JbpfInit (agent_config K)) s)\<lparr>pc := if jbpf_init_result r < 0 then Ended 1 else AtRegister\<rparr>
      | AtRegister \<Rightarrow> (called_lib RegisterThread s)\<lparr>pc := InLoop\<rparr>
      | InLoop \<Rightarrow> called_lib (HookTest1 \<lparr>counter_a = 1, counter_b = 2\<rparr> 1) s
      | InHandler1 \<Rightarrow> (called_lib CleanupThread s)\<lparr>pc := InHandler2\<rparr>
      | InHandler2 \<Rightarrow> (called_lib JbpfStop s)\<lparr>pc := InHandler3\<rparr>
      | InHandler3 \<Rightarrow> s\<lparr>pc := Ended 0\<rparr>
      | Ended _ \<Rightarrow> s
      | Killed \<Rightarrow> s)"

inductive agent_step :: "agent_consts \<Rightarrow> agent_results \<Rightarrow> agent_proc \<Rightarrow> agent_proc \<Rightarrow> bool" for K r where
  main: "agent_step K r s (agent_main_step K r s)"
| signal: "agent_step K r s (deliver n s)"

inductive agent_reaches :: "agent_consts \<Rightarrow> agent_results \<Rightarrow> agent_proc \<Rightarrow> bool" for K r where
  start: "agent_reaches K r agent_start"
| step: "agent_reaches K r s \<Longrightarrow> agent_step K r s s' \<Longrightarrow> agent_reaches K r s'"

section \<open>The calls of the library\<close>

text \<open>What is called before a signal arrives.\<close>

definition normal_calls :: "agent_consts \<Rightarrow> nat \<Rightarrow> lib_call list" where
  "normal_calls K k = [JbpfInit (agent_config K), RegisterThread] @ replicate k (HookTest1 \<lparr>counter_a = 1, counter_b = 2\<rparr> 1)"

definition agent_inv :: "agent_consts \<Rightarrow> agent_results \<Rightarrow> agent_proc \<Rightarrow> bool" where
  "agent_inv K r s \<longleftrightarrow>
     (case pc s of
        AtSigint \<Rightarrow> \<not> sig_handler_called s \<and> lib_calls s = []
      | AtSigterm \<Rightarrow> \<not> sig_handler_called s \<and> lib_calls s = []
      | AtInit \<Rightarrow> \<not> sig_handler_called s \<and> lib_calls s = []
      | AtRegister \<Rightarrow> \<not> sig_handler_called s \<and> lib_calls s = [JbpfInit (agent_config K)]
      | InLoop \<Rightarrow> \<not> sig_handler_called s \<and> (\<exists>k. lib_calls s = normal_calls K k)
      | InHandler1 \<Rightarrow> sig_handler_called s \<and> (\<exists>k. prefix (lib_calls s) (normal_calls K k))
      | InHandler2 \<Rightarrow> sig_handler_called s \<and> (\<exists>k cs. prefix cs (normal_calls K k) \<and> lib_calls s = cs @ [CleanupThread])
      | InHandler3 \<Rightarrow> sig_handler_called s \<and> (\<exists>k cs. prefix cs (normal_calls K k) \<and> lib_calls s = cs @ [CleanupThread, JbpfStop])
      | Ended n \<Rightarrow>
          if n = 0 then (\<exists>k cs. prefix cs (normal_calls K k) \<and> lib_calls s = cs @ [CleanupThread, JbpfStop])
          else lib_calls s = [] \<or> jbpf_init_result r < 0 \<and> lib_calls s = [JbpfInit (agent_config K)]
      | Killed \<Rightarrow> lib_calls s = [])"

lemma normal_calls_Suc: "normal_calls K k @ [HookTest1 \<lparr>counter_a = 1, counter_b = 2\<rparr> 1] = normal_calls K (Suc k)"
  by (simp add: normal_calls_def replicate_append_same)

lemma agent_main_step_inv:
  assumes "agent_inv K r s"
  shows "agent_inv K r (agent_main_step K r s)"
proof (cases "pc s")
  case AtRegister
  then show ?thesis using assms by (auto simp: agent_inv_def agent_main_step_def called_lib_def normal_calls_def intro!: exI [of _ 0])
next
  case InLoop
  then show ?thesis using assms by (auto simp: agent_inv_def agent_main_step_def called_lib_def normal_calls_Suc)
qed (use assms in \<open>auto simp: agent_inv_def agent_main_step_def called_lib_def handle_signal_def\<close>)

lemma sig_handler_inv:
  assumes "agent_inv K r s" and "pc s \<in> {AtSigterm, AtInit, AtRegister, InLoop, InHandler1, InHandler2, InHandler3}"
  shows "agent_inv K r (sig_handler s)"
proof -
  have "prefix (normal_calls K k) (normal_calls K k)" "prefix [JbpfInit (agent_config K)] (normal_calls K 0)" for k by (simp_all add: normal_calls_def)
  then show ?thesis using assms unfolding agent_inv_def sig_handler_def by (auto; blast)
qed

lemma agent_reaches_inv: "agent_reaches K r s \<Longrightarrow> agent_inv K r s"
proof (induction rule: agent_reaches.induct)
  case (step s s')
  from step.hyps(2) show ?case
  proof cases
    case main
    then show ?thesis using agent_main_step_inv [OF step.IH] by simp
  next
    case (signal n)
    then show ?thesis using step.IH sig_handler_inv [OF step.IH]
      by (cases "pc s") (auto simp: deliver_def agent_inv_def split: if_splits)
  qed
qed (simp add: agent_inv_def agent_start_def)

lemma no_stop_in_normal: "prefix cs (normal_calls K k) \<Longrightarrow> count_list cs JbpfStop = 0"
proof -
  assume "prefix cs (normal_calls K k)"
  then have "set cs \<subseteq> set (normal_calls K k)" by (rule set_mono_prefix)
  then have "JbpfStop \<notin> set cs" by (auto simp: normal_calls_def)
  then show ?thesis by (simp add: count_list_0_iff)
qed

text \<open>What has been called so far, in every state.\<close>

lemma agent_inv_calls:
  assumes "agent_inv K r s"
  obtains k cs where "prefix cs (normal_calls K k)" "lib_calls s \<in> {cs, cs @ [CleanupThread], cs @ [CleanupThread, JbpfStop]}"
    "pc s = Ended 0 \<Longrightarrow> lib_calls s = cs @ [CleanupThread, JbpfStop]"
proof (cases "pc s = InHandler2 \<or> pc s = InHandler3 \<or> pc s = Ended 0")
  case True
  then obtain k cs where "prefix cs (normal_calls K k)" "lib_calls s \<in> {cs @ [CleanupThread], cs @ [CleanupThread, JbpfStop]}"
    "pc s = Ended 0 \<longrightarrow> lib_calls s = cs @ [CleanupThread, JbpfStop]"
    using assms by (auto simp: agent_inv_def)
  then show ?thesis using that by blast
next
  case False
  have "prefix (normal_calls K k) (normal_calls K k)" "prefix [JbpfInit (agent_config K)] (normal_calls K 0)" for k by (simp_all add: normal_calls_def)
  then obtain k where "prefix (lib_calls s) (normal_calls K k)" using False assms unfolding agent_inv_def by (auto split: pc.splits if_splits; blast)
  then show ?thesis using that False by blast
qed

text \<open>C40: However signals arrive, also while one is being handled, the sample agent stops jbpf at most once and only after cleaning up
  its thread; what it called before is a beginning of initialising, registering the thread and calling the hook; it ends with
  status 0 only after the stop.  A signal that arrives in the loop ends it so in three steps.\<close>

theorem agent_stops_once:
  assumes "agent_reaches K r s"
  shows "count_list (lib_calls s) JbpfStop \<le> 1 \<and>
    (\<exists>k cs. prefix cs (normal_calls K k) \<and> lib_calls s \<in> {cs, cs @ [CleanupThread], cs @ [CleanupThread, JbpfStop]} \<and>
       (pc s = Ended 0 \<longrightarrow> lib_calls s = cs @ [CleanupThread, JbpfStop])) \<and>
    (pc s = InLoop \<longrightarrow>
       (let s' = (agent_main_step K r ^^ 3) (deliver n s)
        in pc s' = Ended 0 \<and> lib_calls s' = lib_calls s @ [CleanupThread, JbpfStop]))"
proof -
  have inv: "agent_inv K r s" using assms by (rule agent_reaches_inv)
  from agent_inv_calls [OF inv] obtain k cs where cs: "prefix cs (normal_calls K k)"
    "lib_calls s \<in> {cs, cs @ [CleanupThread], cs @ [CleanupThread, JbpfStop]}" "pc s = Ended 0 \<Longrightarrow> lib_calls s = cs @ [CleanupThread, JbpfStop]" by blast
  have "count_list (lib_calls s) JbpfStop \<le> 1" using cs(2) no_stop_in_normal [OF cs(1)] by auto
  moreover have "pc s = InLoop \<Longrightarrow> \<not> sig_handler_called s" using inv by (simp add: agent_inv_def)
  then have "pc s = InLoop \<longrightarrow> (let s' = (agent_main_step K r ^^ 3) (deliver n s) in pc s' = Ended 0 \<and> lib_calls s' = lib_calls s @ [CleanupThread, JbpfStop])"
    by (simp add: numeral_3_eq_3 deliver_def sig_handler_def agent_main_step_def called_lib_def)
  ultimately show ?thesis using cs by blast
qed

definition sim_consts :: agent_consts where
  "sim_consts = \<lparr>JBPF_HUGEPAGE_SIZE_1GB = 1073741824, JBPF_IO_IPC_MAX_NAMELEN = 32, JBPF_LCM_NAMELEN = 64, JBPF_DEFAULT_LCM_SOCKET = ''jbpf_lcm_ipc''\<rparr>"

definition sim_results :: agent_results where
  "sim_results = \<lparr>sigint_result = True, sigterm_result = True, jbpf_init_result = 0\<rparr>"

theorem agent_stops_once_witness:
  "\<exists>s. pc s = InLoop \<and> lib_calls s = normal_calls sim_consts 0 \<and>
     (let s' = (agent_main_step sim_consts sim_results ^^ 3) (deliver SIGINT s)
      in pc s' = Ended 0 \<and> lib_calls s' = normal_calls sim_consts 0 @ [CleanupThread, JbpfStop])"
proof -
  let ?step = "agent_main_step sim_consts sim_results"
  define s where "s = (?step ^^ 4) agent_start"
  have "agent_reaches sim_consts sim_results ((?step ^^ m) agent_start)" for m
    by (induction m) (auto intro: agent_reaches.intros agent_step.intros)
  then have r: "agent_reaches sim_consts sim_results s" by (simp add: s_def)
  have s: "pc s = InLoop" "lib_calls s = normal_calls sim_consts 0"
    by (simp_all add: s_def eval_nat_numeral agent_start_def agent_main_step_def handle_signal_def called_lib_def sim_results_def normal_calls_def)
  from agent_stops_once [OF r, of SIGINT] s show ?thesis by (intro exI [of _ s]) simp
qed

text \<open>The handlers are installed before jbpf is initialised: a signal in between stops a library that was never started.\<close>

lemma stop_without_init:
  assumes "sigint_result r" and "sigterm_result r"
  shows "\<exists>s. agent_reaches K r s \<and> pc s = Ended 0 \<and> lib_calls s = [CleanupThread, JbpfStop]"
proof -
  let ?step = "agent_main_step K r"
  define s where "s = (?step ^^ 3) (deliver SIGTERM ((?step ^^ 2) agent_start))"
  have "agent_reaches K r ((?step ^^ m) t)" if "agent_reaches K r t" for m t
    using that by (induction m) (auto intro: agent_reaches.intros agent_step.intros)
  then have "agent_reaches K r s" unfolding s_def by (blast intro: agent_reaches.intros agent_step.intros)
  moreover have "pc s = Ended 0" "lib_calls s = [CleanupThread, JbpfStop]"
    using assms by (simp_all add: s_def eval_nat_numeral agent_start_def agent_main_step_def handle_signal_def called_lib_def deliver_def sig_handler_def)
  ultimately show ?thesis by blast
qed

end
