(* ===== verification/Go_Stream_Id.thy ===== *)
theory Go_Stream_Id
  imports Stream_Id_Fields
begin

text \<open>
  The Go bindings of stream ids (\<open>tools/jrtc-ctl/jrtcbindings\<close>).  Ids are generated and matched by the C library through \<open>cgo\<close>; the
  fields are read and cleared in Go.  The package \<open>uuid\<close> is a parameter: the conversion from bytes and the printed form.
\<close>

section \<open>Destinations\<close>

type_synonym Destination = u8

definition DestinationAny :: Destination where
  "DestinationAny = ucast JRTC_ROUTER_DEST_ANY"

definition DestinationNone :: Destination where
  "DestinationNone = ucast JRTC_ROUTER_DEST_NONE"

definition DestinationUDP :: Destination where
  "DestinationUDP = ucast JRTC_ROUTER_DEST_UDP"

definition DeviceIDAny :: u8 where
  "DeviceIDAny = ucast JRTC_ROUTER_DEVICE_ID_ANY"

definition destinationFromString :: "string \<rightharpoonup> Destination" where
  "destinationFromString = map_of [(''DestinationAny'', DestinationAny), (''DestinationNone'', DestinationNone), (''DestinationUDP'', DestinationUDP)]"

definition destinationFromStringAlt :: "string \<rightharpoonup> Destination" where
  "destinationFromStringAlt =
     map_of [(''JRTC_ROUTER_DEST_ANY'', DestinationAny), (''JRTC_ROUTER_DEST_NONE'', DestinationNone), (''JRTC_ROUTER_DEST_UDP'', DestinationUDP)]"

definition DestinationFromString :: "string \<Rightarrow> Destination option" where
  "DestinationFromString val = (case destinationFromString val of Some d \<Rightarrow> Some d | None \<Rightarrow> destinationFromStringAlt val)"

text \<open>A missing key of a Go map gives the zero value.\<close>

definition Destination_String :: "Destination \<Rightarrow> string" where
  "Destination_String d =
     (if d = DestinationAny then ''DestinationAny'' else if d = DestinationNone then ''DestinationNone''
      else if d = DestinationUDP then ''DestinationUDP'' else '''')"

section \<open>Generation and matching\<close>

record uuid_lib =
  uuid_UnmarshalBinary :: "u8 list \<Rightarrow> stream_id option"
  uuid_String :: "stream_id \<Rightarrow> string"

text \<open>Sixteen bytes are copied and any other number of bytes is an error; different ids print differently.\<close>

definition uuid_law :: "uuid_lib \<Rightarrow> bool" where
  "uuid_law U \<longleftrightarrow>
     (\<forall>b. uuid_UnmarshalBinary U b = (if length b = 16 then Some b else None)) \<and> inj_on (uuid_String U) {s. length s = 16}"

definition StreamIDFromBytes :: "uuid_lib \<Rightarrow> u8 list \<Rightarrow> stream_id option" where
  "StreamIDFromBytes U b = uuid_UnmarshalBinary U b"

definition newStreamID :: "uuid_lib \<Rightarrow> stream_id \<Rightarrow> stream_id option" where
  "newStreamID U internal = uuid_UnmarshalBinary U internal"

text \<open>\<open>C.CString\<close> copies a string to the heap of C, where it ends at the first zero byte; the program is aborted when there is no memory.\<close>

definition cut :: "string \<Rightarrow> string" where
  "cut s = takeWhile (\<lambda>c. c \<noteq> CHR 0x00) s"

definition C_CString :: "mem \<Rightarrow> string option \<Rightarrow> ub + (cstr option \<times> mem)" where
  "C_CString m s =
     (case s of
        None \<Rightarrow> Inr (None, m)
      | Some x \<Rightarrow> (case malloc m of (None, m) \<Rightarrow> Inl Aborted | (Some a, m) \<Rightarrow> Inr (Some (a, cut x), m)))"

definition GenerateStreamID ::
    "bool \<Rightarrow> uuid_lib \<Rightarrow> mem \<Rightarrow> Destination \<Rightarrow> u8 \<Rightarrow> string option \<Rightarrow> string option \<Rightarrow> ub + (stream_id option \<times> mem)" where
  "GenerateStreamID sc U m forwardDestination deviceID streamPath streamName =
     bindS (C_CString m streamPath) (\<lambda>(path, m).
     bindS (C_CString m streamName) (\<lambda>(name, m).
     bindS (jrtc_router_generate_stream_id sc m (Some (replicate 16 0)) (ucast forwardDestination) (ucast deviceID)
              (map_option snd path) (map_option snd name)) (\<lambda>(res, streamID, m).
     let out = (if res \<noteq> 1 then None else case streamID of None \<Rightarrow> None | Some s \<Rightarrow> newStreamID U s) in
     bindS (free_opt m name) (\<lambda>m.
     bindS (free_opt m path) (\<lambda>m.
       Inr (out, m))))))"

definition Matches :: "stream_id \<Rightarrow> stream_id \<Rightarrow> bool" where
  "Matches s streamIDReq = jrtc_router_stream_id_matches_req s streamIDReq"

section \<open>Fields\<close>

definition GetVersion :: "stream_id \<Rightarrow> u8" where
  "GetVersion s = drop_bit 2 (s ! 0) AND 0x3F"

definition GetForwardingDestination :: "stream_id \<Rightarrow> u8" where
  "GetForwardingDestination s = push_bit 5 (s ! 0 AND 0x03) OR (drop_bit 3 (s ! 1) AND 0x1F)"

definition GetDeviceID :: "stream_id \<Rightarrow> u8" where
  "GetDeviceID s = push_bit 4 (s ! 1 AND 0x07) OR (drop_bit 4 (s ! 2) AND 0x0F)"

definition GetStreamPath :: "stream_id \<Rightarrow> u8 list" where
  "GetStreamPath s =
     [push_bit 2 (s ! 2 AND 0x0F) OR drop_bit 6 (s ! 3), push_bit 2 (s ! 3) OR drop_bit 6 (s ! 4),
      push_bit 2 (s ! 4) OR drop_bit 6 (s ! 5), push_bit 2 (s ! 5) OR drop_bit 6 (s ! 6),
      push_bit 2 (s ! 6) OR drop_bit 6 (s ! 7), push_bit 2 (s ! 7) OR drop_bit 6 (s ! 8),
      push_bit 2 (s ! 8) OR drop_bit 6 (s ! 9)]"

definition GetStreamName :: "stream_id \<Rightarrow> u8 list" where
  "GetStreamName s = [s ! 9 AND 0x3F, s ! 10, s ! 11, s ! 12, s ! 13, s ! 14, s ! 15]"

record StreamIDFormatConfig =
  ClearVersion :: bool
  ClearForwardingDestination :: bool
  ClearDeviceID :: bool
  ClearStreamPath :: bool
  ClearStreamName :: bool

definition Format :: "StreamIDFormatConfig \<Rightarrow> stream_id \<Rightarrow> stream_id" where
  "Format req s =
     (let s = (if ClearVersion req then s[0 := s ! 0 AND 0x03] else s);
          s = (if ClearForwardingDestination req then s[0 := s ! 0 AND 0xFC, 1 := s ! 1 AND 0x07] else s);
          s = (if ClearDeviceID req then s[1 := s ! 1 AND 0xF8, 2 := s ! 2 AND 0x0F] else s);
          s = (if ClearStreamPath req
               then s[2 := s ! 2 AND 0xF0, 3 := 0, 4 := 0, 5 := 0, 6 := 0, 7 := 0, 8 := s ! 8 AND 0, 9 := s ! 9 AND 0x3F] else s)
      in if ClearStreamName req
         then s[9 := s ! 9 AND 0xC0, 10 := 0, 11 := 0, 12 := 0, 13 := 0, 14 := 0, 15 := 0] else s)"

section \<open>Keys of the decoder\<close>

text \<open>The decoder (\<open>cmd/decoder/run\<close>) keeps the schema of a stream under a key from which version, destination and device are cleared.\<close>

definition key_format :: StreamIDFormatConfig where
  "key_format =
     \<lparr>ClearVersion = True, ClearForwardingDestination = True, ClearDeviceID = True, ClearStreamPath = False, ClearStreamName = False\<rparr>"

definition streamIDTransform :: "uuid_lib \<Rightarrow> u8 list \<Rightarrow> string option" where
  "streamIDTransform U bs = map_option (\<lambda>sid. ''streamToSchema/'' @ uuid_String U (Format key_format sid)) (StreamIDFromBytes U bs)"

section \<open>Bits\<close>

lemma byte_masks:
  assumes "r < 8"
  shows "bit (0x03 :: u8) r \<longleftrightarrow> r < 2" and "bit (0xFC :: u8) r \<longleftrightarrow> 2 \<le> r" and "bit (0x07 :: u8) r \<longleftrightarrow> r < 3"
    and "bit (0xF8 :: u8) r \<longleftrightarrow> 3 \<le> r" and "bit (0x0F :: u8) r \<longleftrightarrow> r < 4" and "bit (0xF0 :: u8) r \<longleftrightarrow> 4 \<le> r"
    and "bit (0x3F :: u8) r \<longleftrightarrow> r < 6" and "bit (0xC0 :: u8) r \<longleftrightarrow> 6 \<le> r"
  using assms by (cases rule: less8E; simp)+

text \<open>Which of the numbered bits \<open>Format\<close> clears.\<close>

definition cleared :: "StreamIDFormatConfig \<Rightarrow> nat \<Rightarrow> bool" where
  "cleared req n \<longleftrightarrow>
     (ClearVersion req \<and> 122 \<le> n) \<or> (ClearForwardingDestination req \<and> 115 \<le> n \<and> n < 122) \<or> (ClearDeviceID req \<and> 108 \<le> n \<and> n < 115) \<or>
     (ClearStreamPath req \<and> 54 \<le> n \<and> n < 108) \<or> (ClearStreamName req \<and> n < 54)"

lemma Format_length [simp]: "length (Format req s) = length s"
  by (simp add: Format_def Let_def)

lemma clear_steps:
  fixes s :: stream_id
  assumes "length s = 16" and "q < 16" and "r < 8"
  shows "bit (s[0 := s ! 0 AND 0x03] ! q) r \<longleftrightarrow> bit (s ! q) r \<and> \<not> 122 \<le> 8 * (15 - q) + r"
    and "bit (s[0 := s ! 0 AND 0xFC, 1 := s ! 1 AND 0x07] ! q) r \<longleftrightarrow> bit (s ! q) r \<and> \<not> (115 \<le> 8 * (15 - q) + r \<and> 8 * (15 - q) + r < 122)"
    and "bit (s[1 := s ! 1 AND 0xF8, 2 := s ! 2 AND 0x0F] ! q) r \<longleftrightarrow> bit (s ! q) r \<and> \<not> (108 \<le> 8 * (15 - q) + r \<and> 8 * (15 - q) + r < 115)"
    and "bit (s[2 := s ! 2 AND 0xF0, 3 := 0, 4 := 0, 5 := 0, 6 := 0, 7 := 0, 8 := s ! 8 AND 0, 9 := s ! 9 AND 0x3F] ! q) r \<longleftrightarrow>
           bit (s ! q) r \<and> \<not> (54 \<le> 8 * (15 - q) + r \<and> 8 * (15 - q) + r < 108)"
    and "bit (s[9 := s ! 9 AND 0xC0, 10 := 0, 11 := 0, 12 := 0, 13 := 0, 14 := 0, 15 := 0] ! q) r \<longleftrightarrow> bit (s ! q) r \<and> \<not> 8 * (15 - q) + r < 54"
proof -
  note facts = assms(1) nth_list_update bit_and_iff
  show "bit (s[0 := s ! 0 AND 0x03] ! q) r \<longleftrightarrow> bit (s ! q) r \<and> \<not> 122 \<le> 8 * (15 - q) + r"
    by (rule less16E [OF assms(2)]; use assms(3) byte_masks(1) [OF assms(3)] in \<open>auto simp: facts\<close>)
  show "bit (s[0 := s ! 0 AND 0xFC, 1 := s ! 1 AND 0x07] ! q) r \<longleftrightarrow> bit (s ! q) r \<and> \<not> (115 \<le> 8 * (15 - q) + r \<and> 8 * (15 - q) + r < 122)"
    by (rule less16E [OF assms(2)]; use assms(3) byte_masks(2,3) [OF assms(3)] in \<open>auto simp: facts\<close>)
  show "bit (s[1 := s ! 1 AND 0xF8, 2 := s ! 2 AND 0x0F] ! q) r \<longleftrightarrow> bit (s ! q) r \<and> \<not> (108 \<le> 8 * (15 - q) + r \<and> 8 * (15 - q) + r < 115)"
    by (rule less16E [OF assms(2)]; use assms(3) byte_masks(4,5) [OF assms(3)] in \<open>auto simp: facts\<close>)
  show "bit (s[2 := s ! 2 AND 0xF0, 3 := 0, 4 := 0, 5 := 0, 6 := 0, 7 := 0, 8 := s ! 8 AND 0, 9 := s ! 9 AND 0x3F] ! q) r \<longleftrightarrow>
      bit (s ! q) r \<and> \<not> (54 \<le> 8 * (15 - q) + r \<and> 8 * (15 - q) + r < 108)"
    by (rule less16E [OF assms(2)]; use assms(3) byte_masks(6,7) [OF assms(3)] in \<open>auto simp: facts\<close>)
  show "bit (s[9 := s ! 9 AND 0xC0, 10 := 0, 11 := 0, 12 := 0, 13 := 0, 14 := 0, 15 := 0] ! q) r \<longleftrightarrow> bit (s ! q) r \<and> \<not> 8 * (15 - q) + r < 54"
    by (rule less16E [OF assms(2)]; use assms(3) byte_masks(8) [OF assms(3)] in \<open>auto simp: facts\<close>)
qed

lemma Format_bit:
  assumes "length s = 16" and "n < 128"
  shows "sid_bit (Format req s) n \<longleftrightarrow> sid_bit s n \<and> \<not> cleared req n"
  using assms(2)
proof (rule sid_posE)
  fix q r assume qr: "q < 16" "r < 8" "n = 8 * (15 - q) + r"
  note steps = clear_steps [OF _ qr(1,2), folded qr(3)]
  define s1 where "s1 = (if ClearVersion req then s[0 := s ! 0 AND 0x03] else s)"
  define s2 where "s2 = (if ClearForwardingDestination req then s1[0 := s1 ! 0 AND 0xFC, 1 := s1 ! 1 AND 0x07] else s1)"
  define s3 where "s3 = (if ClearDeviceID req then s2[1 := s2 ! 1 AND 0xF8, 2 := s2 ! 2 AND 0x0F] else s2)"
  define s4 where "s4 = (if ClearStreamPath req
    then s3[2 := s3 ! 2 AND 0xF0, 3 := 0, 4 := 0, 5 := 0, 6 := 0, 7 := 0, 8 := s3 ! 8 AND 0, 9 := s3 ! 9 AND 0x3F] else s3)"
  define s5 where "s5 = (if ClearStreamName req
    then s4[9 := s4 ! 9 AND 0xC0, 10 := 0, 11 := 0, 12 := 0, 13 := 0, 14 := 0, 15 := 0] else s4)"
  have len: "length s1 = 16" "length s2 = 16" "length s3 = 16" "length s4 = 16" by (simp_all add: s1_def s2_def s3_def s4_def assms(1))
  have "bit (s5 ! q) r \<longleftrightarrow> bit (s4 ! q) r \<and> \<not> (ClearStreamName req \<and> n < 54)" unfolding s5_def using steps(5) [OF len(4)] by simp
  moreover have "bit (s4 ! q) r \<longleftrightarrow> bit (s3 ! q) r \<and> \<not> (ClearStreamPath req \<and> 54 \<le> n \<and> n < 108)" unfolding s4_def using steps(4) [OF len(3)] by simp
  moreover have "bit (s3 ! q) r \<longleftrightarrow> bit (s2 ! q) r \<and> \<not> (ClearDeviceID req \<and> 108 \<le> n \<and> n < 115)" unfolding s3_def using steps(3) [OF len(2)] by simp
  moreover have "bit (s2 ! q) r \<longleftrightarrow> bit (s1 ! q) r \<and> \<not> (ClearForwardingDestination req \<and> 115 \<le> n \<and> n < 122)"
    unfolding s2_def using steps(2) [OF len(1)] by simp
  moreover have "bit (s1 ! q) r \<longleftrightarrow> bit (s ! q) r \<and> \<not> (ClearVersion req \<and> 122 \<le> n)" unfolding s1_def using steps(1) [OF assms(1)] by simp
  moreover have "Format req s = s5" by (simp only: Format_def Let_def s1_def s2_def s3_def s4_def s5_def)
  moreover have "sid_bit x n = bit (x ! q) r" for x using qr by (simp add: sid_bit_at)
  ultimately show ?thesis unfolding cleared_def by blast
qed

text \<open>Reading: the value of a sequence of bytes, the first one highest.\<close>

definition be_value :: "u8 list \<Rightarrow> u64" where
  "be_value bs = foldl (\<lambda>w b. push_bit 8 w OR ucast b) 0 bs"

lemma be_value_bit:
  assumes "length bs = 7"
  shows "bit (be_value bs) k \<longleftrightarrow> k < 56 \<and> bit (bs ! (6 - k div 8)) (k mod 8)"
proof -
  have snoc: "be_value (xs @ [b]) = push_bit 8 (be_value xs) OR ucast b" for xs b by (simp add: be_value_def)
  have "bit (be_value xs) k \<longleftrightarrow> k < 8 * length xs \<and> bit (xs ! (length xs - Suc (k div 8))) (k mod 8)" if "length xs \<le> 7" for xs k
    using that
  proof (induction xs arbitrary: k rule: rev_induct)
    case Nil
    then show ?case by (simp add: be_value_def)
  next
    case (snoc b xs)
    show ?case
    proof (cases "k < 8")
      case True
      then show ?thesis by (simp add: snoc_eq_iff_butlast be_value_def bit_simps nth_append)
    next
      case False
      then obtain j where j: "k = j + 8" by (metis add.commute le_add_diff_inverse not_less)
      have d: "(j + 8) div 8 = Suc (j div 8)" "(j + 8) mod 8 = j mod 8" by simp_all
      have "bit (be_value (xs @ [b])) k \<longleftrightarrow> k < 64 \<and> bit (be_value xs) j"
        using False by (auto simp: be_value_def bit_simps j dest: bit_imp_le_length)
      also have "\<dots> \<longleftrightarrow> k < 64 \<and> j < 8 * length xs \<and> bit (xs ! (length xs - Suc (j div 8))) (j mod 8)"
        using snoc.IH [of j] snoc.prems by auto
      also have "\<dots> \<longleftrightarrow> k < 8 * length (xs @ [b]) \<and> bit ((xs @ [b]) ! (length (xs @ [b]) - Suc (k div 8))) (k mod 8)"
        using snoc.prems unfolding j d by (auto simp: nth_append)
      finally show ?thesis .
    qed
  qed
  from this [of bs k] assms show ?thesis by simp
qed

lemma path_byte:
  assumes "r < 8"
  shows "bit (push_bit 2 (x :: u8) OR drop_bit 6 y) r \<longleftrightarrow> (if r < 2 then bit y (r + 6) else bit x (r - 2))"
  using assms by (cases rule: less8E) (simp_all add: bits_simps bit_u8_ge)

lemma GetStreamPath_bit:
  assumes "length s = 16"
  shows "bit (be_value (GetStreamPath s)) k \<longleftrightarrow> k < 54 \<and> sid_bit s (54 + k)"
proof (cases "k < 56")
  case True
  define j r where "j = k div 8" and "r = k mod 8"
  have jr: "j < 7" "r < 8" "k = 8 * j + r" using True by (auto simp: j_def r_def)
  then have j8: "j < 8" by simp
  define h where "h = s ! 2 AND 0x0F"
  have G: "GetStreamPath s =
    [push_bit 2 h OR drop_bit 6 (s ! 3), push_bit 2 (s ! 3) OR drop_bit 6 (s ! 4), push_bit 2 (s ! 4) OR drop_bit 6 (s ! 5),
     push_bit 2 (s ! 5) OR drop_bit 6 (s ! 6), push_bit 2 (s ! 6) OR drop_bit 6 (s ! 7), push_bit 2 (s ! 7) OR drop_bit 6 (s ! 8),
     push_bit 2 (s ! 8) OR drop_bit 6 (s ! 9)]"
    by (simp only: GetStreamPath_def h_def)
  have h: "bit h (r - 2) \<longleftrightarrow> bit (s ! 2) (r - 2) \<and> r - 2 < 4" unfolding h_def using byte_masks(5) [of "r - 2"] jr(2) by (auto simp: bit_and_iff)
  have "bit (be_value (GetStreamPath s)) k \<longleftrightarrow> bit (GetStreamPath s ! (6 - j)) r"
    using True by (subst be_value_bit) (simp_all add: GetStreamPath_def j_def r_def)
  also have "\<dots> \<longleftrightarrow> k < 54 \<and> sid_bit s (54 + k)"
  proof (cases "r < 2")
    case True
    have n: "54 + k = 8 * (15 - (9 - j)) + (r + 6)" using jr(1,3) by simp
    have "sid_bit s (54 + k) \<longleftrightarrow> bit (s ! (9 - j)) (r + 6)" unfolding n using True by (intro sid_bit_at) simp_all
    moreover have "bit (GetStreamPath s ! (6 - j)) r \<longleftrightarrow> bit (s ! (9 - j)) (r + 6)"
      using j8 by (cases rule: less8E) (use jr(1,2) True in \<open>simp_all add: G path_byte\<close>)
    moreover have "k < 54" using jr True by simp
    ultimately show ?thesis by simp
  next
    case False
    have n: "54 + k = 8 * (15 - (8 - j)) + (r - 2)" using jr(1,3) False by simp
    have "sid_bit s (54 + k) \<longleftrightarrow> bit (s ! (8 - j)) (r - 2)" unfolding n using jr(2) by (intro sid_bit_at) simp_all
    moreover have "bit (GetStreamPath s ! (6 - j)) r \<longleftrightarrow> k < 54 \<and> bit (s ! (8 - j)) (r - 2)"
      using j8 by (cases rule: less8E) (use jr False in \<open>auto simp: G path_byte h\<close>)
    ultimately show ?thesis by simp
  qed
  finally show ?thesis .
next
  case False
  then show ?thesis by (subst be_value_bit) (simp_all add: GetStreamPath_def)
qed

lemma GetStreamName_bit:
  assumes "length s = 16"
  shows "bit (be_value (GetStreamName s)) k \<longleftrightarrow> k < 54 \<and> sid_bit s k"
proof (cases "k < 56")
  case True
  define j r where "j = k div 8" and "r = k mod 8"
  have jr: "j < 7" "r < 8" "k = 8 * (15 - (15 - j)) + r" using True by (auto simp: j_def r_def)
  then have j8: "j < 8" by simp
  have "bit (be_value (GetStreamName s)) k \<longleftrightarrow> bit (GetStreamName s ! (6 - j)) r"
    using True by (subst be_value_bit) (simp_all add: GetStreamName_def j_def r_def)
  also have "\<dots> \<longleftrightarrow> k < 54 \<and> bit (s ! (15 - j)) r"
    using j8 by (cases rule: less8E) (use jr byte_masks(7) [OF jr(2)] in \<open>auto simp: GetStreamName_def bit_and_iff\<close>)
  also have "bit (s ! (15 - j)) r \<longleftrightarrow> sid_bit s k" unfolding jr(3) using jr(2) by (subst sid_bit_at) simp_all
  finally show ?thesis .
next
  case False
  then show ?thesis by (subst be_value_bit) (simp_all add: GetStreamName_def)
qed

lemma small_getters_bit:
  assumes "length s = 16"
  shows "bit (GetVersion s) k \<longleftrightarrow> k < 6 \<and> sid_bit s (122 + k)"
    and "bit (GetForwardingDestination s) k \<longleftrightarrow> k < 7 \<and> sid_bit s (115 + k)"
    and "bit (GetDeviceID s) k \<longleftrightarrow> k < 7 \<and> sid_bit s (108 + k)"
proof -
  have "bit (GetVersion s) k \<longleftrightarrow> k < 6 \<and> sid_bit s (122 + k)" if "k < 8"
    using that by (cases rule: less8E) (simp_all add: GetVersion_def sid_bit_def bits_simps bit_u8_ge)
  then show "bit (GetVersion s) k \<longleftrightarrow> k < 6 \<and> sid_bit s (122 + k)" using bit_u8_ge [of k] by (cases "k < 8") auto
  have "bit (GetForwardingDestination s) k \<longleftrightarrow> k < 7 \<and> sid_bit s (115 + k)" if "k < 8"
    using that by (cases rule: less8E) (simp_all add: GetForwardingDestination_def sid_bit_def bits_simps bit_u8_ge)
  then show "bit (GetForwardingDestination s) k \<longleftrightarrow> k < 7 \<and> sid_bit s (115 + k)" using bit_u8_ge [of k] by (cases "k < 8") auto
  have "bit (GetDeviceID s) k \<longleftrightarrow> k < 7 \<and> sid_bit s (108 + k)" if "k < 8"
    using that by (cases rule: less8E) (simp_all add: GetDeviceID_def sid_bit_def bits_simps bit_u8_ge)
  then show "bit (GetDeviceID s) k \<longleftrightarrow> k < 7 \<and> sid_bit s (108 + k)" using bit_u8_ge [of k] by (cases "k < 8") auto
qed

text \<open>The getters in Go read the fields that the setters in C write, also where \<open>char\<close> is signed.\<close>

interpretation go_version: sid_field_read 122 6 "set_ver_m sc" "apply_ver_mask sc" GetVersion for sc
  by unfold_locales (simp_all add: small_getters_bit)

interpretation go_destination: sid_field_read 115 7 "set_fwd_dst_m sc" "apply_fwd_dst_mask sc" GetForwardingDestination for sc
  by unfold_locales (simp_all add: small_getters_bit)

interpretation go_device: sid_field_read 108 7 "set_device_id_m sc" "apply_device_id_mask sc" GetDeviceID for sc
  by unfold_locales (simp_all add: small_getters_bit)

interpretation go_path: sid_field_read 54 54 "set_stream_path_m sc" "apply_stream_path_mask sc" "\<lambda>s. be_value (GetStreamPath s)" for sc
  by unfold_locales (simp_all add: GetStreamPath_bit)

interpretation go_name: sid_field_read 0 54 "set_stream_name_m sc" "apply_stream_name_mask sc" "\<lambda>s. be_value (GetStreamName s)" for sc
  by unfold_locales (simp_all add: GetStreamName_bit)



section \<open>Generated ids\<close>

definition own :: "cstr option \<Rightarrow> addr set" where
  "own c = fst ` set_option c"

lemma C_CString_ok:
  assumes "mem_wf m" and "\<forall>k. \<not> oom m k"
  obtains c m' where "C_CString m x = Inr (c, m')" "map_option snd c = map_option cut x" "live m' = live m \<union> own c" "own c \<inter> live m = {}"
    "mem_wf m'" "oom m' = oom m"
proof (cases x)
  case None
  then show ?thesis using that [of None m] assms by (simp add: C_CString_def own_def)
next
  case (Some y)
  let ?m = "m\<lparr>live := insert (next_addr m) (live m), next_addr := Suc (next_addr m)\<rparr>"
  have "malloc m = (Some (next_addr m), ?m)" using assms(2) by (simp add: malloc_def)
  moreover have "next_addr m \<notin> live m" "mem_wf ?m" using assms(1) by (auto simp: mem_wf_def less_Suc_eq)
  ultimately show ?thesis using that [of "Some (next_addr m, cut y)" ?m] Some by (simp add: C_CString_def own_def)
qed

lemma free_own:
  assumes "own c \<subseteq> live m" and "mem_wf m"
  obtains m' where "free_opt m c = Inr m'" "live m' = live m - own c" "mem_wf m'" "oom m' = oom m"
  using assms that by (cases c) (auto simp: free_opt_def free_def own_def mem_wf_def)

lemma GenerateStreamID_ok:
  assumes "uuid_law U" and "mem_wf m" and "\<forall>k. \<not> oom m k"
  obtains s m' where "GenerateStreamID sc U m dst dev path name = Inr (Some s, m')"
    "id_for (ucast dst) (ucast dev) (map_option cut path) (map_option cut name) s" "live m' = live m" "mem_wf m'" "oom m' = oom m"
proof -
  obtain c m1 where 1: "C_CString m path = Inr (c, m1)" "map_option snd c = map_option cut path"
    "live m1 = live m \<union> own c" "own c \<inter> live m = {}" "mem_wf m1" "oom m1 = oom m" by (rule C_CString_ok [OF assms(2,3)])
  have "\<forall>k. \<not> oom m1 k" using 1(6) assms(3) by simp
  then obtain d m2 where 2: "C_CString m1 name = Inr (d, m2)" "map_option snd d = map_option cut name"
    "live m2 = live m1 \<union> own d" "own d \<inter> live m1 = {}" "mem_wf m2" "oom m2 = oom m1" by (rule C_CString_ok [OF 1(5)])
  have "\<nexists>k. oom m2 k" using 1(6) 2(6) assms(3) by simp
  with generate_cases [OF 2(5), of "replicate 16 0" sc "ucast dst" "ucast dev" "map_option cut path" "map_option cut name"]
  obtain s m3 where 3: "jrtc_router_generate_stream_id sc m2 (Some (replicate 16 0)) (ucast dst) (ucast dev) (map_option cut path) (map_option cut name) = Inr (1, Some s, m3)"
    "id_for (ucast dst) (ucast dev) (map_option cut path) (map_option cut name) s" "live m3 = live m2" "mem_wf m3" "oom m3 = oom m2"
    by (metis length_replicate)
  have u: "newStreamID U s = Some s" using assms(1) 3(2) by (simp add: newStreamID_def uuid_law_def id_for_def)
  have "own d \<subseteq> live m3" using 3(3) 2(3) by simp
  then obtain m4 where 4: "free_opt m3 d = Inr m4" "live m4 = live m3 - own d" "mem_wf m4" "oom m4 = oom m3" by (rule free_own [OF _ 3(4)])
  have l4: "live m4 = live m1" unfolding 4(2) 3(3) 2(3) using 2(4) by blast
  then have "own c \<subseteq> live m4" using 1(3) by simp
  then obtain m5 where 5: "free_opt m4 c = Inr m5" "live m5 = live m4 - own c" "mem_wf m5" "oom m5 = oom m4" by (rule free_own [OF _ 4(3)])
  have "live m5 = live m" unfolding 5(2) l4 1(3) using 1(4) by blast
  moreover have "oom m5 = oom m" by (simp add: 5(4) 4(4) 3(5) 2(6) 1(6))
  moreover have "GenerateStreamID sc U m dst dev path name = Inr (Some s, m5)"
    by (simp add: GenerateStreamID_def 1(1,2) 2(1,2) 3(1) u 4(1) 5(1) Let_def)
  ultimately show ?thesis using that 3(2) 5(3) by blast
qed

text \<open>The key is made of the bits of the path and of the name.\<close>

lemma key_of_id:
  assumes "id_for dst dev sp sn s"
  shows "length (Format key_format s) = 16" and
    "n < 128 \<Longrightarrow> sid_bit (Format key_format s) n \<longleftrightarrow> (if n < 54 then n \<in> field_bits sn else n < 108 \<and> n - 54 \<in> field_bits sp)"
proof -
  have len: "length s = 16" using assms by (simp add: id_for_def)
  then show "length (Format key_format s) = 16" by simp
  assume n: "n < 128"
  have "\<not> cleared key_format n \<longleftrightarrow> n < 108" using n by (auto simp: cleared_def key_format_def)
  moreover have "sid_bit s n \<longleftrightarrow> (if n < 54 then n \<in> field_bits sn else n - 54 \<in> field_bits sp)" if "n < 108"
    using assms that n by (simp add: id_for_def)
  ultimately show "sid_bit (Format key_format s) n \<longleftrightarrow> (if n < 54 then n \<in> field_bits sn else n < 108 \<and> n - 54 \<in> field_bits sp)"
    using Format_bit [OF len n] by auto
qed

lemma key_eq_iff:
  assumes "id_for dst dev sp sn s" and "id_for dst' dev' sp' sn' t"
  shows "Format key_format s = Format key_format t \<longleftrightarrow> field_bits sp = field_bits sp' \<and> field_bits sn = field_bits sn'"
proof
  assume eq: "Format key_format s = Format key_format t"
  have "k \<in> field_bits sn \<longleftrightarrow> k \<in> field_bits sn'" if "k < 54" for k
    using key_of_id(2) [OF assms(1), of k] key_of_id(2) [OF assms(2), of k] eq that by simp
  moreover have "k \<in> field_bits sp \<longleftrightarrow> k \<in> field_bits sp'" if "k < 54" for k
    using key_of_id(2) [OF assms(1), of "54 + k"] key_of_id(2) [OF assms(2), of "54 + k"] eq that by simp
  ultimately show "field_bits sp = field_bits sp' \<and> field_bits sn = field_bits sn'" using field_bits_bound by blast
next
  assume "field_bits sp = field_bits sp' \<and> field_bits sn = field_bits sn'"
  then show "Format key_format s = Format key_format t"
    by (intro sid_eqI [OF key_of_id(1) [OF assms(1)] key_of_id(1) [OF assms(2)]])
      (simp add: key_of_id(2) [OF assms(1)] key_of_id(2) [OF assms(2)])
qed

lemma streamIDTransform_eq_iff:
  assumes "uuid_law U" and "length s = 16" and "length t = 16"
  shows "streamIDTransform U s = streamIDTransform U t \<longleftrightarrow> Format key_format s = Format key_format t"
proof -
  have "uuid_String U x = uuid_String U y \<longleftrightarrow> x = y" if "length x = 16" "length y = 16" for x y
    using assms(1) that by (auto simp: uuid_law_def inj_on_def)
  then show ?thesis using assms by (simp add: streamIDTransform_def StreamIDFromBytes_def uuid_law_def)
qed

text \<open>Two ids generated in Go have the same key in the decoder if and only if their paths and their names have the same bit
  patterns, in particular when the strings are equal up to the first zero byte, whatever the destinations and the devices are.
  Generating them gives back all memory.\<close>

lemma decoder_key_ignores_routing:
  assumes "uuid_law U" and "mem_wf m" and "\<forall>k. \<not> oom m k"
  shows "\<exists>s t m1 m2. GenerateStreamID sc U m dst dev path name = Inr (Some s, m1) \<and>
    GenerateStreamID sc U m1 dst' dev' path' name' = Inr (Some t, m2) \<and> live m2 = live m \<and> streamIDTransform U s \<noteq> None \<and>
    (streamIDTransform U s = streamIDTransform U t \<longleftrightarrow>
       field_bits (map_option cut path) = field_bits (map_option cut path') \<and> field_bits (map_option cut name) = field_bits (map_option cut name'))"
proof -
  obtain s m1 where 1: "GenerateStreamID sc U m dst dev path name = Inr (Some s, m1)"
    "id_for (ucast dst) (ucast dev) (map_option cut path) (map_option cut name) s" "live m1 = live m" "mem_wf m1" "oom m1 = oom m"
    by (rule GenerateStreamID_ok [OF assms])
  have "\<forall>k. \<not> oom m1 k" using 1(5) assms(3) by simp
  then obtain t m2 where 2: "GenerateStreamID sc U m1 dst' dev' path' name' = Inr (Some t, m2)"
    "id_for (ucast dst') (ucast dev') (map_option cut path') (map_option cut name') t" "live m2 = live m1" "mem_wf m2" "oom m2 = oom m1"
    by (rule GenerateStreamID_ok [OF assms(1) 1(4)])
  have len: "length s = 16" "length t = 16" using 1(2) 2(2) by (simp_all add: id_for_def)
  have "streamIDTransform U s \<noteq> None" using assms(1) len(1) by (simp add: streamIDTransform_def StreamIDFromBytes_def uuid_law_def)
  then show ?thesis using 1(1,3) 2(1,3) streamIDTransform_eq_iff [OF assms(1) len] key_eq_iff [OF 1(2) 2(2)] by auto
qed

definition sim_uuid :: uuid_lib where
  "sim_uuid = \<lparr>uuid_UnmarshalBinary = (\<lambda>b. if length b = 16 then Some b else None), uuid_String = map (\<lambda>b. char_of (unat b))\<rparr>"

lemma sim_uuid_law: "uuid_law sim_uuid"
proof -
  have "inj (\<lambda>b :: u8. char_of (unat b) :: char)"
  proof (rule injI)
    fix x y :: u8 assume "char_of (unat x) = (char_of (unat y) :: char)"
    then have "of_char (char_of (unat x) :: char) = (of_char (char_of (unat y) :: char) :: nat)" by simp
    moreover have "unat x < 256" "unat y < 256" using unsigned_less [of x] unsigned_less [of y] by simp_all
    ultimately show "x = y" by (simp add: word_unat_eq_iff)
  qed
  then show ?thesis by (auto simp: uuid_law_def sim_uuid_def inj_on_def dest: injD map_injective)
qed

lemma destination_round_trip:
  "d \<in> {DestinationAny, DestinationNone, DestinationUDP} \<Longrightarrow> DestinationFromString (Destination_String d) = Some d"
  by (auto simp: DestinationFromString_def Destination_String_def destinationFromString_def DestinationAny_def DestinationNone_def DestinationUDP_def
      JRTC_ROUTER_DEST_ANY_def JRTC_ROUTER_DEST_NONE_def JRTC_ROUTER_DEST_UDP_def)

end
