(* ===== verification/Decoder.thy ===== *)
theory Decoder
  imports Go_Stream_Id
begin

text \<open>
  The decoder of \<open>tools/jrtc-ctl\<close>: the store that keeps values in memory and writes them through to redis
  (\<open>services/cache/store.go\<close>), the handlers and the data socket of the server (\<open>services/decoder\<close>), and the lookup that precedes decoding
  (\<open>cmd/decoder/run\<close>).  Redis, JSON, SHA-1 and protobuf are parameters.  Handlers are atomic.
\<close>

section \<open>Store\<close>

datatype redis_reply = RedisErr | RedisNil | RedisVal string

text \<open>The client, with the state of the server and of the connection; the first result of the writing calls is whether there was no error.\<close>

record 'r redis =
  opts_enabled :: bool
  redis_Get :: "'r \<Rightarrow> string \<Rightarrow> redis_reply \<times> 'r"
  redis_Set :: "'r \<Rightarrow> string \<Rightarrow> string \<Rightarrow> bool \<times> 'r"
  redis_Del :: "'r \<Rightarrow> string \<Rightarrow> bool \<times> 'r"

record 'v json =
  json_Marshal :: "'v \<Rightarrow> string option"
  json_Unmarshal :: "string \<Rightarrow> 'v option"

definition store_Get ::
    "'r redis \<Rightarrow> 'v json \<Rightarrow> ('k \<Rightarrow> string option) \<Rightarrow> 'k \<Rightarrow> (string \<rightharpoonup> 'v) \<Rightarrow> 'r \<Rightarrow> (unit + 'v option) \<times> (string \<rightharpoonup> 'v) \<times> 'r" where
  "store_Get R J keyTransformer key inMemStore r =
     (case keyTransformer key of
        None \<Rightarrow> (Inl (), inMemStore, r)
      | Some queryKey \<Rightarrow>
          (case inMemStore queryKey of
             Some current \<Rightarrow> (Inr (Some current), inMemStore, r)
           | None \<Rightarrow>
               if \<not> opts_enabled R then (Inr None, inMemStore, r)
               else
                 (case redis_Get R r queryKey of
                    (RedisErr, r) \<Rightarrow> (Inl (), inMemStore, r)
                  | (RedisNil, r) \<Rightarrow> (Inr None, inMemStore, r)
                  | (RedisVal out, r) \<Rightarrow>
                      (case json_Unmarshal J out of
                         None \<Rightarrow> (Inl (), inMemStore, r)
                       | Some ret \<Rightarrow> (Inr (Some ret), inMemStore(queryKey \<mapsto> ret), r)))))"

definition store_Set ::
    "'r redis \<Rightarrow> 'v json \<Rightarrow> ('k \<Rightarrow> string option) \<Rightarrow> 'k \<Rightarrow> 'v \<Rightarrow> (string \<rightharpoonup> 'v) \<Rightarrow> 'r \<Rightarrow> bool \<times> (string \<rightharpoonup> 'v) \<times> 'r" where
  "store_Set R J keyTransformer key v inMemStore r =
     (case keyTransformer key of
        None \<Rightarrow> (False, inMemStore, r)
      | Some queryKey \<Rightarrow>
          (let inMemStore = inMemStore(queryKey \<mapsto> v) in
           if \<not> opts_enabled R then (True, inMemStore, r)
           else
             (case json_Marshal J v of
                None \<Rightarrow> (False, inMemStore, r)
              | Some b \<Rightarrow> (case redis_Set R r queryKey b of (ok, r) \<Rightarrow> (ok, inMemStore, r)))))"

definition store_Delete ::
    "'r redis \<Rightarrow> ('k \<Rightarrow> string option) \<Rightarrow> 'k \<Rightarrow> (string \<rightharpoonup> 'v) \<Rightarrow> 'r \<Rightarrow> bool \<times> (string \<rightharpoonup> 'v) \<times> 'r" where
  "store_Delete R keyTransformer key inMemStore r =
     (case keyTransformer key of
        None \<Rightarrow> (False, inMemStore, r)
      | Some queryKey \<Rightarrow>
          (let inMemStore = inMemStore(queryKey := None) in
           if \<not> opts_enabled R then (True, inMemStore, r)
           else (case redis_Del R r queryKey of (ok, r) \<Rightarrow> (ok, inMemStore, r))))"

section \<open>Server\<close>

record RecordedProtoDescriptor =
  checksum :: "u8 list"
  ProtoDescriptor :: "u8 list"

record RecordedStreamToSchema =
  ProtoMsg :: string
  ProtoPackage :: string

record RecData =
  Payload :: "u8 list"
  StreamUUID :: stream_id

record 'r Server =
  Schemas :: "string \<rightharpoonup> RecordedProtoDescriptor"
  StreamToSchema :: "string \<rightharpoonup> RecordedStreamToSchema"
  OutQ :: "RecData list"
  redis_conn :: 'r

text \<open>The libraries: the names of the files in a descriptor set, and what becomes of a payload given a descriptor and the name of a
  message (all calls of protobuf and JSON in \<open>attemptDecode\<close>).\<close>

record 'r decoder_libs =
  lib_redis :: "'r redis"
  json_descriptor :: "RecordedProtoDescriptor json"
  json_association :: "RecordedStreamToSchema json"
  lib_uuid :: uuid_lib
  sha1_Sum :: "u8 list \<Rightarrow> u8 list"
  file_names :: "u8 list \<Rightarrow> string list option"
  decode_payload :: "u8 list \<Rightarrow> string \<Rightarrow> u8 list \<Rightarrow> string option"

datatype reply = STATUS_OK string | Unknown | InvalidArgument | AlreadyExists | NotFound

definition schema_key :: "string \<Rightarrow> string option" where
  "schema_key key = Some (''schema/'' @ key)"

text \<open>\<open>filepath.Ext\<close> and \<open>strings.TrimSuffix\<close>.\<close>

definition filepath_Ext :: "string \<Rightarrow> string" where
  "filepath_Ext path =
     (let stop = (\<lambda>c. c \<noteq> CHR ''.'' \<and> c \<noteq> CHR ''/'') in
      case dropWhile stop (rev path) of
        [] \<Rightarrow> ''''
      | c # _ \<Rightarrow> if c = CHR ''.'' then c # rev (takeWhile stop (rev path)) else '''')"

definition TrimSuffix :: "string \<Rightarrow> string \<Rightarrow> string" where
  "TrimSuffix s suffix = (if drop (length s - length suffix) s = suffix then take (length s - length suffix) s else s)"

definition get_schema :: "'r decoder_libs \<Rightarrow> string \<Rightarrow> 'r Server \<Rightarrow> (unit + RecordedProtoDescriptor option) \<times> 'r Server" where
  "get_schema L pkg s =
     (case store_Get (lib_redis L) (json_descriptor L) schema_key pkg (Schemas s) (redis_conn s) of
        (x, m, r) \<Rightarrow> (x, s\<lparr>Schemas := m, redis_conn := r\<rparr>))"

definition get_association :: "'r decoder_libs \<Rightarrow> u8 list \<Rightarrow> 'r Server \<Rightarrow> (unit + RecordedStreamToSchema option) \<times> 'r Server" where
  "get_association L sid s =
     (case store_Get (lib_redis L) (json_association L) (streamIDTransform (lib_uuid L)) sid (StreamToSchema s) (redis_conn s) of
        (x, m, r) \<Rightarrow> (x, s\<lparr>StreamToSchema := m, redis_conn := r\<rparr>))"

definition set_schema :: "'r decoder_libs \<Rightarrow> string \<Rightarrow> RecordedProtoDescriptor \<Rightarrow> 'r Server \<Rightarrow> bool \<times> 'r Server" where
  "set_schema L pkg v s =
     (case store_Set (lib_redis L) (json_descriptor L) schema_key pkg v (Schemas s) (redis_conn s) of
        (ok, m, r) \<Rightarrow> (ok, s\<lparr>Schemas := m, redis_conn := r\<rparr>))"

definition set_association :: "'r decoder_libs \<Rightarrow> u8 list \<Rightarrow> RecordedStreamToSchema \<Rightarrow> 'r Server \<Rightarrow> bool \<times> 'r Server" where
  "set_association L sid v s =
     (case store_Set (lib_redis L) (json_association L) (streamIDTransform (lib_uuid L)) sid v (StreamToSchema s) (redis_conn s) of
        (ok, m, r) \<Rightarrow> (ok, s\<lparr>StreamToSchema := m, redis_conn := r\<rparr>))"

definition delete_association :: "'r decoder_libs \<Rightarrow> u8 list \<Rightarrow> 'r Server \<Rightarrow> bool \<times> 'r Server" where
  "delete_association L sid s =
     (case store_Delete (lib_redis L) (streamIDTransform (lib_uuid L)) sid (StreamToSchema s) (redis_conn s) of
        (ok, m, r) \<Rightarrow> (ok, s\<lparr>StreamToSchema := m, redis_conn := r\<rparr>))"

text \<open>The first file of the descriptor set is read before the number of files is checked.\<close>

definition UpsertProtoPackage :: "'r decoder_libs \<Rightarrow> u8 list \<Rightarrow> 'r Server \<Rightarrow> ub + (reply \<times> 'r Server)" where
  "UpsertProtoPackage L desc s =
     (case file_names L desc of
        None \<Rightarrow> Inr (Unknown, s)
      | Some [] \<Rightarrow> Inl OutOfBounds
      | Some (protoPackageFile # files) \<Rightarrow>
          (let protoPackageName = TrimSuffix protoPackageFile (filepath_Ext protoPackageFile);
               sum = sha1_Sum L desc
           in if files \<noteq> [] then Inr (InvalidArgument, s)
              else
                (case get_schema L protoPackageName s of
                   (Inl _, s) \<Rightarrow> Inr (Unknown, s)
                 | (Inr current, s) \<Rightarrow>
                     if map_option checksum current = Some sum
                     then Inr (STATUS_OK ''Proto package already exists, checksum matches'', s)
                     else
                       (case set_schema L protoPackageName \<lparr>checksum = sum, ProtoDescriptor = desc\<rparr> s of
                          (ok, s) \<Rightarrow> Inr (if ok then STATUS_OK '''' else Unknown, s)))))"

definition AddStreamToSchemaAssociation :: "'r decoder_libs \<Rightarrow> u8 list \<Rightarrow> string \<Rightarrow> string \<Rightarrow> 'r Server \<Rightarrow> reply \<times> 'r Server" where
  "AddStreamToSchemaAssociation L streamID pkg msg s =
     (case get_association L streamID s of
        (Inl _, s) \<Rightarrow> (Unknown, s)
      | (Inr (Some current), s) \<Rightarrow>
          if ProtoMsg current = msg \<and> ProtoPackage current = pkg then (STATUS_OK ''stream already has a schema association'', s)
          else (AlreadyExists, s)
      | (Inr None, s) \<Rightarrow>
          (case get_schema L pkg s of
             (Inl _, s) \<Rightarrow> (Unknown, s)
           | (Inr None, s) \<Rightarrow> (NotFound, s)
           | (Inr (Some _), s) \<Rightarrow>
               (case set_association L streamID \<lparr>ProtoMsg = msg, ProtoPackage = pkg\<rparr> s of
                  (ok, s) \<Rightarrow> (if ok then STATUS_OK '''' else Unknown, s))))"

definition DeleteStreamToSchemaAssociation :: "'r decoder_libs \<Rightarrow> u8 list \<Rightarrow> 'r Server \<Rightarrow> reply \<times> 'r Server" where
  "DeleteStreamToSchemaAssociation L streamID s =
     (case get_association L streamID s of
        (Inl _, s) \<Rightarrow> (Unknown, s)
      | (Inr None, s) \<Rightarrow> (STATUS_OK '''', s)
      | (Inr (Some _), s) \<Rightarrow> (case delete_association L streamID s of (ok, s) \<Rightarrow> (if ok then STATUS_OK '''' else Unknown, s)))"

text \<open>A datagram: short ones are skipped, and all are dropped while the queue is full.\<close>

definition receive_datagram :: "nat \<Rightarrow> u8 list \<Rightarrow> 'r Server \<Rightarrow> 'r Server" where
  "receive_datagram qSize buffer s =
     (if length buffer < 16 then s
      else if length (OutQ s) < qSize then s\<lparr>OutQ := OutQ s @ [\<lparr>Payload = drop 16 buffer, StreamUUID = take 16 buffer\<rparr>]\<rparr>
      else s)"

text \<open>The decoded message with the three fields that are added to it.\<close>

record decoded =
  message :: string
  schema_proto_msg :: string
  schema_proto_package :: string
  decoded_stream_id :: string

definition attemptDecode :: "'r decoder_libs \<Rightarrow> RecData \<Rightarrow> 'r Server \<Rightarrow> decoded option \<times> 'r Server" where
  "attemptDecode L d s =
     (case StreamIDFromBytes (lib_uuid L) (StreamUUID d) of
        None \<Rightarrow> (None, s)
      | Some streamUUID \<Rightarrow>
          (case get_association L (StreamUUID d) s of
             (Inr (Some schema), s) \<Rightarrow>
               (case get_schema L (ProtoPackage schema) s of
                  (Inr (Some sch), s) \<Rightarrow>
                    (map_option (\<lambda>res. \<lparr>message = res, schema_proto_msg = ProtoMsg schema, schema_proto_package = ProtoPackage schema,
                                        decoded_stream_id = uuid_String (lib_uuid L) streamUUID\<rparr>)
                       (decode_payload L (ProtoDescriptor sch) (ProtoMsg schema) (Payload d)), s)
                | (_, s) \<Rightarrow> (None, s))
           | (_, s) \<Rightarrow> (None, s)))"

definition handle_next :: "'r decoder_libs \<Rightarrow> 'r Server \<Rightarrow> decoded option \<times> 'r Server" where
  "handle_next L s = (case OutQ s of [] \<Rightarrow> (None, s) | d # q \<Rightarrow> attemptDecode L d (s\<lparr>OutQ := q\<rparr>))"

inductive decoder_step :: "'r decoder_libs \<Rightarrow> nat \<Rightarrow> 'r Server \<Rightarrow> 'r Server \<Rightarrow> bool" for L qSize where
  upsert: "UpsertProtoPackage L desc s = Inr (x, s') \<Longrightarrow> decoder_step L qSize s s'"
| associate: "decoder_step L qSize s (snd (AddStreamToSchemaAssociation L sid pkg msg s))"
| dissociate: "decoder_step L qSize s (snd (DeleteStreamToSchemaAssociation L sid s))"
| datagram: "decoder_step L qSize s (receive_datagram qSize buffer s)"
| handle: "decoder_step L qSize s (snd (handle_next L s))"

definition server_start :: "'r \<Rightarrow> 'r Server" where
  "server_start r = \<lparr>Schemas = Map.empty, StreamToSchema = Map.empty, OutQ = [], redis_conn = r\<rparr>"

inductive decoder_reaches :: "'r decoder_libs \<Rightarrow> nat \<Rightarrow> 'r \<Rightarrow> 'r Server \<Rightarrow> bool" for L qSize r where
  start: "decoder_reaches L qSize r (server_start r)"
| step: "decoder_reaches L qSize r s \<Longrightarrow> decoder_step L qSize s s' \<Longrightarrow> decoder_reaches L qSize r s'"

end
