(* ===== verification/Decoder_Props.thy ===== *)
theory Decoder_Props
  imports Decoder
begin

text \<open>
  Properties of the decoder: every stream that has a schema association has a schema, also when redis fails; and data of a stream
  that was loaded is decoded with the schema it was loaded with, whatever its destination and device.
\<close>

section \<open>Laws of the libraries\<close>

text \<open>What redis holds is given by a view.  A reading call fails or returns what is held; a writing call that fails may or may not
  have had its effect.\<close>

definition redis_law :: "'r redis \<Rightarrow> ('r \<Rightarrow> string \<rightharpoonup> string) \<Rightarrow> bool" where
  "redis_law R v \<longleftrightarrow>
     (\<forall>r q x r'. redis_Get R r q = (x, r') \<longrightarrow> v r' = v r \<and> (x = RedisErr \<or> x = (case v r q of None \<Rightarrow> RedisNil | Some b \<Rightarrow> RedisVal b))) \<and>
     (\<forall>r q b ok r'. redis_Set R r q b = (ok, r') \<longrightarrow> v r' = (v r)(q \<mapsto> b) \<or> (\<not> ok \<and> v r' = v r)) \<and>
     (\<forall>r q ok r'. redis_Del R r q = (ok, r') \<longrightarrow> v r' = (v r)(q := None) \<or> (\<not> ok \<and> v r' = v r))"

text \<open>JSON keeps the exported fields; the checksum is not exported and comes back as zeros.\<close>

definition json_laws :: "'r decoder_libs \<Rightarrow> bool" where
  "json_laws L \<longleftrightarrow>
     (\<forall>x b. json_Marshal (json_association L) x = Some b \<longrightarrow> json_Unmarshal (json_association L) b = Some x) \<and>
     (\<forall>x b. json_Marshal (json_descriptor L) x = Some b \<longrightarrow> json_Unmarshal (json_descriptor L) b = Some (x\<lparr>checksum := replicate 20 0\<rparr>))"

section \<open>The store\<close>

text \<open>What a store holds under a key, in memory or in redis.\<close>

definition held :: "'r redis \<Rightarrow> 'v json \<Rightarrow> ('r \<Rightarrow> string \<rightharpoonup> string) \<Rightarrow> (string \<rightharpoonup> 'v) \<Rightarrow> 'r \<Rightarrow> string \<Rightarrow> 'v set" where
  "held R J v m r q = {x. m q = Some x \<or> (opts_enabled R \<and> (\<exists>b. v r q = Some b \<and> json_Unmarshal J b = Some x))}"

lemma store_Get_held:
  assumes "redis_law R v" and "store_Get R J kt key m r = (x, m', r')"
  shows "held R J v m' r' q = held R J v m r q" and "v r' = v r"
    and "x = Inr (Some y) \<Longrightarrow> \<exists>k. kt key = Some k \<and> y \<in> held R J v m r k"
proof -
  have get: "redis_Get R r k = (y, r1) \<Longrightarrow> v r1 = v r \<and> (y = RedisErr \<or> y = (case v r k of None \<Rightarrow> RedisNil | Some b \<Rightarrow> RedisVal b))" for k y r1
    using assms(1) unfolding redis_law_def by blast
  show "held R J v m' r' q = held R J v m r q" "v r' = v r" "x = Inr (Some y) \<Longrightarrow> \<exists>k. kt key = Some k \<and> y \<in> held R J v m r k"
    using assms(2) by (auto simp: store_Get_def held_def split: option.splits if_splits prod.splits redis_reply.splits dest!: get)
qed

lemma store_Set_held:
  assumes "redis_law R v" and "store_Set R J kt key x m r = (ok, m', r')"
    and "\<And>b. json_Marshal J x = Some b \<Longrightarrow> json_Unmarshal J b = Some (f x)"
  shows "held R J v m' r' q \<subseteq> held R J v m r q \<union> {x, f x}" and "held R J v m r q \<noteq> {} \<Longrightarrow> held R J v m' r' q \<noteq> {}"
    and "kt key \<noteq> Some q \<Longrightarrow> v r' q = v r q"
proof -
  have set: "redis_Set R r k b = (ok, r1) \<Longrightarrow> v r1 = (v r)(k \<mapsto> b) \<or> v r1 = v r" for k b ok r1
    using assms(1) unfolding redis_law_def by blast
  show "held R J v m' r' q \<subseteq> held R J v m r q \<union> {x, f x}" "held R J v m r q \<noteq> {} \<Longrightarrow> held R J v m' r' q \<noteq> {}"
    "kt key \<noteq> Some q \<Longrightarrow> v r' q = v r q"
    using assms(2,3)
    by (auto simp: store_Set_def held_def Let_def split: option.splits if_splits prod.splits dest!: set)
qed

lemma store_Delete_held:
  assumes "redis_law R v" and "store_Delete R kt key m r = (ok, m', r')"
  shows "held R J v m' r' q \<subseteq> held R J v m r q" and "kt key \<noteq> Some q \<Longrightarrow> v r' q = v r q"
proof -
  have del: "redis_Del R r k = (ok, r1) \<Longrightarrow> v r1 = (v r)(k := None) \<or> v r1 = v r" for k ok r1
    using assms(1) unfolding redis_law_def by blast
  show "held R J v m' r' q \<subseteq> held R J v m r q" "kt key \<noteq> Some q \<Longrightarrow> v r' q = v r q"
    using assms(2) by (auto simp: store_Delete_def held_def Let_def split: option.splits if_splits prod.splits dest!: del)
qed

lemma held_cong: "v r' q = v r q \<Longrightarrow> held R J v m r' q = held R J v m r q"
  by (simp add: held_def)

section \<open>Associations have schemas\<close>

definition has_schema :: "'r decoder_libs \<Rightarrow> ('r \<Rightarrow> string \<rightharpoonup> string) \<Rightarrow> 'r Server \<Rightarrow> string \<Rightarrow> bool" where
  "has_schema L v s pkg \<longleftrightarrow> held (lib_redis L) (json_descriptor L) v (Schemas s) (redis_conn s) (''schema/'' @ pkg) \<noteq> {}"

definition associations :: "'r decoder_libs \<Rightarrow> ('r \<Rightarrow> string \<rightharpoonup> string) \<Rightarrow> 'r Server \<Rightarrow> RecordedStreamToSchema set" where
  "associations L v s = (\<Union>k. held (lib_redis L) (json_association L) v (StreamToSchema s) (redis_conn s) (''streamToSchema/'' @ k))"

definition consistent :: "'r decoder_libs \<Rightarrow> ('r \<Rightarrow> string \<rightharpoonup> string) \<Rightarrow> 'r Server \<Rightarrow> bool" where
  "consistent L v s \<longleftrightarrow> (\<forall>a \<in> associations L v s. has_schema L v s (ProtoPackage a))"

lemma transform_key: "streamIDTransform U sid = Some q \<Longrightarrow> \<exists>k. q = ''streamToSchema/'' @ k"
  by (auto simp: streamIDTransform_def)

lemma keys_disjoint: "streamIDTransform U sid \<noteq> Some (''schema/'' @ pkg)" "schema_key pkg \<noteq> Some (''streamToSchema/'' @ k)"
  by (auto simp: streamIDTransform_def schema_key_def)

lemma get_schema_frame:
  assumes "redis_law (lib_redis L) v" and "get_schema L pkg s = (x, s')"
  shows "associations L v s' = associations L v s" and "has_schema L v s' p = has_schema L v s p" and "x = Inr (Some d) \<Longrightarrow> has_schema L v s pkg"
proof -
  obtain m r where g: "store_Get (lib_redis L) (json_descriptor L) schema_key pkg (Schemas s) (redis_conn s) = (x, m, r)"
    and s': "s' = s\<lparr>Schemas := m, redis_conn := r\<rparr>" using assms(2) by (auto simp: get_schema_def split: prod.splits)
  note h = store_Get_held [OF assms(1) g]
  show "associations L v s' = associations L v s" using h(2) by (simp add: associations_def s' held_def)
  show "has_schema L v s' p = has_schema L v s p" by (simp add: has_schema_def s' h(1))
  show "x = Inr (Some d) \<Longrightarrow> has_schema L v s pkg" using h(3) [of d] by (auto simp: has_schema_def schema_key_def)
qed

lemma get_association_frame:
  assumes "redis_law (lib_redis L) v" and "get_association L sid s = (x, s')"
  shows "associations L v s' = associations L v s" and "has_schema L v s' p = has_schema L v s p"
proof -
  obtain m r where g: "store_Get (lib_redis L) (json_association L) (streamIDTransform (lib_uuid L)) sid (StreamToSchema s) (redis_conn s) = (x, m, r)"
    and s': "s' = s\<lparr>StreamToSchema := m, redis_conn := r\<rparr>" using assms(2) by (auto simp: get_association_def split: prod.splits)
  note h = store_Get_held [OF assms(1) g]
  show "associations L v s' = associations L v s" by (simp add: associations_def s' h(1))
  show "has_schema L v s' p = has_schema L v s p" using h(2) by (simp add: has_schema_def s' held_def)
qed

lemma set_schema_frame:
  assumes "redis_law (lib_redis L) v" and "json_laws L" and "set_schema L pkg d s = (ok, s')"
  shows "associations L v s' = associations L v s" and "has_schema L v s p \<Longrightarrow> has_schema L v s' p"
proof -
  obtain m r where g: "store_Set (lib_redis L) (json_descriptor L) schema_key pkg d (Schemas s) (redis_conn s) = (ok, m, r)"
    and s': "s' = s\<lparr>Schemas := m, redis_conn := r\<rparr>" using assms(3) by (auto simp: set_schema_def split: prod.splits)
  have j: "json_Marshal (json_descriptor L) d = Some b \<Longrightarrow> json_Unmarshal (json_descriptor L) b = Some (d\<lparr>checksum := replicate 20 0\<rparr>)" for b
    using assms(2) by (simp add: json_laws_def)
  note h = store_Set_held [OF assms(1) g, of "\<lambda>d. d\<lparr>checksum := replicate 20 0\<rparr>", OF j]
  have "v r (''streamToSchema/'' @ k) = v (redis_conn s) (''streamToSchema/'' @ k)" for k using h(3) keys_disjoint(2) by blast
  then show "associations L v s' = associations L v s" by (simp add: associations_def s' held_def)
  show "has_schema L v s p \<Longrightarrow> has_schema L v s' p" using h(2) by (simp add: has_schema_def s')
qed

lemma set_association_frame:
  assumes "redis_law (lib_redis L) v" and "json_laws L" and "set_association L sid a s = (ok, s')"
  shows "associations L v s' \<subseteq> insert a (associations L v s)" and "has_schema L v s' p = has_schema L v s p"
proof -
  obtain m r where g: "store_Set (lib_redis L) (json_association L) (streamIDTransform (lib_uuid L)) sid a (StreamToSchema s) (redis_conn s) = (ok, m, r)"
    and s': "s' = s\<lparr>StreamToSchema := m, redis_conn := r\<rparr>" using assms(3) by (auto simp: set_association_def split: prod.splits)
  have j: "json_Marshal (json_association L) a = Some b \<Longrightarrow> json_Unmarshal (json_association L) b = Some (id a)" for b
    using assms(2) by (simp add: json_laws_def)
  note h = store_Set_held [OF assms(1) g, of id, OF j]
  show "associations L v s' \<subseteq> insert a (associations L v s)" using h(1) by (fastforce simp: associations_def s')
  have "v r (''schema/'' @ p) = v (redis_conn s) (''schema/'' @ p)" using h(3) keys_disjoint(1) by blast
  then show "has_schema L v s' p = has_schema L v s p" by (simp add: has_schema_def s' held_def)
qed

lemma delete_association_frame:
  assumes "redis_law (lib_redis L) v" and "delete_association L sid s = (ok, s')"
  shows "associations L v s' \<subseteq> associations L v s" and "has_schema L v s' p = has_schema L v s p"
proof -
  obtain m r where g: "store_Delete (lib_redis L) (streamIDTransform (lib_uuid L)) sid (StreamToSchema s) (redis_conn s) = (ok, m, r)"
    and s': "s' = s\<lparr>StreamToSchema := m, redis_conn := r\<rparr>" using assms(2) by (auto simp: delete_association_def split: prod.splits)
  note h = store_Delete_held [OF assms(1) g]
  show "associations L v s' \<subseteq> associations L v s" using h(1) [of "json_association L"] by (fastforce simp: associations_def s')
  have "v r (''schema/'' @ p) = v (redis_conn s) (''schema/'' @ p)" using h(2) keys_disjoint(1) by blast
  then show "has_schema L v s' p = has_schema L v s p" by (simp add: has_schema_def s' held_def)
qed

lemmas store_frames = get_schema_frame(1,2) get_association_frame set_schema_frame set_association_frame delete_association_frame

lemma upsert_consistent:
  assumes "redis_law (lib_redis L) v" and "json_laws L" and "UpsertProtoPackage L desc s = Inr (x, s')" and "consistent L v s"
  shows "consistent L v s'"
  using assms(3,4) store_frames(1,2) [OF assms(1)] store_frames(5,6) [OF assms(1,2)]
  by (fastforce simp: UpsertProtoPackage_def Let_def consistent_def split: option.splits list.splits if_splits prod.splits sum.splits)

lemma associate_consistent:
  assumes "redis_law (lib_redis L) v" and "json_laws L" and "consistent L v s"
  shows "consistent L v (snd (AddStreamToSchemaAssociation L sid pkg msg s))"
proof -
  obtain x s1 where 1: "get_association L sid s = (x, s1)" by (cases "get_association L sid s")
  have c1: "consistent L v s1" using assms(3) get_association_frame [OF assms(1) 1] by (simp add: consistent_def)
  obtain y s2 where 2: "get_schema L pkg s1 = (y, s2)" by (cases "get_schema L pkg s1")
  note g = get_schema_frame [OF assms(1) 2]
  have c2: "consistent L v s2" using c1 g by (simp add: consistent_def)
  obtain ok s3 where 3: "set_association L sid \<lparr>ProtoMsg = msg, ProtoPackage = pkg\<rparr> s2 = (ok, s3)"
    by (cases "set_association L sid \<lparr>ProtoMsg = msg, ProtoPackage = pkg\<rparr> s2")
  have c3: "consistent L v s3" if "y = Inr (Some d)" for d
    using c2 set_association_frame [OF assms(1,2) 3] g(2,3) that unfolding consistent_def by fastforce
  show ?thesis using c1 c2 c3
    by (simp add: AddStreamToSchemaAssociation_def 1 2 3 split: sum.splits option.splits)
qed

lemma dissociate_consistent:
  assumes "redis_law (lib_redis L) v" and "consistent L v s"
  shows "consistent L v (snd (DeleteStreamToSchemaAssociation L sid s))"
proof -
  obtain x s1 where 1: "get_association L sid s = (x, s1)" by (cases "get_association L sid s")
  have c1: "consistent L v s1" using assms(2) get_association_frame [OF assms(1) 1] by (simp add: consistent_def)
  obtain ok s2 where 2: "delete_association L sid s1 = (ok, s2)" by (cases "delete_association L sid s1")
  have "consistent L v s2" using c1 delete_association_frame [OF assms(1) 2] unfolding consistent_def by blast
  with c1 show ?thesis by (simp add: DeleteStreamToSchemaAssociation_def 1 2 split: sum.splits option.splits)
qed

lemma queue_irrelevant: "consistent L v (s\<lparr>OutQ := q\<rparr>) = consistent L v s"
  by (simp add: consistent_def associations_def has_schema_def)

lemma decode_consistent:
  assumes "redis_law (lib_redis L) v" and "consistent L v s"
  shows "consistent L v (snd (attemptDecode L d s))"
proof -
  obtain x s1 where 1: "get_association L (StreamUUID d) s = (x, s1)" by (cases "get_association L (StreamUUID d) s")
  have c1: "consistent L v s1" using assms(2) get_association_frame [OF assms(1) 1] by (simp add: consistent_def)
  have "consistent L v s2" if "get_schema L pkg s1 = (y, s2)" for pkg y s2
    using c1 get_schema_frame [OF assms(1) that] by (simp add: consistent_def)
  with assms(2) c1 show ?thesis by (auto simp: attemptDecode_def 1 split: sum.splits option.splits prod.splits)
qed

lemma decoder_step_consistent:
  assumes "redis_law (lib_redis L) v" and "json_laws L" and "decoder_step L n s s'" and "consistent L v s"
  shows "consistent L v s'"
  using assms(3)
proof cases
  case (upsert desc x)
  then show ?thesis using upsert_consistent [OF assms(1,2) _ assms(4)] by blast
next
  case associate
  then show ?thesis using associate_consistent [OF assms(1,2,4)] by simp
next
  case dissociate
  then show ?thesis using dissociate_consistent [OF assms(1,4)] by simp
next
  case datagram
  then show ?thesis using assms(4) by (simp add: receive_datagram_def queue_irrelevant)
next
  case handle
  then show ?thesis using assms(4) decode_consistent [OF assms(1)]
    by (simp add: handle_next_def queue_irrelevant split: list.splits)
qed

text \<open>C16: In every state that the decoder can reach, each association that it holds, in memory or in redis, names a package whose schema
  it holds too, also when calls of redis fail, provided this was so of redis at the start.  Without redis, a stream for which an
  association is found is therefore never without a schema.\<close>

theorem decoder_stays_consistent:
  assumes "redis_law (lib_redis L) v" and "json_laws L" and "consistent L v (server_start r)" and "decoder_reaches L qSize r s"
  shows "(\<forall>a \<in> associations L v s. has_schema L v s (ProtoPackage a)) \<and>
    (\<not> opts_enabled (lib_redis L) \<longrightarrow>
       (\<forall>sid a s1. get_association L sid s = (Inr (Some a), s1) \<longrightarrow> (\<exists>d. get_schema L (ProtoPackage a) s1 = (Inr (Some d), s1))))"
proof -
  have c: "consistent L v s" using assms(4)
    by (induction rule: decoder_reaches.induct) (simp_all add: assms(3) decoder_step_consistent [OF assms(1,2)])
  have "\<exists>d. get_schema L (ProtoPackage a) s1 = (Inr (Some d), s1)"
    if off: "\<not> opts_enabled (lib_redis L)" and g: "get_association L sid s = (Inr (Some a), s1)" for sid a s1
  proof -
    obtain q where q: "streamIDTransform (lib_uuid L) sid = Some q"
      using g by (cases "streamIDTransform (lib_uuid L) sid") (simp_all add: get_association_def store_Get_def)
    have sq: "StreamToSchema s q = Some a" "s1 = s"
      using g off q by (simp_all add: get_association_def store_Get_def split: option.splits)
    from transform_key [OF q] sq obtain k where k: "StreamToSchema s (''streamToSchema/'' @ k) = Some a" "s1 = s" by blast
    then have "a \<in> associations L v s" by (auto simp: associations_def held_def)
    then have "has_schema L v s (ProtoPackage a)" using c by (simp add: consistent_def)
    then show ?thesis using off k(2) by (auto simp: has_schema_def held_def get_schema_def store_Get_def schema_key_def)
  qed
  with c show ?thesis by (auto simp: consistent_def)
qed

text \<open>A redis in memory that never fails, and JSON as the characters of the exported fields.\<close>

definition sim_redis :: "bool \<Rightarrow> (string \<rightharpoonup> string) redis" where
  "sim_redis on =
     \<lparr>opts_enabled = on, redis_Get = (\<lambda>r q. (case r q of None \<Rightarrow> RedisNil | Some b \<Rightarrow> RedisVal b, r)),
      redis_Set = (\<lambda>r q b. (True, r(q \<mapsto> b))), redis_Del = (\<lambda>r q. (True, r(q := None)))\<rparr>"

definition sim_json_association :: "RecordedStreamToSchema json" where
  "sim_json_association =
     \<lparr>json_Marshal = (\<lambda>a. Some (replicate (length (ProtoMsg a)) CHR ''x'' @ CHR '':'' # ProtoMsg a @ ProtoPackage a)),
      json_Unmarshal = (\<lambda>b. let n = length (takeWhile (\<lambda>c. c = CHR ''x'') b); t = drop (Suc n) b in Some \<lparr>ProtoMsg = take n t, ProtoPackage = drop n t\<rparr>)\<rparr>"

definition sim_json_descriptor :: "RecordedProtoDescriptor json" where
  "sim_json_descriptor =
     \<lparr>json_Marshal = (\<lambda>d. Some (map (\<lambda>b. char_of (unat b)) (ProtoDescriptor d))),
      json_Unmarshal = (\<lambda>b. Some \<lparr>checksum = replicate 20 0, ProtoDescriptor = map of_char b\<rparr>)\<rparr>"

definition sim_libs :: "bool \<Rightarrow> (string \<rightharpoonup> string) decoder_libs" where
  "sim_libs on =
     \<lparr>lib_redis = sim_redis on, json_descriptor = sim_json_descriptor, json_association = sim_json_association, lib_uuid = sim_uuid,
      sha1_Sum = (\<lambda>b. b), file_names = (\<lambda>b. if b = [] then Some [] else Some [''example.proto'']),
      decode_payload = (\<lambda>desc msg p. Some (msg @ map (\<lambda>b. char_of (unat b)) p))\<rparr>"

lemma sim_redis_law: "redis_law (lib_redis (sim_libs on)) (\<lambda>r. r)"
  by (auto simp: redis_law_def sim_libs_def sim_redis_def split: option.splits)

lemma sim_json_laws: "json_laws (sim_libs on)"
proof -
  have "takeWhile (\<lambda>c. c = CHR ''x'') (replicate n CHR ''x'' @ CHR '':'' # t) = replicate n CHR ''x''" for n t
    by (induction n) simp_all
  moreover have "(of_char (char_of (unat b) :: char) :: u8) = b" for b :: u8
  proof -
    have "unat b < 256" using unsigned_less [of b] by simp
    then have "(of_char (char_of (unat b) :: char) :: nat) = unat b" by simp
    then show ?thesis by (metis of_nat_of_char of_nat_unat ucast_id)
  qed
  ultimately show ?thesis by (auto simp: json_laws_def sim_libs_def sim_json_association_def sim_json_descriptor_def o_def)
qed

theorem decoder_stays_consistent_witness:
  "\<exists>s. decoder_reaches (sim_libs False) 1000 Map.empty s \<and> Schemas s \<noteq> Map.empty \<and>
     (\<forall>sid a s1. get_association (sim_libs False) sid s = (Inr (Some a), s1) \<longrightarrow> (\<exists>d. get_schema (sim_libs False) (ProtoPackage a) s1 = (Inr (Some d), s1)))"
proof -
  let ?L = "sim_libs False" and ?s0 = "server_start Map.empty :: (string \<rightharpoonup> string) Server"
  define s where "s = ?s0\<lparr>Schemas := [''schema/example'' \<mapsto> \<lparr>checksum = [1], ProtoDescriptor = [1]\<rparr>]\<rparr>"
  have "TrimSuffix ''example.proto'' (filepath_Ext ''example.proto'') = ''example''" by code_simp
  then have "UpsertProtoPackage ?L [1] ?s0 = Inr (STATUS_OK '''', s)"
    by (simp add: UpsertProtoPackage_def sim_libs_def sim_redis_def get_schema_def set_schema_def store_Get_def store_Set_def schema_key_def server_start_def s_def Let_def)
  then have r: "decoder_reaches ?L 1000 Map.empty s" by (blast intro: decoder_reaches.intros decoder_step.intros)
  have c: "consistent ?L (\<lambda>r. r) ?s0" by (simp add: consistent_def associations_def held_def server_start_def)
  have off: "\<not> opts_enabled (lib_redis ?L)" by (simp add: sim_libs_def sim_redis_def)
  have "Schemas s \<noteq> Map.empty" by (simp add: s_def server_start_def)
  with r off decoder_stays_consistent [OF sim_redis_law sim_json_laws c r] show ?thesis by blast
qed

section \<open>From loading to decoding\<close>

text \<open>C15: Without redis, after a package has been loaded and a stream been associated with one of its messages under an id for any
  destination and any device, as \<open>jrtc-ctl\<close> does when it loads a codelet, a datagram with an id of the same path and name, for
  whatever destination and device, is decoded with that descriptor and message, and its payload is all that follows the id.\<close>

theorem decoder_decodes_loaded:
  assumes "uuid_law (lib_uuid L)" and "\<not> opts_enabled (lib_redis L)" and "mem_wf m" and "\<forall>k. \<not> oom m k"
    and "file_names L desc = Some [file]" and "Schemas s = Map.empty" and "StreamToSchema s = Map.empty" and "OutQ s = []" and "0 < qSize"
    and "pkg = TrimSuffix file (filepath_Ext file)"
  shows "\<exists>sid m1 sid' m2 s1 s2.
    GenerateStreamID sc (lib_uuid L) m DestinationAny DeviceIDAny (Some path) (Some name) = Inr (Some sid, m1) \<and>
    GenerateStreamID sc (lib_uuid L) m1 dst dev (Some path) (Some name) = Inr (Some sid', m2) \<and>
    UpsertProtoPackage L desc s = Inr (STATUS_OK '''', s1) \<and> AddStreamToSchemaAssociation L sid pkg msg s1 = (STATUS_OK '''', s2) \<and>
    fst (handle_next L (receive_datagram qSize (sid' @ payload) s2)) =
      map_option (\<lambda>res. \<lparr>message = res, schema_proto_msg = msg, schema_proto_package = pkg, decoded_stream_id = uuid_String (lib_uuid L) sid'\<rparr>)
        (decode_payload L desc msg payload)"
proof -
  obtain sid m1 where 1: "GenerateStreamID sc (lib_uuid L) m DestinationAny DeviceIDAny (Some path) (Some name) = Inr (Some sid, m1)"
    "id_for (ucast DestinationAny) (ucast DeviceIDAny) (map_option cut (Some path)) (map_option cut (Some name)) sid" "live m1 = live m" "mem_wf m1" "oom m1 = oom m"
    by (rule GenerateStreamID_ok [OF assms(1,3,4)])
  have "\<forall>k. \<not> oom m1 k" using 1(5) assms(4) by simp
  then obtain sid' m2 where 2: "GenerateStreamID sc (lib_uuid L) m1 dst dev (Some path) (Some name) = Inr (Some sid', m2)"
    "id_for (ucast dst) (ucast dev) (map_option cut (Some path)) (map_option cut (Some name)) sid'" "live m2 = live m1" "mem_wf m2" "oom m2 = oom m1"
    by (rule GenerateStreamID_ok [OF assms(1) 1(4)])
  have len: "length sid = 16" "length sid' = 16" using 1(2) 2(2) by (simp_all add: id_for_def)
  have u: "StreamIDFromBytes (lib_uuid L) sid' = Some sid'" using assms(1) len by (simp add: StreamIDFromBytes_def uuid_law_def)
  obtain q where q: "streamIDTransform (lib_uuid L) sid' = Some q" using u by (simp add: streamIDTransform_def)
  have q': "streamIDTransform (lib_uuid L) sid = Some q"
    using streamIDTransform_eq_iff [OF assms(1) len] key_eq_iff [OF 1(2) 2(2)] q by simp
  define s1 where "s1 = s\<lparr>Schemas := [''schema/'' @ pkg \<mapsto> \<lparr>checksum = sha1_Sum L desc, ProtoDescriptor = desc\<rparr>]\<rparr>"
  define s2 where "s2 = s1\<lparr>StreamToSchema := [q \<mapsto> \<lparr>ProtoMsg = msg, ProtoPackage = pkg\<rparr>]\<rparr>"
  note defs = get_schema_def set_schema_def get_association_def set_association_def store_Get_def store_Set_def schema_key_def assms(2)
  have up: "UpsertProtoPackage L desc s = Inr (STATUS_OK '''', s1)"
    using assms(5,6,10) by (simp add: UpsertProtoPackage_def defs Let_def s1_def)
  have add: "AddStreamToSchemaAssociation L sid pkg msg s1 = (STATUS_OK '''', s2)"
    by (simp add: AddStreamToSchemaAssociation_def defs q' s2_def s1_def assms(7))
  have recv: "receive_datagram qSize (sid' @ payload) s2 = s2\<lparr>OutQ := [\<lparr>Payload = payload, StreamUUID = sid'\<rparr>]\<rparr>"
    using assms(8,9) len(2) by (simp add: receive_datagram_def s2_def s1_def)
  have "fst (handle_next L (receive_datagram qSize (sid' @ payload) s2)) =
      map_option (\<lambda>res. \<lparr>message = res, schema_proto_msg = msg, schema_proto_package = pkg, decoded_stream_id = uuid_String (lib_uuid L) sid'\<rparr>)
        (decode_payload L desc msg payload)"
    unfolding recv by (simp add: handle_next_def attemptDecode_def u defs q s2_def s1_def)
  with 1(1) 2(1) up add show ?thesis by blast
qed

theorem decoder_decodes_loaded_witness:
  "\<exists>sid m1 sid' m2 s1 s2.
    GenerateStreamID True sim_uuid \<lparr>live = {}, next_addr = 1, oom = (\<lambda>_. False)\<rparr> DestinationAny DeviceIDAny (Some ''App://jbpf_agent/set/codelet'') (Some ''ringbuf'') = Inr (Some sid, m1) \<and>
    GenerateStreamID True sim_uuid m1 DestinationUDP 1 (Some ''App://jbpf_agent/set/codelet'') (Some ''ringbuf'') = Inr (Some sid', m2) \<and>
    UpsertProtoPackage (sim_libs False) [1] (server_start Map.empty) = Inr (STATUS_OK '''', s1) \<and>
    AddStreamToSchemaAssociation (sim_libs False) sid ''example'' ''m'' s1 = (STATUS_OK '''', s2) \<and>
    map_option message (fst (handle_next (sim_libs False) (receive_datagram 1000 (sid' @ [72, 105]) s2))) = Some ''mHi''"
proof -
  let ?L = "sim_libs False" and ?m = "\<lparr>live = {}, next_addr = 1, oom = (\<lambda>_. False)\<rparr>" and ?s = "server_start Map.empty :: (string \<rightharpoonup> string) Server"
  have "TrimSuffix ''example.proto'' (filepath_Ext ''example.proto'') = ''example''" by code_simp
  then have pkg: "''example'' = TrimSuffix ''example.proto'' (filepath_Ext ''example.proto'')" by simp
  have L: "uuid_law (lib_uuid ?L)" "\<not> opts_enabled (lib_redis ?L)" "file_names ?L [1] = Some [''example.proto'']" "lib_uuid ?L = sim_uuid"
    using sim_uuid_law by (simp_all add: sim_libs_def sim_redis_def)
  have m: "mem_wf ?m" "\<forall>k. \<not> oom ?m k" by (simp_all add: mem_wf_def)
  have s: "Schemas ?s = Map.empty" "StreamToSchema ?s = Map.empty" "OutQ ?s = []" by (simp_all add: server_start_def)
  have d: "decode_payload ?L [1] ''m'' [72, 105] = Some ''mHi''" by (simp add: sim_libs_def) code_simp
  have n: "(0::nat) < 1000" by simp
  from decoder_decodes_loaded [OF L(1,2) m L(3) s n pkg, of True "''App://jbpf_agent/set/codelet''" "''ringbuf''" DestinationUDP 1 "''m''" "[72, 105]"]
  show ?thesis unfolding L(4) d by fastforce
qed

section \<open>Errors\<close>

text \<open>A descriptor set with no file makes the handler panic.\<close>

lemma empty_descriptor_panics: "file_names L desc = Some [] \<Longrightarrow> UpsertProtoPackage L desc s = Inl OutOfBounds"
  by (simp add: UpsertProtoPackage_def)

text \<open>A package that is read back from redis has lost its checksum: an unchanged package is written again.\<close>

lemma checksum_lost_in_redis:
  assumes "redis_law (lib_redis L) v" and "json_laws L" and "opts_enabled (lib_redis L)"
    and "v r (''schema/'' @ pkg) = Some b" and "json_Marshal (json_descriptor L) \<lparr>checksum = c, ProtoDescriptor = desc\<rparr> = Some b"
    and "get_schema L pkg (server_start r) = (Inr (Some d), s)"
  shows "checksum d = replicate 20 0"
proof -
  have j: "json_Unmarshal (json_descriptor L) b = Some \<lparr>checksum = replicate 20 0, ProtoDescriptor = desc\<rparr>" using assms(2,5) by (auto simp: json_laws_def)
  obtain x r' where g: "redis_Get (lib_redis L) r (''schema/'' @ pkg) = (x, r')" by (cases "redis_Get (lib_redis L) r (''schema/'' @ pkg)")
  then have "x = RedisErr \<or> x = RedisVal b" using assms(1,4) unfolding redis_law_def by fastforce
  then show ?thesis using assms(3,6) g j by (auto simp: get_schema_def store_Get_def server_start_def schema_key_def)
qed

text \<open>A different message for the same stream, or a package that is not there, is refused and changes nothing.\<close>

lemma association_refused:
  assumes "\<not> opts_enabled (lib_redis L)" and "streamIDTransform (lib_uuid L) sid = Some q"
  shows "StreamToSchema s q = Some a \<Longrightarrow> a \<noteq> \<lparr>ProtoMsg = msg, ProtoPackage = pkg\<rparr> \<Longrightarrow> AddStreamToSchemaAssociation L sid pkg msg s = (AlreadyExists, s)"
    and "StreamToSchema s q = None \<Longrightarrow> Schemas s (''schema/'' @ pkg) = None \<Longrightarrow> AddStreamToSchemaAssociation L sid pkg msg s = (NotFound, s)"
  using assms by (auto simp: AddStreamToSchemaAssociation_def get_association_def get_schema_def store_Get_def schema_key_def)

end
