(* ===== verification/Cli_Config.thy ===== *)
theory Cli_Config
  imports Prelude
begin

text \<open>
  The configurations of \<open>tools/jrtc-ctl\<close> (\<open>cmd/clicommon\<close>) after they have been parsed: that of a codelet set
  (\<open>jbpf_config.go\<close>) in full, and of a deployment (\<open>config.go\<close>) the merging and the validation.  Parsing is that of the
  YAML package, and the elements of lists are taken not to be null.  The environment and the file system are arguments.
\<close>

section \<open>Expansion of variables\<close>

text \<open>\<open>os.ExpandEnv\<close>: the name that follows a dollar sign, with the number of characters it takes.\<close>

definition isShellSpecialVar :: "char \<Rightarrow> bool" where
  "isShellSpecialVar c \<longleftrightarrow> c \<in> set ''*#$@!?-0123456789''"

definition isAlphaNum :: "char \<Rightarrow> bool" where
  "isAlphaNum c \<longleftrightarrow> c = CHR ''_'' \<or> c \<in> set ''0123456789abcdefghijklmnopqrstuvwxyzABCDEFGHIJKLMNOPQRSTUVWXYZ''"

definition getShellName :: "string \<Rightarrow> string \<times> nat" where
  "getShellName s =
     (case s of
        [] \<Rightarrow> ('''', 0)
      | c # t \<Rightarrow>
          if c = CHR ''{'' then
            (if 2 < length s \<and> isShellSpecialVar (s ! 1) \<and> s ! 2 = CHR ''}'' then ([s ! 1], 3)
             else let name = takeWhile (\<lambda>x. x \<noteq> CHR ''}'') t in
               if length name = length t then ('''', 1) else if name = [] then ('''', 2) else (name, length name + 2))
          else if isShellSpecialVar c then ([c], 1)
          else let name = takeWhile isAlphaNum s in (name, length name))"

function expand_env :: "(string \<Rightarrow> string) \<Rightarrow> string \<Rightarrow> string" where
  "expand_env mapping s =
     (case s of
        [] \<Rightarrow> []
      | c # t \<Rightarrow>
          if c = CHR ''$'' \<and> t \<noteq> [] then
            (case getShellName t of
               (name, w) \<Rightarrow> (if name = '''' then (if 0 < w then '''' else ''$'') else mapping name) @ expand_env mapping (drop w t))
          else c # expand_env mapping t)"
  by pat_completeness auto

termination
  by (relation "measure (\<lambda>(_, s). length s)") (auto simp: less_Suc_eq_le)

declare expand_env.simps [simp del]

section \<open>Codelet sets\<close>

record LinkedMapConfig =
  LinkedCodeletName :: string
  LinkedMapName :: string
  MapName :: string

record SerdeProtobufConfig =
  MessageName :: string
  PackagePath :: string

record SerdeConfig =
  FilePath :: string
  Protobuf :: "SerdeProtobufConfig option"

record IOChannelConfig =
  ForwardDestination :: string
  io_Name :: string
  Serde :: "SerdeConfig option"

record JBPFCLICodeletConfig =
  HookName :: string
  InIOChannel :: "IOChannelConfig list"
  LinkedMaps :: "LinkedMapConfig list"
  codelet_Name :: string
  CodeletPath :: string
  OutIOChannel :: "IOChannelConfig list"
  Priority :: "u32 option"
  RuntimeThreshold :: "u32 option"

record JBPFCLIConfig =
  Codelets :: "JBPFCLICodeletConfig list"
  codeletset_ID :: string

datatype stat_result = NoFile | IsDir | IsFile

definition fileExists :: "(string \<Rightarrow> stat_result) \<Rightarrow> string \<Rightarrow> bool" where
  "fileExists stat file \<longleftrightarrow> stat file = IsFile"

text \<open>Only the path of the protobuf package is replaced by its expansion; \<open>None\<close> when a file is missing.\<close>

definition expand_channel :: "(string \<Rightarrow> string) \<Rightarrow> (string \<Rightarrow> stat_result) \<Rightarrow> IOChannelConfig \<Rightarrow> IOChannelConfig option" where
  "expand_channel getenv stat m =
     (case Serde m of
        None \<Rightarrow> Some m
      | Some sd \<Rightarrow>
          if \<not> fileExists stat (expand_env getenv (FilePath sd)) then None
          else
            (case Protobuf sd of
               None \<Rightarrow> Some m
             | Some pb \<Rightarrow>
                 (let path = expand_env getenv (PackagePath pb) in
                  if fileExists stat path then Some (m\<lparr>Serde := Some (sd\<lparr>Protobuf := Some (pb\<lparr>PackagePath := path\<rparr>)\<rparr>)\<rparr>) else None)))"

primrec all_some :: "('a \<Rightarrow> 'b option) \<Rightarrow> 'a list \<Rightarrow> 'b list option" where
  "all_some f [] = Some []"
| "all_some f (x # xs) = (case f x of None \<Rightarrow> None | Some y \<Rightarrow> map_option ((#) y) (all_some f xs))"

definition expand_codelet :: "(string \<Rightarrow> string) \<Rightarrow> (string \<Rightarrow> stat_result) \<Rightarrow> JBPFCLICodeletConfig \<Rightarrow> JBPFCLICodeletConfig option" where
  "expand_codelet getenv stat c =
     (if \<not> fileExists stat (expand_env getenv (CodeletPath c)) then None
      else
        (case all_some (expand_channel getenv stat) (InIOChannel c) of
           None \<Rightarrow> None
         | Some ins \<Rightarrow>
             (case all_some (expand_channel getenv stat) (OutIOChannel c) of
                None \<Rightarrow> None
              | Some outs \<Rightarrow> Some (c\<lparr>InIOChannel := ins, OutIOChannel := outs\<rparr>))))"

definition expandEnvVars :: "(string \<Rightarrow> string) \<Rightarrow> (string \<Rightarrow> stat_result) \<Rightarrow> JBPFCLIConfig \<Rightarrow> JBPFCLIConfig option" where
  "expandEnvVars getenv stat cfg = map_option (\<lambda>cs. cfg\<lparr>Codelets := cs\<rparr>) (all_some (expand_codelet getenv stat) (Codelets cfg))"

definition defaultForwardingDestination :: string where
  "defaultForwardingDestination = ''DestinationNone''"

definition default_channel :: "IOChannelConfig \<Rightarrow> IOChannelConfig" where
  "default_channel m = (if ForwardDestination m = '''' then m\<lparr>ForwardDestination := defaultForwardingDestination\<rparr> else m)"

definition default_codelet :: "JBPFCLICodeletConfig \<Rightarrow> JBPFCLICodeletConfig" where
  "default_codelet c = c\<lparr>InIOChannel := map default_channel (InIOChannel c), OutIOChannel := map default_channel (OutIOChannel c)\<rparr>"

definition setDefaults :: "JBPFCLIConfig \<Rightarrow> JBPFCLIConfig" where
  "setDefaults cfg = cfg\<lparr>Codelets := map default_codelet (Codelets cfg)\<rparr>"

definition needs_serde :: "IOChannelConfig \<Rightarrow> bool" where
  "needs_serde m \<longleftrightarrow> ForwardDestination m \<noteq> defaultForwardingDestination \<and> Serde m = None"

text \<open>Both loops of the source run over the input channels.\<close>

definition serde_check :: "JBPFCLICodeletConfig \<Rightarrow> bool" where
  "serde_check c \<longleftrightarrow> \<not> list_ex needs_serde (InIOChannel c) \<and> \<not> list_ex needs_serde (InIOChannel c)"

primrec links_check :: "string list \<Rightarrow> JBPFCLICodeletConfig list \<Rightarrow> bool" where
  "links_check isQueued [] \<longleftrightarrow> True"
| "links_check isQueued (c # cs) \<longleftrightarrow>
     list_all (\<lambda>l. LinkedCodeletName l \<noteq> codelet_Name c \<and> LinkedCodeletName l \<in> set isQueued) (LinkedMaps c) \<and>
     links_check (codelet_Name c # isQueued) cs"

text \<open>The argument is the parsed file, if it is there and can be parsed.\<close>

definition JBPFConfigFromYaml :: "(string \<Rightarrow> string) \<Rightarrow> (string \<Rightarrow> stat_result) \<Rightarrow> JBPFCLIConfig option \<Rightarrow> JBPFCLIConfig option" where
  "JBPFConfigFromYaml getenv stat parsed =
     (case parsed of
        None \<Rightarrow> None
      | Some cfg \<Rightarrow>
          (case expandEnvVars getenv stat cfg of
             None \<Rightarrow> None
           | Some cfg \<Rightarrow>
               (let cfg = setDefaults cfg in
                if \<not> list_all serde_check (Codelets cfg) then None
                else if \<not> links_check [] (Codelets cfg) then None
                else Some cfg)))"

section \<open>Deployments\<close>

record JBPFDevice =
  device_ID :: u8
  device_IP :: string
  device_OptionalIP :: "string option"
  device_Port :: u16

record JBPFCodelet =
  ConfigFile :: string
  Device :: u8

record JBPFConfig =
  Devices :: "JBPFDevice list"
  JBPFCodelets :: "JBPFCodelet list"

text \<open>Applications and decoders are only passed on here.\<close>

record ('a, 'd) CLIConfig =
  Apps :: "'a list"
  Decoders :: "'d list"
  JBPF :: "JBPFConfig option"
  cli_Name :: string

definition jbpf_parts :: "JBPFConfig option \<Rightarrow> JBPFDevice list \<times> JBPFCodelet list" where
  "jbpf_parts j = (case j of None \<Rightarrow> ([], []) | Some c \<Rightarrow> (Devices c, JBPFCodelets c))"

definition mergeConfigs :: "('a, 'd) CLIConfig option \<Rightarrow> ('a, 'd) CLIConfig option \<Rightarrow> unit + ('a, 'd) CLIConfig option" where
  "mergeConfigs c1 c2 =
     (case c1 of
        None \<Rightarrow> Inr c2
      | Some a \<Rightarrow>
          (case c2 of
             None \<Rightarrow> Inr c1
           | Some b \<Rightarrow>
               if cli_Name a \<noteq> cli_Name b then Inl ()
               else Inr (Some
                 \<lparr>Apps = Apps a @ Apps b, Decoders = Decoders a @ Decoders b,
                  JBPF = Some \<lparr>Devices = fst (jbpf_parts (JBPF a)) @ fst (jbpf_parts (JBPF b)),
                               JBPFCodelets = snd (jbpf_parts (JBPF a)) @ snd (jbpf_parts (JBPF b))\<rparr>,
                  cli_Name = cli_Name a\<rparr>)))"

primrec mergeAll :: "('a, 'd) CLIConfig option \<Rightarrow> ('a, 'd) CLIConfig list \<Rightarrow> unit + ('a, 'd) CLIConfig option" where
  "mergeAll out [] = Inr out"
| "mergeAll out (c # cs) = bindS (mergeConfigs out (Some c)) (\<lambda>out. mergeAll out cs)"

primrec see_devices :: "u8 set \<Rightarrow> JBPFDevice list \<Rightarrow> u8 set option" where
  "see_devices seen [] = Some seen"
| "see_devices seen (d # ds) = (if device_ID d \<in> seen then None else see_devices (insert (device_ID d) seen) ds)"

definition validate :: "('a, 'd) CLIConfig \<Rightarrow> bool" where
  "validate c =
     (case JBPF c of
        None \<Rightarrow> True
      | Some j \<Rightarrow>
          (case see_devices {} (Devices j) of
             None \<Rightarrow> False
           | Some seenDevices \<Rightarrow>
               list_all (\<lambda>jc. Device jc \<in> seenDevices) (JBPFCodelets j) \<and> seenDevices - Device ` set (JBPFCodelets j) = {}))"

primrec GetHostNameFromDeviceID :: "JBPFDevice list \<Rightarrow> u8 \<Rightarrow> (string \<times> u16) option" where
  "GetHostNameFromDeviceID [] i = None"
| "GetHostNameFromDeviceID (d # ds) i = (if device_ID d = i then Some (device_IP d, device_Port d) else GetHostNameFromDeviceID ds i)"

section \<open>Lemmas\<close>

lemma expand_plain: "CHR ''$'' \<notin> set s \<Longrightarrow> expand_env mapping s = s"
proof (induction s)
  case (Cons c s)
  then have "c \<noteq> CHR ''$''" by auto
  with Cons show ?case by (subst expand_env.simps) simp
qed (subst expand_env.simps, simp)

lemma expand_examples:
  "expand_env (\<lambda>n. ''<'' @ n @ ''>'') ''a/${HOME}/$USER.so'' = ''a/<HOME>/<USER>.so''"
  "expand_env (\<lambda>n. ''<'' @ n @ ''>'') ''${}x${y$'' = ''xy$''"
  by code_simp+

lemma all_some_Some: "all_some f xs = Some ys \<longleftrightarrow> list_all2 (\<lambda>x y. f x = Some y) xs ys"
proof (induction xs arbitrary: ys)
  case (Cons x xs)
  then show ?case by (cases ys) (auto split: option.splits)
qed auto

lemma all_some_mem: "all_some f xs = Some ys \<Longrightarrow> y \<in> set ys \<Longrightarrow> \<exists>x \<in> set xs. f x = Some y"
  unfolding all_some_Some by (induction rule: list_all2_induct) auto

lemma all_some_map: "all_some f xs = Some ys \<Longrightarrow> (\<And>x y. f x = Some y \<Longrightarrow> g y = g x) \<Longrightarrow> map g ys = map g xs"
  unfolding all_some_Some by (induction rule: list_all2_induct) auto

lemma links_check_iff:
  "links_check queued cs \<longleftrightarrow>
     (\<forall>i < length cs. \<forall>l \<in> set (LinkedMaps (cs ! i)). LinkedCodeletName l \<noteq> codelet_Name (cs ! i) \<and>
        (LinkedCodeletName l \<in> set queued \<or> (\<exists>j < i. codelet_Name (cs ! j) = LinkedCodeletName l)))"
proof (induction cs arbitrary: queued)
  case (Cons c cs)
  define later where "later i n \<longleftrightarrow> (\<exists>j < i. codelet_Name (cs ! j) = n)" for i n
  have ex: "(\<exists>j < Suc i. codelet_Name ((c # cs) ! j) = n) \<longleftrightarrow> n = codelet_Name c \<or> later i n" for i n
    unfolding Ex_less_Suc2 later_def by auto
  show ?case unfolding links_check.simps Cons.IH
    by (simp add: All_less_Suc2 ex list_all_iff disj_left_commute flip: later_def)
qed simp

lemma see_devices_iff: "see_devices seen ds = Some out \<longleftrightarrow> distinct (map device_ID ds) \<and> device_ID ` set ds \<inter> seen = {} \<and> out = device_ID ` set ds \<union> seen"
  by (induction ds arbitrary: seen) auto

text \<open>Each device is used and each device that is used is there, once.\<close>

lemma validate_iff:
  "validate c \<longleftrightarrow> (\<forall>j. JBPF c = Some j \<longrightarrow> distinct (map device_ID (Devices j)) \<and> device_ID ` set (Devices j) = Device ` set (JBPFCodelets j))"
proof (cases "JBPF c")
  case (Some j)
  show ?thesis
  proof (cases "see_devices {} (Devices j)")
    case None
    then have "\<not> distinct (map device_ID (Devices j))" using see_devices_iff [of "{}" "Devices j"] by auto
    then show ?thesis using Some None by (simp add: validate_def)
  next
    case (Some out)
    then have "distinct (map device_ID (Devices j))" "out = device_ID ` set (Devices j)" using see_devices_iff [of "{}" "Devices j" out] by auto
    then show ?thesis using \<open>JBPF c = Some j\<close> Some by (auto simp: validate_def list_all_iff)
  qed
qed (simp add: validate_def)

lemma validated_device_found:
  assumes "validate c" and "JBPF c = Some j" and "jc \<in> set (JBPFCodelets j)"
  shows "\<exists>d \<in> set (Devices j). device_ID d = Device jc \<and> GetHostNameFromDeviceID (Devices j) (Device jc) = Some (device_IP d, device_Port d)"
proof -
  have "Device jc \<in> device_ID ` set (Devices j)" using assms by (auto simp: validate_iff)
  moreover have "i \<in> device_ID ` set ds \<Longrightarrow> \<exists>d \<in> set ds. device_ID d = i \<and> GetHostNameFromDeviceID ds i = Some (device_IP d, device_Port d)" for i ds
    by (induction ds) auto
  ultimately show ?thesis by blast
qed

lemma mergeAll_apps:
  "mergeAll (Some a) cs = Inr (Some c) \<Longrightarrow> Apps c = Apps a @ concat (map Apps cs) \<and> cli_Name c = cli_Name a \<and> (\<forall>b \<in> set cs. cli_Name b = cli_Name a)"
  by (induction cs arbitrary: a) (auto simp: mergeConfigs_def split: if_splits)

section \<open>Accepted codelet sets\<close>

definition package_found :: "(string \<Rightarrow> stat_result) \<Rightarrow> IOChannelConfig \<Rightarrow> bool" where
  "package_found stat m \<longleftrightarrow> (\<forall>sd pb. Serde m = Some sd \<longrightarrow> Protobuf sd = Some pb \<longrightarrow> fileExists stat (PackagePath pb))"

definition well_formed :: "(string \<Rightarrow> stat_result) \<Rightarrow> JBPFCLIConfig \<Rightarrow> bool" where
  "well_formed stat cfg \<longleftrightarrow>
     (\<forall>c \<in> set (Codelets cfg). \<forall>m \<in> set (InIOChannel c) \<union> set (OutIOChannel c). ForwardDestination m \<noteq> '''' \<and> package_found stat m) \<and>
     (\<forall>c \<in> set (Codelets cfg). \<forall>m \<in> set (InIOChannel c). \<not> needs_serde m) \<and>
     (\<forall>i < length (Codelets cfg). \<forall>l \<in> set (LinkedMaps (Codelets cfg ! i)). \<exists>j < i. codelet_Name (Codelets cfg ! j) = LinkedCodeletName l)"

definition links :: "JBPFCLIConfig \<Rightarrow> (string \<times> string) set" where
  "links cfg = {(codelet_Name c, LinkedCodeletName l) | c l. c \<in> set (Codelets cfg) \<and> l \<in> set (LinkedMaps c)}"

lemma expand_channel_found: "expand_channel getenv stat m = Some m' \<Longrightarrow> package_found stat m'"
  by (auto simp: expand_channel_def package_found_def Let_def split: option.splits if_splits)

lemma default_channel_found: "package_found stat (default_channel m) = package_found stat m" "ForwardDestination (default_channel m) \<noteq> ''''"
  by (simp_all add: default_channel_def package_found_def defaultForwardingDestination_def)

lemma expand_codelet_found:
  assumes "expand_codelet getenv stat c = Some c'"
  shows "\<forall>m \<in> set (InIOChannel c') \<union> set (OutIOChannel c'). package_found stat m" and "codelet_Name c' = codelet_Name c"
  using assms by (auto simp: expand_codelet_def split: if_splits option.splits dest!: all_some_mem dest: expand_channel_found)

lemma earlier_links_acyclic:
  assumes "distinct (map codelet_Name cs)"
    and "\<forall>i < length cs. \<forall>l \<in> set (LinkedMaps (cs ! i)). \<exists>j < i. codelet_Name (cs ! j) = LinkedCodeletName l"
  shows "acyclic {(codelet_Name c, LinkedCodeletName l) | c l. c \<in> set cs \<and> l \<in> set (LinkedMaps c)}" (is "acyclic ?R")
proof -
  define pos where "pos n = (THE i. i < length cs \<and> codelet_Name (cs ! i) = n)" for n
  have pos: "pos (codelet_Name (cs ! i)) = i" if "i < length cs" for i
    unfolding pos_def using that assms(1) by (intro the_equality) (auto simp: distinct_conv_nth)
  have "(b, a) \<in> measure pos" if "(a, b) \<in> ?R" for a b
  proof -
    from that obtain i l where il: "i < length cs" "a = codelet_Name (cs ! i)" "l \<in> set (LinkedMaps (cs ! i))" "b = LinkedCodeletName l"
      by (auto simp: in_set_conv_nth)
    with assms(2) obtain j where "j < i" "codelet_Name (cs ! j) = b" by blast
    then show ?thesis using il pos [of i] pos [of j] by auto
  qed
  then have "?R \<subseteq> (measure pos)\<inverse>" by (intro subrelI) (simp only: converse_iff)
  then show ?thesis by (meson acyclic_converse acyclic_subset wf_acyclic wf_measure)
qed

text \<open>C35: The configuration of a codelet set that is accepted is well formed: the codelets are those of the file in their order, every
  channel has a destination, the package of a channel that has one is a file, an input channel with a destination of its own
  has a serialiser, and each linked map belongs to an earlier codelet; so when the names are distinct the links have no cycle.\<close>

theorem codelet_set_well_formed:
  assumes "JBPFConfigFromYaml getenv stat (Some cfg) = Some cfg'"
  shows "well_formed stat cfg' \<and> map codelet_Name (Codelets cfg') = map codelet_Name (Codelets cfg) \<and>
    (distinct (map codelet_Name (Codelets cfg)) \<longrightarrow> acyclic (links cfg'))"
proof -
  from assms obtain cs where cs: "all_some (expand_codelet getenv stat) (Codelets cfg) = Some cs"
    "Codelets cfg' = map default_codelet cs" "list_all serde_check (Codelets cfg')" "links_check [] (Codelets cfg')"
    by (auto simp: JBPFConfigFromYaml_def expandEnvVars_def setDefaults_def Let_def split: option.splits if_splits)
  have "map codelet_Name cs = map codelet_Name (Codelets cfg)" using all_some_map [OF cs(1), of codelet_Name] expand_codelet_found(2) by blast
  then have names: "map codelet_Name (Codelets cfg') = map codelet_Name (Codelets cfg)" by (simp add: cs(2) default_codelet_def o_def)
  have "\<forall>c \<in> set cs. \<forall>m \<in> set (InIOChannel c) \<union> set (OutIOChannel c). package_found stat m"
    using all_some_mem [OF cs(1)] expand_codelet_found(1) by metis
  then have "\<forall>c \<in> set (Codelets cfg'). \<forall>m \<in> set (InIOChannel c) \<union> set (OutIOChannel c). ForwardDestination m \<noteq> '''' \<and> package_found stat m"
    by (auto simp: cs(2) default_codelet_def default_channel_found)
  moreover have "\<forall>c \<in> set (Codelets cfg'). \<forall>m \<in> set (InIOChannel c). \<not> needs_serde m" using cs(3) by (auto simp: list_all_iff serde_check_def list_ex_iff)
  moreover have earlier: "\<forall>i < length (Codelets cfg'). \<forall>l \<in> set (LinkedMaps (Codelets cfg' ! i)). \<exists>j < i. codelet_Name (Codelets cfg' ! j) = LinkedCodeletName l"
    using cs(4) by (auto simp: links_check_iff)
  moreover have "acyclic (links cfg')" if "distinct (map codelet_Name (Codelets cfg))"
    using earlier_links_acyclic [OF _ earlier] that by (simp add: names links_def)
  ultimately show ?thesis using names by (simp add: well_formed_def)
qed

definition sim_codelet :: "string \<Rightarrow> string list \<Rightarrow> IOChannelConfig list \<Rightarrow> JBPFCLICodeletConfig" where
  "sim_codelet n ls outs =
     \<lparr>HookName = ''h'', InIOChannel = [], LinkedMaps = map (\<lambda>l. \<lparr>LinkedCodeletName = l, LinkedMapName = ''m'', MapName = ''m''\<rparr>) ls,
      codelet_Name = n, CodeletPath = ''$D/c.o'', OutIOChannel = outs, Priority = None, RuntimeThreshold = None\<rparr>"

definition sim_accepts :: "JBPFCLICodeletConfig list \<Rightarrow> JBPFCLIConfig option" where
  "sim_accepts cs = JBPFConfigFromYaml (\<lambda>_. ''/d'') (\<lambda>f. if f = ''/d/c.o'' then IsFile else NoFile) (Some \<lparr>Codelets = cs, codeletset_ID = ''s''\<rparr>)"

lemma sim_path: "expand_env (\<lambda>_. ''/d'') ''$D/c.o'' = ''/d/c.o''"
  by code_simp

lemma sim_accepts_plain:
  assumes "\<forall>c \<in> set cs. InIOChannel c = [] \<and> CodeletPath c = ''$D/c.o'' \<and> (\<forall>m \<in> set (OutIOChannel c). Serde m = None \<and> ForwardDestination m \<noteq> [])"
  shows "sim_accepts cs = (if links_check [] cs then Some \<lparr>Codelets = cs, codeletset_ID = ''s''\<rparr> else None)"
proof -
  let ?st = "\<lambda>f. if f = ''/d/c.o'' then IsFile else NoFile"
  have out: "all_some (expand_channel (\<lambda>_. ''/d'') ?st) outs = Some outs" "map default_channel outs = outs"
    if "\<forall>m \<in> set outs. Serde m = None \<and> ForwardDestination m \<noteq> []" for outs
    using that by (induction outs) (auto simp: expand_channel_def default_channel_def)
  have "expand_codelet (\<lambda>_. ''/d'') ?st c = Some c" "default_codelet c = c" "serde_check c" if "c \<in> set cs" for c
    using assms that out [of "OutIOChannel c"]
    by (simp_all add: expand_codelet_def sim_path fileExists_def default_codelet_def serde_check_def)
  then have "all_some (expand_codelet (\<lambda>_. ''/d'') ?st) cs = Some cs" "map default_codelet cs = cs" "list_all serde_check cs"
    by (auto simp: all_some_Some list_all2_same list_all_iff intro: map_idI)
  then show ?thesis by (simp add: sim_accepts_def JBPFConfigFromYaml_def expandEnvVars_def setDefaults_def Let_def)
qed

theorem codelet_set_well_formed_witness:
  "\<exists>cfg'. sim_accepts [sim_codelet ''a'' [] [], sim_codelet ''b'' [''a''] []] = Some cfg' \<and> acyclic (links cfg')"
proof -
  let ?cs = "[sim_codelet ''a'' [] [], sim_codelet ''b'' [''a''] []]"
  have "links_check [] ?cs" by (simp add: sim_codelet_def)
  then have a: "sim_accepts ?cs = Some \<lparr>Codelets = ?cs, codeletset_ID = ''s''\<rparr>" by (subst sim_accepts_plain) (auto simp: sim_codelet_def)
  have "distinct (map codelet_Name ?cs)" by (simp add: sim_codelet_def)
  with codelet_set_well_formed [OF a [unfolded sim_accepts_def]] a show ?thesis by auto
qed

text \<open>An output channel that is sent out over UDP is accepted without a serialiser.\<close>

lemma out_channel_unchecked:
  "sim_accepts [sim_codelet ''a'' [] [\<lparr>ForwardDestination = ''DestinationUDP'', io_Name = ''o'', Serde = None\<rparr>]] \<noteq> None"
  by (subst sim_accepts_plain) (auto simp: sim_codelet_def)

text \<open>Names may be repeated, and then the links by name can have a cycle.\<close>

lemma repeated_names_cycle:
  "\<exists>cfg'. sim_accepts [sim_codelet ''a'' [] [], sim_codelet ''b'' [''a''] [], sim_codelet ''a'' [''b''] []] = Some cfg' \<and> \<not> acyclic (links cfg')"
proof -
  let ?cs = "[sim_codelet ''a'' [] [], sim_codelet ''b'' [''a''] [], sim_codelet ''a'' [''b''] []]"
  let ?cfg = "\<lparr>Codelets = ?cs, codeletset_ID = ''s''\<rparr>"
  have "links_check [] ?cs" by (simp add: sim_codelet_def)
  then have "sim_accepts ?cs = Some ?cfg" by (subst sim_accepts_plain) (auto simp: sim_codelet_def)
  moreover have mem: "(n, l) \<in> links ?cfg" if "sim_codelet n [l] [] \<in> set ?cs" for n l
    using that unfolding links_def
    by (intro CollectI exI [of _ "sim_codelet n [l] []"] exI [of _ "\<lparr>LinkedCodeletName = l, LinkedMapName = ''m'', MapName = ''m''\<rparr>"])
      (simp add: sim_codelet_def)
  have "(''a'', ''b'') \<in> links ?cfg" "(''b'', ''a'') \<in> links ?cfg" by (rule mem; simp)+
  then have "(''a'', ''a'') \<in> (links ?cfg)\<^sup>+" by (meson trancl.intros)
  then have "\<not> acyclic (links ?cfg)" by (auto simp: acyclic_def)
  ultimately show ?thesis by blast
qed

end
