(* ===== verification/Spec2Isabelle.thy ===== *)
theory Spec2Isabelle
  imports Router_Props Config_Props Startup_Props North_Io_Props Agent Python_Loader_Props Jrtc_App_Props Jrtc_App_Py_Props Rest_Server_Props
    Samples_Subs Codelets Simple_Agent Go_Stream_Id Decoder_Props Cli_Config
begin

text \<open>
  A verification development for the jrt-controller, which loads applications into one process and routes
  messages between them, devices and the network.  All paths below are relative to \<open>src/\<close> of the repository.

  \<^bold>\<open>The program.\<close>  \<open>controller/jrtc.c\<close> calls \<open>start_jrtc\<close> (\<open>controller/jrtc_int.c\<close>), which reads the
  configuration, starts the router and the REST server, loads the default application and waits for a signal.
  The REST server (\<open>rest_api_lib/src/lib.rs\<close>) calls \<open>load_app\<close> and \<open>unload_app\<close>; a loaded application runs in a thread of its
  own, registers with the router, asks for streams and receives messages from its queue.  The router thread
  (\<open>router/jrtc_router.c\<close>) takes the messages of the IO library, computes 16 lookup ids from the id of a message, and puts the
  message into the queue of every application that asked for one of them.  Ids are 128 bits
  (\<open>stream_id/\<close>): version, destination, device, and 54-bit hashes of a path and a name, where all ones is the wildcard.
  Applications are written in C, in C++ with a wrapper (\<open>wrapper_apis/c\<close>), or in Python, run by the Python loader
  (\<open>pythonapp_loader/\<close>) with a wrapper of their own (\<open>wrapper_apis/python\<close>).  Other processes use the agent (\<open>agent/\<close>).
  Outside \<open>src/\<close> the repository has sample applications with the codelets they talk to and an agent that runs these
  (\<open>../sample_apps\<close>), and command line tools in Go (\<open>../tools/jrtc-ctl\<close>).

  \<^bold>\<open>Conventions.\<close>  C integers are words of their width; the process heap is a value \<open>mem\<close> on which \<open>malloc\<close>, \<open>free\<close> and
  \<open>strdup\<close> act and in which any allocation may fail; undefined behaviour and abnormal termination are the left values of
  \<open>ub + 'a\<close> (\<open>Prelude\<close>).  Each function takes the state it reads and returns the state it changes, with its result as the code
  returns it.  Code outside the repository is an argument: the data structures of Concurrency Kit and the jbpf
  libraries are a record \<open>ext\<close> of operations on abstract types, and what the code relies on is the predicate \<open>ext_laws\<close>,
  stated with abstraction functions \<open>views\<close> (\<open>Router_Ext\<close>); \<open>Router_Sim\<close> implements the record with lists and proves the laws, and the
  witnesses are run on it.  The results of system calls, the events of the YAML parser, the C API of Python, the clock,
  and the code of applications are arguments too.

  \<^bold>\<open>Theories.\<close>
  \<^item> \<open>Prelude\<close>: words, heap, undefined behaviour, C strings, and the lemmas all parts share.
  \<^item> \<open>Murmur\<close> (\<open>stream_id_hash.h\<close>), \<open>Bitmap\<close> (\<open>jrtc_router_bitmap.h\<close>), \<open>Bloom\<close> (the Bloom filter and \<open>jrtc_router_get_hash\<close>):
    the hash of a name is defined, leaks nothing, and has the bits of 38 hash values; nothing added to a filter is missed.
    The interface of the bit array is the locale \<open>bit_store\<close>, interpreted on it.
  \<^item> \<open>Stream_Id\<close>, \<open>Stream_Id_Fields\<close> (\<open>jrtc_router_stream_id.h\<close>, \<open>.c\<close>, \<open>_int.c\<close>): the macros, the generation and the matching of ids.
    Each field is an interpretation of \<open>sid_field\<close> or \<open>sid_field_read\<close>: it is read back and no other bit changes; matching
    of generated ids is inclusion of the field patterns.
  \<^item> \<open>Router_Lookup\<close>: the 16 lookup ids are exactly the ids that agree with a message or have wildcards.
  \<^item> \<open>Router\<close>, \<open>Router_Reqs\<close>, \<open>Router_Apps\<close>, \<open>Router_Forward\<close>, \<open>Router_Init\<close>, \<open>Router_Channels\<close>, \<open>Router_System\<close>, \<open>Router_Props\<close>
    (\<open>router/jrtc_router.c\<close>): registering applications and requests, forwarding, receiving, channels, the thread and its
    start.  \<open>router_ok\<close> is the invariant (ids, ownership of every heap block, queues); \<open>router_spec\<close> is an abstract
    router of queues and sets of subscribers, and every operation implements a step of it.
  \<^item> \<open>Config_Types\<close>, \<open>Config\<close>, \<open>Config_Props\<close> (\<open>controller/jrtc_config.c\<close>): expansion of environment variables and the interpretation of
    the events of a YAML document.
  \<^item> \<open>Logging\<close> (\<open>logger/\<close>): levels, the filter, and the prefix of a line.
  \<^item> \<open>Sched\<close> (\<open>jrtc_sched.c\<close>), \<open>Controller\<close>, \<open>Controller_Apps\<close>, \<open>Controller_Props\<close>, \<open>Startup\<close>, \<open>Startup_Props\<close> (\<open>jrtc_int.c\<close>, \<open>jrtc.c\<close>):
    loading, running and unloading, the default application, signals, and the life of the process as a step relation
    \<open>runs\<close>; \<open>proc_inv\<close> is its invariant, and shutting down empties the table.  The table of slots is the locale \<open>slot_table\<close>.
  \<^item> \<open>North_Io\<close>, \<open>North_Io_Props\<close> (\<open>jrtc_north_io_app.c\<close>): the default application, which sends what it receives over UDP.
  \<^item> \<open>Rest_Server\<close>, \<open>Rest_Server_Props\<close> (\<open>rest_api_lib/src/lib.rs\<close>): the handlers, composed with the controller's callbacks; the list of
    the server and the table of the controller stay in step (\<open>rest_runs\<close>, \<open>in_step\<close>).
  \<^item> \<open>Agent\<close> (\<open>agent/jrtc_agent.c\<close>), \<open>Python_Loader\<close>, \<open>Python_Loader_Props\<close> (\<open>jrtc_pythonapp_loader.c\<close>): calls and references are balanced on every path.
  \<^item> \<open>Jrtc_App\<close>, \<open>Jrtc_App_Props\<close> (\<open>wrapper_apis/c/jrtc_app.cpp\<close>), \<open>Jrtc_App_Py\<close>, \<open>Jrtc_App_Py_Props\<close> (\<open>wrapper_apis/python/jrtc_app.py\<close>): initialisation,
    loop and clean-up of an application, and where the two wrappers agree and differ.  The handler of an application gets the
    object and may call the router through it.
  \<^item> \<open>Samples\<close>, \<open>Samples_Direct\<close>, \<open>Samples_Props\<close>, \<open>Samples_Direct_Props\<close>, \<open>Samples_Subs\<close> (\<open>../sample_apps\<close>): the sample applications in C, with the
    wrapper and directly against the router: what they add up and send, that they end, where the two versions agree, and
    the buffers and subscriptions that the direct ones mishandle.  Sums are 32-bit words and wrap; a failed \<open>assert\<close> aborts the process.
  \<^item> \<open>Codelets\<close>, \<open>Simple_Agent\<close> (\<open>../sample_apps/jbpf_codelets\<close>, \<open>simple_agent_ipc.c\<close>): the codelets, from the generator to the sum in
    the application, and the agent as a step relation with signals between any two steps.
  \<^item> \<open>Go_Stream_Id\<close> (\<open>../tools/jrtc-ctl/jrtcbindings\<close>): stream ids in Go.  Its getters are further interpretations of \<open>sid_field_read\<close>, and
    the key under which the decoder keeps a schema depends on path and name only.
  \<^item> \<open>Decoder\<close>, \<open>Decoder_Props\<close> (\<open>services/cache/store.go\<close>, \<open>services/decoder\<close>, \<open>cmd/decoder/run\<close> there): the write-through store, the handlers and
    the queue of the decoder as a step relation; every association has a schema (\<open>consistent\<close>), also when redis fails, and data of a loaded
    stream is decoded with its schema.
  \<^item> \<open>Cli_Config\<close> (\<open>cmd/clicommon\<close> there): accepted configurations of codelet sets are well formed; merging and validation of deployments.

  \<^bold>\<open>Fuel and bounds.\<close>  The inner loop of forwarding runs at most 128 times, so \<open>forward_fuel\<close> = 129 is enough, and this is
  proved.  The expansion of variables gets one more step than the text has dollar signs, which is enough when no value
  has one; otherwise no fuel is enough for a variable that refers to itself.  Waiting for channels takes at most
  \<open>max_waits\<close> waits, ten for every second of the time-out.  Loops that end only when a flag is set are modelled by the
  number of their iterations, which is arbitrary.  Names are shorter than \<open>2 ^ 31\<close> bytes.  The queue of an
  application is assumed to be one below a power of two in the invariant of rings (\<open>enabled\<close>), because other sizes overrun the
  ring's buffer (\<open>ring_buffer_fits\<close>).

  \<^bold>\<open>What goes wrong.\<close>  Where the code does not do what it means to, the behaviour is stated as a theorem or a lemma, and the theorems
  about the rest have the corresponding hypothesis: among others, the double free of a failed \<open>load_app\<close>, the id of an
  unload request that is not checked, subscriptions that survive their application, channels whose key is a
  dangling pointer, the affinity mask that has no effect, and the inactivity time-out of the Python wrapper.

  \<^bold>\<open>Not modelled.\<close>  Weak memory and preemption inside an operation: operations are atomic steps, in any order, and the lock and epoch calls
  that the code makes are recorded in the state.  Printing and logging of messages, apart from the format of a log line.
  The HTTP server, JSON and the async runtime behind the REST handlers, the bindings that \<open>ctypes\<close> makes for Python, the IO
  library and its shared memory: all third-party code.  Of the tools in Go (\<open>../tools\<close>) the
  commands, options, clients and sockets are not modelled: they are calls of third-party packages and generated code; nor are the
  defaults of deployments and the concurrency of the handlers.  The samples in Python do with one wrapper what
  those in C do with the other.  The tests only call what is modelled here.
\<close>

end
